(* ===== verification/Prelude.thy ===== *)
theory Prelude
  imports Main "HOL-Library.Multiset" "HOL-Library.Sublist" "HOL-Library.Word" "HOL-Library.Char_ord"
begin

text \<open>
  What every component of the model shares: Go's error values, Go's strings (a
  \<open>string\<close> of HOL is a list of bytes, as a Go string is), the functions of the
  Go packages \<open>strconv\<close> and \<open>strings\<close> that the repository calls, and the fact
  collections that the component theories fill.

  Effects. A call that leaves the repository (a system call, an RPC, the Firecracker
  SDK) is a function from the state of the world outside, of a type \<open>'w\<close> that stays a
  parameter, to a result and the next state of that world. An operation that can fail
  returns \<open>gerr + 'a\<close>, or \<open>gerr option\<close> where Go returns just an error.
\<close>

named_theorems path_simps \<open>evaluation of the file path functions\<close>
named_theorems op_defs \<open>unfolding of the operations of the components\<close>
named_theorems inv_intros \<open>preservation of component invariants\<close>

section \<open>Errors\<close>

datatype errno = EEXIST | ENOENT | EINVAL | EADDRINUSE | ENOTDIR | OtherErrno int

datatype grpc_code = AlreadyExists | DeadlineExceeded | Internal | OtherCode int

text \<open>
  \<open>Errorf\<close> is \<open>fmt.Errorf\<close>, \<open>errors.Errorf\<close> and \<open>errors.New\<close> (format and string
  arguments), \<open>Wrap\<close> is \<open>errors.Wrap\<close> and \<open>errors.Wrapf\<close>, \<open>MultiError\<close> is
  \<open>*multierror.Error\<close>, \<open>StatusError\<close> a gRPC status. \<open>Errno\<close> is a bare
  \<open>syscall.Errno\<close>, \<open>PathError\<close> one in an \<open>*os.PathError\<close> or \<open>*os.LinkError\<close>,
  \<open>NetError\<close> a \<open>net.Error\<close> with what its \<open>Temporary\<close> method says. \<open>ExtError\<close> is any
  other error from outside. \<open>Panic\<close> stands for a Go panic of the method.
\<close>

datatype gerr =
    Errorf string "string list"
  | Wrap gerr string "string list"
  | MultiError "gerr list"
  | StatusError grpc_code string
  | Errno errno
  | PathError string errno
  | NetError bool string
  | ContextCanceled
  | ContextDeadlineExceeded
  | EOF
  | ExtError string
  | VsockConnectMsgError gerr
  | VsockAckError gerr
  | InvalidLogLevel string
  | NotImplemented
  | Panic string

text \<open>\<open>errors.Cause\<close>: what \<open>Wrap\<close> wraps, all the way down.\<close>

fun cause :: "gerr \<Rightarrow> gerr" where
  "cause (Wrap e _ _) = cause e"
| "cause e = e"

text \<open>\<open>os.IsNotExist\<close> and \<open>os.IsExist\<close>; neither looks into a wrapped error.\<close>

fun os_IsNotExist :: "gerr \<Rightarrow> bool" where
  "os_IsNotExist (Errno e) = (e = ENOENT)"
| "os_IsNotExist (PathError _ e) = (e = ENOENT)"
| "os_IsNotExist _ = False"

fun os_IsExist :: "gerr \<Rightarrow> bool" where
  "os_IsExist (Errno e) = (e = EEXIST)"
| "os_IsExist (PathError _ e) = (e = EEXIST)"
| "os_IsExist _ = False"

text \<open>
  \<open>multierror.Append\<close> skips nil errors and flattens an argument that is itself a
  multierror; \<open>ErrorOrNil\<close> is nil exactly when nothing was collected.
\<close>

type_synonym multierr = "gerr list"

fun multi_flatten :: "gerr \<Rightarrow> gerr list" where
  "multi_flatten (MultiError es) = es"
| "multi_flatten e = [e]"

definition multi_append :: "multierr \<Rightarrow> gerr option \<Rightarrow> multierr" where
  "multi_append m r = (case r of None \<Rightarrow> m | Some e \<Rightarrow> m @ multi_flatten e)"

definition multi_error_or_nil :: "multierr \<Rightarrow> gerr option" where
  "multi_error_or_nil m = (if m = [] then None else Some (MultiError m))"

lemma multi_append_None [simp]: "multi_append m None = m"
  by (simp add: multi_append_def)

lemma multi_error_or_nil_None [simp]: "multi_error_or_nil m = None \<longleftrightarrow> m = []"
  by (simp add: multi_error_or_nil_def)

text \<open>The error of a group of goroutines (\<open>errgroup\<close>): the first one that is not nil among what they return, in order.\<close>

fun first_error :: "gerr option list \<Rightarrow> gerr option" where
  "first_error [] = None"
| "first_error (None # rs) = first_error rs"
| "first_error (Some err # rs) = Some err"

lemma first_error_mem: "first_error rs = Some err \<Longrightarrow> Some err \<in> set rs"
  by (induction rs rule: first_error.induct) simp_all

section \<open>Options and sums\<close>

fun result_of :: "gerr option \<Rightarrow> 'a \<Rightarrow> gerr + 'a" where
  "result_of None x = Inr x"
| "result_of (Some e) x = Inl e"

definition isOk :: "gerr + 'a \<Rightarrow> bool" where
  "isOk r = (case r of Inl _ \<Rightarrow> False | Inr _ \<Rightarrow> True)"

lemma isOk_simps [simp]: "isOk (Inr x)" "\<not> isOk (Inl e)"
  by (simp_all add: isOk_def)

lemma isOk_iff: "isOk r \<longleftrightarrow> (\<exists>x. r = Inr x)"
  by (cases r) simp_all

section \<open>Decimal numbers\<close>

definition digit_char :: "nat \<Rightarrow> char" where
  "digit_char d = char_of (48 + d)"

definition char_digit :: "char \<Rightarrow> nat" where
  "char_digit c = of_char c - 48"

definition is_digit :: "char \<Rightarrow> bool" where
  "is_digit c \<longleftrightarrow> 48 \<le> (of_char c :: nat) \<and> (of_char c :: nat) \<le> 57"

fun utoa :: "nat \<Rightarrow> string" where
  "utoa n = (if n < 10 then [digit_char n] else utoa (n div 10) @ [digit_char (n mod 10)])"

declare utoa.simps [simp del]

text \<open>\<open>strconv.Itoa\<close>, and \<open>%d\<close> of \<open>fmt\<close>.\<close>

definition itoa :: "int \<Rightarrow> string" where
  "itoa i = (if i < 0 then CHR ''-'' # utoa (nat (- i)) else utoa (nat i))"

definition atou :: "string \<Rightarrow> nat" where
  "atou s = foldl (\<lambda>n c. 10 * n + char_digit c) 0 s"

lemma of_char_digit_char [simp]: "d < 10 \<Longrightarrow> (of_char (digit_char d) :: nat) = 48 + d"
  by (simp add: digit_char_def)

lemma char_digit_digit_char [simp]: "d < 10 \<Longrightarrow> char_digit (digit_char d) = d"
  by (simp add: char_digit_def)

lemma is_digit_digit_char [simp]: "d < 10 \<Longrightarrow> is_digit (digit_char d)"
  by (simp add: is_digit_def)

lemma utoa_nonempty [simp]: "utoa n \<noteq> []"
  by (subst utoa.simps) simp

lemma utoa_digits: "c \<in> set (utoa n) \<Longrightarrow> is_digit c"
proof (induction n rule: utoa.induct)
  case (1 n)
  then show ?case
    by (subst (asm) (2) utoa.simps) (auto split: if_splits)
qed

lemma atou_utoa [simp]: "atou (utoa n) = n"
proof (induction n rule: utoa.induct)
  case (1 n)
  show ?case
  proof (cases "n < 10")
    case True
    then show ?thesis by (subst utoa.simps) (simp add: atou_def)
  next
    case False
    then have "atou (utoa n) = 10 * atou (utoa (n div 10)) + n mod 10"
      by (subst utoa.simps) (simp add: atou_def)
    with 1 False show ?thesis by simp
  qed
qed

lemma utoa_inject [simp]: "utoa m = utoa n \<longleftrightarrow> m = n"
  by (metis atou_utoa)

lemma not_digit_in_utoa [simp]: "\<not> is_digit c \<Longrightarrow> c \<notin> set (utoa n)"
  using utoa_digits by blast

section \<open>The package strings\<close>

fun strings_Split :: "char \<Rightarrow> string \<Rightarrow> string list" where
  "strings_Split sep [] = [[]]"
| "strings_Split sep (c # cs) =
     (if c = sep then [] # strings_Split sep cs
      else (case strings_Split sep cs of [] \<Rightarrow> [[c]] | w # ws \<Rightarrow> (c # w) # ws))"

fun strings_Join :: "char \<Rightarrow> string list \<Rightarrow> string" where
  "strings_Join sep [] = []"
| "strings_Join sep [w] = w"
| "strings_Join sep (w # v # ws) = w @ sep # strings_Join sep (v # ws)"

definition strings_HasPrefix :: "string \<Rightarrow> string \<Rightarrow> bool" where
  "strings_HasPrefix s p \<longleftrightarrow> take (length p) s = p"

lemma strings_HasPrefix_iff: "strings_HasPrefix s p \<longleftrightarrow> prefix p s"
  by (metis append_take_drop_id prefix_def strings_HasPrefix_def append_eq_conv_conj)

text \<open>\<open>strings.Contains\<close>.\<close>

definition strings_Contains :: "string \<Rightarrow> string \<Rightarrow> bool" where
  "strings_Contains s t \<longleftrightarrow> sublist t s"

lemma strings_Split_nonempty [simp]: "strings_Split sep s \<noteq> []"
  by (cases s) (auto split: list.splits)

lemma strings_Join_Split [simp]: "strings_Join sep (strings_Split sep s) = s"
proof (induction s)
  case Nil
  then show ?case by simp
next
  case (Cons c cs)
  then show ?case
    by (cases "strings_Split sep cs"; cases "tl (strings_Split sep cs)") (auto split: list.splits)
qed

lemma strings_Split_no_sep: "w \<in> set (strings_Split sep s) \<Longrightarrow> sep \<notin> set w"
proof (induction s arbitrary: w)
  case Nil
  then show ?case by simp
next
  case (Cons c cs)
  then show ?case
    by (cases "strings_Split sep cs") (auto split: if_splits)
qed

lemma strings_Split_word: "sep \<notin> set w \<Longrightarrow> strings_Split sep w = [w]"
  by (induction w) auto

lemma strings_Split_append_sep:
  "sep \<notin> set w \<Longrightarrow> strings_Split sep (w @ sep # s) = w # strings_Split sep s"
  by (induction w) auto

lemma strings_Split_Join:
  "ws \<noteq> [] \<Longrightarrow> \<forall>w \<in> set ws. sep \<notin> set w \<Longrightarrow> strings_Split sep (strings_Join sep ws) = ws"
proof (induction sep ws rule: strings_Join.induct)
  case (3 sep w v ws)
  then show ?case by (simp add: strings_Split_append_sep)
qed (simp_all add: strings_Split_word)

lemma strings_Join_Cons:
  "strings_Join sep (w # ws) = w @ (if ws = [] then [] else sep # strings_Join sep ws)"
  by (cases ws) simp_all

lemma strings_Join_append:
  "strings_Join sep (vs @ ws) =
     (if vs = [] then strings_Join sep ws else if ws = [] then strings_Join sep vs
      else strings_Join sep vs @ sep # strings_Join sep ws)"
  by (induction vs) (auto simp: strings_Join_Cons)

lemma strings_Split_append:
  "strings_Split sep (s @ sep # t) = strings_Split sep s @ strings_Split sep t"
  by (induction s) (auto split: list.splits)

text \<open>
  \<open>strings.TrimSpace\<close> cuts off leading and trailing white space as Unicode defines it:
  the ASCII spaces and the UTF-8 encodings of the others.
\<close>

definition space_seqs :: "string list" where
  "space_seqs =
     map (\<lambda>c::nat. [char_of c]) [9, 10, 11, 12, 13, 32]
   @ map (\<lambda>c::nat. [char_of (0xC2::nat), char_of c]) [0x85, 0xA0]
   @ [[char_of (0xE1::nat), char_of (0x9A::nat), char_of (0x80::nat)]]
   @ map (\<lambda>c::nat. [char_of (0xE2::nat), char_of (0x80::nat), char_of c])
       [0x80, 0x81, 0x82, 0x83, 0x84, 0x85, 0x86, 0x87, 0x88, 0x89, 0x8A, 0xA8, 0xA9, 0xAF]
   @ [[char_of (0xE2::nat), char_of (0x81::nat), char_of (0x9F::nat)],
      [char_of (0xE3::nat), char_of (0x80::nat), char_of (0x80::nat)]]"

fun drop_seq :: "string list \<Rightarrow> string \<Rightarrow> string option" where
  "drop_seq [] s = None"
| "drop_seq (q # qs) s =
     (if q \<noteq> [] \<and> take (length q) s = q then Some (drop (length q) s) else drop_seq qs s)"

lemma drop_seq_shorter: "drop_seq qs s = Some t \<Longrightarrow> length t < length s"
proof (induction qs)
  case (Cons q qs)
  show ?case
  proof (cases "q \<noteq> [] \<and> take (length q) s = q")
    case True
    then have "s \<noteq> []" by (metis take_Nil)
    with True Cons.prems show ?thesis by auto
  next
    case False
    with Cons show ?thesis by simp
  qed
qed simp

function trim_left :: "string list \<Rightarrow> string \<Rightarrow> string" where
  "trim_left qs s = (case drop_seq qs s of None \<Rightarrow> s | Some t \<Rightarrow> trim_left qs t)"
  by pat_completeness auto
termination
  by (relation "measure (\<lambda>(qs, s). length s)") (auto dest: drop_seq_shorter)

declare trim_left.simps [simp del]

definition strings_TrimSpace :: "string \<Rightarrow> string" where
  "strings_TrimSpace s =
     rev (trim_left (map rev space_seqs) (rev (trim_left space_seqs s)))"

lemma trim_left_None: "drop_seq qs s = None \<Longrightarrow> trim_left qs s = s"
  by (subst trim_left.simps) simp

lemma trim_left_Some: "drop_seq qs s = Some t \<Longrightarrow> trim_left qs s = trim_left qs t"
  by (subst trim_left.simps) simp

definition graphic :: "char \<Rightarrow> bool" where
  "graphic c \<longleftrightarrow> 33 \<le> (of_char c :: nat) \<and> (of_char c :: nat) \<le> 126"

lemma drop_seq_graphic:
  assumes "\<forall>q \<in> set qs. q \<noteq> [] \<and> \<not> graphic (hd q)" "graphic c"
  shows "drop_seq qs (c # s) = None"
  using assms
proof (induction qs)
  case (Cons q qs)
  then obtain d ds where "q = d # ds" "\<not> graphic d" by (cases q) auto
  with Cons show ?case by auto
qed simp

lemma space_seqs_not_graphic:
  "\<forall>q \<in> set space_seqs. q \<noteq> [] \<and> \<not> graphic (hd q)"
  "\<forall>q \<in> set (map rev space_seqs). q \<noteq> [] \<and> \<not> graphic (hd q)"
  by (auto simp: space_seqs_def graphic_def)

text \<open>A string that begins and ends with a visible ASCII character is not trimmed.\<close>

lemma TrimSpace_graphic:
  assumes "s \<noteq> []" "graphic (hd s)" "graphic (last s)"
  shows "strings_TrimSpace s = s"
proof -
  from assms have "drop_seq space_seqs s = None"
    by (cases s) (simp_all add: drop_seq_graphic[OF space_seqs_not_graphic(1)])
  moreover from assms have "drop_seq (map rev space_seqs) (rev s) = None"
    by (cases s rule: rev_cases) (simp_all add: drop_seq_graphic[OF space_seqs_not_graphic(2)])
  ultimately show ?thesis by (simp add: strings_TrimSpace_def trim_left_None)
qed

section \<open>Lists\<close>

lemma split_at_sep_unique:
  assumes "x \<notin> set u" "x \<notin> set v" "u @ x # s = v @ x # t"
  shows "u = v \<and> s = t"
  using assms
proof (induction u arbitrary: v)
  case Nil
  then show ?case by (cases v) auto
next
  case (Cons a u)
  then show ?case by (cases v) auto
qed

lemma mset_Cons_snoc_swap: "mset (xs @ [y]) = add_mset y (mset xs)"
  by simp

end
