(* ===== verification/CpuSet.thy ===== *)
theory CpuSet
  imports Prelude
begin

text \<open>
  \<open>runtime/cpuset/cpuset_builder.go\<close>: the builder of the cpuset strings that a client
  puts into the jailer configuration. The reference is the "List Format" of
  \<open>cpuset(7)\<close>, which the code names: comma-separated numbers and ranges. \<open>parse_list\<close> is
  a parser for it, \<open>denotes\<close> the set of numbers it stands for; the theorems say that
  the strings the builder makes parse back to what was added.
  Go's \<open>int\<close> values are only stored and printed, so they are \<open>int\<close>.
\<close>

section \<open>The builder\<close>

record cpu_range =
  range_min :: int
  range_max :: int

record Builder =
  cpus :: "int list"
  cpuRanges :: "cpu_range list"
  mems :: "int list"
  memRanges :: "cpu_range list"

record CPUSet =
  set_cpus :: string
  set_mems :: string

definition range_String :: "cpu_range \<Rightarrow> string" where
  "range_String r = itoa (range_min r) @ ''-'' @ itoa (range_max r)"

definition CPUs :: "CPUSet \<Rightarrow> string" where
  "CPUs c = set_cpus c"

definition Mems :: "CPUSet \<Rightarrow> string" where
  "Mems c = set_mems c"

definition AddCPU :: "Builder \<Rightarrow> int \<Rightarrow> Builder" where
  "AddCPU b cpu = b\<lparr>cpus := cpus b @ [cpu]\<rparr>"

definition AddCPURange :: "Builder \<Rightarrow> int \<Rightarrow> int \<Rightarrow> Builder" where
  "AddCPURange b mn mx = b\<lparr>cpuRanges := cpuRanges b @ [\<lparr>range_min = mn, range_max = mx\<rparr>]\<rparr>"

definition AddMem :: "Builder \<Rightarrow> int \<Rightarrow> Builder" where
  "AddMem b mem = b\<lparr>mems := mems b @ [mem]\<rparr>"

definition AddMemRange :: "Builder \<Rightarrow> int \<Rightarrow> int \<Rightarrow> Builder" where
  "AddMemRange b mn mx = b\<lparr>memRanges := memRanges b @ [\<lparr>range_min = mn, range_max = mx\<rparr>]\<rparr>"

definition stringify :: "int list \<Rightarrow> cpu_range list \<Rightarrow> string" where
  "stringify elems ranges = strings_Join (CHR '','') (map itoa elems @ map range_String ranges)"

definition Build :: "Builder \<Rightarrow> CPUSet" where
  "Build b = \<lparr>set_cpus = stringify (cpus b) (cpuRanges b), set_mems = stringify (mems b) (memRanges b)\<rparr>"

section \<open>The list format of cpuset(7)\<close>

definition parse_num :: "string \<Rightarrow> nat option" where
  "parse_num w = (if w \<noteq> [] \<and> list_all is_digit w then Some (atou w) else None)"

definition parse_item :: "string \<Rightarrow> (nat \<times> nat) option" where
  "parse_item w =
     (case strings_Split (CHR ''-'') w of
        [a] \<Rightarrow> map_option (\<lambda>n. (n, n)) (parse_num a)
      | [a, b] \<Rightarrow> Option.bind (parse_num a) (\<lambda>m. map_option (\<lambda>n. (m, n)) (parse_num b))
      | _ \<Rightarrow> None)"

definition parse_list :: "string \<Rightarrow> (nat \<times> nat) list option" where
  "parse_list s =
     (if s = [] then Some [] else those (map parse_item (strings_Split (CHR '','') s)))"

definition denotes :: "string \<Rightarrow> nat set option" where
  "denotes s = map_option (\<lambda>rs. \<Union>(m, n) \<in> set rs. {m..n}) (parse_list s)"

text \<open>What a builder stands for: the numbers added, and those of the ranges added.\<close>

definition nonneg_range :: "cpu_range \<Rightarrow> bool" where
  "nonneg_range r \<longleftrightarrow> 0 \<le> range_min r \<and> 0 \<le> range_max r"

definition wf_spec :: "int list \<Rightarrow> cpu_range list \<Rightarrow> bool" where
  "wf_spec elems ranges \<longleftrightarrow> list_all (\<lambda>e. 0 \<le> e) elems \<and> list_all nonneg_range ranges"

definition members :: "int list \<Rightarrow> cpu_range list \<Rightarrow> nat set" where
  "members elems ranges =
     nat ` set elems \<union> (\<Union>r \<in> set ranges. {nat (range_min r)..nat (range_max r)})"

section \<open>Facts\<close>

lemma not_digit_sep [simp]: "\<not> is_digit (CHR ''-'')" "\<not> is_digit (CHR '','')"
  by (simp_all add: is_digit_def)

lemma parse_num_utoa [simp]: "parse_num (utoa n) = Some n"
  by (simp add: parse_num_def list_all_iff utoa_digits)

lemma itoa_nonneg: "0 \<le> i \<Longrightarrow> itoa i = utoa (nat i)"
  by (simp add: itoa_def)

lemma parse_item_itoa: "0 \<le> i \<Longrightarrow> parse_item (itoa i) = Some (nat i, nat i)"
  by (simp add: parse_item_def itoa_nonneg strings_Split_word)

lemma parse_item_range:
  "nonneg_range r \<Longrightarrow> parse_item (range_String r) = Some (nat (range_min r), nat (range_max r))"
  by (simp add: parse_item_def range_String_def nonneg_range_def itoa_nonneg
        strings_Split_append_sep strings_Split_word)

lemma no_comma_itoa: "CHR '','' \<notin> set (itoa i)"
  by (simp add: itoa_def)

lemma no_comma_range: "CHR '','' \<notin> set (range_String r)"
  by (simp add: range_String_def no_comma_itoa)

lemma itoa_nonempty: "itoa i \<noteq> []"
  by (simp add: itoa_def)

lemma strings_Join_nonempty: "ws \<noteq> [] \<Longrightarrow> \<forall>w \<in> set ws. w \<noteq> [] \<Longrightarrow> strings_Join sep ws \<noteq> []"
  by (cases ws) (auto simp: strings_Join_Cons)

lemma those_map_Some: "\<forall>x \<in> set xs. f x = Some (g x) \<Longrightarrow> those (map f xs) = Some (map g xs)"
  by (induction xs) simp_all

lemma those_append:
  "those xs = Some as \<Longrightarrow> those ys = Some bs \<Longrightarrow> those (xs @ ys) = Some (as @ bs)"
  by (induction xs arbitrary: as) (auto split: option.splits)

lemma parse_items:
  assumes "wf_spec elems ranges"
  shows "those (map parse_item (map itoa elems @ map range_String ranges)) =
     Some (map (\<lambda>e. (nat e, nat e)) elems @
           map (\<lambda>r. (nat (range_min r), nat (range_max r))) ranges)"
proof -
  have "those (map (\<lambda>e. parse_item (itoa e)) elems) = Some (map (\<lambda>e. (nat e, nat e)) elems)"
    using assms by (intro those_map_Some) (auto simp: wf_spec_def list_all_iff parse_item_itoa)
  moreover have "those (map (\<lambda>r. parse_item (range_String r)) ranges) =
      Some (map (\<lambda>r. (nat (range_min r), nat (range_max r))) ranges)"
    using assms by (intro those_map_Some) (auto simp: wf_spec_def list_all_iff parse_item_range)
  ultimately show ?thesis by (simp add: those_append comp_def)
qed

lemma parse_list_stringify:
  assumes "wf_spec elems ranges"
  shows "parse_list (stringify elems ranges) =
     Some (map (\<lambda>e. (nat e, nat e)) elems @
           map (\<lambda>r. (nat (range_min r), nat (range_max r))) ranges)"
proof (cases "elems = [] \<and> ranges = []")
  case True
  then show ?thesis by (simp add: parse_list_def stringify_def)
next
  case False
  let ?ws = "map itoa elems @ map range_String ranges"
  have "\<forall>w \<in> set ?ws. CHR '','' \<notin> set w" by (auto simp: no_comma_itoa no_comma_range)
  moreover have "?ws \<noteq> []" using False by auto
  ultimately have "strings_Split (CHR '','') (stringify elems ranges) = ?ws"
    unfolding stringify_def by (rule strings_Split_Join[rotated])
  moreover have "stringify elems ranges \<noteq> []"
    unfolding stringify_def using False
    by (intro strings_Join_nonempty) (auto simp: itoa_nonempty itoa_nonempty[symmetric] range_String_def)
  ultimately show ?thesis
    using parse_items[OF assms] by (simp only: parse_list_def if_False)
qed

lemma denotes_stringify: "wf_spec elems ranges \<Longrightarrow> denotes (stringify elems ranges) = Some (members elems ranges)"
  by (auto simp: denotes_def parse_list_stringify members_def)

section \<open>Properties\<close>

text \<open>
  For non-negative CPU and memory node numbers, the two strings that \<open>Build\<close> makes are
  well-formed lists of \<open>cpuset(7)\<close> and denote exactly the numbers and ranges that were
  added to the builder.
\<close>

theorem Build_denotes:
  assumes "wf_spec (cpus b) (cpuRanges b)" "wf_spec (mems b) (memRanges b)"
  shows "denotes (CPUs (Build b)) = Some (members (cpus b) (cpuRanges b)) \<and>
         denotes (Mems (Build b)) = Some (members (mems b) (memRanges b))"
  using assms by (simp add: Build_def CPUs_def Mems_def denotes_stringify)

theorem Build_denotes_witness:
  "denotes (CPUs (Build \<lparr>cpus = [0, 2], cpuRanges = [\<lparr>range_min = 4, range_max = 6\<rparr>],
       mems = [1], memRanges = []\<rparr>)) = Some (members [0, 2] [\<lparr>range_min = 4, range_max = 6\<rparr>]) \<and>
   denotes (Mems (Build \<lparr>cpus = [0, 2], cpuRanges = [\<lparr>range_min = 4, range_max = 6\<rparr>],
       mems = [1], memRanges = []\<rparr>)) = Some (members [1] [])"
  using Build_denotes[of "\<lparr>cpus = [0, 2], cpuRanges = [\<lparr>range_min = 4, range_max = 6\<rparr>],
       mems = [1], memRanges = []\<rparr>"]
  by (simp add: wf_spec_def nonneg_range_def)

text \<open>
  Adding a CPU, or a CPU range, to a builder adds exactly that CPU, or that range, to
  the set the built string denotes, and leaves the memory string alone.
\<close>

theorem AddCPU_denotes:
  assumes "denotes (CPUs (Build b)) = Some S" "wf_spec (cpus b) (cpuRanges b)"
    and "0 \<le> cpu" "0 \<le> mn" "0 \<le> mx"
  shows "denotes (CPUs (Build (AddCPU b cpu))) = Some (insert (nat cpu) S) \<and>
         denotes (CPUs (Build (AddCPURange b mn mx))) = Some ({nat mn..nat mx} \<union> S) \<and>
         Mems (Build (AddCPU b cpu)) = Mems (Build b) \<and>
         Mems (Build (AddCPURange b mn mx)) = Mems (Build b)"
proof -
  have "wf_spec (cpus b @ [cpu]) (cpuRanges b)"
    "wf_spec (cpus b) (cpuRanges b @ [\<lparr>range_min = mn, range_max = mx\<rparr>])"
    using assms by (simp_all add: wf_spec_def nonneg_range_def)
  with assms show ?thesis
    by (auto simp: Build_def CPUs_def Mems_def AddCPU_def AddCPURange_def denotes_stringify
          members_def)
qed

theorem AddCPU_denotes_witness:
  "denotes (CPUs (Build (AddCPU \<lparr>cpus = [], cpuRanges = [], mems = [], memRanges = []\<rparr> 3))) =
     Some (insert 3 {}) \<and>
   denotes (CPUs (Build (AddCPURange \<lparr>cpus = [], cpuRanges = [], mems = [], memRanges = []\<rparr> 1 2))) =
     Some ({1..2} \<union> {}) \<and>
   Mems (Build (AddCPU \<lparr>cpus = [], cpuRanges = [], mems = [], memRanges = []\<rparr> 3)) =
     Mems (Build \<lparr>cpus = [], cpuRanges = [], mems = [], memRanges = []\<rparr>) \<and>
   Mems (Build (AddCPURange \<lparr>cpus = [], cpuRanges = [], mems = [], memRanges = []\<rparr> 1 2)) =
     Mems (Build \<lparr>cpus = [], cpuRanges = [], mems = [], memRanges = []\<rparr>)"
  using AddCPU_denotes[of "\<lparr>cpus = [], cpuRanges = [], mems = [], memRanges = []\<rparr>" "{}" 3 1 2]
  by (simp add: wf_spec_def Build_def CPUs_def stringify_def denotes_def parse_list_def)

end
