(* ===== verification/DebugLevels.thy ===== *)
theory DebugLevels
  imports Prelude
begin

text \<open>
  \<open>internal/debug\<close>: the log levels of the runtime configuration. \<open>setLogLevels\<close> reads
  the list of the configuration, refuses an unknown level and a second level of the same
  group, and fills a \<open>Helper\<close>; the getters answer per program, a program's own level
  before the top-level one. The specification groups the level names; the theorems say
  when \<open>New\<close> succeeds and what the getters then return.
\<close>

section \<open>The level names\<close>

definition LogLevelDebug :: string where
  "LogLevelDebug = ''debug''"

definition LogLevelError :: string where
  "LogLevelError = ''error''"

definition LogLevelInfo :: string where
  "LogLevelInfo = ''info''"

definition LogLevelWarning :: string where
  "LogLevelWarning = ''warning''"

definition LogLevelFirecrackerDebug :: string where
  "LogLevelFirecrackerDebug = ''firecracker:debug''"

definition LogLevelFirecrackerError :: string where
  "LogLevelFirecrackerError = ''firecracker:error''"

definition LogLevelFirecrackerInfo :: string where
  "LogLevelFirecrackerInfo = ''firecracker:info''"

definition LogLevelFirecrackerWarning :: string where
  "LogLevelFirecrackerWarning = ''firecracker:warning''"

definition LogLevelFirecrackerOutput :: string where
  "LogLevelFirecrackerOutput = ''firecracker:output''"

definition LogLevelFirecrackerSDKDebug :: string where
  "LogLevelFirecrackerSDKDebug = ''firecracker-go-sdk:debug''"

definition LogLevelFirecrackerSDKError :: string where
  "LogLevelFirecrackerSDKError = ''firecracker-go-sdk:error''"

definition LogLevelFirecrackerSDKInfo :: string where
  "LogLevelFirecrackerSDKInfo = ''firecracker-go-sdk:info''"

definition LogLevelFirecrackerSDKWarning :: string where
  "LogLevelFirecrackerSDKWarning = ''firecracker-go-sdk:warning''"

definition LogLevelFirecrackerContainerdDebug :: string where
  "LogLevelFirecrackerContainerdDebug = ''firecracker-containerd:debug''"

definition LogLevelFirecrackerContainerdError :: string where
  "LogLevelFirecrackerContainerdError = ''firecracker-containerd:error''"

definition LogLevelFirecrackerContainerdInfo :: string where
  "LogLevelFirecrackerContainerdInfo = ''firecracker-containerd:info''"

definition LogLevelFirecrackerContainerdWarning :: string where
  "LogLevelFirecrackerContainerdWarning = ''firecracker-containerd:warning''"

definition all_levels :: "string list" where
  "all_levels = [LogLevelDebug, LogLevelError, LogLevelInfo, LogLevelWarning, LogLevelFirecrackerDebug, LogLevelFirecrackerError, LogLevelFirecrackerInfo, LogLevelFirecrackerWarning, LogLevelFirecrackerOutput, LogLevelFirecrackerSDKDebug, LogLevelFirecrackerSDKError, LogLevelFirecrackerSDKInfo, LogLevelFirecrackerSDKWarning, LogLevelFirecrackerContainerdDebug, LogLevelFirecrackerContainerdError, LogLevelFirecrackerContainerdInfo, LogLevelFirecrackerContainerdWarning]"

lemmas level_consts =
  LogLevelDebug_def
  LogLevelError_def
  LogLevelInfo_def
  LogLevelWarning_def
  LogLevelFirecrackerDebug_def
  LogLevelFirecrackerError_def
  LogLevelFirecrackerInfo_def
  LogLevelFirecrackerWarning_def
  LogLevelFirecrackerOutput_def
  LogLevelFirecrackerSDKDebug_def
  LogLevelFirecrackerSDKError_def
  LogLevelFirecrackerSDKInfo_def
  LogLevelFirecrackerSDKWarning_def
  LogLevelFirecrackerContainerdDebug_def
  LogLevelFirecrackerContainerdError_def
  LogLevelFirecrackerContainerdInfo_def
  LogLevelFirecrackerContainerdWarning_def

lemma distinct_all_levels: "distinct all_levels"
  by (simp add: all_levels_def level_consts)

lemmas level_neqs =
  distinct_all_levels[unfolded all_levels_def, simplified]
  distinct_rev[THEN iffD2, OF distinct_all_levels, unfolded all_levels_def, simplified]

section \<open>State\<close>

datatype Level =
  PanicLevel | FatalLevel | ErrorLevel | WarnLevel | InfoLevel | DebugLevel | TraceLevel

record Helper =
  logLevels :: "string list"
  ShimDebug :: bool
  logDebug :: bool
  logError :: bool
  logInfo :: bool
  logWarning :: bool
  logFCSDK :: Level
  logFCOutput :: bool
  logFC :: string
  logFCContainerd :: Level
  fcSDKLogLevelSet :: bool
  fcContainerdLogLevelSet :: bool

text \<open>\<open>&Helper{logLevels: ls}\<close>: every other field has its zero value.\<close>

definition zero_Helper :: "string list \<Rightarrow> Helper" where
  "zero_Helper ls =
     \<lparr>logLevels = ls, ShimDebug = False, logDebug = False, logError = False, logInfo = False,
      logWarning = False, logFCSDK = PanicLevel, logFCOutput = False, logFC = [],
      logFCContainerd = PanicLevel, fcSDKLogLevelSet = False, fcContainerdLogLevelSet = False\<rparr>"

definition ErrLogLevelAlreadySet :: gerr where
  "ErrLogLevelAlreadySet = Errorf ''only one value for top level log level can be set'' []"

definition ErrFCLogLevelAlreadySet :: gerr where
  "ErrFCLogLevelAlreadySet = Errorf ''only one value of firecracker log level can be set'' []"

definition ErrFCSDKLogLevelAlreadySet :: gerr where
  "ErrFCSDKLogLevelAlreadySet =
     Errorf ''only one value of firecracker-go-sdk log level can be set'' []"

definition ErrFCContainerdLogLevelAlreadySet :: gerr where
  "ErrFCContainerdLogLevelAlreadySet =
     Errorf ''only one value of firecracker-containerd log level can be set'' []"

definition NewInvalidLogLevelError :: "string \<Rightarrow> gerr" where
  "NewInvalidLogLevelError l = InvalidLogLevel l"

section \<open>Operations\<close>

definition GetFirecrackerLogLevel :: "Helper \<Rightarrow> string" where
  "GetFirecrackerLogLevel h =
     (if logFC h \<noteq> [] then logFC h
      else if logDebug h then ''Debug''
      else if logError h then ''Error''
      else if logInfo h then ''Info''
      else if logWarning h then ''Warning''
      else logFC h)"

definition LogFirecrackerOutput :: "Helper \<Rightarrow> bool" where
  "LogFirecrackerOutput h \<longleftrightarrow> logDebug h \<or> logFCOutput h"

definition GetFirecrackerSDKLogLevel :: "Helper \<Rightarrow> Level \<times> bool" where
  "GetFirecrackerSDKLogLevel h =
     (if fcSDKLogLevelSet h then (logFCSDK h, True)
      else if logDebug h then (DebugLevel, True)
      else if logError h then (ErrorLevel, True)
      else if logInfo h then (InfoLevel, True)
      else if logWarning h then (WarnLevel, True)
      else (logFCSDK h, False))"

definition GetFirecrackerContainerdLogLevel :: "Helper \<Rightarrow> Level \<times> bool" where
  "GetFirecrackerContainerdLogLevel h =
     (if fcContainerdLogLevelSet h then (logFCContainerd h, fcContainerdLogLevelSet h)
      else if logDebug h \<or> ShimDebug h then (DebugLevel, True)
      else if logError h then (ErrorLevel, True)
      else if logInfo h then (InfoLevel, True)
      else if logWarning h then (WarnLevel, True)
      else (PanicLevel, False))"

definition setFirecrackerLogLevel :: "Helper \<Rightarrow> string \<Rightarrow> gerr option \<times> Helper" where
  "setFirecrackerLogLevel h level =
     (if logFC h \<noteq> [] then (Some ErrFCLogLevelAlreadySet, h)
      else (None, h\<lparr>logFC := level\<rparr>))"

definition setFirecrackerContainerdLogLevel :: "Helper \<Rightarrow> Level \<Rightarrow> gerr option \<times> Helper" where
  "setFirecrackerContainerdLogLevel h level =
     (if fcContainerdLogLevelSet h then (Some ErrFCContainerdLogLevelAlreadySet, h)
      else (None, h\<lparr>fcContainerdLogLevelSet := True, logFCContainerd := level\<rparr>))"

definition setFirecrackerSDKLogLevel :: "Helper \<Rightarrow> Level \<Rightarrow> gerr option \<times> Helper" where
  "setFirecrackerSDKLogLevel h level =
     (if fcSDKLogLevelSet h then (Some ErrFCSDKLogLevelAlreadySet, h)
      else (None, h\<lparr>fcSDKLogLevelSet := True, logFCSDK := level\<rparr>))"

definition isTopLogLevelSet :: "Helper \<Rightarrow> bool" where
  "isTopLogLevelSet h \<longleftrightarrow> logDebug h \<or> logError h \<or> logInfo h \<or> logWarning h"

text \<open>One turn of the loop in \<open>setLogLevels\<close>, the switch over the trimmed level.\<close>

definition setLogLevel :: "Helper \<Rightarrow> string \<Rightarrow> gerr option \<times> Helper" where
  "setLogLevel h cleanedLevel =
     (if cleanedLevel = LogLevelDebug then
        (if isTopLogLevelSet h then (Some ErrLogLevelAlreadySet, h) else (None, h\<lparr>logDebug := True\<rparr>))
      else if cleanedLevel = LogLevelError then
        (if isTopLogLevelSet h then (Some ErrLogLevelAlreadySet, h) else (None, h\<lparr>logError := True\<rparr>))
      else if cleanedLevel = LogLevelInfo then
        (if isTopLogLevelSet h then (Some ErrLogLevelAlreadySet, h) else (None, h\<lparr>logInfo := True\<rparr>))
      else if cleanedLevel = LogLevelWarning then
        (if isTopLogLevelSet h then (Some ErrLogLevelAlreadySet, h) else (None, h\<lparr>logWarning := True\<rparr>))
      else if cleanedLevel = LogLevelFirecrackerDebug then setFirecrackerLogLevel h ''Debug''
      else if cleanedLevel = LogLevelFirecrackerError then setFirecrackerLogLevel h ''Error''
      else if cleanedLevel = LogLevelFirecrackerInfo then setFirecrackerLogLevel h ''Info''
      else if cleanedLevel = LogLevelFirecrackerWarning then setFirecrackerLogLevel h ''Warning''
      else if cleanedLevel = LogLevelFirecrackerOutput then (None, h\<lparr>logFCOutput := True\<rparr>)
      else if cleanedLevel = LogLevelFirecrackerSDKDebug then setFirecrackerSDKLogLevel h DebugLevel
      else if cleanedLevel = LogLevelFirecrackerSDKError then setFirecrackerSDKLogLevel h ErrorLevel
      else if cleanedLevel = LogLevelFirecrackerSDKInfo then setFirecrackerSDKLogLevel h InfoLevel
      else if cleanedLevel = LogLevelFirecrackerSDKWarning then setFirecrackerSDKLogLevel h WarnLevel
      else if cleanedLevel = LogLevelFirecrackerContainerdDebug then
        setFirecrackerContainerdLogLevel h DebugLevel
      else if cleanedLevel = LogLevelFirecrackerContainerdError then
        setFirecrackerContainerdLogLevel h ErrorLevel
      else if cleanedLevel = LogLevelFirecrackerContainerdInfo then
        setFirecrackerContainerdLogLevel h InfoLevel
      else if cleanedLevel = LogLevelFirecrackerContainerdWarning then
        setFirecrackerContainerdLogLevel h WarnLevel
      else (Some (NewInvalidLogLevelError cleanedLevel), h))"

fun setLogLevels :: "Helper \<Rightarrow> string list \<Rightarrow> gerr option \<times> Helper" where
  "setLogLevels h [] = (None, h)"
| "setLogLevels h (level # levels) =
     (case setLogLevel h (strings_TrimSpace level) of
        (Some err, h') \<Rightarrow> (Some err, h')
      | (None, h') \<Rightarrow> setLogLevels h' levels)"

definition New :: "string list \<Rightarrow> gerr + Helper" where
  "New ls = (case setLogLevels (zero_Helper ls) ls of (Some err, _) \<Rightarrow> Inl err | (None, h) \<Rightarrow> Inr h)"

section \<open>Specification: what a level name means\<close>

datatype Group = Top | Firecracker | SDK | Containerd | Output

text \<open>The group of a level name and the level it asks for.\<close>

definition level_table :: "(string \<times> Group \<times> Level) list" where
  "level_table =
      [(LogLevelDebug, (Top, DebugLevel)), (LogLevelError, (Top, ErrorLevel)),
       (LogLevelInfo, (Top, InfoLevel)), (LogLevelWarning, (Top, WarnLevel)),
       (LogLevelFirecrackerDebug, (Firecracker, DebugLevel)),
       (LogLevelFirecrackerError, (Firecracker, ErrorLevel)),
       (LogLevelFirecrackerInfo, (Firecracker, InfoLevel)),
       (LogLevelFirecrackerWarning, (Firecracker, WarnLevel)),
       (LogLevelFirecrackerOutput, (Output, DebugLevel)),
       (LogLevelFirecrackerSDKDebug, (SDK, DebugLevel)),
       (LogLevelFirecrackerSDKError, (SDK, ErrorLevel)),
       (LogLevelFirecrackerSDKInfo, (SDK, InfoLevel)),
       (LogLevelFirecrackerSDKWarning, (SDK, WarnLevel)),
       (LogLevelFirecrackerContainerdDebug, (Containerd, DebugLevel)),
       (LogLevelFirecrackerContainerdError, (Containerd, ErrorLevel)),
       (LogLevelFirecrackerContainerdInfo, (Containerd, InfoLevel)),
       (LogLevelFirecrackerContainerdWarning, (Containerd, WarnLevel))]"

definition level_spec :: "string \<Rightarrow> (Group \<times> Level) option" where
  "level_spec = map_of level_table"

fun level_name :: "Level \<Rightarrow> string" where
  "level_name DebugLevel = ''Debug''"
| "level_name ErrorLevel = ''Error''"
| "level_name InfoLevel = ''Info''"
| "level_name WarnLevel = ''Warning''"
| "level_name _ = []"

text \<open>The level a list of names asks for in a group: that of the first name of the group.\<close>

definition asks :: "Group \<Rightarrow> string list \<Rightarrow> Level option" where
  "asks g ls =
     map_option snd (find (\<lambda>p. fst p = g) (List.map_filter level_spec (map strings_TrimSpace ls)))"

text \<open>
  The helper as an abstract state: the level set so far in each exclusive group, and
  whether the output was asked for.
\<close>

definition top_of :: "Helper \<Rightarrow> Level option" where
  "top_of h =
     (if logDebug h then Some DebugLevel else if logError h then Some ErrorLevel
      else if logInfo h then Some InfoLevel else if logWarning h then Some WarnLevel else None)"

definition set_in :: "Helper \<Rightarrow> Group \<Rightarrow> Level option" where
  "set_in h g =
     (case g of
        Top \<Rightarrow> top_of h
      | Firecracker \<Rightarrow> find (\<lambda>l. level_name l = logFC h) [DebugLevel, ErrorLevel, InfoLevel, WarnLevel]
      | SDK \<Rightarrow> if fcSDKLogLevelSet h then Some (logFCSDK h) else None
      | Containerd \<Rightarrow> if fcContainerdLogLevelSet h then Some (logFCContainerd h) else None
      | Output \<Rightarrow> if logFCOutput h then Some DebugLevel else None)"

text \<open>
  The invariant of a helper: at most one of the four top-level flags, a Firecracker
  level that is one of the four names or unset, and zero values where nothing is set.
\<close>

definition helper_inv :: "Helper \<Rightarrow> bool" where
  "helper_inv h \<longleftrightarrow>
     length (filter id [logDebug h, logError h, logInfo h, logWarning h]) \<le> 1 \<and>
     logFC h \<in> {[], ''Debug'', ''Error'', ''Info'', ''Warning''} \<and>
     (\<not> fcSDKLogLevelSet h \<longrightarrow> logFCSDK h = PanicLevel) \<and>
     (\<not> fcContainerdLogLevelSet h \<longrightarrow> logFCContainerd h = PanicLevel)"

text \<open>The specification of the loop on the abstract state.\<close>

fun already_set :: "Group \<Rightarrow> gerr" where
  "already_set Top = ErrLogLevelAlreadySet"
| "already_set Firecracker = ErrFCLogLevelAlreadySet"
| "already_set SDK = ErrFCSDKLogLevelAlreadySet"
| "already_set Containerd = ErrFCContainerdLogLevelAlreadySet"
| "already_set Output = EOF"

fun abs_levels :: "(Group \<Rightarrow> Level option) \<Rightarrow> string list \<Rightarrow> gerr + (Group \<Rightarrow> Level option)" where
  "abs_levels A [] = Inr A"
| "abs_levels A (l # ls) =
     (case level_spec (strings_TrimSpace l) of
        None \<Rightarrow> Inl (InvalidLogLevel (strings_TrimSpace l))
      | Some (g, v) \<Rightarrow>
          if g \<noteq> Output \<and> A g \<noteq> None then Inl (already_set g) else abs_levels (A(g \<mapsto> v)) ls)"

section \<open>Facts\<close>

lemma level_spec_unknown: "level_spec c = None \<Longrightarrow> c \<notin> set all_levels"
  by (simp only: level_spec_def level_table_def map_of_eq_None_iff all_levels_def) simp

lemma setLogLevel_unknown: "c \<notin> set all_levels \<Longrightarrow> setLogLevel h c = (Some (InvalidLogLevel c), h)"
  unfolding all_levels_def setLogLevel_def NewInvalidLogLevelError_def by simp

lemma level_spec_None: "level_spec c = None \<Longrightarrow> setLogLevel h c = (Some (InvalidLogLevel c), h)"
  by (intro setLogLevel_unknown level_spec_unknown)

lemma level_spec_table: "level_spec c = Some p \<Longrightarrow> (c, p) \<in> set level_table"
  by (simp add: level_spec_def map_of_SomeD)

lemma setLogLevel_eqs:
  "setLogLevel h LogLevelDebug = (if isTopLogLevelSet h then (Some ErrLogLevelAlreadySet, h) else (None, h\<lparr>logDebug := True\<rparr>))"
  "setLogLevel h LogLevelError = (if isTopLogLevelSet h then (Some ErrLogLevelAlreadySet, h) else (None, h\<lparr>logError := True\<rparr>))"
  "setLogLevel h LogLevelInfo = (if isTopLogLevelSet h then (Some ErrLogLevelAlreadySet, h) else (None, h\<lparr>logInfo := True\<rparr>))"
  "setLogLevel h LogLevelWarning = (if isTopLogLevelSet h then (Some ErrLogLevelAlreadySet, h) else (None, h\<lparr>logWarning := True\<rparr>))"
  "setLogLevel h LogLevelFirecrackerDebug = setFirecrackerLogLevel h ''Debug''"
  "setLogLevel h LogLevelFirecrackerError = setFirecrackerLogLevel h ''Error''"
  "setLogLevel h LogLevelFirecrackerInfo = setFirecrackerLogLevel h ''Info''"
  "setLogLevel h LogLevelFirecrackerWarning = setFirecrackerLogLevel h ''Warning''"
  "setLogLevel h LogLevelFirecrackerOutput = (None, h\<lparr>logFCOutput := True\<rparr>)"
  "setLogLevel h LogLevelFirecrackerSDKDebug = setFirecrackerSDKLogLevel h DebugLevel"
  "setLogLevel h LogLevelFirecrackerSDKError = setFirecrackerSDKLogLevel h ErrorLevel"
  "setLogLevel h LogLevelFirecrackerSDKInfo = setFirecrackerSDKLogLevel h InfoLevel"
  "setLogLevel h LogLevelFirecrackerSDKWarning = setFirecrackerSDKLogLevel h WarnLevel"
  "setLogLevel h LogLevelFirecrackerContainerdDebug = setFirecrackerContainerdLogLevel h DebugLevel"
  "setLogLevel h LogLevelFirecrackerContainerdError = setFirecrackerContainerdLogLevel h ErrorLevel"
  "setLogLevel h LogLevelFirecrackerContainerdInfo = setFirecrackerContainerdLogLevel h InfoLevel"
  "setLogLevel h LogLevelFirecrackerContainerdWarning = setFirecrackerContainerdLogLevel h WarnLevel"
  by (simp_all add: setLogLevel_def level_neqs)

text \<open>The four forms of a successful turn, one per exclusive group.\<close>

fun set_top :: "Level \<Rightarrow> Helper \<Rightarrow> Helper" where
  "set_top DebugLevel h = h\<lparr>logDebug := True\<rparr>"
| "set_top ErrorLevel h = h\<lparr>logError := True\<rparr>"
| "set_top InfoLevel h = h\<lparr>logInfo := True\<rparr>"
| "set_top WarnLevel h = h\<lparr>logWarning := True\<rparr>"
| "set_top _ h = h"

fun set_group :: "Group \<Rightarrow> Level \<Rightarrow> Helper \<Rightarrow> Helper" where
  "set_group Top l h = set_top l h"
| "set_group Firecracker l h = h\<lparr>logFC := level_name l\<rparr>"
| "set_group SDK l h = h\<lparr>fcSDKLogLevelSet := True, logFCSDK := l\<rparr>"
| "set_group Containerd l h = h\<lparr>fcContainerdLogLevelSet := True, logFCContainerd := l\<rparr>"
| "set_group Output l h = h\<lparr>logFCOutput := True\<rparr>"

definition four_levels :: "Level list" where
  "four_levels = [DebugLevel, ErrorLevel, InfoLevel, WarnLevel]"

fun occupied :: "Group \<Rightarrow> Helper \<Rightarrow> bool" where
  "occupied Top h = isTopLogLevelSet h"
| "occupied Firecracker h = (logFC h \<noteq> [])"
| "occupied SDK h = fcSDKLogLevelSet h"
| "occupied Containerd h = fcContainerdLogLevelSet h"
| "occupied Output h = False"

lemma setLogLevel_table:
  assumes "(c, g, l) \<in> set level_table"
  shows "setLogLevel h c = (if occupied g h then (Some (already_set g), h) else (None, set_group g l h))"
  using assms
  by (simp add: level_table_def)
    (elim disjE conjE; simp add: setLogLevel_eqs setFirecrackerLogLevel_def
      setFirecrackerContainerdLogLevel_def setFirecrackerSDKLogLevel_def)

lemma level_table_four: "(c, g, l) \<in> set level_table \<Longrightarrow> l \<in> set four_levels"
  by (auto simp: level_table_def four_levels_def)

lemma level_table_output: "(c, Output, l) \<in> set level_table \<Longrightarrow> l = DebugLevel"
  by (simp add: level_table_def)

lemma occupied_iff:
  assumes "helper_inv h" "g \<noteq> Output"
  shows "occupied g h \<longleftrightarrow> set_in h g \<noteq> None"
proof (cases g)
  case Firecracker
  with assms show ?thesis
    by (auto simp: helper_inv_def set_in_def)
qed (use assms in \<open>auto simp: set_in_def top_of_def isTopLogLevelSet_def\<close>)

lemma find_level_name:
  "l \<in> set four_levels \<Longrightarrow>
     find (\<lambda>x. level_name x = level_name l) [DebugLevel, ErrorLevel, InfoLevel, WarnLevel] = Some l"
  by (cases l) (simp_all add: four_levels_def)

lemma level_name_four:
  "l \<in> set four_levels \<Longrightarrow> level_name l \<in> {[], ''Debug'', ''Error'', ''Info'', ''Warning''}"
  by (cases l) (simp_all add: four_levels_def)

lemma set_top_top_of:
  "l \<in> set four_levels \<Longrightarrow> \<not> isTopLogLevelSet h \<Longrightarrow> top_of (set_top l h) = Some l"
  by (cases l) (simp_all add: top_of_def isTopLogLevelSet_def four_levels_def)

lemma set_top_one_flag:
  "l \<in> set four_levels \<Longrightarrow> \<not> isTopLogLevelSet h \<Longrightarrow>
     length (filter id [logDebug (set_top l h), logError (set_top l h), logInfo (set_top l h),
       logWarning (set_top l h)]) \<le> 1"
  by (cases l) (simp_all add: isTopLogLevelSet_def four_levels_def)

lemma set_top_frame [simp]:
  "logFC (set_top l h) = logFC h"
  "fcSDKLogLevelSet (set_top l h) = fcSDKLogLevelSet h" "logFCSDK (set_top l h) = logFCSDK h"
  "fcContainerdLogLevelSet (set_top l h) = fcContainerdLogLevelSet h"
  "logFCContainerd (set_top l h) = logFCContainerd h" "logFCOutput (set_top l h) = logFCOutput h"
  by (cases l; simp)+

lemma set_group_inv:
  assumes "helper_inv h" "\<not> occupied g h" "l \<in> set four_levels"
  shows "helper_inv (set_group g l h)"
proof (cases g)
  case Top
  with assms set_top_one_flag[of l h] show ?thesis by (simp add: helper_inv_def)
next
  case Firecracker
  with assms level_name_four[of l] show ?thesis by (simp add: helper_inv_def)
qed (use assms in \<open>simp_all add: helper_inv_def\<close>)

lemma set_group_set_in:
  assumes "helper_inv h" "\<not> occupied g h" "l \<in> set four_levels" "g = Output \<Longrightarrow> l = DebugLevel"
  shows "set_in (set_group g l h) = (set_in h)(g \<mapsto> l)"
proof
  fix g'
  show "set_in (set_group g l h) g' = ((set_in h)(g \<mapsto> l)) g'"
  proof (cases g)
    case Top
    with assms set_top_top_of[of l h] show ?thesis
      by (cases g') (simp_all add: set_in_def)
  next
    case Firecracker
    with assms find_level_name[of l] show ?thesis
      by (cases g') (simp_all add: set_in_def top_of_def del: find.simps)
  qed (use assms in \<open>cases g'; simp add: set_in_def top_of_def\<close>)+
qed

lemma set_group_ShimDebug [simp]: "ShimDebug (set_group g l h) = ShimDebug h"
  by (cases g; cases l) simp_all

lemma setLogLevel_refused:
  assumes "level_spec c = Some (g, l)" "g \<noteq> Output" "set_in h g \<noteq> None" "helper_inv h"
  shows "setLogLevel h c = (Some (already_set g), h)"
  using assms by (simp add: setLogLevel_table[OF level_spec_table] occupied_iff)

lemma setLogLevel_accepted:
  assumes "level_spec c = Some (g, l)" "g = Output \<or> set_in h g = None" "helper_inv h"
  shows "\<exists>h'. setLogLevel h c = (None, h') \<and> set_in h' = (set_in h)(g \<mapsto> l) \<and> helper_inv h' \<and>
     ShimDebug h' = ShimDebug h"
proof -
  have t: "(c, g, l) \<in> set level_table" using assms(1) by (rule level_spec_table)
  have "\<not> occupied g h" using assms(2,3) by (cases "g = Output") (auto simp: occupied_iff)
  moreover have "l \<in> set four_levels" using t by (rule level_table_four)
  moreover have "g = Output \<Longrightarrow> l = DebugLevel" using t level_table_output by blast
  ultimately show ?thesis
    using assms(3) by (simp add: setLogLevel_table[OF t] set_group_inv set_group_set_in)
qed

lemma setLogLevels_refine:
  assumes "helper_inv h"
  shows "case setLogLevels h ls of
     (Some e, _) \<Rightarrow> abs_levels (set_in h) ls = Inl e
   | (None, h') \<Rightarrow> abs_levels (set_in h) ls = Inr (set_in h') \<and> helper_inv h' \<and>
       ShimDebug h' = ShimDebug h"
  using assms
proof (induction ls arbitrary: h)
  case (Cons l ls)
  let ?c = "strings_TrimSpace l"
  show ?case
  proof (cases "level_spec ?c")
    case None
    then show ?thesis by (simp add: level_spec_None)
  next
    case (Some p)
    obtain g v where p: "p = (g, v)" by (cases p)
    show ?thesis
    proof (cases "g \<noteq> Output \<and> set_in h g \<noteq> None")
      case True
      with Some p Cons.prems show ?thesis by (simp add: setLogLevel_refused)
    next
      case False
      with Some p Cons.prems obtain h' where h': "setLogLevel h ?c = (None, h')"
        "set_in h' = (set_in h)(g \<mapsto> v)" "helper_inv h'" "ShimDebug h' = ShimDebug h"
        using setLogLevel_accepted[of ?c g v h] by auto
      with Cons.IH[of h'] False Some p show ?thesis
        by (auto split: prod.splits option.splits)
    qed
  qed
qed simp


section \<open>The abstract loop, in closed form\<close>

definition entries :: "string list \<Rightarrow> (Group \<times> Level) list" where
  "entries ls = List.map_filter level_spec (map strings_TrimSpace ls)"

lemma entries_simps [simp]:
  "entries [] = []"
  "entries (l # ls) = (case level_spec (strings_TrimSpace l) of None \<Rightarrow> entries ls | Some p \<Rightarrow> p # entries ls)"
  by (simp_all add: entries_def List.map_filter_simps split: option.split)

lemma asks_entries: "asks g ls = map_option snd (find (\<lambda>p. fst p = g) (entries ls))"
  by (simp add: asks_def entries_def)

lemma asks_simps [simp]:
  "asks g [] = None"
  "asks g (l # ls) =
     (case level_spec (strings_TrimSpace l) of
        None \<Rightarrow> asks g ls
      | Some (g', v) \<Rightarrow> if g' = g then Some v else asks g ls)"
  by (auto simp: asks_entries split: option.split)

definition known :: "string list \<Rightarrow> bool" where
  "known ls = list_all (\<lambda>l. level_spec (strings_TrimSpace l) \<noteq> None) ls"

definition in_group :: "Group \<Rightarrow> string list \<Rightarrow> nat" where
  "in_group g ls = length (filter (\<lambda>p. fst p = g) (entries ls))"

lemma abs_levels_ok:
  "isOk (abs_levels A ls) \<longleftrightarrow>
     known ls \<and> (\<forall>g. g \<noteq> Output \<longrightarrow> in_group g ls \<le> (if A g = None then 1 else 0))"
proof (induction ls arbitrary: A)
  case Nil
  then show ?case by (simp add: known_def in_group_def)
next
  case (Cons l ls)
  show ?case
  proof (cases "level_spec (strings_TrimSpace l)")
    case None
    then show ?thesis by (simp add: known_def)
  next
    case (Some p)
    obtain g v where p: "p = (g, v)" by (cases p)
    have kn: "known (l # ls) = known ls" by (simp add: known_def Some)
    have ig: "in_group g' (l # ls) = (if g' = g then Suc (in_group g' ls) else in_group g' ls)" for g'
      by (simp add: in_group_def Some p)
    show ?thesis
    proof (cases "g \<noteq> Output \<and> A g \<noteq> None")
      case True
      then show ?thesis by (auto simp: Some p kn ig intro!: exI[of _ g])
    next
      case False
      have eq: "in_group g' ls \<le> (if (A(g \<mapsto> v)) g' = None then 1 else 0) \<longleftrightarrow>
          in_group g' (l # ls) \<le> (if A g' = None then 1 else 0)" if "g' \<noteq> Output" for g'
        using False that by (cases "g' = g") (simp_all add: ig)
      from False have "isOk (abs_levels A (l # ls)) = isOk (abs_levels (A(g \<mapsto> v)) ls)"
        by (auto simp: Some p)
      also have "\<dots> = (known ls \<and> (\<forall>g'. g' \<noteq> Output \<longrightarrow>
          in_group g' ls \<le> (if (A(g \<mapsto> v)) g' = None then 1 else 0)))"
        by (rule Cons.IH)
      also have "\<dots> = (known ls \<and> (\<forall>g'. g' \<noteq> Output \<longrightarrow>
          in_group g' (l # ls) \<le> (if A g' = None then 1 else 0)))"
        using eq by blast
      finally show ?thesis by (simp only: kn)
    qed
  qed
qed

lemma abs_levels_value:
  assumes "abs_levels A ls = Inr B"
  shows "(g \<noteq> Output \<longrightarrow> B g = (case A g of None \<Rightarrow> asks g ls | Some v \<Rightarrow> Some v)) \<and>
     (B Output \<noteq> None \<longleftrightarrow> A Output \<noteq> None \<or> asks Output ls \<noteq> None)"
  using assms
proof (induction ls arbitrary: A)
  case Nil
  then show ?case by (auto split: option.split)
next
  case (Cons l ls)
  from Cons.prems obtain g' v where s: "level_spec (strings_TrimSpace l) = Some (g', v)"
    and free: "\<not> (g' \<noteq> Output \<and> A g' \<noteq> None)" and B: "abs_levels (A(g' \<mapsto> v)) ls = Inr B"
    by (auto split: option.splits prod.splits if_splits)
  from Cons.IH[OF B] s free show ?case
    by (auto split: option.splits if_splits)
qed

lemma helper_inv_zero: "helper_inv (zero_Helper ls)"
  by (simp add: helper_inv_def zero_Helper_def)

lemma set_in_zero: "set_in (zero_Helper ls) g = None"
  by (cases g) (simp_all add: set_in_def zero_Helper_def top_of_def)

lemma New_abs:
  "(case New ls of Inl e \<Rightarrow> abs_levels (\<lambda>_. None) ls = Inl e
    | Inr h \<Rightarrow> abs_levels (\<lambda>_. None) ls = Inr (set_in h) \<and> helper_inv h \<and> \<not> ShimDebug h)"
proof -
  have z: "set_in (zero_Helper ls) = (\<lambda>_. None)" by (rule ext) (rule set_in_zero)
  have d: "\<not> ShimDebug (zero_Helper ls)" by (simp add: zero_Helper_def)
  show ?thesis
    using setLogLevels_refine[OF helper_inv_zero, of ls ls] d
    unfolding z by (auto simp: New_def split: prod.splits option.splits)
qed

lemma New_values:
  assumes "New ls = Inr h"
  shows "helper_inv h" "\<not> ShimDebug h" "g \<noteq> Output \<Longrightarrow> set_in h g = asks g ls"
    "set_in h Output \<noteq> None \<longleftrightarrow> asks Output ls \<noteq> None"
  using New_abs[of ls] abs_levels_value[of "\<lambda>_. None" ls "set_in h" g] assms by auto

section \<open>The getters on the abstract state\<close>

lemma GetFirecrackerLogLevel_abs:
  "helper_inv h \<Longrightarrow> GetFirecrackerLogLevel h =
     (case set_in h Firecracker of Some l \<Rightarrow> level_name l
      | None \<Rightarrow> (case set_in h Top of Some l \<Rightarrow> level_name l | None \<Rightarrow> []))"
  by (auto simp: helper_inv_def GetFirecrackerLogLevel_def set_in_def top_of_def)

lemma GetFirecrackerSDKLogLevel_abs:
  "helper_inv h \<Longrightarrow> GetFirecrackerSDKLogLevel h =
     (case set_in h SDK of Some l \<Rightarrow> (l, True)
      | None \<Rightarrow> (case set_in h Top of Some l \<Rightarrow> (l, True) | None \<Rightarrow> (PanicLevel, False)))"
  by (auto simp: helper_inv_def GetFirecrackerSDKLogLevel_def set_in_def top_of_def)

lemma GetFirecrackerContainerdLogLevel_abs:
  "GetFirecrackerContainerdLogLevel (h\<lparr>ShimDebug := d\<rparr>) =
     (case set_in h Containerd of Some l \<Rightarrow> (l, True)
      | None \<Rightarrow> if d then (DebugLevel, True)
                else (case set_in h Top of Some l \<Rightarrow> (l, True) | None \<Rightarrow> (PanicLevel, False)))"
  by (auto simp: GetFirecrackerContainerdLogLevel_def set_in_def top_of_def)

lemma LogFirecrackerOutput_abs:
  "LogFirecrackerOutput h \<longleftrightarrow> set_in h Top = Some DebugLevel \<or> set_in h Output \<noteq> None"
  by (auto simp: LogFirecrackerOutput_def set_in_def top_of_def)

section \<open>Properties\<close>

text \<open>
  \<open>New\<close> accepts a list of log levels exactly when every level, after trimming, is one
  of the seventeen known names and no exclusive group (top level, firecracker,
  firecracker-go-sdk, firecracker-containerd) is named twice.
\<close>

theorem New_accepts_iff:
  "isOk (New ls) \<longleftrightarrow>
     known ls \<and> in_group Top ls \<le> 1 \<and> in_group Firecracker ls \<le> 1 \<and> in_group SDK ls \<le> 1 \<and>
     in_group Containerd ls \<le> 1"
proof -
  have "isOk (New ls) = isOk (abs_levels (\<lambda>_. None) ls)"
    using New_abs[of ls] by (cases "New ls") auto
  also have "\<dots> = (known ls \<and> (\<forall>g. g \<noteq> Output \<longrightarrow> in_group g ls \<le> 1))"
    by (simp add: abs_levels_ok)
  also have "(\<forall>g. g \<noteq> Output \<longrightarrow> in_group g ls \<le> 1) \<longleftrightarrow>
      in_group Top ls \<le> 1 \<and> in_group Firecracker ls \<le> 1 \<and> in_group SDK ls \<le> 1 \<and> in_group Containerd ls \<le> 1"
    by (metis Group.exhaust Group.distinct(7,13,17,19))
  finally show ?thesis .
qed

text \<open>
  After a successful \<open>New\<close>, each getter answers with the level asked for its own program
  if there is one, and otherwise with the top-level one; the shim's debug flag overrides a
  missing or lower top-level setting, but never the program's own.
\<close>

theorem New_getters:
  assumes "New ls = Inr h"
  shows "GetFirecrackerLogLevel h =
      (case asks Firecracker ls of Some l \<Rightarrow> level_name l
       | None \<Rightarrow> (case asks Top ls of Some l \<Rightarrow> level_name l | None \<Rightarrow> [])) \<and>
    GetFirecrackerSDKLogLevel h =
      (case asks SDK ls of Some l \<Rightarrow> (l, True)
       | None \<Rightarrow> (case asks Top ls of Some l \<Rightarrow> (l, True) | None \<Rightarrow> (PanicLevel, False))) \<and>
    GetFirecrackerContainerdLogLevel (h\<lparr>ShimDebug := d\<rparr>) =
      (case asks Containerd ls of Some l \<Rightarrow> (l, True)
       | None \<Rightarrow> if d then (DebugLevel, True)
                 else (case asks Top ls of Some l \<Rightarrow> (l, True) | None \<Rightarrow> (PanicLevel, False))) \<and>
    (LogFirecrackerOutput h \<longleftrightarrow> asks Top ls = Some DebugLevel \<or> asks Output ls \<noteq> None)"
proof -
  have v: "set_in h Top = asks Top ls" "set_in h Firecracker = asks Firecracker ls"
    "set_in h SDK = asks SDK ls" "set_in h Containerd = asks Containerd ls"
    by (simp_all add: New_values(3)[OF assms])
  show ?thesis
    unfolding GetFirecrackerLogLevel_abs[OF New_values(1)[OF assms]]
      GetFirecrackerSDKLogLevel_abs[OF New_values(1)[OF assms]]
      GetFirecrackerContainerdLogLevel_abs LogFirecrackerOutput_abs New_values(4)[OF assms] v
    by (intro conjI refl)
qed

lemma New_closed_example:
  "New [LogLevelWarning] = Inr ((zero_Helper [LogLevelWarning])\<lparr>logWarning := True\<rparr>)"
proof -
  have "strings_TrimSpace LogLevelWarning = LogLevelWarning"
    by (simp add: TrimSpace_graphic level_consts graphic_def)
  then show ?thesis
    by (simp add: New_def setLogLevel_eqs isTopLogLevelSet_def zero_Helper_def)
qed

theorem New_getters_witness:
  "\<exists>h. New [LogLevelWarning] = Inr h \<and> \<not> LogFirecrackerOutput h \<and>
     GetFirecrackerSDKLogLevel h = (WarnLevel, True) \<and>
     asks Top [LogLevelWarning] \<noteq> Some DebugLevel"
  using New_getters[OF New_closed_example, of False]
  by (auto simp: New_closed_example LogFirecrackerOutput_def zero_Helper_def
        GetFirecrackerSDKLogLevel_def)

end
