(* ===== verification/World.thy ===== *)
theory World
  imports Prelude
begin

text \<open>
  The world outside the repository: the operating system as the Go packages \<open>os\<close>,
  \<open>io/ioutil\<close> and \<open>syscall\<close> offer it. Every call is a field of the record \<open>os\<close>, a
  function on the state \<open>'w\<close> of the outside; nothing is assumed of it except where a
  theorem says so. \<open>traced_os\<close> runs an \<open>os\<close> and notes every call with its result, so
  that a theorem can speak about which calls were made and in which order.
\<close>

section \<open>The operating system\<close>

text \<open>What the code reads of a \<open>stat\<close> result; the mode is the raw \<open>st_mode\<close>.\<close>

record file_info =
  fi_mode :: "32 word"
  fi_rdev :: "64 word"
  fi_size :: int
  fi_isDir :: bool

record 'w os =
  os_Mkdir :: "string \<Rightarrow> nat \<Rightarrow> 'w \<Rightarrow> gerr option \<times> 'w"
  os_MkdirAll :: "string \<Rightarrow> nat \<Rightarrow> 'w \<Rightarrow> gerr option \<times> 'w"
  os_Chown :: "string \<Rightarrow> nat \<Rightarrow> nat \<Rightarrow> 'w \<Rightarrow> gerr option \<times> 'w"
  os_Chmod :: "string \<Rightarrow> 32 word \<Rightarrow> 'w \<Rightarrow> gerr option \<times> 'w"
  os_Symlink :: "string \<Rightarrow> string \<Rightarrow> 'w \<Rightarrow> gerr option \<times> 'w"
  os_Link :: "string \<Rightarrow> string \<Rightarrow> 'w \<Rightarrow> gerr option \<times> 'w"
  os_Remove :: "string \<Rightarrow> 'w \<Rightarrow> gerr option \<times> 'w"
  os_RemoveAll :: "string \<Rightarrow> 'w \<Rightarrow> gerr option \<times> 'w"
  os_Stat :: "string \<Rightarrow> 'w \<Rightarrow> (gerr + file_info) \<times> 'w"
  os_Getwd :: "'w \<Rightarrow> (gerr + string) \<times> 'w"
  os_ReadFile :: "string \<Rightarrow> 'w \<Rightarrow> (gerr + string) \<times> 'w"
  os_WriteFile :: "string \<Rightarrow> string \<Rightarrow> nat \<Rightarrow> 'w \<Rightarrow> gerr option \<times> 'w"
  os_ReadDir :: "string \<Rightarrow> 'w \<Rightarrow> (gerr + string list) \<times> 'w"
  os_CreateExcl :: "string \<Rightarrow> nat \<Rightarrow> 'w \<Rightarrow> gerr option \<times> 'w"
  os_WriteString :: "string \<Rightarrow> string \<Rightarrow> 'w \<Rightarrow> gerr option \<times> 'w"
  os_FStatSize :: "string \<Rightarrow> 'w \<Rightarrow> (gerr + int) \<times> 'w"
  os_Truncate :: "string \<Rightarrow> int \<Rightarrow> 'w \<Rightarrow> gerr option \<times> 'w"
  os_Open :: "string \<Rightarrow> 'w \<Rightarrow> (gerr + string) \<times> 'w"
  os_Close :: "string \<Rightarrow> 'w \<Rightarrow> gerr option \<times> 'w"
  os_EvalSymlinks :: "string \<Rightarrow> 'w \<Rightarrow> (gerr + string) \<times> 'w"
  os_MknodBlk :: "string \<Rightarrow> 64 word \<Rightarrow> 'w \<Rightarrow> gerr option \<times> 'w"
  os_CpSparse :: "string \<Rightarrow> string \<Rightarrow> 'w \<Rightarrow> gerr option \<times> 'w"
  os_Signal :: "int \<Rightarrow> nat \<Rightarrow> 'w \<Rightarrow> gerr option \<times> 'w"

text \<open>
  \<open>os_CreateExcl\<close> is \<open>os.OpenFile\<close> with \<open>O_CREATE|O_EXCL|O_WRONLY\<close>; the open file is
  named by its path in \<open>os_WriteString\<close>, \<open>os_FStatSize\<close> and \<open>os_Close\<close>. \<open>os_Open\<close> opens
  for reading and gives the content that can be read. \<open>os_CpSparse\<close> runs
  \<open>cp --sparse=always\<close>. \<open>os_Signal\<close> is \<open>os.FindProcess\<close> and \<open>Signal\<close>.
\<close>

section \<open>A traced operating system\<close>

datatype os_event =
    EvMkdir string nat "gerr option"
  | EvChown string nat nat "gerr option"
  | EvChmod string "32 word" "gerr option"
  | EvCp string string "gerr option"
  | EvMknod string "64 word" "gerr option"
  | EvLink string string "gerr option"
  | EvRemoveAll string "gerr option"
  | EvTruncate string int "gerr option"
  | EvMkdirAll string nat "gerr option"
  | EvMountAll string string "string list" string "gerr option"
  | EvUmount string "gerr option"
  | EvSleep int

definition note_ev :: "('w \<Rightarrow> gerr option \<times> 'w) \<Rightarrow> (gerr option \<Rightarrow> os_event) \<Rightarrow>
    'w \<times> os_event list \<Rightarrow> gerr option \<times> ('w \<times> os_event list)" where
  "note_ev f ev s = (case f (fst s) of (r, w') \<Rightarrow> (r, (w', snd s @ [ev r])))"

definition quiet :: "('w \<Rightarrow> 'a \<times> 'w) \<Rightarrow> 'w \<times> 'e list \<Rightarrow> 'a \<times> ('w \<times> 'e list)" where
  "quiet f s = (case f (fst s) of (r, w') \<Rightarrow> (r, (w', snd s)))"

definition traced_os :: "'w os \<Rightarrow> ('w \<times> os_event list) os" where
  "traced_os os =
     \<lparr>os_Mkdir = (\<lambda>p m. note_ev (os_Mkdir os p m) (EvMkdir p m)),
      os_MkdirAll = (\<lambda>p m. note_ev (os_MkdirAll os p m) (EvMkdirAll p m)),
      os_Chown = (\<lambda>p u g. note_ev (os_Chown os p u g) (EvChown p u g)),
      os_Chmod = (\<lambda>p m. note_ev (os_Chmod os p m) (EvChmod p m)),
      os_Symlink = (\<lambda>a b. quiet (os_Symlink os a b)),
      os_Link = (\<lambda>a b. note_ev (os_Link os a b) (EvLink a b)),
      os_Remove = (\<lambda>p. quiet (os_Remove os p)),
      os_RemoveAll = (\<lambda>p. note_ev (os_RemoveAll os p) (EvRemoveAll p)),
      os_Stat = (\<lambda>p. quiet (os_Stat os p)),
      os_Getwd = quiet (os_Getwd os),
      os_ReadFile = (\<lambda>p. quiet (os_ReadFile os p)),
      os_WriteFile = (\<lambda>p c m. quiet (os_WriteFile os p c m)),
      os_ReadDir = (\<lambda>p. quiet (os_ReadDir os p)),
      os_CreateExcl = (\<lambda>p m. quiet (os_CreateExcl os p m)),
      os_WriteString = (\<lambda>p c. quiet (os_WriteString os p c)),
      os_FStatSize = (\<lambda>p. quiet (os_FStatSize os p)),
      os_Truncate = (\<lambda>p n. note_ev (os_Truncate os p n) (EvTruncate p n)),
      os_Open = (\<lambda>p. quiet (os_Open os p)),
      os_Close = (\<lambda>p. quiet (os_Close os p)),
      os_EvalSymlinks = (\<lambda>p. quiet (os_EvalSymlinks os p)),
      os_MknodBlk = (\<lambda>p d. note_ev (os_MknodBlk os p d) (EvMknod p d)),
      os_CpSparse = (\<lambda>a b. note_ev (os_CpSparse os a b) (EvCp a b)),
      os_Signal = (\<lambda>p s. quiet (os_Signal os p s))\<rparr>"

text \<open>An operating system in which every call succeeds, for concrete runs.\<close>

definition os_fine :: "'w os" where
  "os_fine =
     \<lparr>os_Mkdir = (\<lambda>p m w. (None, w)), os_MkdirAll = (\<lambda>p m w. (None, w)),
      os_Chown = (\<lambda>p u g w. (None, w)), os_Chmod = (\<lambda>p m w. (None, w)),
      os_Symlink = (\<lambda>a b w. (None, w)), os_Link = (\<lambda>a b w. (None, w)),
      os_Remove = (\<lambda>p w. (None, w)), os_RemoveAll = (\<lambda>p w. (None, w)),
      os_Stat = (\<lambda>p w. (Inr \<lparr>fi_mode = 0x81A4, fi_rdev = 0, fi_size = 0, fi_isDir = True\<rparr>, w)),
      os_Getwd = (\<lambda>w. (Inr ''/'', w)), os_ReadFile = (\<lambda>p w. (Inr [], w)),
      os_WriteFile = (\<lambda>p c m w. (None, w)), os_ReadDir = (\<lambda>p w. (Inr [], w)),
      os_CreateExcl = (\<lambda>p m w. (None, w)), os_WriteString = (\<lambda>p c w. (None, w)),
      os_FStatSize = (\<lambda>p w. (Inr 22, w)), os_Truncate = (\<lambda>p n w. (None, w)),
      os_Open = (\<lambda>p w. (Inr [], w)), os_Close = (\<lambda>p w. (None, w)),
      os_EvalSymlinks = (\<lambda>p w. (Inr p, w)), os_MknodBlk = (\<lambda>p d w. (None, w)),
      os_CpSparse = (\<lambda>a b w. (None, w)), os_Signal = (\<lambda>p s w. (None, w))\<rparr>"

lemma traced_os_simps [simp]:
  "os_Mkdir (traced_os os) p m = note_ev (os_Mkdir os p m) (EvMkdir p m)"
  "os_MkdirAll (traced_os os) p m = note_ev (os_MkdirAll os p m) (EvMkdirAll p m)"
  "os_EvalSymlinks (traced_os os) p = quiet (os_EvalSymlinks os p)"
  "os_Chown (traced_os os) p u g = note_ev (os_Chown os p u g) (EvChown p u g)"
  "os_Chmod (traced_os os) p md = note_ev (os_Chmod os p md) (EvChmod p md)"
  "os_Link (traced_os os) a b = note_ev (os_Link os a b) (EvLink a b)"
  "os_RemoveAll (traced_os os) p = note_ev (os_RemoveAll os p) (EvRemoveAll p)"
  "os_Truncate (traced_os os) p n = note_ev (os_Truncate os p n) (EvTruncate p n)"
  "os_MknodBlk (traced_os os) p d = note_ev (os_MknodBlk os p d) (EvMknod p d)"
  "os_CpSparse (traced_os os) a b = note_ev (os_CpSparse os a b) (EvCp a b)"
  "os_Stat (traced_os os) p = quiet (os_Stat os p)"
  by (simp_all add: traced_os_def)

lemma note_ev_result:
  "note_ev f ev (w, t) = (r, s) \<longleftrightarrow> (\<exists>w'. f w = (r, w') \<and> s = (w', t @ [ev r]))"
  by (auto simp: note_ev_def split: prod.splits)

lemma quiet_result: "quiet f (w, t) = (r, s) \<longleftrightarrow> (\<exists>w'. f w = (r, w') \<and> s = (w', t))"
  by (auto simp: quiet_def split: prod.splits)

end
