(* ===== verification/GoPath.thy ===== *)
theory GoPath
  imports Prelude
begin

text \<open>
  The lexical functions of Go's \<open>path/filepath\<close> on Unix, as the repository uses them:
  \<open>Clean\<close>, \<open>Join\<close>, \<open>Base\<close> and \<open>Dir\<close>. \<open>Clean\<close> keeps a stack of components, as the
  standard library's loop keeps an output buffer it can back up over. The lemmas give
  the component view of an absolute path, on which the agent's check of mount
  destinations and the shim's directory layout rest.
\<close>

section \<open>The functions\<close>

definition rooted :: "string \<Rightarrow> bool" where
  "rooted p \<longleftrightarrow> (case p of [] \<Rightarrow> False | c # _ \<Rightarrow> c = CHR ''/'')"

fun clean_step :: "bool \<Rightarrow> string list \<Rightarrow> string \<Rightarrow> string list" where
  "clean_step r st c =
     (if c = [] \<or> c = ''.'' then st
      else if c = ''..'' then
        (case st of [] \<Rightarrow> (if r then [] else [''..''])
         | x # xs \<Rightarrow> if x = ''..'' then ''..'' # st else xs)
      else c # st)"

declare clean_step.simps [simp del]

definition clean_comps :: "bool \<Rightarrow> string list \<Rightarrow> string list" where
  "clean_comps r cs = rev (foldl (clean_step r) [] cs)"

definition filepath_Clean :: "string \<Rightarrow> string" where
  "filepath_Clean p =
     (let cs = clean_comps (rooted p) (strings_Split (CHR ''/'') p)
      in if rooted p then CHR ''/'' # strings_Join (CHR ''/'') cs
         else if cs = [] then ''.'' else strings_Join (CHR ''/'') cs)"

definition filepath_Join :: "string list \<Rightarrow> string" where
  "filepath_Join ps =
     (let qs = dropWhile (\<lambda>p. p = []) ps
      in if qs = [] then [] else filepath_Clean (strings_Join (CHR ''/'') qs))"

definition filepath_Base :: "string \<Rightarrow> string" where
  "filepath_Base p =
     (if p = [] then ''.''
      else let q = rev (dropWhile (\<lambda>c. c = CHR ''/'') (rev p));
               b = rev (takeWhile (\<lambda>c. c \<noteq> CHR ''/'') (rev q))
           in if b = [] then ''/'' else b)"

definition filepath_Dir :: "string \<Rightarrow> string" where
  "filepath_Dir p = filepath_Clean (rev (dropWhile (\<lambda>c. c \<noteq> CHR ''/'') (rev p)))"

section \<open>Components of an absolute path\<close>

definition good_comp :: "string \<Rightarrow> bool" where
  "good_comp c \<longleftrightarrow> c \<noteq> [] \<and> c \<noteq> ''.'' \<and> c \<noteq> ''..'' \<and> CHR ''/'' \<notin> set c"

lemma good_comp_no_slash: "good_comp c \<Longrightarrow> CHR ''/'' \<notin> set c"
  by (simp add: good_comp_def)

definition abs_path :: "string list \<Rightarrow> string" where
  "abs_path cs = CHR ''/'' # strings_Join (CHR ''/'') cs"

definition path_comps :: "string \<Rightarrow> string list" where
  "path_comps p = clean_comps True (strings_Split (CHR ''/'') p)"

lemma rooted_abs_path [simp]: "rooted (abs_path cs)"
  by (simp add: rooted_def abs_path_def)

lemma rooted_Cons [simp]: "rooted (c # p) \<longleftrightarrow> c = CHR ''/''"
  by (simp add: rooted_def)

lemma rooted_Nil [simp]: "\<not> rooted []"
  by (simp add: rooted_def)

lemma clean_step_good: "good_comp c \<Longrightarrow> clean_step r st c = c # st"
  by (simp add: clean_step.simps good_comp_def)

lemma clean_step_Nil [simp]: "clean_step r st [] = st"
  by (simp add: clean_step.simps)

lemma foldl_clean_step_good:
  "\<forall>c \<in> set cs. good_comp c \<Longrightarrow> foldl (clean_step r) st cs = rev cs @ st"
  by (induction cs arbitrary: st) (simp_all add: clean_step_good)

lemma clean_comps_good: "\<forall>c \<in> set cs. good_comp c \<Longrightarrow> clean_comps r cs = cs"
  by (simp add: clean_comps_def foldl_clean_step_good)

lemma not_good_dotdot [simp]: "\<not> good_comp ''..''"
  by (simp add: good_comp_def)

lemma clean_step_rooted_good:
  assumes "\<forall>c \<in> set st. good_comp c" and "CHR ''/'' \<notin> set c"
  shows "\<forall>c \<in> set (clean_step True st c). good_comp c"
proof (cases "c = [] \<or> c = ''.''")
  case True
  with assms show ?thesis by (simp add: clean_step.simps)
next
  case False
  show ?thesis
  proof (cases "c = ''..''")
    case True
    with assms show ?thesis
      by (cases st) (auto simp: clean_step.simps)
  next
    case nd: False
    with False assms(2) have "good_comp c" by (simp add: good_comp_def)
    with assms(1) show ?thesis by (simp add: clean_step_good)
  qed
qed

lemma foldl_clean_step_rooted_good:
  assumes "\<forall>c \<in> set st. good_comp c" and "\<forall>c \<in> set cs. CHR ''/'' \<notin> set c"
  shows "\<forall>c \<in> set (foldl (clean_step True) st cs). good_comp c"
  using assms
proof (induction cs arbitrary: st)
  case (Cons c cs)
  from Cons.prems have "\<forall>d \<in> set (clean_step True st c). good_comp d"
    by (intro clean_step_rooted_good) simp_all
  with Cons show ?case by simp
qed simp

lemma path_comps_good: "\<forall>c \<in> set (path_comps p). good_comp c"
proof -
  have "\<forall>c \<in> set (strings_Split (CHR ''/'') p). CHR ''/'' \<notin> set c"
    using strings_Split_no_sep by blast
  then have "\<forall>c \<in> set (foldl (clean_step True) [] (strings_Split (CHR ''/'') p)). good_comp c"
    by (intro foldl_clean_step_rooted_good) simp_all
  then show ?thesis
    by (simp add: path_comps_def clean_comps_def)
qed

lemma filepath_Clean_rooted: "rooted p \<Longrightarrow> filepath_Clean p = abs_path (path_comps p)"
  by (simp add: filepath_Clean_def abs_path_def path_comps_def Let_def)

lemma strings_Split_slash_Cons [simp]:
  "strings_Split (CHR ''/'') (CHR ''/'' # s) = [] # strings_Split (CHR ''/'') s"
  by simp

lemma path_comps_slash [simp]: "path_comps (CHR ''/'' # s) = path_comps s"
  by (simp add: path_comps_def clean_comps_def)

lemma path_comps_Join:
  assumes "\<forall>c \<in> set cs. good_comp c"
  shows "path_comps (strings_Join (CHR ''/'') cs) = cs"
proof (cases "cs = []")
  case True
  then show ?thesis by (simp add: path_comps_def clean_comps_def)
next
  case False
  with assms have "strings_Split (CHR ''/'') (strings_Join (CHR ''/'') cs) = cs"
    by (intro strings_Split_Join) (auto simp: good_comp_def)
  with assms show ?thesis by (simp add: path_comps_def clean_comps_good)
qed

lemma path_comps_abs_path [simp]:
  "\<forall>c \<in> set cs. good_comp c \<Longrightarrow> path_comps (abs_path cs) = cs"
  by (simp add: abs_path_def path_comps_Join)

lemma filepath_Clean_abs_path [simp]:
  "\<forall>c \<in> set cs. good_comp c \<Longrightarrow> filepath_Clean (abs_path cs) = abs_path cs"
  by (simp add: filepath_Clean_rooted)

lemma abs_path_inject:
  assumes "\<forall>c \<in> set cs. good_comp c" "\<forall>c \<in> set ds. good_comp c"
  shows "abs_path cs = abs_path ds \<longleftrightarrow> cs = ds"
  by (metis assms path_comps_abs_path)

lemma filepath_Clean_idem_rooted: "rooted p \<Longrightarrow> filepath_Clean (filepath_Clean p) = filepath_Clean p"
  by (simp add: filepath_Clean_rooted path_comps_good)

lemma path_comps_append_slash:
  "path_comps (s @ CHR ''/'' # t) =
     rev (foldl (clean_step True) (rev (path_comps s)) (strings_Split (CHR ''/'') t))"
  by (simp add: path_comps_def clean_comps_def strings_Split_append)

text \<open>A path that is already clean and absolute is the path of its components.\<close>

definition clean_abs :: "string \<Rightarrow> bool" where
  "clean_abs p \<longleftrightarrow> rooted p \<and> filepath_Clean p = p"

lemma clean_absE:
  assumes "clean_abs p"
  obtains cs where "p = abs_path cs" "\<forall>c \<in> set cs. good_comp c" "path_comps p = cs"
proof
  show "p = abs_path (path_comps p)"
    using assms by (metis clean_abs_def filepath_Clean_rooted)
qed (simp_all add: path_comps_good)

lemma clean_abs_abs_path: "\<forall>c \<in> set cs. good_comp c \<Longrightarrow> clean_abs (abs_path cs)"
  by (simp add: clean_abs_def)

text \<open>Joining components without a slash, dot or dot-dot onto a clean absolute path.\<close>

lemma filepath_Join_good:
  assumes "\<forall>c \<in> set cs. good_comp c" "\<forall>c \<in> set ds. good_comp c"
  shows "filepath_Join (abs_path cs # ds) = abs_path (cs @ ds)"
proof -
  have "filepath_Join (abs_path cs # ds) = filepath_Clean (strings_Join (CHR ''/'') (abs_path cs # ds))"
    by (simp add: filepath_Join_def abs_path_def)
  also have "\<dots> = abs_path (path_comps (strings_Join (CHR ''/'') (abs_path cs # ds)))"
    by (rule filepath_Clean_rooted) (simp add: strings_Join_Cons rooted_def abs_path_def)
  also have "path_comps (strings_Join (CHR ''/'') (abs_path cs # ds)) = cs @ ds"
  proof (cases "ds = []")
    case True
    with assms show ?thesis by (simp add: strings_Join_Cons)
  next
    case False
    with assms have "strings_Split (CHR ''/'') (strings_Join (CHR ''/'') ds) = ds"
      by (intro strings_Split_Join) (auto simp: good_comp_def)
    with False assms show ?thesis
      by (simp add: strings_Join_Cons path_comps_append_slash foldl_clean_step_good)
  qed
  finally show ?thesis .
qed

lemma abs_path_snoc_inject:
  assumes "\<forall>c \<in> set cs. good_comp c" "good_comp a" "good_comp b"
  shows "filepath_Join [abs_path cs, a] = filepath_Join [abs_path cs, b] \<longleftrightarrow> a = b"
  using assms by (simp add: filepath_Join_good abs_path_inject)

section \<open>Base\<close>

lemma filepath_Base_snoc:
  assumes "good_comp c"
  shows "filepath_Base (s @ CHR ''/'' # c) = c"
proof -
  obtain d ds where c: "rev c = d # ds" and d: "d \<noteq> CHR ''/''"
    using assms by (cases "rev c") (auto simp: good_comp_def)
  have nosl: "\<forall>x \<in> set (rev c). x \<noteq> CHR ''/''"
    using assms by (auto simp: good_comp_def)
  have 1: "dropWhile (\<lambda>c. c = CHR ''/'') (rev (s @ CHR ''/'' # c)) = rev (s @ CHR ''/'' # c)"
    using c d by simp
  have 2: "takeWhile (\<lambda>c. c \<noteq> CHR ''/'') (rev c @ CHR ''/'' # rev s) = rev c"
    using nosl by (subst takeWhile_append2) auto
  from 1 2 assms show ?thesis
    by (simp add: filepath_Base_def Let_def good_comp_def del: takeWhile_append takeWhile_append2)
qed

lemma filepath_Base_abs_path:
  assumes "\<forall>c \<in> set (cs @ [c]). good_comp c"
  shows "filepath_Base (abs_path (cs @ [c])) = c"
proof (cases "cs = []")
  case True
  with assms show ?thesis
    using filepath_Base_snoc[of c "[]"] by (simp add: abs_path_def)
next
  case False
  then have "abs_path (cs @ [c]) = abs_path cs @ CHR ''/'' # c"
    by (simp add: abs_path_def strings_Join_append)
  with assms show ?thesis by (simp add: filepath_Base_snoc)
qed

text \<open>Joining a name onto any directory at all keeps the name.\<close>

lemma Clean_snoc:
  assumes "good_comp c"
  shows "filepath_Base (filepath_Clean (p @ CHR ''/'' # c)) = c" and "filepath_Base (filepath_Clean c) = c"
proof -
  have sc: "strings_Split (CHR ''/'') c = [c]" using good_comp_no_slash[OF assms] by (rule strings_Split_word)
  have base: "filepath_Base (strings_Join (CHR ''/'') (cs @ [c])) = c" for cs
  proof (cases "cs = []")
    case True
    have "rev c \<noteq> []" "\<forall>x \<in> set (rev c). x \<noteq> CHR ''/''" using assms by (auto simp: good_comp_def)
    then have d: "dropWhile (\<lambda>x. x = CHR ''/'') (rev c) = rev c" and t: "takeWhile (\<lambda>x. x \<noteq> CHR ''/'') (rev c) = rev c"
      by (cases "rev c", simp_all only: dropWhile.simps takeWhile_eq_all_conv list.set_intros if_False)
    have "c \<noteq> []" using assms by (simp add: good_comp_def)
    with True show ?thesis by (simp only: append_Nil strings_Join.simps filepath_Base_def Let_def d rev_rev_ident t if_False)
  next
    case False
    then have "strings_Join (CHR ''/'') (cs @ [c]) = strings_Join (CHR ''/'') cs @ CHR ''/'' # c"
      by (simp add: strings_Join_append)
    with assms show ?thesis by (simp add: filepath_Base_snoc)
  qed
  have base2: "filepath_Base (CHR ''/'' # strings_Join (CHR ''/'') (cs @ [c])) = c" for cs
  proof (cases "cs = []")
    case True
    with filepath_Base_snoc[OF assms, of "[]"] show ?thesis by simp
  next
    case False
    then have "CHR ''/'' # strings_Join (CHR ''/'') (cs @ [c]) = (CHR ''/'' # strings_Join (CHR ''/'') cs) @ CHR ''/'' # c"
      by (simp add: strings_Join_append)
    with assms show ?thesis by (simp only: filepath_Base_snoc)
  qed
  have cc: "clean_comps r (cs @ [c]) = clean_comps r cs @ [c]" for r cs
    using assms by (simp add: clean_comps_def clean_step_good)
  show "filepath_Base (filepath_Clean (p @ CHR ''/'' # c)) = c"
    by (simp add: filepath_Clean_def Let_def strings_Split_append sc cc base base2)
  have "clean_comps (rooted c) [c] = [c]" using cc[of "rooted c" "[]"] by (simp add: clean_comps_def)
  moreover have "\<not> rooted c" using good_comp_no_slash[OF assms] by (cases c) (auto simp: rooted_def)
  ultimately show "filepath_Base (filepath_Clean c) = c"
    using base[of "[]"] by (simp add: filepath_Clean_def Let_def sc)
qed

lemma filepath_Base_Join:
  assumes "good_comp c"
  shows "filepath_Base (filepath_Join [dir, c]) = c"
  using assms Clean_snoc[OF assms] by (auto simp: filepath_Join_def good_comp_def strings_Join_Cons)

section \<open>Relative paths\<close>

text \<open>\<open>filepath.Rel\<close>: the components that differ, after as many \<open>..\<close> as the base has left.\<close>

fun strip_common :: "'a list \<Rightarrow> 'a list \<Rightarrow> 'a list \<times> 'a list" where
  "strip_common (b # bs) (t # ts) = (if b = t then strip_common bs ts else (b # bs, t # ts))"
| "strip_common bs ts = (bs, ts)"

definition words_of :: "string \<Rightarrow> string list" where
  "words_of p = filter (\<lambda>c. c \<noteq> []) (strings_Split (CHR ''/'') p)"

definition filepath_Rel :: "string \<Rightarrow> string \<Rightarrow> gerr + string" where
  "filepath_Rel basepath targpath =
     (let base = filepath_Clean basepath; targ = filepath_Clean targpath in
      if targ = base then Inr ''.''
      else
        let base = (if base = ''.'' then [] else base) in
        if rooted base \<noteq> rooted targ
        then Inl (Errorf ''Rel: can't make %s relative to %s'' [targpath, basepath])
        else
          case strip_common (words_of base) (words_of targ) of
            (bs, ts) \<Rightarrow>
              if bs \<noteq> [] \<and> hd bs = ''..''
              then Inl (Errorf ''Rel: can't make %s relative to %s'' [targpath, basepath])
              else Inr (strings_Join (CHR ''/'') (map (\<lambda>_. ''..'') bs @ ts)))"

lemma words_of_abs_path:
  assumes "\<forall>c \<in> set cs. good_comp c"
  shows "words_of (abs_path cs) = cs"
proof (cases "cs = []")
  case True
  then show ?thesis by (simp add: words_of_def abs_path_def)
next
  case False
  with assms have "strings_Split (CHR ''/'') (strings_Join (CHR ''/'') cs) = cs"
    by (intro strings_Split_Join) (auto simp: good_comp_def)
  moreover have "filter (\<lambda>c. c \<noteq> []) cs = cs"
    using assms by (auto simp: filter_id_conv good_comp_def)
  ultimately show ?thesis by (simp add: words_of_def abs_path_def)
qed

lemma strip_common_split:
  "strip_common bs ts = (bs', ts') \<Longrightarrow> \<exists>pre. bs = pre @ bs' \<and> ts = pre @ ts'"
proof (induction bs ts rule: strip_common.induct)
  case (1 b bs t ts)
  show ?case
  proof (cases "b = t")
    case True
    with 1 obtain pre where "bs = pre @ bs'" "ts = pre @ ts'" by auto
    with True show ?thesis by (intro exI[of _ "b # pre"]) simp
  next
    case False
    with 1 show ?thesis by simp
  qed
qed simp_all

lemma clean_step_dotdot_good:
  "good_comp x \<Longrightarrow> clean_step r (x # st) ''..'' = st"
  by (auto simp: clean_step.simps)

lemma foldl_dotdots:
  "\<forall>c \<in> set xs. good_comp c \<Longrightarrow> foldl (clean_step r) (xs @ st) (map (\<lambda>_. ''..'') xs) = st"
  by (induction xs) (simp_all add: clean_step_dotdot_good)

text \<open>Going from the base along the relative path ends at the target.\<close>

lemma filepath_Rel_Join:
  assumes "\<forall>c \<in> set cs. good_comp c" "\<forall>c \<in> set ds. good_comp c"
  shows "\<exists>r. filepath_Rel (abs_path cs) (abs_path ds) = Inr r \<and>
     filepath_Join [abs_path cs, r] = abs_path ds"
proof (cases "cs = ds")
  case True
  have "path_comps (abs_path ds @ CHR ''/'' # ''.'') = ds"
    using assms by (simp add: path_comps_append_slash clean_step.simps)
  moreover have "filepath_Join [abs_path ds, ''.''] = filepath_Clean (abs_path ds @ CHR ''/'' # ''.'')"
    by (simp add: filepath_Join_def abs_path_def)
  moreover have "rooted (abs_path ds @ CHR ''/'' # ''.'')"
    by (simp add: rooted_def abs_path_def)
  ultimately have "filepath_Join [abs_path ds, ''.''] = abs_path ds"
    by (simp only: filepath_Clean_rooted)
  moreover have "filepath_Rel (abs_path ds) (abs_path ds) = Inr ''.''"
    by (simp add: filepath_Rel_def)
  ultimately show ?thesis using True by blast
next
  case False
  obtain bs ts where st: "strip_common cs ds = (bs, ts)" by (cases "strip_common cs ds")
  then obtain pre where pre: "cs = pre @ bs" "ds = pre @ ts" using strip_common_split by blast
  let ?r = "map (\<lambda>_. ''..'') bs @ ts"
  have ne: "?r \<noteq> []" using False pre by auto
  have nd: "abs_path cs \<noteq> ''.''" by (simp add: abs_path_def)
  have good: "good_comp c" if "c \<in> set bs" for c using that pre assms by auto
  then have nodd: "\<not> (bs \<noteq> [] \<and> hd bs = ''..'')" by (metis list.set_sel(1) not_good_dotdot)
  have neq: "abs_path ds \<noteq> abs_path cs" using False assms by (simp add: abs_path_inject)
  have rel: "filepath_Rel (abs_path cs) (abs_path ds) = Inr (strings_Join (CHR ''/'') ?r)"
    using assms neq nd nodd st by (simp add: filepath_Rel_def words_of_abs_path Let_def)
  have "\<forall>c \<in> set ts. good_comp c" using pre assms by simp
  then have sl: "\<forall>c \<in> set ?r. CHR ''/'' \<notin> set c"
    by (auto dest: good_comp_no_slash)
  have "path_comps (abs_path cs @ CHR ''/'' # strings_Join (CHR ''/'') ?r) =
      rev (foldl (clean_step True) (rev cs) ?r)"
    using assms by (simp only: path_comps_append_slash path_comps_abs_path
        strings_Split_Join[OF ne sl])
  also have "foldl (clean_step True) (rev cs) ?r = foldl (clean_step True) (rev pre) ts"
    using foldl_dotdots[of "rev bs" True "rev pre"] good by (simp add: pre rev_map[symmetric] map_replicate_const)
  also have "rev (foldl (clean_step True) (rev pre) ts) = ds"
    using assms pre by (simp add: foldl_clean_step_good)
  finally have "path_comps (abs_path cs @ CHR ''/'' # strings_Join (CHR ''/'') ?r) = ds" .
  moreover have "filepath_Join [abs_path cs, strings_Join (CHR ''/'') ?r] =
      filepath_Clean (abs_path cs @ CHR ''/'' # strings_Join (CHR ''/'') ?r)"
    by (simp add: filepath_Join_def abs_path_def)
  moreover have "rooted (abs_path cs @ CHR ''/'' # strings_Join (CHR ''/'') ?r)"
    by (simp add: rooted_def abs_path_def)
  ultimately show ?thesis using rel by (simp add: filepath_Clean_rooted)
qed

text \<open>Evaluation on closed paths.\<close>

lemmas path_eval [path_simps] =
  filepath_Clean_def filepath_Join_def filepath_Base_def filepath_Dir_def
  clean_comps_def clean_step.simps

end
