(* ===== verification/StubContent.thy ===== *)
theory StubContent
  imports Prelude
begin

text \<open>
  The stub drive format of \<open>internal/common.go\<close>: eight magic bytes, a length, and a
  drive id. The host writes it into every stub drive (\<open>GenerateStubContent\<close>); the agent
  recognises stub drives by it and reads the drive id back (\<open>IsStubDrive\<close>,
  \<open>ParseStubContent\<close>).

  An \<open>io.Reader\<close> is a function that is given the size of the buffer and returns the
  bytes read, an error and the reader's next state. The locale \<open>full_reader\<close> is the
  contract of a reader that fills the buffer as long as it has data, which a file does.
\<close>

section \<open>Readers\<close>

type_synonym 'r reader = "nat \<Rightarrow> 'r \<Rightarrow> (string \<times> gerr option) \<times> 'r"

text \<open>\<open>io.LimitReader(r, lim).Read(buf)\<close> for a buffer of \<open>n\<close> bytes, called once.\<close>

definition limit_read :: "'r reader \<Rightarrow> nat \<Rightarrow> nat \<Rightarrow> 'r \<Rightarrow> (string \<times> gerr option) \<times> 'r" where
  "limit_read rd lim n r = (if lim = 0 then (([], Some EOF), r) else rd (min n lim) r)"

text \<open>The buffer after a read: \<open>make([]byte, n)\<close> is all zero.\<close>

definition fill_buf :: "nat \<Rightarrow> string \<Rightarrow> string" where
  "fill_buf n bs = bs @ replicate (n - length bs) (char_of (0::nat))"

text \<open>A file (the state is what is left to read), as \<open>*os.File\<close> reads it.\<close>

definition file_read :: "string reader" where
  "file_read n s =
     (if n = 0 then (([], None), s)
      else if s = [] then (([], Some EOF), s)
      else ((take n s, None), drop n s))"

locale full_reader =
  fixes rd :: "'r reader" and content :: "'r \<Rightarrow> string"
  assumes read_data:
    "0 < n \<Longrightarrow> content r \<noteq> [] \<Longrightarrow>
       \<exists>r'. rd n r = ((take n (content r), None), r') \<and> content r' = drop n (content r)"
    and read_end: "0 < n \<Longrightarrow> content r = [] \<Longrightarrow> \<exists>r'. rd n r = (([], Some EOF), r') \<and> content r' = []"

section \<open>The format\<close>

definition MagicStubBytes :: string where
  "MagicStubBytes = map (\<lambda>c::nat. char_of c) [214, 244, 216, 245, 215, 177, 177, 177]"

definition IsStubDrive :: "'r reader \<Rightarrow> 'r \<Rightarrow> bool \<times> 'r" where
  "IsStubDrive rd r =
     (case limit_read rd (length MagicStubBytes) (length MagicStubBytes) r of
        ((buf, Some err), r1) \<Rightarrow> (False, r1)
      | ((buf, None), r1) \<Rightarrow>
          (if length buf \<noteq> length MagicStubBytes then (False, r1)
           else (buf = MagicStubBytes, r1)))"

definition ParseStubContent :: "'r reader \<Rightarrow> 'r \<Rightarrow> (gerr + string) \<times> 'r" where
  "ParseStubContent rd r =
     (case limit_read rd (length MagicStubBytes) (length MagicStubBytes) r of
        ((_, Some err), r1) \<Rightarrow> (Inl err, r1)
      | ((_, None), r1) \<Rightarrow>
          (case limit_read rd 1 1 r1 of
             ((_, Some err), r2) \<Rightarrow> (Inl err, r2)
           | ((sizeByte, None), r2) \<Rightarrow>
               (let n = of_char (fill_buf 1 sizeByte ! 0) in
                case limit_read rd n n r2 of
                  ((_, Some err), r3) \<Rightarrow> (Inl err, r3)
                | ((idBytes, None), r3) \<Rightarrow> (Inr (fill_buf n idBytes), r3))))"

text \<open>
  \<open>%c\<close> of \<open>fmt\<close> writes the UTF-8 encoding of the code point, one byte below 128 and
  two bytes from 128 to 255.
\<close>

definition fmt_c :: "nat \<Rightarrow> string" where
  "fmt_c n = (if n < 128 then [char_of n] else [char_of (0xC0 + n div 64), char_of (0x80 + n mod 64)])"

definition GenerateStubContent :: "string \<Rightarrow> gerr + string" where
  "GenerateStubContent i =
     (if length i > 0xFF
      then Inl (Errorf ''Length of drive id, %d, is too long and is limited to %d bytes''
                  [utoa (length i), utoa 0xFF])
      else Inr (MagicStubBytes @ fmt_c (length i) @ i))"

section \<open>Any full reader\<close>

lemma length_MagicStubBytes [simp]: "length MagicStubBytes = 8"
  by (simp add: MagicStubBytes_def)

lemma MagicStubBytes_nonempty [simp]: "MagicStubBytes \<noteq> []"
  by (simp add: MagicStubBytes_def)

lemma fill_buf_full [simp]: "length bs = n \<Longrightarrow> fill_buf n bs = bs"
  by (simp add: fill_buf_def)

context full_reader
begin

lemma limit_read_data:
  assumes "0 < n" "content r = bs @ rest" "length bs = n"
  shows "\<exists>r'. limit_read rd n n r = ((bs, None), r') \<and> content r' = rest"
proof -
  from assms have "content r \<noteq> []" by auto
  from read_data[OF assms(1) this] assms show ?thesis
    by (simp add: limit_read_def)
qed

text \<open>What the parser returns on well-formed content, whatever follows it.\<close>

lemma Parse_wellformed:
  assumes "content r = MagicStubBytes @ char_of n # i @ rest" "length i = n" "0 < n" "n < 256"
  shows "\<exists>r'. ParseStubContent rd r = (Inr i, r') \<and> content r' = rest"
proof -
  from assms(1) obtain r1 where 1: "limit_read rd 8 8 r = ((MagicStubBytes, None), r1)"
    "content r1 = [char_of n] @ i @ rest"
    using limit_read_data[of 8 r MagicStubBytes "char_of n # i @ rest"] by auto
  obtain r2 where 2: "limit_read rd 1 1 r1 = (([char_of n], None), r2)" "content r2 = i @ rest"
    using limit_read_data[OF _ 1(2)] by auto
  obtain r3 where 3: "limit_read rd n n r2 = ((i, None), r3)" "content r3 = rest"
    using limit_read_data[OF assms(3) 2(2) assms(2)] by auto
  have "n mod 256 = n" using assms(4) by simp
  then show ?thesis
    using 1(1) 2(1) 3 assms(2)
    by (simp add: ParseStubContent_def Let_def)
qed

lemma Parse_zero_length:
  assumes "content r = MagicStubBytes @ char_of (0::nat) # rest"
  shows "\<exists>r'. ParseStubContent rd r = (Inl EOF, r') \<and> content r' = rest"
proof -
  from assms obtain r1 where 1: "limit_read rd 8 8 r = ((MagicStubBytes, None), r1)"
    "content r1 = [char_of (0::nat)] @ rest"
    using limit_read_data[of 8 r MagicStubBytes "char_of (0::nat) # rest"] by auto
  obtain r2 where 2: "limit_read rd 1 1 r1 = (([char_of (0::nat)], None), r2)" "content r2 = rest"
    using limit_read_data[OF _ 1(2)] by auto
  from 1(1) 2 show ?thesis
    by (simp add: ParseStubContent_def limit_read_def[of rd 0] Let_def)
qed

lemma IsStubDrive_iff:
  "fst (IsStubDrive rd r) \<longleftrightarrow> (\<exists>rest. content r = MagicStubBytes @ rest)"
proof (cases "content r = []")
  case True
  then obtain r' where "rd 8 r = (([], Some EOF), r')" using read_end[of 8 r] by auto
  with True show ?thesis by (simp add: IsStubDrive_def limit_read_def)
next
  case False
  then obtain r' where r': "rd 8 r = ((take 8 (content r), None), r')"
    using read_data[of 8 r] by auto
  have "take 8 (content r) = MagicStubBytes \<longleftrightarrow> (\<exists>rest. content r = MagicStubBytes @ rest)"
    by (metis append_eq_conv_conj append_take_drop_id length_MagicStubBytes)
  with r' show ?thesis
    by (auto simp: IsStubDrive_def limit_read_def)
qed

lemma Generate_Parse:
  assumes "GenerateStubContent i = Inr c" "content r = c @ rest" "0 < length i" "length i < 128"
  shows "\<exists>r'. ParseStubContent rd r = (Inr i, r') \<and> content r' = rest"
  using assms Parse_wellformed[of r "length i" i rest]
  by (auto simp: GenerateStubContent_def fmt_c_def split: if_splits)

lemma Generate_IsStubDrive:
  "GenerateStubContent i = Inr c \<Longrightarrow> content r = c @ rest \<Longrightarrow> fst (IsStubDrive rd r)"
  by (auto simp: IsStubDrive_iff GenerateStubContent_def split: if_splits)

end

interpretation file_r: full_reader file_read "\<lambda>s. s"
  by unfold_locales (auto simp: file_read_def)

section \<open>Files\<close>

lemma take_of_longer:
  assumes "length i = n" "0 < n"
  shows "take n (c # i @ rest) = c # butlast i"
  using assms by (cases n) (auto simp: butlast_conv_take)

text \<open>
  The parser on content that the generator wrote for an id of 128 bytes or more: it
  reads the first byte of the two-byte encoding as the length.
\<close>

lemma Parse_long_id:
  assumes "128 \<le> length i" "length i < 256"
  defines "n \<equiv> 0xC0 + length i div 64"
  shows "ParseStubContent file_read (MagicStubBytes @ fmt_c (length i) @ i @ rest) =
     (Inr (fill_buf n (take n (char_of (0x80 + length i mod 64) # i @ rest))),
      drop n (char_of (0x80 + length i mod 64) # i @ rest))"
proof -
  let ?c = "char_of (0x80 + length i mod 64) :: char"
  have "length i div 64 < 4" using assms(2) by simp
  then have n: "n < 256" "0 < n" by (simp_all add: n_def)
  have f: "fmt_c (length i) = [char_of n, ?c]"
    using assms by (simp add: fmt_c_def)
  have 1: "limit_read file_read 8 8 (MagicStubBytes @ fmt_c (length i) @ i @ rest) =
      ((MagicStubBytes, None), char_of n # ?c # i @ rest)"
    by (simp add: limit_read_def file_read_def f)
  have 2: "limit_read file_read 1 1 (char_of n # ?c # i @ rest) =
      (([char_of n], None), ?c # i @ rest)"
    by (simp add: limit_read_def file_read_def)
  have 3: "limit_read file_read n n (?c # i @ rest) =
      ((take n (?c # i @ rest), None), drop n (?c # i @ rest))"
    using n by (simp add: limit_read_def file_read_def)
  have "n mod 256 = n" using n by simp
  then show ?thesis
    using 1 2 3 by (simp add: ParseStubContent_def Let_def)
qed

section \<open>Properties\<close>

text \<open>
  the drive id that the host writes into a stub drive is the one the agent reads
  back, and the drive is recognised as a stub, for ids of 1 to 127 bytes and whatever
  bytes follow in the file (the padding to the sector size).
\<close>

theorem stub_content_roundtrip:
  assumes "0 < length i" "length i < 128"
  shows "\<exists>c. GenerateStubContent i = Inr c \<and>
     ParseStubContent file_read (c @ pad) = (Inr i, pad) \<and> fst (IsStubDrive file_read (c @ pad))"
proof -
  obtain c where c: "GenerateStubContent i = Inr c"
    using assms by (simp add: GenerateStubContent_def)
  with assms file_r.Generate_Parse[OF c refl, of pad] file_r.Generate_IsStubDrive[OF c refl, of pad]
  show ?thesis by simp
qed

theorem stub_content_roundtrip_witness:
  "\<exists>c. GenerateStubContent ''IN2HE43UOVRDA'' = Inr c \<and>
     ParseStubContent file_read (c @ ''pad'') = (Inr ''IN2HE43UOVRDA'', ''pad'') \<and>
     fst (IsStubDrive file_read (c @ ''pad''))"
  using stub_content_roundtrip[of "''IN2HE43UOVRDA''" "''pad''"] by simp

text \<open>
  the length byte is printed with the verb \<open>%c\<close>, which encodes it as UTF-8: for every
  ASCII id of 128 to 255 bytes \<open>GenerateStubContent\<close> succeeds, but what the agent parses is
  another string.
\<close>

theorem stub_content_long_id_corrupted:
  assumes "128 \<le> length i" "length i < 256" "\<forall>c \<in> set i. (of_char c :: nat) < 128"
  shows "\<exists>c i'. GenerateStubContent i = Inr c \<and>
     fst (ParseStubContent file_read (c @ pad)) = Inr i' \<and> i' \<noteq> i"
proof -
  let ?n = "0xC0 + length i div 64"
  let ?c = "char_of (0x80 + length i mod 64) :: char"
  let ?i = "fill_buf ?n (take ?n (?c # i @ pad))"
  have "(of_char ?c :: nat) = 0x80 + length i mod 64" by simp
  moreover have "?i ! 0 = ?c" by (simp add: fill_buf_def take_Cons')
  ultimately have "128 \<le> (of_char (?i ! 0) :: nat)" by simp
  moreover have "0 < length i" using assms(1) by linarith
  then have "(of_char (i ! 0) :: nat) < 128" using assms(3) by simp
  ultimately have "?i \<noteq> i" by (metis not_le)
  then show ?thesis
    using assms(1,2) Parse_long_id[OF assms(1,2), of pad] by (simp add: GenerateStubContent_def)
qed

theorem stub_content_long_id_corrupted_witness:
  "\<exists>c i'. GenerateStubContent (replicate 130 (CHR ''A'')) = Inr c \<and>
     fst (ParseStubContent file_read (c @ '''')) = Inr i' \<and> i' \<noteq> replicate 130 (CHR ''A'')"
  using stub_content_long_id_corrupted[of "replicate 130 (CHR ''A'')" "''''"] by simp

end
