(* ===== verification/FcTypes.thy ===== *)
theory FcTypes
  imports Prelude
begin

text \<open>
  The messages of \<open>proto/*.proto\<close> that clients send, the parts of the Firecracker SDK's
  configuration types that the runtime fills, and \<open>runtime/helpers.go\<close>, which converts
  the former into the latter. A pointer field is an option, \<open>repeated\<close> is a list, a
  \<open>uint32\<close> is a \<open>32 word\<close> and an \<open>int64\<close> an \<open>int\<close> kept in range by \<open>i64\<close>.
  The SDK's token bucket builder and Go's address parsers are parameters.
\<close>

definition i64 :: "int \<Rightarrow> int" where
  "i64 i = signed_take_bit 63 i"

lemma i64_id: "- (2 ^ 63) \<le> i \<Longrightarrow> i < 2 ^ 63 \<Longrightarrow> i64 i = i"
  by (simp add: i64_def signed_take_bit_int_eq_self)

section \<open>Messages\<close>

record FirecrackerTokenBucket =
  OneTimeBurst :: int
  RefillTime :: int
  Capacity :: int

record FirecrackerRateLimiter =
  Bandwidth :: "FirecrackerTokenBucket option"
  Ops :: "FirecrackerTokenBucket option"

record FirecrackerDriveMount =
  dm_HostPath :: string
  dm_VMPath :: string
  dm_FilesystemType :: string
  dm_Options :: "string list"
  dm_RateLimiter :: "FirecrackerRateLimiter option"
  dm_IsWritable :: bool

record FirecrackerRootDrive =
  rd_HostPath :: string
  rd_Partuuid :: string
  rd_IsWritable :: bool
  rd_RateLimiter :: "FirecrackerRateLimiter option"

record FirecrackerMachineConfiguration =
  mc_CPUTemplate :: string
  mc_HtEnabled :: bool
  mc_MemSizeMib :: "32 word"
  mc_VcpuCount :: "32 word"

record IPConfiguration =
  PrimaryAddr :: string
  GatewayAddr :: string
  Nameservers :: "string list"

record StaticNetworkConfiguration =
  sn_MacAddress :: string
  sn_HostDevName :: string
  sn_IPConfig :: "IPConfiguration option"

record CNIConfiguration =
  cni_NetworkName :: string
  cni_InterfaceName :: string
  cni_BinPath :: "string list"
  cni_ConfDir :: string
  cni_CacheDir :: string
  cni_Args :: "(string \<times> string) list"

record FirecrackerNetworkInterface =
  AllowMMDS :: bool
  InRateLimiter :: "FirecrackerRateLimiter option"
  OutRateLimiter :: "FirecrackerRateLimiter option"
  CNIConfig :: "CNIConfiguration option"
  StaticConfig :: "StaticNetworkConfiguration option"

record ReqJailerConfig =
  rj_NetNS :: string
  rj_CPUs :: string
  rj_Mems :: string
  rj_UID :: "32 word"
  rj_GID :: "32 word"
  rj_CgroupPath :: string

text \<open>\<open>NetworkInterfaces\<close> is \<open>None\<close> for a nil list.\<close>

record CreateVMRequest =
  VMID :: string
  MachineCfg :: "FirecrackerMachineConfiguration option"
  KernelImagePath :: string
  KernelArgs :: string
  RootDrive :: "FirecrackerRootDrive option"
  DriveMounts :: "FirecrackerDriveMount list"
  NetworkInterfaces :: "FirecrackerNetworkInterface list option"
  ContainerCount :: "32 word"
  ExitAfterAllTasksDeleted :: bool
  JailerConfig :: "ReqJailerConfig option"
  TimeoutSeconds :: "32 word"

text \<open>The agent's drive mounter service.\<close>

record MountDriveRequest =
  mdr_DriveID :: string
  DestinationPath :: string
  FilesytemType :: string
  mdr_Options :: "string list"

record 'w DriveMounterService =
  svc_MountDrive :: "MountDriveRequest \<Rightarrow> 'w \<Rightarrow> gerr option \<times> 'w"
  svc_UnmountDrive :: "string \<Rightarrow> 'w \<Rightarrow> gerr option \<times> 'w"

section \<open>The SDK's types\<close>

record TokenBucket =
  tb_OneTimeBurst :: "int option"
  tb_RefillTime :: "int option"
  tb_Size :: "int option"

record RateLimiter =
  rl_Bandwidth :: "TokenBucket option"
  rl_Ops :: "TokenBucket option"

record Drive =
  DriveID :: string
  PathOnHost :: string
  IsReadOnly :: bool
  drive_RateLimiter :: "RateLimiter option"
  IsRootDevice :: bool
  Partuuid :: string

record MachineConfiguration =
  CPUTemplate :: string
  VcpuCount :: int
  MemSizeMib :: int
  HtEnabled :: bool

record 'ip StaticConfiguration =
  sc_HostDevName :: string
  sc_MacAddress :: string
  sc_IPConfiguration :: "('ip \<times> 'ip \<times> 'ip option \<times> string list) option"

record CNIConf =
  NetworkName :: string
  IfName :: string
  BinPath :: "string list"
  ConfDir :: string
  CacheDir :: string
  Args :: "(string \<times> string) list"

record 'ip NetworkInterface =
  ni_AllowMMDS :: bool
  ni_InRateLimiter :: "RateLimiter option"
  ni_OutRateLimiter :: "RateLimiter option"
  StaticConfiguration :: "'ip StaticConfiguration option"
  CNIConfiguration :: "CNIConf option"

text \<open>\<open>firecracker.Config\<close>; a vsock device is a path and an id.\<close>

record 'ip fc_Config =
  fc_SocketPath :: string
  fc_LogFifo :: string
  fc_LogLevel :: string
  fc_MetricsFifo :: string
  fc_KernelImagePath :: string
  fc_KernelArgs :: string
  fc_Drives :: "Drive list"
  fc_NetworkInterfaces :: "'ip NetworkInterface list"
  fc_VsockDevices :: "(string \<times> string) list"
  fc_MachineCfg :: MachineConfiguration
  fc_VMID :: string
  fc_NetNS :: string

text \<open>The SDK's builder of token buckets.\<close>

record 'b tb_sdk =
  tb_new :: 'b
  WithInitialSize :: "int \<Rightarrow> 'b \<Rightarrow> 'b"
  WithRefillDuration :: "int \<Rightarrow> 'b \<Rightarrow> 'b"
  WithBucketSize :: "int \<Rightarrow> 'b \<Rightarrow> 'b"
  tb_Build :: "'b \<Rightarrow> TokenBucket"

section \<open>The runtime configuration\<close>

text \<open>\<open>config.Config\<close> without its log levels, which \<open>DebugLevels\<close> models.\<close>

record Config =
  FirecrackerBinaryPath :: string
  cfg_KernelImagePath :: string
  cfg_KernelArgs :: string
  cfg_RootDrive :: string
  cfg_CPUTemplate :: string
  cfg_HtEnabled :: bool
  DefaultNetworkInterfaces :: "FirecrackerNetworkInterface list"
  ShimBaseDir :: string
  RuncBinaryPath :: string
  RuncConfigPath :: string

section \<open>Conversions\<close>

definition defaultMemSizeMb :: int where "defaultMemSizeMb = 128"

definition defaultCPUCount :: int where "defaultCPUCount = 1"

definition machineConfigurationFromProto ::
    "Config \<Rightarrow> FirecrackerMachineConfiguration option \<Rightarrow> MachineConfiguration" where
  "machineConfigurationFromProto cfg req =
     (let config = \<lparr>CPUTemplate = cfg_CPUTemplate cfg, VcpuCount = defaultCPUCount,
                    MemSizeMib = defaultMemSizeMb, HtEnabled = cfg_HtEnabled cfg\<rparr>
      in case req of
           None \<Rightarrow> config
         | Some req \<Rightarrow>
             (let config = (if mc_CPUTemplate req \<noteq> [] then config\<lparr>CPUTemplate := mc_CPUTemplate req\<rparr>
                            else config);
                  config = (if mc_VcpuCount req > 0 then config\<lparr>VcpuCount := uint (mc_VcpuCount req)\<rparr>
                            else config);
                  config = (if mc_MemSizeMib req > 0 then config\<lparr>MemSizeMib := uint (mc_MemSizeMib req)\<rparr>
                            else config)
              in config\<lparr>HtEnabled := mc_HtEnabled req\<rparr>))"

definition time_Millisecond :: int where "time_Millisecond = 1000000"

definition tokenBucketFromProto :: "'b tb_sdk \<Rightarrow> FirecrackerTokenBucket \<Rightarrow> TokenBucket" where
  "tokenBucketFromProto sdk bucket =
     (let builder = tb_new sdk;
          builder = (if OneTimeBurst bucket > 0 then WithInitialSize sdk (OneTimeBurst bucket) builder
                     else builder);
          builder = (if RefillTime bucket > 0
                     then WithRefillDuration sdk (i64 (RefillTime bucket * time_Millisecond)) builder
                     else builder);
          builder = (if Capacity bucket > 0 then WithBucketSize sdk (Capacity bucket) builder else builder)
      in tb_Build sdk builder)"

definition rateLimiterFromProto :: "'b tb_sdk \<Rightarrow> FirecrackerRateLimiter option \<Rightarrow> RateLimiter option" where
  "rateLimiterFromProto sdk rl =
     (case rl of
        None \<Rightarrow> None
      | Some rl \<Rightarrow>
          Some \<lparr>rl_Bandwidth = (case Bandwidth rl of None \<Rightarrow> None | Some b \<Rightarrow> Some (tokenBucketFromProto sdk b)),
                rl_Ops = (case Ops rl of None \<Rightarrow> None | Some b \<Rightarrow> Some (tokenBucketFromProto sdk b))\<rparr>)"

text \<open>The drive option: \<open>firecracker.WithRateLimiter\<close> sets the drive's rate limiter.\<close>

definition withRateLimiterFromProto ::
    "'b tb_sdk \<Rightarrow> FirecrackerRateLimiter option \<Rightarrow> Drive \<Rightarrow> Drive" where
  "withRateLimiterFromProto sdk rl d =
     (case rl of None \<Rightarrow> d | Some _ \<Rightarrow> d\<lparr>drive_RateLimiter := rateLimiterFromProto sdk rl\<rparr>)"

definition networkConfigFromProto ::
    "'b tb_sdk \<Rightarrow> (string \<Rightarrow> gerr + 'ip \<times> 'ip) \<Rightarrow> (string \<Rightarrow> 'ip option) \<Rightarrow>
     FirecrackerNetworkInterface \<Rightarrow> string \<Rightarrow> gerr + 'ip NetworkInterface" where
  "networkConfigFromProto sdk ParseCIDR ParseIP nwIface vmID =
     (let result = \<lparr>ni_AllowMMDS = AllowMMDS nwIface, ni_InRateLimiter = None,
                    ni_OutRateLimiter = None, StaticConfiguration = None, CNIConfiguration = None\<rparr>;
          result = (if InRateLimiter nwIface \<noteq> None
                    then result\<lparr>ni_InRateLimiter := rateLimiterFromProto sdk (InRateLimiter nwIface)\<rparr>
                    else result);
          result = (if OutRateLimiter nwIface \<noteq> None
                    then result\<lparr>ni_OutRateLimiter := rateLimiterFromProto sdk (OutRateLimiter nwIface)\<rparr>
                    else result);
          with_static =
            (case StaticConfig nwIface of
               None \<Rightarrow> Inr result
             | Some staticConf \<Rightarrow>
                 (let sc = \<lparr>sc_HostDevName = sn_HostDevName staticConf,
                            sc_MacAddress = sn_MacAddress staticConf, sc_IPConfiguration = None\<rparr>
                  in case sn_IPConfig staticConf of
                       None \<Rightarrow> Inr (result\<lparr>StaticConfiguration := Some sc\<rparr>)
                     | Some ipConf \<Rightarrow>
                         (case ParseCIDR (PrimaryAddr ipConf) of
                            Inl err \<Rightarrow> Inl (Wrap err ''failed to parse CIDR from %q'' [PrimaryAddr ipConf])
                          | Inr (ip, ipMask) \<Rightarrow>
                              Inr (result\<lparr>StaticConfiguration :=
                                Some (sc\<lparr>sc_IPConfiguration :=
                                  Some (ip, ipMask, ParseIP (GatewayAddr ipConf), Nameservers ipConf)\<rparr>)\<rparr>))))
      in case with_static of
           Inl err \<Rightarrow> Inl err
         | Inr result \<Rightarrow>
             (case CNIConfig nwIface of
                None \<Rightarrow> Inr result
              | Some cniConf \<Rightarrow>
                  Inr (result\<lparr>CNIConfiguration :=
                    Some \<lparr>NetworkName = cni_NetworkName cniConf, IfName = cni_InterfaceName cniConf,
                          BinPath = cni_BinPath cniConf, ConfDir = cni_ConfDir cniConf,
                          CacheDir = cni_CacheDir cniConf, Args = cni_Args cniConf\<rparr>\<rparr>)))"

section \<open>Properties\<close>

text \<open>
  The machine configuration always has a positive number of CPUs and a positive memory
  size: a request that leaves one at zero gets the default, any other value is taken
  over exactly, and the CPU template falls back to the configured one.
\<close>

theorem machineConfiguration_defaults:
  "VcpuCount (machineConfigurationFromProto cfg req) =
     (case req of None \<Rightarrow> 1 | Some r \<Rightarrow> if mc_VcpuCount r = 0 then 1 else uint (mc_VcpuCount r)) \<and>
   MemSizeMib (machineConfigurationFromProto cfg req) =
     (case req of None \<Rightarrow> 128 | Some r \<Rightarrow> if mc_MemSizeMib r = 0 then 128 else uint (mc_MemSizeMib r)) \<and>
   CPUTemplate (machineConfigurationFromProto cfg req) =
     (case req of None \<Rightarrow> cfg_CPUTemplate cfg
      | Some r \<Rightarrow> if mc_CPUTemplate r = [] then cfg_CPUTemplate cfg else mc_CPUTemplate r) \<and>
   HtEnabled (machineConfigurationFromProto cfg req) =
     (case req of None \<Rightarrow> cfg_HtEnabled cfg | Some r \<Rightarrow> mc_HtEnabled r) \<and>
   0 < VcpuCount (machineConfigurationFromProto cfg req) \<and>
   0 < MemSizeMib (machineConfigurationFromProto cfg req)"
proof -
  have pos: "0 < uint w" if "w \<noteq> 0" for w :: "32 word"
    using that by (simp add: less_le uint_0_iff)
  show ?thesis
    by (cases req)
      (auto simp: machineConfigurationFromProto_def Let_def defaultCPUCount_def defaultMemSizeMb_def
        word_neq_0_conv pos)
qed

text \<open>
  The contract of the SDK's builder, as its documentation gives it: each setter sets its
  own field, a duration is stored in milliseconds, and a new builder has nothing set.
\<close>

definition tb_laws :: "'b tb_sdk \<Rightarrow> bool" where
  "tb_laws sdk \<longleftrightarrow>
     tb_Build sdk (tb_new sdk) = \<lparr>tb_OneTimeBurst = None, tb_RefillTime = None, tb_Size = None\<rparr> \<and>
     (\<forall>n b. tb_Build sdk (WithInitialSize sdk n b) = (tb_Build sdk b)\<lparr>tb_OneTimeBurst := Some n\<rparr>) \<and>
     (\<forall>d b. tb_Build sdk (WithRefillDuration sdk d b) =
        (tb_Build sdk b)\<lparr>tb_RefillTime := Some (d div time_Millisecond)\<rparr>) \<and>
     (\<forall>n b. tb_Build sdk (WithBucketSize sdk n b) = (tb_Build sdk b)\<lparr>tb_Size := Some n\<rparr>)"

text \<open>
  A token bucket is converted field by field, positive values taken over and the others
  left unset; the refill time survives the detour through nanoseconds exactly as long as
  it is at most 9223372036854 ms, the largest that fits a 64-bit duration.
\<close>

theorem tokenBucket_exact:
  assumes laws: "tb_laws sdk" and max: "RefillTime bucket \<le> 9223372036854"
  shows "tokenBucketFromProto sdk bucket =
     \<lparr>tb_OneTimeBurst = (if OneTimeBurst bucket > 0 then Some (OneTimeBurst bucket) else None),
      tb_RefillTime = (if RefillTime bucket > 0 then Some (RefillTime bucket) else None),
      tb_Size = (if Capacity bucket > 0 then Some (Capacity bucket) else None)\<rparr>"
proof -
  have "i64 (RefillTime bucket * time_Millisecond) = RefillTime bucket * time_Millisecond"
    if "RefillTime bucket > 0"
    using that max by (intro i64_id) (simp_all add: time_Millisecond_def)
  moreover have "RefillTime bucket * time_Millisecond div time_Millisecond = RefillTime bucket"
    by (simp add: time_Millisecond_def)
  ultimately show ?thesis
    using laws by (simp add: tokenBucketFromProto_def tb_laws_def Let_def)
qed

definition sdk_example :: "TokenBucket tb_sdk" where
  "sdk_example =
     \<lparr>tb_new = \<lparr>tb_OneTimeBurst = None, tb_RefillTime = None, tb_Size = None\<rparr>,
      WithInitialSize = (\<lambda>n b. b\<lparr>tb_OneTimeBurst := Some n\<rparr>),
      WithRefillDuration = (\<lambda>d b. b\<lparr>tb_RefillTime := Some (d div time_Millisecond)\<rparr>),
      WithBucketSize = (\<lambda>n b. b\<lparr>tb_Size := Some n\<rparr>),
      tb_Build = (\<lambda>b. b)\<rparr>"

lemma sdk_example_laws: "tb_laws sdk_example"
  by (simp add: tb_laws_def sdk_example_def)

theorem tokenBucket_exact_witness:
  "tokenBucketFromProto sdk_example \<lparr>OneTimeBurst = 0, RefillTime = 100, Capacity = 4096\<rparr> =
     \<lparr>tb_OneTimeBurst = None, tb_RefillTime = Some 100, tb_Size = Some 4096\<rparr>"
  using tokenBucket_exact[OF sdk_example_laws, of "\<lparr>OneTimeBurst = 0, RefillTime = 100, Capacity = 4096\<rparr>"]
  by simp

end
