(* ===== verification/AgentDrive.thy ===== *)
theory AgentDrive
  imports World GoPath StubContent FcTypes
begin

text \<open>
  \<open>agent/drive_handler.go\<close> and \<open>agent/error.go\<close>: inside the VM, the agent finds the stub
  drives among the block devices and mounts and unmounts them for the host. containerd's
  \<open>mount\<close> package and the clock are parameters. The retry loop of \<open>MountDrive\<close> is a recursion on
  the number of attempts that are left.
\<close>

section \<open>State\<close>

definition blockPath :: string where "blockPath = ''/sys/block''"

definition devPath :: string where "devPath = ''/dev''"

definition blockMajorMinor :: string where "blockMajorMinor = ''dev''"

definition bannedSystemDirs :: "string list" where
  "bannedSystemDirs = [''/proc'', ''/sys'', ''/dev'']"

record drive =
  drive_Name :: string
  drive_DriveID :: string
  MajorMinor :: string
  DrivePath :: string

record driveHandler =
  drives :: "string \<rightharpoonup> drive"
  BlockPath :: string
  dh_DrivePath :: string

text \<open>containerd's \<open>mount.All\<close> for one mount (source, type, options, target), its \<open>Unmount\<close>, and the clock.\<close>

record 'w mount_pkg =
  mount_All :: "string \<Rightarrow> string \<Rightarrow> string list \<Rightarrow> string \<Rightarrow> 'w \<Rightarrow> gerr option \<times> 'w"
  mount_Unmount :: "string \<Rightarrow> 'w \<Rightarrow> gerr option \<times> 'w"
  time_Sleep :: "int \<Rightarrow> 'w \<Rightarrow> 'w"

section \<open>Discovery\<close>

definition GetDrive :: "driveHandler \<Rightarrow> string \<Rightarrow> drive option" where
  "GetDrive dh i = drives dh i"

definition drive_Path :: "drive \<Rightarrow> string" where
  "drive_Path d = filepath_Join [DrivePath d, drive_Name d]"

definition getListOfBlockDeviceNames :: "'w os \<Rightarrow> string \<Rightarrow> 'w \<Rightarrow> (gerr + string list) \<times> 'w" where
  "getListOfBlockDeviceNames os path w =
     (case os_ReadDir os path w of
        (Inl err, w) \<Rightarrow> (Inl err, w)
      | (Inr names, w) \<Rightarrow> (Inr names, w))"

definition buildDrive :: "'w os \<Rightarrow> driveHandler \<Rightarrow> string \<Rightarrow> 'w \<Rightarrow> (gerr + drive) \<times> 'w" where
  "buildDrive os dh name w =
     (let d = \<lparr>drive_Name = name, drive_DriveID = [], MajorMinor = [], DrivePath = dh_DrivePath dh\<rparr> in
      case os_ReadFile os (filepath_Join [BlockPath dh, name, blockMajorMinor]) w of
        (Inl err, w) \<Rightarrow> (Inl err, w)
      | (Inr majorMinorStr, w) \<Rightarrow> (Inr (d\<lparr>MajorMinor := strings_TrimSpace majorMinorStr\<rparr>), w))"

definition isStubDrive :: "'w os \<Rightarrow> drive \<Rightarrow> 'w \<Rightarrow> bool \<times> 'w" where
  "isStubDrive os d w =
     (case os_Open os (drive_Path d) w of
        (Inl err, w) \<Rightarrow> (False, w)
      | (Inr f, w) \<Rightarrow>
          (let r = fst (IsStubDrive file_read f); (_, w) = os_Close os (drive_Path d) w in (r, w)))"

text \<open>The loop, with the drives found so far.\<close>

fun discover_loop ::
    "'w os \<Rightarrow> driveHandler \<Rightarrow> string list \<Rightarrow> (string \<rightharpoonup> drive) \<Rightarrow> 'w \<Rightarrow> (gerr + (string \<rightharpoonup> drive)) \<times> 'w" where
  "discover_loop os dh [] found w = (Inr found, w)"
| "discover_loop os dh (name # names) found w =
     (case buildDrive os dh name w of
        (Inl err, w) \<Rightarrow> (Inl err, w)
      | (Inr d, w) \<Rightarrow>
        (case isStubDrive os d w of
           (False, w) \<Rightarrow> discover_loop os dh names found w
         | (True, w) \<Rightarrow>
           (case os_Open os (drive_Path d) w of
              (Inl err, w) \<Rightarrow> (Inl err, w)
            | (Inr f, w) \<Rightarrow>
              (let (_, w) = os_Close os (drive_Path d) w in
               case fst (ParseStubContent file_read f) of
                 Inl err \<Rightarrow> (Inl err, w)
               | Inr i \<Rightarrow> discover_loop os dh names (found(i \<mapsto> d\<lparr>drive_DriveID := i\<rparr>)) w))))"

definition discoverDrives :: "'w os \<Rightarrow> driveHandler \<Rightarrow> 'w \<Rightarrow> (gerr + driveHandler) \<times> 'w" where
  "discoverDrives os dh w =
     (case getListOfBlockDeviceNames os (BlockPath dh) w of
        (Inl err, w) \<Rightarrow> (Inl err, w)
      | (Inr names, w) \<Rightarrow>
          (case discover_loop os dh names Map.empty w of
             (Inl err, w) \<Rightarrow> (Inl err, w)
           | (Inr found, w) \<Rightarrow> (Inr (dh\<lparr>drives := found\<rparr>), w)))"

definition newDriveHandler :: "'w os \<Rightarrow> string \<Rightarrow> string \<Rightarrow> 'w \<Rightarrow> (gerr + driveHandler) \<times> 'w" where
  "newDriveHandler os block_path drive_path w =
     (let d = \<lparr>drives = Map.empty, BlockPath = block_path, dh_DrivePath = drive_path\<rparr> in
      case discoverDrives os d w of
        (Inl err, w) \<Rightarrow> (Inl err, w)
      | (Inr d, w) \<Rightarrow> (Inr d, w))"

section \<open>Where a drive may be mounted\<close>

definition isOrUnderDir :: "string \<Rightarrow> string \<Rightarrow> bool" where
  "isOrUnderDir path baseDir =
     (let path = filepath_Clean path; baseDir = filepath_Clean baseDir in
      if baseDir = ''/'' then True
      else if path = baseDir then True
      else strings_HasPrefix path (baseDir @ ''/''))"

text \<open>The loop of \<open>evalAnySymlinks\<close>.\<close>

fun eval_parts :: "'w os \<Rightarrow> string \<Rightarrow> string list \<Rightarrow> 'w \<Rightarrow> (gerr + string) \<times> 'w" where
  "eval_parts os curPath [] w = (Inr curPath, w)"
| "eval_parts os curPath (part # pathSplit) w =
     (let curPath = filepath_Join [curPath, part] in
      case os_EvalSymlinks os curPath w of
        (Inl err, w) \<Rightarrow>
          if os_IsNotExist err then (Inr (filepath_Join (curPath # pathSplit)), w) else (Inl err, w)
      | (Inr resolvedPath, w) \<Rightarrow> eval_parts os resolvedPath pathSplit w)"

definition evalAnySymlinks :: "'w os \<Rightarrow> string \<Rightarrow> 'w \<Rightarrow> (gerr + string) \<times> 'w" where
  "evalAnySymlinks os path w = eval_parts os ''/'' (strings_Split (CHR ''/'') (filepath_Clean path)) w"

definition isSystemDir :: "'w os \<Rightarrow> string \<Rightarrow> 'w \<Rightarrow> gerr option \<times> 'w" where
  "isSystemDir os path w =
     (case evalAnySymlinks os path w of
        (Inl err, w) \<Rightarrow> (Some (Wrap err ''failed to evaluate any symlinks in drive ummount destination %q'' [path]), w)
      | (Inr resolvedDest, w) \<Rightarrow>
          (case find (isOrUnderDir resolvedDest) bannedSystemDirs of
             Some systemDir \<Rightarrow>
               (Some (Errorf ''drive mount destination %q resolves to path %q under banned system directory %q''
                  [path, resolvedDest, systemDir]), w)
           | None \<Rightarrow> (None, w)))"

section \<open>Mounting\<close>

fun isRetryableMountError :: "gerr \<Rightarrow> bool" where
  "isRetryableMountError (Errno e) = (e = EINVAL)"
| "isRetryableMountError _ = False"

definition maxRetries :: nat where "maxRetries = 100"

definition retryDelay :: int where "retryDelay = 10 * time_Millisecond"

fun mount_retry ::
    "'w mount_pkg \<Rightarrow> string \<Rightarrow> MountDriveRequest \<Rightarrow> nat \<Rightarrow> 'w \<Rightarrow> gerr option \<times> 'w" where
  "mount_retry mnt src req 0 w =
     (Some (Errorf ''exhausted retries mounting drive from %q to %q'' [src, DestinationPath req]), w)"
| "mount_retry mnt src req (Suc n) w =
     (case mount_All mnt src (FilesytemType req) (mdr_Options req) (DestinationPath req) w of
        (None, w) \<Rightarrow> (None, w)
      | (Some err, w) \<Rightarrow>
          if isRetryableMountError err then mount_retry mnt src req n (time_Sleep mnt retryDelay w)
          else (Some (Wrap err ''non-retryable failure mounting drive from %q to %q'' [src, DestinationPath req]), w))"

definition MountDrive ::
    "'w os \<Rightarrow> 'w mount_pkg \<Rightarrow> driveHandler \<Rightarrow> MountDriveRequest \<Rightarrow> 'w \<Rightarrow> gerr option \<times> 'w" where
  "MountDrive os mnt dh req w =
     (case GetDrive dh (mdr_DriveID req) of
        None \<Rightarrow> (Some (Errorf ''drive %q could not be found'' [mdr_DriveID req]), w)
      | Some d \<Rightarrow>
        (case isSystemDir os (DestinationPath req) w of
           (Some err, w) \<Rightarrow> (Some err, w)
         | (None, w) \<Rightarrow>
           (case os_MkdirAll os (DestinationPath req) 448 w of
              (Some err, w) \<Rightarrow> (Some (Wrap err ''failed to create drive mount destination %q'' [DestinationPath req]), w)
            | (None, w) \<Rightarrow> mount_retry mnt (drive_Path d) req maxRetries w)))"

definition UnmountDrive :: "'w mount_pkg \<Rightarrow> driveHandler \<Rightarrow> string \<Rightarrow> 'w \<Rightarrow> gerr option \<times> 'w" where
  "UnmountDrive mnt dh i w =
     (case GetDrive dh i of
        None \<Rightarrow> (Some (Errorf ''drive %q could not be found'' [i]), w)
      | Some d \<Rightarrow>
        (case mount_Unmount mnt (drive_Path d) w of
           (None, w) \<Rightarrow> (None, w)
         | (Some err, w) \<Rightarrow> (Some (Errorf ''failed to unmount the drive %q'' [drive_Path d]), w)))"

section \<open>Directories\<close>

lemma Join_prefix_comps:
  assumes "bs \<noteq> []" "\<forall>c \<in> set bs. good_comp c" "\<forall>c \<in> set cs. good_comp c"
  shows "prefix (abs_path bs @ ''/'') (abs_path cs) \<longleftrightarrow> (\<exists>x xs. cs = bs @ x # xs)"
proof
  assume "\<exists>x xs. cs = bs @ x # xs"
  then obtain x xs where "cs = bs @ x # xs" by blast
  then have "abs_path cs = (abs_path bs @ ''/'') @ strings_Join (CHR ''/'') (x # xs)"
    using assms(1) by (simp add: abs_path_def strings_Join_append)
  then show "prefix (abs_path bs @ ''/'') (abs_path cs)" by (metis prefixI)
next
  assume "prefix (abs_path bs @ ''/'') (abs_path cs)"
  then obtain t where t: "strings_Join (CHR ''/'') cs = strings_Join (CHR ''/'') bs @ CHR ''/'' # t"
    by (auto simp: prefix_def abs_path_def)
  have bs: "strings_Split (CHR ''/'') (strings_Join (CHR ''/'') bs) = bs"
    using assms good_comp_no_slash by (intro strings_Split_Join) auto
  have "cs \<noteq> []" using t by auto
  then have "strings_Split (CHR ''/'') (strings_Join (CHR ''/'') cs) = cs"
    using assms good_comp_no_slash by (intro strings_Split_Join) auto
  with t bs have "cs = bs @ strings_Split (CHR ''/'') t"
    by (metis strings_Split_append)
  then show "\<exists>x xs. cs = bs @ x # xs"
    by (metis neq_Nil_conv strings_Split_nonempty)
qed

lemma abs_path_root: "abs_path bs = ''/'' \<longleftrightarrow> bs = []" if "\<forall>c \<in> set bs. good_comp c"
  using that by (cases bs) (auto simp: abs_path_def strings_Join_Cons good_comp_def)

text \<open>
  \<open>isOrUnderDir\<close>, which works on strings, decides the relation of paths: for absolute paths
  it holds exactly when the components of the base directory, dots resolved, are a prefix
  of those of the path. So "/devices" is not under "/dev", and "/a/../proc" is under "/proc".
\<close>

theorem isOrUnderDir_iff:
  assumes "rooted p" "rooted base"
  shows "isOrUnderDir p base \<longleftrightarrow> prefix (path_comps base) (path_comps p)"
proof -
  let ?b = "path_comps base" and ?p = "path_comps p"
  have g: "\<forall>c \<in> set ?b. good_comp c" "\<forall>c \<in> set ?p. good_comp c"
    by (rule path_comps_good)+
  have "isOrUnderDir p base \<longleftrightarrow> ?b = [] \<or> ?p = ?b \<or> prefix (abs_path ?b @ ''/'') (abs_path ?p)"
    using g by (simp add: isOrUnderDir_def Let_def assms filepath_Clean_rooted abs_path_root abs_path_inject
        strings_HasPrefix_iff)
  also have "\<dots> \<longleftrightarrow> prefix ?b ?p"
  proof (cases "?b = []")
    case False
    show ?thesis
      unfolding Join_prefix_comps[OF False g] using False
      by (auto simp: prefix_def) (metis append_Nil2 neq_Nil_conv)
  qed simp
  finally show ?thesis .
qed

theorem isOrUnderDir_iff_witness:
  "isOrUnderDir ''/a/../proc/x'' ''/proc'' \<and> \<not> isOrUnderDir ''/devices'' ''/dev''"
proof -
  have "path_comps ''/a/../proc/x'' = [''proc'', ''x'']" "path_comps ''/proc'' = [''proc'']"
    "path_comps ''/devices'' = [''devices'']" "path_comps ''/dev'' = [''dev'']"
    by (simp_all add: path_comps_def path_simps)
  then show ?thesis
    using isOrUnderDir_iff[of "''/a/../proc/x''" "''/proc''"] isOrUnderDir_iff[of "''/devices''" "''/dev''"]
    by simp
qed

section \<open>Evaluating symlinks\<close>

text \<open>
  What \<open>filepath.EvalSymlinks\<close> does on a file system that does not change meanwhile: \<open>R\<close> gives
  for the components of a path those of its real path, or the error: \<open>ENOENT\<close>, \<open>ENOTDIR\<close> below a regular file, a loop of
  links, a directory that may not be searched. The root is real; the error of a path is also that of every path below it;
  and a path may be resolved step by step (no path needs more than the 255 links that one call follows, unless it is a loop).
\<close>

definition resolves :: "'w os \<Rightarrow> (string list \<Rightarrow> gerr + string list) \<Rightarrow> bool" where
  "resolves os R \<longleftrightarrow>
     R [] = Inr [] \<and>
     (\<forall>cs ds. R cs = Inr ds \<longrightarrow> (\<forall>c \<in> set ds. good_comp c)) \<and>
     (\<forall>cs ds c. R cs = Inr ds \<longrightarrow> R (ds @ [c]) = R (cs @ [c])) \<and>
     (\<forall>cs e c. R cs = Inl e \<longrightarrow> R (cs @ [c]) = Inl e) \<and>
     (\<forall>cs w. (\<forall>c \<in> set cs. good_comp c) \<longrightarrow>
        os_EvalSymlinks os (abs_path cs) w = (case R cs of Inl e \<Rightarrow> (Inl e, w) | Inr ds \<Rightarrow> (Inr (abs_path ds), w)))"

text \<open>The result at the first component whose error is \<open>e\<close>: the path \<open>p\<close> when that is only a missing file.\<close>

definition rest_kept :: "gerr \<Rightarrow> string \<Rightarrow> gerr + string" where
  "rest_kept e p = (if os_IsNotExist e then Inr p else Inl e)"

lemma resolves_below:
  assumes "resolves os R" "R cs = Inl e"
  shows "R (cs @ ds) = Inl e"
proof (induction ds rule: rev_induct)
  case (snoc d ds)
  with assms(1) have "R ((cs @ ds) @ [d]) = Inl e" unfolding resolves_def by blast
  then show ?case by simp
qed (use assms(2) in simp)

lemma eval_parts_resolves:
  assumes "resolves os R" "R pre = Inr ds" "\<forall>c \<in> set (pre @ cs). good_comp c"
  shows "\<exists>k rs. k \<le> length cs \<and> R (pre @ take k cs) = Inr rs \<and>
     (if k = length cs then eval_parts os (abs_path ds) cs w = (Inr (abs_path rs), w)
      else \<exists>e. R (pre @ take (Suc k) cs) = Inl e \<and>
        eval_parts os (abs_path ds) cs w = (rest_kept e (abs_path (rs @ drop k cs)), w))"
  using assms
proof (induction cs arbitrary: pre ds)
  case Nil
  then show ?case by (intro exI[of _ 0] exI[of _ ds]) simp
next
  case (Cons c cs)
  have g: "\<forall>c \<in> set ds. good_comp c" using Cons.prems unfolding resolves_def by blast
  have gc: "good_comp c" "\<forall>c \<in> set cs. good_comp c" using Cons.prems(3) by simp_all
  have j: "filepath_Join [abs_path ds, c] = abs_path (ds @ [c])"
    using g gc by (simp add: filepath_Join_good)
  have r: "R (ds @ [c]) = R (pre @ [c])" using Cons.prems unfolding resolves_def by blast
  have "os_EvalSymlinks os (abs_path cs) w = (case R cs of Inl e \<Rightarrow> (Inl e, w) | Inr ds \<Rightarrow> (Inr (abs_path ds), w))"
    if "\<forall>c \<in> set cs. good_comp c" for cs using Cons.prems(1) that unfolding resolves_def by blast
  from this[of "ds @ [c]"] have e: "os_EvalSymlinks os (abs_path (ds @ [c])) w =
      (case R (pre @ [c]) of Inl e \<Rightarrow> (Inl e, w) | Inr ds \<Rightarrow> (Inr (abs_path ds), w))"
    using g gc r by simp
  show ?case
  proof (cases "R (pre @ [c])")
    case (Inl err)
    have "filepath_Join (abs_path (ds @ [c]) # cs) = abs_path (ds @ c # cs)"
      using g gc by (subst filepath_Join_good) auto
    with Inl j e Cons.prems(2) show ?thesis
      by (intro exI[of _ 0] exI[of _ ds]) (simp add: Let_def rest_kept_def)
  next
    case (Inr ds')
    have "\<forall>c \<in> set ((pre @ [c]) @ cs). good_comp c" using Cons.prems(3) by simp
    from Cons.IH[OF Cons.prems(1) Inr this] obtain k rs where
       "k \<le> length cs" "R ((pre @ [c]) @ take k cs) = Inr rs"
       "if k = length cs then eval_parts os (abs_path ds') cs w = (Inr (abs_path rs), w)
        else \<exists>e. R ((pre @ [c]) @ take (Suc k) cs) = Inl e \<and>
          eval_parts os (abs_path ds') cs w = (rest_kept e (abs_path (rs @ drop k cs)), w)" by blast
    moreover have "eval_parts os (abs_path ds) (c # cs) w = eval_parts os (abs_path ds') cs w"
      using Inr j e by (simp add: Let_def)
    ultimately show ?thesis
      by (cases "k = length cs"; intro exI[of _ "Suc k"] exI[of _ rs]) simp_all
  qed
qed

lemma split_clean:
  assumes "\<forall>c \<in> set cs. good_comp c"
  shows "strings_Split (CHR ''/'') (abs_path cs) = (if cs = [] then [[], []] else [] # cs)"
proof (cases "cs = []")
  case True
  then show ?thesis by (simp add: abs_path_def)
next
  case False
  have "strings_Split (CHR ''/'') (strings_Join (CHR ''/'') cs) = cs"
    using assms False good_comp_no_slash by (intro strings_Split_Join) auto
  with False show ?thesis
    unfolding abs_path_def strings_Split_slash_Cons by simp
qed

text \<open>
  C31: For an absolute path \<open>evalAnySymlinks\<close> always ends. When the whole path can be resolved, its result is the real path. Else there is a longest part
  of the path that can be resolved, and the error \<open>e\<close> of the path that is one component longer decides: a file that does not exist gives the real path
  of that part followed by the other components as they are, and every other error (\<open>ENOTDIR\<close>, a loop of links, no permission)
  is the result. No longer part of the path can be resolved either.
\<close>

theorem evalAnySymlinks_resolves:
  assumes "resolves os R" "rooted p"
  shows "\<exists>k rs. k \<le> length (path_comps p) \<and> R (take k (path_comps p)) = Inr rs \<and>
     (if k = length (path_comps p) then evalAnySymlinks os p w = (Inr (abs_path rs), w)
      else \<exists>e. (\<forall>i \<in> {k<..length (path_comps p)}. R (take i (path_comps p)) = Inl e) \<and>
        evalAnySymlinks os p w =
          (rest_kept e (abs_path (rs @ drop k (path_comps p))), w))"
proof -
  let ?cs = "path_comps p"
  have g: "\<forall>c \<in> set ([] @ ?cs). good_comp c" using path_comps_good by simp
  have root: "''/'' = abs_path []" by (simp add: abs_path_def)
  have R0: "R [] = Inr []" using assms(1) by (simp add: resolves_def)
  have "filepath_Join [abs_path [], []] = abs_path []" by (simp add: abs_path_def path_simps)
  moreover have e: "os_EvalSymlinks os (abs_path []) w = (Inr (abs_path []), w)"
    using assms(1) R0 by (simp add: resolves_def)
  ultimately have "eval_parts os (abs_path []) ([] # cs) w = eval_parts os (abs_path []) cs w" for cs
    by (simp add: Let_def)
  then have eq: "evalAnySymlinks os p w = eval_parts os (abs_path []) ?cs w"
    using g by (simp add: evalAnySymlinks_def filepath_Clean_rooted[OF assms(2)] split_clean root del: eval_parts.simps(2))
  from eval_parts_resolves[OF assms(1) R0 g, of w, unfolded append_Nil] obtain k rs where k: "k \<le> length ?cs" "R (take k ?cs) = Inr rs"
     and r: "if k = length ?cs then eval_parts os (abs_path []) ?cs w = (Inr (abs_path rs), w)
      else \<exists>e. R (take (Suc k) ?cs) = Inl e \<and>
        eval_parts os (abs_path []) ?cs w = (rest_kept e (abs_path (rs @ drop k ?cs)), w)" by blast
  have "R (take i ?cs) = Inl e" if "R (take (Suc k) ?cs) = Inl e" "k < i" for e i
  proof -
    have "take i ?cs = take (Suc k) ?cs @ take (i - Suc k) (drop (Suc k) ?cs)"
      using that(2) by (metis Suc_leI le_add_diff_inverse take_add)
    with resolves_below[OF assms(1) that(1)] show ?thesis by simp
  qed
  then have "\<exists>e. (\<forall>i \<in> {k<..length ?cs}. R (take i ?cs) = Inl e) \<and>
      evalAnySymlinks os p w = (rest_kept e (abs_path (rs @ drop k ?cs)), w)" if "k \<noteq> length ?cs"
    using r that unfolding eq by (metis greaterThanAtMost_iff)
  moreover have "evalAnySymlinks os p w = (Inr (abs_path rs), w)" if "k = length ?cs"
    using r that unfolding eq by simp
  ultimately show ?thesis using k by (metis (no_types, lifting))
qed

text \<open>A file system with \<open>/a\<close>, a symlink to \<open>/proc\<close>, the regular file \<open>/f\<close>, and nothing else below the root but \<open>/proc\<close>.\<close>

definition link_R :: "string list \<Rightarrow> gerr + string list" where
  "link_R cs =
     (case cs of
        [] \<Rightarrow> Inr []
      | c # rest \<Rightarrow>
          if c = ''f'' then if rest = [] then Inr [''f''] else Inl (Errno ENOTDIR)
          else if c \<in> {''a'', ''proc''} \<and> rest = [] then Inr [''proc'']
          else Inl (Errno ENOENT))"

definition link_os :: "unit os" where
  "link_os = os_fine\<lparr>os_EvalSymlinks := (\<lambda>p w. case link_R (path_comps p) of
      Inl e \<Rightarrow> (Inl e, w) | Inr ds \<Rightarrow> (Inr (abs_path ds), w))\<rparr>"

lemma link_resolves: "resolves link_os link_R"
  unfolding resolves_def
  by (auto simp: link_R_def link_os_def good_comp_def[of "''proc''"] good_comp_def[of "''f''"] split: if_splits list.splits)

theorem evalAnySymlinks_resolves_witness:
  "evalAnySymlinks link_os ''/a/b/c'' () = (Inr ''/proc/b/c'', ()) \<and> evalAnySymlinks link_os ''/f/x'' () = (Inl (Errno ENOTDIR), ())"
proof -
  have c: "path_comps ''/a/b/c'' = [''a'', ''b'', ''c'']" "path_comps ''/f/x'' = [''f'', ''x'']" by (simp_all add: path_comps_def path_simps)
  have p: "rooted ''/a/b/c''" "rooted ''/f/x''" by simp_all
  from evalAnySymlinks_resolves[OF link_resolves p(1), of "()", unfolded c] obtain k rs where
     k: "k \<le> length [''a'', ''b'', ''c'']" "link_R (take k [''a'', ''b'', ''c'']) = Inr rs"
     and r: "if k = length [''a'', ''b'', ''c''] then evalAnySymlinks link_os ''/a/b/c'' () = (Inr (abs_path rs), ())
       else \<exists>e. (\<forall>i \<in> {k<..length [''a'', ''b'', ''c'']}. link_R (take i [''a'', ''b'', ''c'']) = Inl e) \<and>
         evalAnySymlinks link_os ''/a/b/c'' () =
           (rest_kept e (abs_path (rs @ drop k [''a'', ''b'', ''c''])), ())" by blast
  have "k = 0 \<or> k = 1 \<or> k = 2 \<or> k = 3" using k(1) by auto
  moreover have "k \<noteq> 0"
  proof
    assume "k = 0"
    with r have "\<exists>e. \<forall>i \<in> {0<..3}. link_R (take i [''a'', ''b'', ''c'']) = Inl e" by auto
    then have "\<exists>e. link_R (take 1 [''a'', ''b'', ''c'']) = Inl e" by fastforce
    then show False by (simp add: link_R_def)
  qed
  ultimately have k1: "k = 1 \<and> rs = [''proc'']" using k(2) by (auto simp: link_R_def)
  with r obtain e where e: "\<forall>i \<in> {1<..3}. link_R (take i [''a'', ''b'', ''c'']) = Inl e"
      "evalAnySymlinks link_os ''/a/b/c'' () = (rest_kept e (abs_path (''proc'' # [''b'', ''c''])), ())"
    by (auto simp: eval_nat_numeral)
  from bspec[OF e(1), of 2] have "link_R (take 2 [''a'', ''b'', ''c'']) = Inl e" by simp
  then have "e = Errno ENOENT" by (simp add: link_R_def)
  with e(2) have 1: "evalAnySymlinks link_os ''/a/b/c'' () = (Inr ''/proc/b/c'', ())" by (simp add: abs_path_def rest_kept_def)
  from evalAnySymlinks_resolves[OF link_resolves p(2), of "()", unfolded c] obtain k rs where
     k: "k \<le> length [''f'', ''x'']" "link_R (take k [''f'', ''x'']) = Inr rs"
     and r: "if k = length [''f'', ''x''] then evalAnySymlinks link_os ''/f/x'' () = (Inr (abs_path rs), ())
       else \<exists>e. (\<forall>i \<in> {k<..length [''f'', ''x'']}. link_R (take i [''f'', ''x'']) = Inl e) \<and>
         evalAnySymlinks link_os ''/f/x'' () = (rest_kept e (abs_path (rs @ drop k [''f'', ''x''])), ())" by blast
  have "k \<noteq> 2" using k(2) by (auto simp: link_R_def)
  with k(1) r obtain e where "\<forall>i \<in> {k<..2}. link_R (take i [''f'', ''x'']) = Inl e" "k < 2"
      "evalAnySymlinks link_os ''/f/x'' () = (rest_kept e (abs_path (rs @ drop k [''f'', ''x''])), ())"
    by (auto simp: eval_nat_numeral)
  moreover from bspec[OF this(1), of 2] this(2) have "link_R (take 2 [''f'', ''x'']) = Inl e" by simp
  then have "e = Errno ENOTDIR" by (simp add: link_R_def)
  ultimately show ?thesis using 1 by (simp add: rest_kept_def)
qed

section \<open>Mounting is safe and bounded\<close>

definition traced_mount :: "'w mount_pkg \<Rightarrow> ('w \<times> os_event list) mount_pkg" where
  "traced_mount mnt =
     \<lparr>mount_All = (\<lambda>src ty opts dst. note_ev (mount_All mnt src ty opts dst) (EvMountAll src ty opts dst)),
      mount_Unmount = (\<lambda>dst. note_ev (mount_Unmount mnt dst) (EvUmount dst)),
      time_Sleep = (\<lambda>d s. (time_Sleep mnt d (fst s), snd s @ [EvSleep d]))\<rparr>"

lemma eval_parts_traced:
  "eval_parts (traced_os os) c ps (w, t) = (case eval_parts os c ps w of (r, w') \<Rightarrow> (r, (w', t)))"
  by (induction ps arbitrary: c w) (auto simp: Let_def quiet_def split: prod.splits sum.splits)

lemma isSystemDir_traced:
  "isSystemDir (traced_os os) p (w, t) = (case isSystemDir os p w of (r, w') \<Rightarrow> (r, (w', t)))"
  by (simp add: isSystemDir_def evalAnySymlinks_def eval_parts_traced split: prod.splits sum.splits option.splits)

text \<open>One attempt, the attempts before the last one, and what the last one tells.\<close>

definition mount_ev :: "string \<Rightarrow> MountDriveRequest \<Rightarrow> gerr option \<Rightarrow> os_event" where
  "mount_ev src req r = EvMountAll src (FilesytemType req) (mdr_Options req) (DestinationPath req) r"

definition retries :: "string \<Rightarrow> MountDriveRequest \<Rightarrow> nat \<Rightarrow> os_event list" where
  "retries src req k = concat (replicate k [mount_ev src req (Some (Errno EINVAL)), EvSleep retryDelay])"

fun last_attempt :: "string \<Rightarrow> MountDriveRequest \<Rightarrow> nat \<Rightarrow> nat \<Rightarrow> gerr option \<Rightarrow> os_event list \<Rightarrow> bool" where
  "last_attempt src req n k None tail = (k < n \<and> tail = [mount_ev src req None])"
| "last_attempt src req n k (Some _) tail =
     (k = n \<and> tail = [] \<or> (\<exists>e. k < n \<and> e \<noteq> Errno EINVAL \<and> tail = [mount_ev src req (Some e)]))"

lemma last_attempt_Suc: "last_attempt src req n k r tail \<Longrightarrow> last_attempt src req (Suc n) (Suc k) r tail"
  by (cases r) auto

lemma retries_Suc: "retries src req (Suc k) = mount_ev src req (Some (Errno EINVAL)) # EvSleep retryDelay # retries src req k"
  by (simp add: retries_def)

lemma retries_0 [simp]: "retries src req 0 = []"
  by (simp add: retries_def)

lemma mount_retry_traced:
  assumes "mount_retry (traced_mount mnt) src req n (w, t) = (r, (w', t'))"
  shows "\<exists>k tail. t' = t @ retries src req k @ tail \<and> last_attempt src req n k r tail"
  using assms
proof (induction n arbitrary: w t)
  case 0
  then show ?case by (intro exI[of _ 0] exI[of _ "[]"]) auto
next
  case (Suc n)
  obtain r1 w1 where m: "mount_All mnt src (FilesytemType req) (mdr_Options req) (DestinationPath req) w = (r1, w1)"
    by fastforce
  then have tm: "mount_All (traced_mount mnt) src (FilesytemType req) (mdr_Options req) (DestinationPath req) (w, t) =
      (r1, (w1, t @ [mount_ev src req r1]))"
    by (simp add: traced_mount_def note_ev_def mount_ev_def)
  show ?case
  proof (cases r1)
    case None
    with Suc.prems tm show ?thesis
      by (intro exI[of _ 0] exI[of _ "[mount_ev src req None]"]) auto
  next
    case (Some e)
    show ?thesis
    proof (cases "isRetryableMountError e")
      case True
      then have e: "e = Errno EINVAL" by (cases e) auto
      with Suc.prems tm Some True have "mount_retry (traced_mount mnt) src req n
          (time_Sleep mnt retryDelay w1, t @ [mount_ev src req (Some (Errno EINVAL)), EvSleep retryDelay]) = (r, (w', t'))"
        by (simp add: traced_mount_def)
      from Suc.IH[OF this] obtain k tail where
        "t' = (t @ [mount_ev src req (Some (Errno EINVAL)), EvSleep retryDelay]) @ retries src req k @ tail"
        "last_attempt src req n k r tail" by blast
      then show ?thesis
        by (intro exI[of _ "Suc k"] exI[of _ tail]) (simp add: retries_Suc last_attempt_Suc)
    next
      case False
      then have "e \<noteq> Errno EINVAL" by auto
      with Suc.prems tm Some False show ?thesis
        by (intro exI[of _ 0] exI[of _ "[mount_ev src req (Some e)]"]) auto
    qed
  qed
qed

text \<open>
  C30: \<open>MountDrive\<close> never mounts over a system directory and never retries without end. It makes
  no directory and mounts nothing unless the drive is one of the discovered stub drives
  and the destination, its symlinks resolved, is neither "/proc", "/sys", "/dev" nor below
  one of them; it then tries the mount of that drive at that destination, again after 10ms
  only when the kernel answered \<open>EINVAL\<close>, and at most 100 times in all; it succeeds exactly
  when its last attempt did.
\<close>

theorem MountDrive_safe:
  assumes "MountDrive (traced_os os) (traced_mount mnt) dh req (w, []) = (r, (w', t))"
  shows "r \<noteq> None \<and> t = [] \<or>
     (\<exists>d p w1 mk rest. GetDrive dh (mdr_DriveID req) = Some d \<and>
        evalAnySymlinks os (DestinationPath req) w = (Inr p, w1) \<and>
        (\<forall>b \<in> set bannedSystemDirs. \<not> isOrUnderDir p b) \<and>
        t = EvMkdirAll (DestinationPath req) 448 mk # rest \<and>
        (if mk \<noteq> None then rest = [] \<and> r \<noteq> None
         else \<exists>k tail. rest = retries (drive_Path d) req k @ tail \<and> last_attempt (drive_Path d) req 100 k r tail))"
proof (cases "GetDrive dh (mdr_DriveID req)")
  case None
  with assms show ?thesis by (auto simp: MountDrive_def)
next
  case d: (Some d)
  obtain s w1 where s: "isSystemDir os (DestinationPath req) w = (s, w1)" by fastforce
  show ?thesis
  proof (cases s)
    case (Some e)
    with assms s d show ?thesis by (auto simp: MountDrive_def isSystemDir_traced)
  next
    case None
    with s obtain p where p: "evalAnySymlinks os (DestinationPath req) w = (Inr p, w1)"
        "\<forall>b \<in> set bannedSystemDirs. \<not> isOrUnderDir p b"
      by (auto simp: isSystemDir_def find_None_iff split: prod.splits sum.splits option.splits)
    obtain mk w2 where mk: "os_MkdirAll os (DestinationPath req) 448 w1 = (mk, w2)" by fastforce
    show ?thesis
    proof (cases mk)
      case (Some e)
      with assms s None d mk have "r \<noteq> None" "t = [EvMkdirAll (DestinationPath req) 448 (Some e)]"
        by (auto simp: MountDrive_def isSystemDir_traced note_ev_def)
      with d p show ?thesis
        by (intro disjI2 exI[of _ d] exI[of _ p] exI[of _ w1] exI[of _ "Some e"] exI[of _ "[]"]) simp
    next
      case mk_ok: None
      with assms s None d mk
      have "mount_retry (traced_mount mnt) (drive_Path d) req 100
          (w2, [EvMkdirAll (DestinationPath req) 448 None]) = (r, (w', t))"
        by (simp add: MountDrive_def isSystemDir_traced note_ev_def maxRetries_def)
      from mount_retry_traced[OF this] obtain k tail where
        "t = [EvMkdirAll (DestinationPath req) 448 None] @ retries (drive_Path d) req k @ tail"
        "last_attempt (drive_Path d) req 100 k r tail" by blast
      with d p show ?thesis
        by (intro disjI2 exI[of _ d] exI[of _ p] exI[of _ w1] exI[of _ None]
            exI[of _ "retries (drive_Path d) req k @ tail"]) auto
    qed
  qed
qed

definition mount_fine :: "'w mount_pkg" where
  "mount_fine = \<lparr>mount_All = (\<lambda>s ty opts d w. (None, w)), mount_Unmount = (\<lambda>d w. (None, w)), time_Sleep = (\<lambda>d w. w)\<rparr>"

definition example_drives :: driveHandler where
  "example_drives = \<lparr>drives = [''A'' \<mapsto> \<lparr>drive_Name = ''vdb'', drive_DriveID = ''A'', MajorMinor = ''254:16'', DrivePath = ''/dev''\<rparr>],
     BlockPath = ''/sys/block'', dh_DrivePath = ''/dev''\<rparr>"

theorem MountDrive_safe_witness:
  "\<exists>k tail. MountDrive (traced_os os_fine) (traced_mount mount_fine) example_drives
       \<lparr>mdr_DriveID = ''A'', DestinationPath = ''/container/c/rootfs'', FilesytemType = ''ext4'', mdr_Options = [''rw'']\<rparr> ((), []) =
     (None, ((), EvMkdirAll ''/container/c/rootfs'' 448 None # tail)) \<and> k < (100::nat) \<and> tail \<noteq> []"
proof -
  let ?req = "\<lparr>mdr_DriveID = ''A'', DestinationPath = ''/container/c/rootfs'', FilesytemType = ''ext4'', mdr_Options = [''rw'']\<rparr>"
  define x where "x = MountDrive (traced_os os_fine) (traced_mount mount_fine) example_drives ?req ((), [])"
  have e: "evalAnySymlinks os_fine ''/container/c/rootfs'' () = (Inr ''/container/c/rootfs'', ())"
    by (simp add: evalAnySymlinks_def os_fine_def path_simps Let_def)
  have "isSystemDir os_fine ''/container/c/rootfs'' () = (None, ())"
    by (simp add: isSystemDir_def e bannedSystemDirs_def isOrUnderDir_def strings_HasPrefix_def path_simps Let_def)
  then have "fst x = None"
    by (simp add: x_def MountDrive_def GetDrive_def example_drives_def isSystemDir_traced note_ev_def maxRetries_def
        traced_mount_def mount_fine_def os_fine_def numeral_eq_Suc)
  then obtain t where x: "MountDrive (traced_os os_fine) (traced_mount mount_fine) example_drives ?req ((), []) = (None, ((), t))"
    by (cases x) (auto simp: x_def)
  from MountDrive_safe[OF x] obtain mk rest d where
    t: "t = EvMkdirAll ''/container/c/rootfs'' 448 mk # rest"
    and c: "if mk \<noteq> None then rest = [] \<and> (None :: gerr option) \<noteq> None
       else \<exists>k tail. rest = retries (drive_Path d) ?req k @ tail \<and> last_attempt (drive_Path d) ?req 100 k None tail"
    by auto
  from c obtain k tail where "mk = None" "rest = retries (drive_Path d) ?req k @ tail" "k < 100"
      "tail = [mount_ev (drive_Path d) ?req None]"
    by (auto split: if_splits)
  with x t show ?thesis by (intro exI[of _ k] exI[of _ rest]) simp
qed

section \<open>Discovery finds the host's stubs\<close>

text \<open>
  The block devices at rest: reading \<open>dev\<close> of a device gives \<open>mm\<close>, opening its node gives
  \<open>content\<close>. A device is a stub of the host when its content is what the host generated for
  an id, padded; otherwise it does not begin with the magic bytes.
\<close>

definition at_rest :: "'w os \<Rightarrow> driveHandler \<Rightarrow> (string \<Rightarrow> string) \<Rightarrow> (string \<Rightarrow> string) \<Rightarrow> string list \<Rightarrow> bool" where
  "at_rest os dh mm content names \<longleftrightarrow>
     (\<forall>w. os_ReadDir os (BlockPath dh) w = (Inr names, w)) \<and>
     (\<forall>name \<in> set names. \<forall>w.
        os_ReadFile os (filepath_Join [BlockPath dh, name, blockMajorMinor]) w = (Inr (mm name), w) \<and>
        os_Open os (filepath_Join [dh_DrivePath dh, name]) w = (Inr (content name), w) \<and>
        snd (os_Close os (filepath_Join [dh_DrivePath dh, name]) w) = w)"

definition stub_content :: "string \<Rightarrow> string \<Rightarrow> bool" where
  "stub_content i s \<longleftrightarrow> 0 < length i \<and> length i < 128 \<and> (\<exists>c pad. GenerateStubContent i = Inr c \<and> s = c @ pad)"

definition found_drive :: "driveHandler \<Rightarrow> (string \<Rightarrow> string) \<Rightarrow> string \<Rightarrow> string \<Rightarrow> drive" where
  "found_drive dh mm name i =
     \<lparr>drive_Name = name, drive_DriveID = i, MajorMinor = strings_TrimSpace (mm name), DrivePath = dh_DrivePath dh\<rparr>"

lemma stub_content_parses:
  assumes "stub_content i s"
  shows "fst (IsStubDrive file_read s)" "fst (ParseStubContent file_read s) = Inr i"
proof -
  from assms obtain c pad where c: "GenerateStubContent i = Inr c" "s = c @ pad" "0 < length i" "length i < 128"
    by (auto simp: stub_content_def)
  then show "fst (IsStubDrive file_read s)" using file_r.Generate_IsStubDrive[OF c(1) c(2)] by simp
  from file_r.Generate_Parse[OF c] show "fst (ParseStubContent file_read s) = Inr i" by auto
qed

definition put :: "('n \<Rightarrow> 'k) \<Rightarrow> ('n \<Rightarrow> 'v) \<Rightarrow> ('k \<rightharpoonup> 'v) \<Rightarrow> 'n \<Rightarrow> ('k \<rightharpoonup> 'v)" where
  "put f g m n = m(f n \<mapsto> g n)"

lemma isStubDrive_at_rest:
  assumes "os_Open os (drive_Path d) w = (Inr f, w)" "snd (os_Close os (drive_Path d) w) = w"
  shows "isStubDrive os d w = (fst (IsStubDrive file_read f), w)"
  using assms by (cases "os_Close os (drive_Path d) w") (simp add: isStubDrive_def)

lemma discover_loop_finds:
  assumes "at_rest os dh mm content all_names" "set names \<subseteq> set all_names"
    and "\<forall>n \<in> set names. stub n \<longrightarrow> stub_content (idof n) (content n)"
    and "\<forall>n \<in> set names. \<not> stub n \<longrightarrow> \<not> fst (IsStubDrive file_read (content n))"
  shows "discover_loop os dh names found w =
     (Inr (foldl (put idof (\<lambda>n. found_drive dh mm n (idof n))) found (filter stub names)), w)"
  using assms(2-4)
proof (induction names arbitrary: found)
  case Nil
  then show ?case by simp
next
  case (Cons n names)
  let ?d = "\<lparr>drive_Name = n, drive_DriveID = [], MajorMinor = strings_TrimSpace (mm n), DrivePath = dh_DrivePath dh\<rparr>"
  have n: "os_ReadFile os (filepath_Join [BlockPath dh, n, blockMajorMinor]) w = (Inr (mm n), w)"
    "os_Open os (drive_Path ?d) w = (Inr (content n), w)" "snd (os_Close os (drive_Path ?d) w) = w"
    using assms(1) Cons.prems(1) by (simp_all add: at_rest_def drive_Path_def)
  have b: "buildDrive os dh n w = (Inr ?d, w)" using n(1) by (simp add: buildDrive_def)
  have i: "isStubDrive os ?d w = (fst (IsStubDrive file_read (content n)), w)"
    using n by (rule_tac isStubDrive_at_rest)
  have IH: "discover_loop os dh names found' w =
     (Inr (foldl (put idof (\<lambda>n. found_drive dh mm n (idof n))) found' (filter stub names)), w)" for found'
    using Cons by simp
  obtain e where c: "os_Close os (drive_Path ?d) w = (e, w)" using n(3) by (metis prod.collapse)
  show ?case
  proof (cases "stub n")
    case True
    then have "fst (IsStubDrive file_read (content n))" "fst (ParseStubContent file_read (content n)) = Inr (idof n)"
      using Cons.prems stub_content_parses by auto
    moreover have "found(idof n \<mapsto> ?d\<lparr>drive_DriveID := idof n\<rparr>) = put idof (\<lambda>n. found_drive dh mm n (idof n)) found n"
      by (simp add: put_def found_drive_def)
    ultimately show ?thesis using True b i n c IH by simp
  next
    case False
    with Cons.prems have "\<not> fst (IsStubDrive file_read (content n))" by auto
    with False b i IH show ?thesis by simp
  qed
qed

lemma foldl_upd_lookup:
  assumes "inj_on f (set ns)"
  shows "foldl (put f g) m0 ns i = (case find (\<lambda>n. f n = i) ns of Some n \<Rightarrow> Some (g n) | None \<Rightarrow> m0 i)"
  using assms
proof (induction ns arbitrary: m0)
  case (Cons n ns)
  have IH: "foldl (put f g) (m0(f n \<mapsto> g n)) ns i =
      (case find (\<lambda>n. f n = i) ns of Some n \<Rightarrow> Some (g n) | None \<Rightarrow> (m0(f n \<mapsto> g n)) i)"
    using Cons by simp
  show ?case
  proof (cases "f n = i")
    case True
    have "find (\<lambda>n. f n = i) ns = None \<or> find (\<lambda>n. f n = i) ns = Some n"
    proof (cases "find (\<lambda>n. f n = i) ns")
      case (Some k)
      then have "k \<in> set ns" "f k = i" by (auto simp: find_Some_iff)
      with True Cons.prems have "k = n" by (auto simp: inj_on_def)
      with Some show ?thesis by simp
    qed simp
    with True IH show ?thesis by (auto simp: put_def[of f g m0 n])
  next
    case False
    with IH show ?thesis by (simp add: put_def[of f g m0 n] split: option.splits)
  qed
qed simp

text \<open>
  C29: The host and the agent agree on the stub drives. When the block devices of the VM are the
  host's stub drives (content generated for their ids and padded, ids pairwise different)
  and others that do not begin with the magic bytes, then discovery succeeds and finds
  exactly the stubs: the agent's drive of an id is the device whose content the host
  generated for that id, and the agent knows no other id.
\<close>

theorem discovery_agrees:
  assumes "at_rest os \<lparr>drives = Map.empty, BlockPath = bp, dh_DrivePath = dp\<rparr> mm content names"
    and "\<forall>n \<in> set names. if stub n then stub_content (idof n) (content n)
           else \<not> fst (IsStubDrive file_read (content n))"
    and "inj_on idof {n \<in> set names. stub n}"
  shows "\<exists>dh. newDriveHandler os bp dp w = (Inr dh, w) \<and>
     (\<forall>i d. GetDrive dh i = Some d \<longleftrightarrow>
        (\<exists>n \<in> set names. stub n \<and> idof n = i \<and>
           d = \<lparr>drive_Name = n, drive_DriveID = i, MajorMinor = strings_TrimSpace (mm n), DrivePath = dp\<rparr>))"
proof -
  let ?dh = "\<lparr>drives = Map.empty, BlockPath = bp, dh_DrivePath = dp\<rparr>"
  define F where "F = (\<lambda>n. found_drive ?dh mm n (idof n))"
  define M where "M = foldl (put idof F) Map.empty (filter stub names)"
  have "discover_loop os ?dh names Map.empty w = (Inr M, w)"
    unfolding M_def F_def using assms(1,2) by (intro discover_loop_finds) auto
  moreover have "os_ReadDir os bp w = (Inr names, w)" using assms(1) by (simp add: at_rest_def)
  ultimately have n: "newDriveHandler os bp dp w = (Inr (?dh\<lparr>drives := M\<rparr>), w)"
    by (simp add: newDriveHandler_def discoverDrives_def getListOfBlockDeviceNames_def)
  have inj: "inj_on idof (set (filter stub names))" using assms(3) by simp
  have m: "M i = (case find (\<lambda>n. idof n = i) (filter stub names) of Some n \<Rightarrow> Some (F n) | None \<Rightarrow> None)" for i
    unfolding M_def foldl_upd_lookup[OF inj] ..
  have lookup: "M i = Some d \<longleftrightarrow> (\<exists>n \<in> set names. stub n \<and> idof n = i \<and> d = F n)" for i d
  proof (cases "find (\<lambda>n. idof n = i) (filter stub names)")
    case None
    then have "\<forall>n \<in> set names. stub n \<longrightarrow> idof n \<noteq> i" unfolding find_None_iff by simp
    with None m[of i] show ?thesis by auto
  next
    case (Some k)
    then obtain ix where ix: "ix < length (filter stub names)" "idof k = i" "k = filter stub names ! ix"
      unfolding find_Some_iff by auto
    then have k: "k \<in> set (filter stub names)" using nth_mem[OF ix(1)] by simp
    have mem: "stub k" "k \<in> set names" using k by simp_all
    have Mk: "M i = Some (F k)" using m[of i] Some by simp
    show ?thesis
    proof
      assume "M i = Some d"
      with Mk mem ix(2) show "\<exists>n \<in> set names. stub n \<and> idof n = i \<and> d = F n"
        by (intro bexI[of _ k]) simp_all
    next
      assume "\<exists>n \<in> set names. stub n \<and> idof n = i \<and> d = F n"
      then obtain n where n: "n \<in> set names" "stub n" "idof n = i" "d = F n" by blast
      have "n = k"
      proof (rule inj_onD[OF inj _ _ k])
        show "idof n = idof k" unfolding n(3) ix(2) ..
        show "n \<in> set (filter stub names)" using n(1,2) by simp
      qed
      with Mk n(4) show "M i = Some d" by simp
    qed
  qed
  show ?thesis
    using n lookup by (intro exI[of _ "?dh\<lparr>drives := M\<rparr>"]) (auto simp: GetDrive_def F_def found_drive_def)
qed

definition rest_os :: "unit os" where
  "rest_os = os_fine\<lparr>os_ReadDir := (\<lambda>p w. (Inr [''vda'', ''vdb''], w)),
     os_ReadFile := (\<lambda>p w. (Inr ''254:0'', w)),
     os_Open := (\<lambda>p w. (if p = filepath_Join [''/dev'', ''vdb''] then (case GenerateStubContent ''A'' of Inr c \<Rightarrow> Inr (c @ ''pad''))
        else Inr ''ext4'', w))\<rparr>"

theorem discovery_agrees_witness:
  "\<exists>dh d. newDriveHandler rest_os ''/sys/block'' ''/dev'' () = (Inr dh, ()) \<and>
     GetDrive dh ''A'' = Some d \<and> drive_Name d = ''vdb'' \<and> GetDrive dh ''B'' = None"
proof -
  let ?dh = "\<lparr>drives = Map.empty, BlockPath = ''/sys/block'', dh_DrivePath = ''/dev''\<rparr>"
  obtain c where c: "GenerateStubContent ''A'' = Inr c" by (simp add: GenerateStubContent_def)
  let ?content = "\<lambda>n. if n = ''vdb'' then c @ ''pad'' else ''ext4''"
  have ne: "filepath_Join [''/dev'', ''vda''] \<noteq> filepath_Join [''/dev'', ''vdb'']"
    by (simp add: path_simps)
  have 1: "at_rest rest_os ?dh (\<lambda>_. ''254:0'') ?content [''vda'', ''vdb'']"
    using c ne by (simp add: at_rest_def rest_os_def os_fine_def)
  have "\<not> fst (IsStubDrive file_read ''ext4'')"
    by (simp add: file_r.IsStubDrive_iff MagicStubBytes_def)
  moreover have "stub_content ''A'' (c @ ''pad'')" using c by (auto simp: stub_content_def)
  ultimately have 2: "\<forall>n \<in> set [''vda'', ''vdb'']. if n = ''vdb'' then stub_content ''A'' (?content n)
           else \<not> fst (IsStubDrive file_read (?content n))" by simp
  have 3: "inj_on (\<lambda>_. ''A'') {n \<in> set [''vda'', ''vdb'']. n = ''vdb''}" by (auto simp: inj_on_def)
  from discovery_agrees[OF 1 2 3, of "()"] obtain dh where dh: "newDriveHandler rest_os ''/sys/block'' ''/dev'' () = (Inr dh, ())"
    and g: "\<forall>i d. GetDrive dh i = Some d \<longleftrightarrow>
        (\<exists>n \<in> set [''vda'', ''vdb'']. n = ''vdb'' \<and> ''A'' = i \<and>
           d = \<lparr>drive_Name = n, drive_DriveID = i, MajorMinor = strings_TrimSpace ''254:0'', DrivePath = ''/dev''\<rparr>)"
    by blast
  let ?d = "\<lparr>drive_Name = ''vdb'', drive_DriveID = ''A'', MajorMinor = strings_TrimSpace ''254:0'', DrivePath = ''/dev''\<rparr>"
  have "GetDrive dh ''A'' = Some ?d" unfolding g[rule_format] by simp
  moreover have "GetDrive dh ''B'' = None" using g by (cases "GetDrive dh ''B''") auto
  ultimately show ?thesis using dh by (intro exI[of _ dh] exI[of _ ?d]) simp
qed

end
