(* ===== verification/TaskAPI.thy ===== *)
theory TaskAPI
  imports Prelude "HOL-Library.Word"
begin

text \<open>
  containerd's task API as the repository uses it: the requests that it reads or changes, one
  constructor per call that it only passes on, and the service itself as a record of
  functions. Responses that are passed on unchanged are opaque strings. \<open>ExtraData\<close> is the message
  that the shim wraps around what runc gets, so that the agent learns the vsock ports.
\<close>

text \<open>A \<open>types.Any\<close>: nil, or a type URL and the encoded value.\<close>

type_synonym any = "(string \<times> string) option"

text \<open>The wrapper of this repository around the options of a task or the spec of an exec.\<close>

record ExtraData =
  JsonSpec :: string
  RuncOptions :: any
  StdinPort :: "32 word"
  StdoutPort :: "32 word"
  StderrPort :: "32 word"

record Mount =
  m_Type :: string
  m_Source :: string
  m_Target :: string
  m_Options :: "string list"

record CreateTaskRequest =
  ct_ID :: string
  ct_Bundle :: string
  ct_Rootfs :: "Mount list"
  ct_Terminal :: bool
  ct_Stdin :: string
  ct_Stdout :: string
  ct_Stderr :: string
  ct_Options :: any

record ExecProcessRequest =
  ex_ID :: string
  ex_ExecID :: string
  ex_Terminal :: bool
  ex_Stdin :: string
  ex_Stdout :: string
  ex_Stderr :: string
  ex_Spec :: any

record DeleteRequest =
  dl_ID :: string
  dl_ExecID :: string

datatype task_call =
    StateCall string string
  | StartCall string string
  | PidsCall string
  | PauseCall string
  | ResumeCall string
  | CheckpointCall string string any
  | KillCall string string nat bool
  | ResizePtyCall string string nat nat
  | CloseIOCall string string bool
  | UpdateCall string any
  | WaitCall string string
  | StatsCall string
  | ConnectCall string
  | ShutdownCall string bool

record 'w TaskService =
  svc_Create :: "CreateTaskRequest \<Rightarrow> 'w \<Rightarrow> (gerr + nat) \<times> 'w"
  svc_Exec :: "ExecProcessRequest \<Rightarrow> 'w \<Rightarrow> gerr option \<times> 'w"
  svc_Delete :: "DeleteRequest \<Rightarrow> 'w \<Rightarrow> (gerr + string) \<times> 'w"
  svc_Call :: "task_call \<Rightarrow> 'w \<Rightarrow> (gerr + string) \<times> 'w"

end
