(* ===== verification/TaskManager.thy ===== *)
theory TaskManager
  imports TaskAPI "HOL-Library.Mapping"
begin

text \<open>
  \<open>internal/vm/task.go\<close>: the task manager that host and agent share. Its two-level map is a
  \<open>mapping\<close> of mappings. A process is a pointer in the code, so that two processes with the
  same ids are different objects: \<open>vp_addr\<close> is the address, taken from \<open>tm_next\<close>. The channels of
  an IO proxy are what a receive from them gives. \<open>newProc\<close>, \<open>deleteProc\<close> and
  \<open>ShutdownIfEmpty\<close> hold the lock and are atomic; \<open>CreateTask\<close> and \<open>ExecProcess\<close> are not,
  which the step relation below takes into account.
\<close>

section \<open>State\<close>

record vmProc =
  vp_taskID :: string
  vp_execID :: string
  vp_addr :: nat

record taskManager =
  tasks :: "(string, (string, vmProc) mapping) mapping"
  isShutdown :: bool
  tm_next :: nat

text \<open>
  An IO proxy: starting it, and receiving from the two channels it returns. \<open>io_cancel\<close> is the
  cancel function of the process's context.
\<close>

record 'w IOProxy =
  io_start :: "vmProc \<Rightarrow> 'w \<Rightarrow> 'w"
  io_initDone :: "vmProc \<Rightarrow> 'w \<Rightarrow> gerr option \<times> 'w"
  io_copyDone :: "vmProc \<Rightarrow> 'w \<Rightarrow> 'w"
  io_cancel :: "vmProc \<Rightarrow> 'w \<Rightarrow> 'w"

definition NewTaskManager :: taskManager where
  "NewTaskManager = \<lparr>tasks = Mapping.empty, isShutdown = False, tm_next = 0\<rparr>"

section \<open>The atomic operations\<close>

definition newProc :: "taskManager \<Rightarrow> string \<Rightarrow> string \<Rightarrow> (gerr + vmProc) \<times> taskManager" where
  "newProc m taskID execID =
     (if isShutdown m
      then (Inl (Errorf ''cannot create new exec %q in task %q after shutdown'' [execID, taskID]), m)
      else
        case Mapping.lookup (tasks m) taskID of
          None \<Rightarrow>
            if execID \<noteq> [] then (Inl (Errorf ''cannot add exec %q to non-existent task %q'' [execID, taskID]), m)
            else
              (let p = \<lparr>vp_taskID = taskID, vp_execID = execID, vp_addr = tm_next m\<rparr>
               in (Inr p, m\<lparr>tasks := Mapping.update taskID (Mapping.update execID p Mapping.empty) (tasks m),
                            tm_next := Suc (tm_next m)\<rparr>))
        | Some procs \<Rightarrow>
            if Mapping.lookup procs execID \<noteq> None
            then (Inl (Errorf ''cannot add duplicate exec %q to task %q'' [execID, taskID]), m)
            else
              (let p = \<lparr>vp_taskID = taskID, vp_execID = execID, vp_addr = tm_next m\<rparr>
               in (Inr p, m\<lparr>tasks := Mapping.update taskID (Mapping.update execID p procs) (tasks m),
                            tm_next := Suc (tm_next m)\<rparr>)))"

definition deleteProc :: "taskManager \<Rightarrow> string \<Rightarrow> string \<Rightarrow> (gerr + vmProc) \<times> taskManager" where
  "deleteProc m taskID execID =
     (case Mapping.lookup (tasks m) taskID of
        None \<Rightarrow> (Inl (Errorf ''cannot delete exec %q from non-existent task %q'' [execID, taskID]), m)
      | Some procs \<Rightarrow>
          (case Mapping.lookup procs execID of
             None \<Rightarrow> (Inl (Errorf ''cannot delete non-existent exec %q from task %q'' [execID, taskID]), m)
           | Some p \<Rightarrow>
               (let procs = Mapping.delete execID procs
                in (Inr p, m\<lparr>tasks := (if Mapping.is_empty procs then Mapping.delete taskID (tasks m)
                                       else Mapping.update taskID procs (tasks m))\<rparr>))))"

definition ShutdownIfEmpty :: "taskManager \<Rightarrow> bool \<times> taskManager" where
  "ShutdownIfEmpty m =
     (if Mapping.is_empty (tasks m) then (True, m\<lparr>isShutdown := True\<rparr>) else (False, m))"

section \<open>Creating and deleting processes\<close>

text \<open>What the deferred function does with an error.\<close>

definition undo_proc :: "'w IOProxy \<Rightarrow> taskManager \<Rightarrow> vmProc \<Rightarrow> 'w \<Rightarrow> taskManager \<times> 'w" where
  "undo_proc io m p w =
     (let w = io_cancel io p w; (_, m) = deleteProc m (vp_taskID p) (vp_execID p) in (m, w))"

definition CreateTask ::
    "taskManager \<Rightarrow> CreateTaskRequest \<Rightarrow> 'w TaskService \<Rightarrow> 'w IOProxy \<Rightarrow> 'w \<Rightarrow> (gerr + nat) \<times> taskManager \<times> 'w" where
  "CreateTask m req taskService ioProxy w =
     (case newProc m (ct_ID req) [] of
        (Inl err, m) \<Rightarrow> (Inl err, m, w)
      | (Inr p, m) \<Rightarrow>
          (let w = io_start ioProxy p w in
           case svc_Create taskService req w of
             (Inl err, w) \<Rightarrow> (let (m, w) = undo_proc ioProxy m p w in (Inl err, m, w))
           | (Inr pid, w) \<Rightarrow>
               (case io_initDone ioProxy p w of
                  (Some err, w) \<Rightarrow> (let (m, w) = undo_proc ioProxy m p w in (Inl err, m, w))
                | (None, w) \<Rightarrow> (Inr pid, m, w))))"

definition ExecProcess ::
    "taskManager \<Rightarrow> ExecProcessRequest \<Rightarrow> 'w TaskService \<Rightarrow> 'w IOProxy \<Rightarrow> 'w \<Rightarrow> gerr option \<times> taskManager \<times> 'w" where
  "ExecProcess m req taskService ioProxy w =
     (case newProc m (ex_ID req) (ex_ExecID req) of
        (Inl err, m) \<Rightarrow> (Some err, m, w)
      | (Inr p, m) \<Rightarrow>
          (let w = io_start ioProxy p w in
           case svc_Exec taskService req w of
             (Some err, w) \<Rightarrow> (let (m, w) = undo_proc ioProxy m p w in (Some err, m, w))
           | (None, w) \<Rightarrow>
               (case io_initDone ioProxy p w of
                  (Some err, w) \<Rightarrow> (let (m, w) = undo_proc ioProxy m p w in (Some err, m, w))
                | (None, w) \<Rightarrow> (None, m, w))))"

definition DeleteProcess ::
    "taskManager \<Rightarrow> DeleteRequest \<Rightarrow> 'w TaskService \<Rightarrow> 'w IOProxy \<Rightarrow> 'w \<Rightarrow> (gerr + string) \<times> taskManager \<times> 'w" where
  "DeleteProcess m req taskService ioProxy w =
     (case svc_Delete taskService req w of
        (Inl err, w) \<Rightarrow> (Inl err, m, w)
      | (Inr resp, w) \<Rightarrow>
          (case deleteProc m (dl_ID req) (dl_ExecID req) of
             (Inl err, m) \<Rightarrow> (Inl err, m, w)
           | (Inr p, m) \<Rightarrow> (Inr resp, m, io_copyDone ioProxy p w)))"

text \<open>The goroutine that waits for the exit of a process and then cancels its context.\<close>

definition monitorExit :: "'w TaskService \<Rightarrow> 'w IOProxy \<Rightarrow> vmProc \<Rightarrow> 'w \<Rightarrow> 'w" where
  "monitorExit taskService ioProxy p w =
     (let (_, w) = svc_Call taskService (WaitCall (vp_taskID p) (vp_execID p)) w in io_cancel ioProxy p w)"

section \<open>The registry that the operations implement\<close>

text \<open>
  The contract between the manager and those who use it: a set of (task, exec) pairs with a
  shutdown flag, and what each operation does to it. \<open>inv\<close> is what every operation keeps.
\<close>

locale task_registry =
  fixes inv :: "'m \<Rightarrow> bool"
    and reg :: "'m \<Rightarrow> (string \<times> string) set"
    and closed :: "'m \<Rightarrow> bool"
    and new :: "'m \<Rightarrow> string \<Rightarrow> string \<Rightarrow> (gerr + 'p) \<times> 'm"
    and del :: "'m \<Rightarrow> string \<Rightarrow> string \<Rightarrow> (gerr + 'p) \<times> 'm"
    and shut :: "'m \<Rightarrow> bool \<times> 'm"
  assumes new_inv: "inv m \<Longrightarrow> inv (snd (new m t e))"
    and del_inv: "inv m \<Longrightarrow> inv (snd (del m t e))"
    and shut_inv: "inv m \<Longrightarrow> inv (snd (shut m))"
    and new_ok: "inv m \<Longrightarrow> isOk (fst (new m t e)) \<longleftrightarrow>
        \<not> closed m \<and> (t, e) \<notin> reg m \<and> (e \<noteq> [] \<longrightarrow> t \<in> fst ` reg m)"
    and new_reg: "inv m \<Longrightarrow> reg (snd (new m t e)) = (if isOk (fst (new m t e)) then insert (t, e) (reg m) else reg m)"
    and del_ok: "inv m \<Longrightarrow> isOk (fst (del m t e)) \<longleftrightarrow> (t, e) \<in> reg m"
    and del_reg: "inv m \<Longrightarrow> reg (snd (del m t e)) = reg m - {(t, e)}"
    and shut_result: "inv m \<Longrightarrow> fst (shut m) \<longleftrightarrow> reg m = {}"
    and shut_reg: "inv m \<Longrightarrow> reg (snd (shut m)) = reg m"
    and closed_new: "inv m \<Longrightarrow> closed (snd (new m t e)) = closed m"
    and closed_del: "inv m \<Longrightarrow> closed (snd (del m t e)) = closed m"
    and closed_shut: "inv m \<Longrightarrow> closed (snd (shut m)) \<longleftrightarrow> closed m \<or> fst (shut m)"
begin

text \<open>Adding a process and removing it again leaves the set as it was.\<close>

lemma new_del:
  assumes "inv m" "isOk (fst (new m t e))"
  shows "reg (snd (del (snd (new m t e)) t e)) = reg m" and "isOk (fst (del (snd (new m t e)) t e))"
  using assms by (auto simp: new_inv del_reg del_ok new_reg new_ok)

text \<open>The invariant of a history: a closed registry is empty.\<close>

definition sound :: "'m \<Rightarrow> bool" where
  "sound m \<longleftrightarrow> inv m \<and> (closed m \<longrightarrow> reg m = {})"

lemma sound_new: "sound m \<Longrightarrow> sound (snd (new m t e))"
  by (auto simp: sound_def new_inv new_reg closed_new new_ok)

lemma sound_del: "sound m \<Longrightarrow> sound (snd (del m t e))"
  by (auto simp: sound_def del_inv del_reg closed_del)

lemma sound_shut: "sound m \<Longrightarrow> sound (snd (shut m))"
  by (auto simp: sound_def shut_inv shut_reg closed_shut shut_result)

lemma closed_new_fails: "sound m \<Longrightarrow> closed m \<Longrightarrow> \<not> isOk (fst (new m t e))"
  by (simp add: sound_def new_ok)

end

section \<open>The task manager is such a registry\<close>

definition tm_lookup :: "taskManager \<Rightarrow> string \<Rightarrow> string \<Rightarrow> vmProc option" where
  "tm_lookup m t e = (case Mapping.lookup (tasks m) t of None \<Rightarrow> None | Some procs \<Rightarrow> Mapping.lookup procs e)"

definition tm_reg :: "taskManager \<Rightarrow> (string \<times> string) set" where
  "tm_reg m = {(t, e). tm_lookup m t e \<noteq> None}"

text \<open>No task without a process, every process where its ids say, and addresses used once.\<close>

definition tm_inv :: "taskManager \<Rightarrow> bool" where
  "tm_inv m \<longleftrightarrow>
     (\<forall>t procs. Mapping.lookup (tasks m) t = Some procs \<longrightarrow> \<not> Mapping.is_empty procs) \<and>
     (\<forall>t e p. tm_lookup m t e = Some p \<longrightarrow> vp_taskID p = t \<and> vp_execID p = e \<and> vp_addr p < tm_next m)"

lemma lookup_delete_if: "Mapping.lookup (Mapping.delete k m) k' = (if k' = k then None else Mapping.lookup m k')"
  by (cases "k' = k") (simp_all add: lookup_delete lookup_delete_neq)

lemma is_empty_update [simp]: "\<not> Mapping.is_empty (Mapping.update k v m)"
  by (simp add: Mapping.is_empty_def)

lemma is_empty_lookup: "Mapping.is_empty m \<longleftrightarrow> (\<forall>k. Mapping.lookup m k = None)"
  by (auto simp: Mapping.is_empty_def keys_dom_lookup dom_def)

lemma tm_lookup_newProc:
  assumes "newProc m t e = (Inr p, m')"
  shows "tm_lookup m' t' e' = (if t' = t \<and> e' = e then Some p else tm_lookup m t' e')"
    and "p = \<lparr>vp_taskID = t, vp_execID = e, vp_addr = tm_next m\<rparr>" and "tm_next m' = Suc (tm_next m)"
    and "isShutdown m' = isShutdown m" and "\<not> isShutdown m" and "tm_lookup m t e = None"
  using assms
  by (auto simp: newProc_def tm_lookup_def Let_def lookup_update' split: if_splits option.splits)

lemma newProc_fail: "newProc m t e = (Inl err, m') \<Longrightarrow> m' = m"
  by (auto simp: newProc_def Let_def split: if_splits option.splits)

lemma tm_task_exists:
  assumes "tm_inv m"
  shows "Mapping.lookup (tasks m) t \<noteq> None \<longleftrightarrow> (\<exists>e. tm_lookup m t e \<noteq> None)"
proof (cases "Mapping.lookup (tasks m) t")
  case (Some procs)
  with assms have "\<not> Mapping.is_empty procs" by (auto simp: tm_inv_def)
  with Some show ?thesis by (auto simp: is_empty_lookup tm_lookup_def)
qed (simp add: tm_lookup_def)

lemma newProc_ok:
  assumes "tm_inv m"
  shows "isOk (fst (newProc m t e)) \<longleftrightarrow> \<not> isShutdown m \<and> tm_lookup m t e = None \<and>
     (e \<noteq> [] \<longrightarrow> (\<exists>e'. tm_lookup m t e' \<noteq> None))"
  unfolding tm_task_exists[OF assms, symmetric]
  by (auto simp: newProc_def tm_lookup_def Let_def split: option.splits)

lemma tm_lookup_deleteProc:
  assumes "deleteProc m t e = (Inr p, m')"
  shows "tm_lookup m' t' e' = (if t' = t \<and> e' = e then None else tm_lookup m t' e')"
    and "tm_lookup m t e = Some p" and "tm_next m' = tm_next m" and "isShutdown m' = isShutdown m"
proof -
  from assms obtain procs where procs: "Mapping.lookup (tasks m) t = Some procs" "Mapping.lookup procs e = Some p"
    and m': "m' = m\<lparr>tasks := (if Mapping.is_empty (Mapping.delete e procs) then Mapping.delete t (tasks m)
                               else Mapping.update t (Mapping.delete e procs) (tasks m))\<rparr>"
    by (auto simp: deleteProc_def Let_def split: option.splits)
  show "tm_lookup m' t' e' = (if t' = t \<and> e' = e then None else tm_lookup m t' e')"
  proof (cases "Mapping.is_empty (Mapping.delete e procs)")
    case True
    then have "Mapping.lookup procs e'' = None" if "e'' \<noteq> e" for e''
      using that by (metis is_empty_lookup lookup_delete_if)
    with True m' procs show ?thesis by (auto simp: tm_lookup_def lookup_delete_if)
  next
    case False
    with m' procs show ?thesis by (auto simp: tm_lookup_def lookup_delete_if lookup_update')
  qed
  show "tm_lookup m t e = Some p" "tm_next m' = tm_next m" "isShutdown m' = isShutdown m"
    using procs m' by (simp_all add: tm_lookup_def)
qed

lemma deleteProc_fail: "deleteProc m t e = (Inl err, m') \<Longrightarrow> m' = m \<and> tm_lookup m t e = None"
  by (auto simp: deleteProc_def tm_lookup_def Let_def split: option.splits)

lemma tm_inv_newProc [inv_intros]: "tm_inv m \<Longrightarrow> tm_inv (snd (newProc m t e))"
proof (cases "newProc m t e")
  fix r m' assume inv: "tm_inv m" and n: "newProc m t e = (r, m')"
  show ?thesis
  proof (cases r)
    case (Inl err)
    with n inv show ?thesis using newProc_fail[of m t e err m'] by simp
  next
    case (Inr p)
    note l = tm_lookup_newProc[OF n[unfolded Inr]]
    have "\<not> Mapping.is_empty procs" if "Mapping.lookup (tasks m') t' = Some procs" for t' procs
      using n inv that Inr
      by (auto simp: newProc_def Let_def tm_inv_def lookup_update' split: if_splits option.splits)
    moreover have "\<forall>t' e' p'. tm_lookup m' t' e' = Some p' \<longrightarrow> vp_taskID p' = t' \<and> vp_execID p' = e' \<and> vp_addr p' < tm_next m'"
      using inv unfolding l(1,3) by (auto simp: l(2) tm_inv_def less_Suc_eq)
    ultimately show ?thesis using n by (simp add: tm_inv_def)
  qed
qed

lemma tm_inv_deleteProc [inv_intros]: "tm_inv m \<Longrightarrow> tm_inv (snd (deleteProc m t e))"
proof (cases "deleteProc m t e")
  fix r m' assume inv: "tm_inv m" and n: "deleteProc m t e = (r, m')"
  show ?thesis
  proof (cases r)
    case (Inl err)
    with n inv show ?thesis using deleteProc_fail[of m t e err m'] by simp
  next
    case (Inr p)
    note l = tm_lookup_deleteProc[OF n[unfolded Inr]]
    have "\<not> Mapping.is_empty procs" if "Mapping.lookup (tasks m') t' = Some procs" for t' procs
      using n inv that Inr
      by (auto simp: deleteProc_def Let_def tm_inv_def lookup_update' lookup_delete_if split: if_splits option.splits)
    moreover have "\<forall>t' e' p'. tm_lookup m' t' e' = Some p' \<longrightarrow> vp_taskID p' = t' \<and> vp_execID p' = e' \<and> vp_addr p' < tm_next m'"
      using inv unfolding l(1,3) by (auto simp: tm_inv_def)
    ultimately show ?thesis using n by (simp add: tm_inv_def)
  qed
qed

lemma tm_reg_empty:
  assumes "tm_inv m"
  shows "Mapping.is_empty (tasks m) \<longleftrightarrow> tm_reg m = {}"
  using tm_task_exists[OF assms] by (auto simp: is_empty_lookup tm_reg_def)

lemma tm_reg_newProc:
  "tm_reg (snd (newProc m t e)) = (if isOk (fst (newProc m t e)) then insert (t, e) (tm_reg m) else tm_reg m)"
proof (cases "newProc m t e")
  fix r m' assume n: "newProc m t e = (r, m')"
  show ?thesis
  proof (cases r)
    case (Inl err)
    with n show ?thesis using newProc_fail[of m t e err m'] by simp
  next
    case (Inr p)
    note l = tm_lookup_newProc(1)[OF n[unfolded Inr]]
    show ?thesis using n Inr by (auto simp: tm_reg_def l split: if_splits)
  qed
qed

lemma tm_reg_deleteProc:
  "isOk (fst (deleteProc m t e)) \<longleftrightarrow> (t, e) \<in> tm_reg m" "tm_reg (snd (deleteProc m t e)) = tm_reg m - {(t, e)}"
proof -
  obtain r m' where n: "deleteProc m t e = (r, m')" by fastforce
  have "isOk (fst (deleteProc m t e)) = ((t, e) \<in> tm_reg m) \<and> tm_reg (snd (deleteProc m t e)) = tm_reg m - {(t, e)}"
  proof (cases r)
    case (Inl err)
    with n show ?thesis using deleteProc_fail[of m t e err m'] by (auto simp: tm_reg_def)
  next
    case (Inr p)
    note l = tm_lookup_deleteProc[OF n[unfolded Inr]]
    have "tm_reg m' = tm_reg m - {(t, e)}" by (auto simp: tm_reg_def l(1) split: if_splits)
    then show ?thesis using n Inr l(2) by (simp add: tm_reg_def)
  qed
  then show "isOk (fst (deleteProc m t e)) \<longleftrightarrow> (t, e) \<in> tm_reg m"
    "tm_reg (snd (deleteProc m t e)) = tm_reg m - {(t, e)}" by simp_all
qed

lemma isShutdown_ops:
  "isShutdown (snd (newProc m t e)) = isShutdown m" "isShutdown (snd (deleteProc m t e)) = isShutdown m"
  by (auto simp: newProc_def deleteProc_def Let_def split: option.splits)

interpretation tm: task_registry tm_inv tm_reg isShutdown newProc deleteProc ShutdownIfEmpty
proof
  fix m t e assume inv: "tm_inv m"
  show "tm_inv (snd (newProc m t e))" "tm_inv (snd (deleteProc m t e))"
    using inv by (simp_all add: tm_inv_newProc tm_inv_deleteProc)
  show "tm_inv (snd (ShutdownIfEmpty m))"
    using inv by (simp add: ShutdownIfEmpty_def tm_inv_def tm_lookup_def)
  show "isOk (fst (newProc m t e)) \<longleftrightarrow> \<not> isShutdown m \<and> (t, e) \<notin> tm_reg m \<and> (e \<noteq> [] \<longrightarrow> t \<in> fst ` tm_reg m)"
    unfolding newProc_ok[OF inv] by (force simp: tm_reg_def image_iff)
  show "tm_reg (snd (newProc m t e)) = (if isOk (fst (newProc m t e)) then insert (t, e) (tm_reg m) else tm_reg m)"
    by (rule tm_reg_newProc)
  show "isOk (fst (deleteProc m t e)) \<longleftrightarrow> (t, e) \<in> tm_reg m" "tm_reg (snd (deleteProc m t e)) = tm_reg m - {(t, e)}"
    by (rule tm_reg_deleteProc)+
  show "fst (ShutdownIfEmpty m) \<longleftrightarrow> tm_reg m = {}"
    using tm_reg_empty[OF inv] by (simp add: ShutdownIfEmpty_def)
  show "tm_reg (snd (ShutdownIfEmpty m)) = tm_reg m"
    by (simp add: ShutdownIfEmpty_def tm_reg_def tm_lookup_def)
  show "isShutdown (snd (newProc m t e)) = isShutdown m" "isShutdown (snd (deleteProc m t e)) = isShutdown m"
    by (rule isShutdown_ops)+
  show "isShutdown (snd (ShutdownIfEmpty m)) \<longleftrightarrow> isShutdown m \<or> fst (ShutdownIfEmpty m)"
    by (simp add: ShutdownIfEmpty_def)
qed

section \<open>Properties\<close>

text \<open>
  C32: The two-level map with its clean-up is a set of (task, exec) pairs. A process can be added
  exactly when the manager is not shut down, the pair is new, and the pair is either a
  task's first process or its task is there; deleting succeeds exactly when the pair is
  there; each changes that one pair and nothing else; shutting down succeeds exactly
  when no pair is left. Errors change nothing.
\<close>

theorem taskManager_refines:
  assumes "tm_inv m"
  shows "(isOk (fst (newProc m t e)) \<longleftrightarrow> \<not> isShutdown m \<and> (t, e) \<notin> tm_reg m \<and> (e \<noteq> [] \<longrightarrow> t \<in> fst ` tm_reg m)) \<and>
    tm_reg (snd (newProc m t e)) = (if isOk (fst (newProc m t e)) then insert (t, e) (tm_reg m) else tm_reg m) \<and>
    (isOk (fst (deleteProc m t e)) \<longleftrightarrow> (t, e) \<in> tm_reg m) \<and>
    tm_reg (snd (deleteProc m t e)) = tm_reg m - {(t, e)} \<and>
    (fst (ShutdownIfEmpty m) \<longleftrightarrow> tm_reg m = {}) \<and>
    (isShutdown (snd (ShutdownIfEmpty m)) \<longleftrightarrow> isShutdown m \<or> tm_reg m = {}) \<and>
    tm_inv (snd (newProc m t e)) \<and> tm_inv (snd (deleteProc m t e)) \<and> tm_inv (snd (ShutdownIfEmpty m))"
  using assms
  by (simp add: tm.new_ok tm.new_reg tm.del_ok tm.del_reg tm.shut_result tm.closed_shut tm.new_inv tm.del_inv tm.shut_inv)

lemma tm_inv_New [simp]: "tm_inv NewTaskManager" "tm_reg NewTaskManager = {}" "\<not> isShutdown NewTaskManager"
  by (simp_all add: tm_inv_def NewTaskManager_def tm_lookup_def tm_reg_def)

theorem taskManager_refines_witness:
  "isOk (fst (newProc NewTaskManager ''t'' [])) \<and> \<not> isOk (fst (newProc NewTaskManager ''t'' ''e'')) \<and>
   tm_reg (snd (newProc NewTaskManager ''t'' [])) = {(''t'', [])}"
  using taskManager_refines[OF tm_inv_New(1), of "''t''" "[]"] taskManager_refines[OF tm_inv_New(1), of "''t''" "''e''"]
  by simp

text \<open>
  The manager with the \<open>CreateTask\<close> and \<open>ExecProcess\<close> calls that are under way: each has
  registered its process and will either succeed or undo it. Their steps interleave with
  those of other calls.
\<close>

inductive tm_step :: "taskManager \<times> vmProc multiset \<Rightarrow> taskManager \<times> vmProc multiset \<Rightarrow> bool" where
  begin_step: "newProc m t e = (Inr p, m') \<Longrightarrow> tm_step (m, P) (m', add_mset p P)"
| refuse_step: "newProc m t e = (Inl err, m') \<Longrightarrow> tm_step (m, P) (m', P)"
| commit_step: "p \<in># P \<Longrightarrow> tm_step (m, P) (m, P - {#p#})"
| undo_step: "p \<in># P \<Longrightarrow> tm_step (m, P) (snd (deleteProc m (vp_taskID p) (vp_execID p)), P - {#p#})"
| delete_step: "tm_step (m, P) (snd (deleteProc m t e), P)"
| shutdown_step: "tm_step (m, P) (snd (ShutdownIfEmpty m), P)"

inductive_cases tm_stepE: "tm_step s s'"

lemma tm_step_sound: "tm_step s s' \<Longrightarrow> tm.sound (fst s) \<Longrightarrow> tm.sound (fst s')"
  by (erule tm_stepE) (simp_all, (metis snd_conv tm.sound_new tm.sound_del tm.sound_shut)+)

lemma tm_step_shutdown: "tm_step s s' \<Longrightarrow> isShutdown (fst s) \<Longrightarrow> isShutdown (fst s')"
  by (erule tm_stepE) (simp_all add: isShutdown_ops ShutdownIfEmpty_def, (metis snd_conv isShutdown_ops(1))+)

lemma tm_steps_sound: "tm_step\<^sup>*\<^sup>* s s' \<Longrightarrow> tm.sound (fst s) \<Longrightarrow> tm.sound (fst s')"
  by (induction rule: rtranclp_induct) (auto dest: tm_step_sound)

lemma tm_steps_shutdown: "tm_step\<^sup>*\<^sup>* s s' \<Longrightarrow> isShutdown (fst s) \<Longrightarrow> isShutdown (fst s')"
  by (induction rule: rtranclp_induct) (auto dest: tm_step_shutdown)

text \<open>
  C33: Shutting down is final under every interleaving of calls, also of calls that were under
  way at that moment: from then on the manager stays shut down and empty, and no process
  can be added.
\<close>

theorem shutdown_final:
  assumes "tm_step\<^sup>*\<^sup>* (NewTaskManager, {#}) (m, P)" and "isShutdown m" and "tm_step\<^sup>*\<^sup>* (m, P) (m', P')"
  shows "isShutdown m' \<and> tm_reg m' = {} \<and> (\<forall>t e. \<not> isOk (fst (newProc m' t e)))"
proof -
  have "tm.sound NewTaskManager" by (simp add: tm.sound_def)
  then have "tm.sound m'" using tm_steps_sound[OF assms(1)] tm_steps_sound[OF assms(3)] by simp
  moreover have "isShutdown m'" using tm_steps_shutdown[OF assms(3)] assms(2) by simp
  ultimately show ?thesis using tm.closed_new_fails by (auto simp: tm.sound_def)
qed

theorem shutdown_final_witness:
  "\<not> isOk (fst (newProc (snd (ShutdownIfEmpty NewTaskManager)) ''t'' []))"
proof -
  have s: "tm_step (NewTaskManager, {#}) (snd (ShutdownIfEmpty NewTaskManager), {#})"
    by (rule shutdown_step)
  have "isShutdown (snd (ShutdownIfEmpty NewTaskManager))"
    by (simp add: ShutdownIfEmpty_def NewTaskManager_def Mapping.is_empty_def)
  with shutdown_final[OF r_into_rtranclp[of tm_step, OF s] this, of _ "{#}"] show ?thesis by blast
qed

lemma undo_proc_spec:
  "undo_proc io m p w = (snd (deleteProc m (vp_taskID p) (vp_execID p)), io_cancel io p w)"
  by (simp add: undo_proc_def Let_def split: prod.splits)

lemma undo_new:
  assumes "tm_inv m" "newProc m t e = (Inr p, m1)"
  shows "tm_reg (snd (deleteProc m1 (vp_taskID p) (vp_execID p))) = tm_reg m"
    "tm_inv (snd (deleteProc m1 (vp_taskID p) (vp_execID p)))" "(t, e) \<notin> tm_reg m"
proof -
  have p: "vp_taskID p = t" "vp_execID p = e" using tm_lookup_newProc(2)[OF assms(2)] by simp_all
  have ok: "isOk (fst (newProc m t e))" using assms(2) by simp
  show "tm_reg (snd (deleteProc m1 (vp_taskID p) (vp_execID p))) = tm_reg m"
    using tm.new_del(1)[OF assms(1) ok] assms(2) by (simp add: p)
  show "tm_inv (snd (deleteProc m1 (vp_taskID p) (vp_execID p)))"
    using tm.del_inv[OF tm.new_inv[OF assms(1), of t e]] assms(2) by (simp add: p)
  show "(t, e) \<notin> tm_reg m" using ok assms(1) by (simp add: tm.new_ok)
qed

lemma process_call_parts:
  assumes "tm_inv m"
  shows "case CreateTask m req svc io w of
       (Inl err, m', w') \<Rightarrow> tm_reg m' = tm_reg m \<and> tm_inv m' \<and> (isOk (fst (newProc m (ct_ID req) [])) \<or> w' = w)
     | (Inr pid, m', w') \<Rightarrow> (ct_ID req, []) \<notin> tm_reg m \<and> tm_reg m' = insert (ct_ID req, []) (tm_reg m) \<and> tm_inv m'"
    and "case ExecProcess m xreq svc io w of
       (Some err, m', w') \<Rightarrow> tm_reg m' = tm_reg m \<and> tm_inv m' \<and>
          (isOk (fst (newProc m (ex_ID xreq) (ex_ExecID xreq))) \<or> w' = w)
     | (None, m', w') \<Rightarrow> (ex_ID xreq, ex_ExecID xreq) \<notin> tm_reg m \<and>
          tm_reg m' = insert (ex_ID xreq, ex_ExecID xreq) (tm_reg m) \<and> tm_inv m'"
    and "case DeleteProcess m dreq svc io w of
       (Inl err, m', w') \<Rightarrow> tm_reg m' = tm_reg m \<and> tm_inv m'
     | (Inr resp, m', w') \<Rightarrow> (dl_ID dreq, dl_ExecID dreq) \<in> tm_reg m \<and>
          tm_reg m' = tm_reg m - {(dl_ID dreq, dl_ExecID dreq)} \<and> tm_inv m'"
proof -
  show "case CreateTask m req svc io w of
       (Inl err, m', w') \<Rightarrow> tm_reg m' = tm_reg m \<and> tm_inv m' \<and> (isOk (fst (newProc m (ct_ID req) [])) \<or> w' = w)
     | (Inr pid, m', w') \<Rightarrow> (ct_ID req, []) \<notin> tm_reg m \<and> tm_reg m' = insert (ct_ID req, []) (tm_reg m) \<and> tm_inv m'"
  proof (cases "newProc m (ct_ID req) []")
    case (Pair r m1)
    show ?thesis
    proof (cases r)
      case (Inl err)
      with Pair newProc_fail[of m "ct_ID req" "[]" err m1] assms show ?thesis by (simp add: CreateTask_def)
    next
      case (Inr p)
      note u = undo_new[OF assms Pair[unfolded Inr]]
      have "tm_inv m1" "tm_reg m1 = insert (ct_ID req, []) (tm_reg m)"
        using tm.new_inv[OF assms, of "ct_ID req" "[]"] tm.new_reg[OF assms, of "ct_ID req" "[]"] Pair Inr by simp_all
      with Pair Inr u show ?thesis
        by (simp add: CreateTask_def Let_def undo_proc_spec split: prod.splits sum.splits option.splits)
    qed
  qed
  show "case ExecProcess m xreq svc io w of
       (Some err, m', w') \<Rightarrow> tm_reg m' = tm_reg m \<and> tm_inv m' \<and>
          (isOk (fst (newProc m (ex_ID xreq) (ex_ExecID xreq))) \<or> w' = w)
     | (None, m', w') \<Rightarrow> (ex_ID xreq, ex_ExecID xreq) \<notin> tm_reg m \<and>
          tm_reg m' = insert (ex_ID xreq, ex_ExecID xreq) (tm_reg m) \<and> tm_inv m'"
  proof (cases "newProc m (ex_ID xreq) (ex_ExecID xreq)")
    case (Pair r m1)
    show ?thesis
    proof (cases r)
      case (Inl err)
      with Pair newProc_fail[of m "ex_ID xreq" "ex_ExecID xreq" err m1] assms show ?thesis by (simp add: ExecProcess_def)
    next
      case (Inr p)
      note u = undo_new[OF assms Pair[unfolded Inr]]
      have "tm_inv m1" "tm_reg m1 = insert (ex_ID xreq, ex_ExecID xreq) (tm_reg m)"
        using tm.new_inv[OF assms, of "ex_ID xreq" "ex_ExecID xreq"]
          tm.new_reg[OF assms, of "ex_ID xreq" "ex_ExecID xreq"] Pair Inr by simp_all
      with Pair Inr u show ?thesis
        by (simp add: ExecProcess_def Let_def undo_proc_spec split: prod.splits sum.splits option.splits)
    qed
  qed
  show "case DeleteProcess m dreq svc io w of
       (Inl err, m', w') \<Rightarrow> tm_reg m' = tm_reg m \<and> tm_inv m'
     | (Inr resp, m', w') \<Rightarrow> (dl_ID dreq, dl_ExecID dreq) \<in> tm_reg m \<and>
          tm_reg m' = tm_reg m - {(dl_ID dreq, dl_ExecID dreq)} \<and> tm_inv m'"
  proof (cases "svc_Delete svc dreq w")
    case (Pair r w1)
    obtain d m1 where d: "deleteProc m (dl_ID dreq) (dl_ExecID dreq) = (d, m1)" by fastforce
    have "isOk d \<longleftrightarrow> (dl_ID dreq, dl_ExecID dreq) \<in> tm_reg m" "tm_reg m1 = tm_reg m - {(dl_ID dreq, dl_ExecID dreq)}"
      "tm_inv m1"
      using tm.del_ok[OF assms, of "dl_ID dreq" "dl_ExecID dreq"] tm.del_reg[OF assms, of "dl_ID dreq" "dl_ExecID dreq"]
        tm.del_inv[OF assms, of "dl_ID dreq" "dl_ExecID dreq"] d by simp_all
    with Pair d assms show ?thesis
      by (cases r; cases d) (simp_all add: DeleteProcess_def)
  qed
qed

text \<open>
  A call that is not interleaved is all or nothing. When \<open>CreateTask\<close> fails, because the
  process could not be added, the service refused it or its IO could not be set up, the set
  of processes is as before, and nothing was asked of the service unless the process could be
  added; when it succeeds the one process was added. The same holds of \<open>ExecProcess\<close>.
  \<open>DeleteProcess\<close> that fails in the service leaves the manager alone.
\<close>

theorem process_calls_atomic:
  assumes "tm_inv m"
  shows "(case CreateTask m req svc io w of
       (Inl err, m', w') \<Rightarrow> tm_reg m' = tm_reg m \<and> tm_inv m' \<and> (isOk (fst (newProc m (ct_ID req) [])) \<or> w' = w)
     | (Inr pid, m', w') \<Rightarrow> (ct_ID req, []) \<notin> tm_reg m \<and> tm_reg m' = insert (ct_ID req, []) (tm_reg m) \<and> tm_inv m') \<and>
     (case ExecProcess m xreq svc io w of
       (Some err, m', w') \<Rightarrow> tm_reg m' = tm_reg m \<and> tm_inv m' \<and>
          (isOk (fst (newProc m (ex_ID xreq) (ex_ExecID xreq))) \<or> w' = w)
     | (None, m', w') \<Rightarrow> (ex_ID xreq, ex_ExecID xreq) \<notin> tm_reg m \<and>
          tm_reg m' = insert (ex_ID xreq, ex_ExecID xreq) (tm_reg m) \<and> tm_inv m') \<and>
     (case DeleteProcess m dreq svc io w of
       (Inl err, m', w') \<Rightarrow> tm_reg m' = tm_reg m \<and> tm_inv m'
     | (Inr resp, m', w') \<Rightarrow> (dl_ID dreq, dl_ExecID dreq) \<in> tm_reg m \<and>
          tm_reg m' = tm_reg m - {(dl_ID dreq, dl_ExecID dreq)} \<and> tm_inv m')"
  using process_call_parts[OF assms] by (intro conjI)

text \<open>A service and IO proxy for which everything succeeds.\<close>

definition svc_fine :: "'w TaskService" where
  "svc_fine = \<lparr>svc_Create = (\<lambda>r w. (Inr 1, w)), svc_Exec = (\<lambda>r w. (None, w)), svc_Delete = (\<lambda>r w. (Inr [], w)),
     svc_Call = (\<lambda>r w. (Inr [], w))\<rparr>"

definition io_fine :: "'w IOProxy" where
  "io_fine = \<lparr>io_start = (\<lambda>p w. w), io_initDone = (\<lambda>p w. (None, w)), io_copyDone = (\<lambda>p w. w), io_cancel = (\<lambda>p w. w)\<rparr>"

definition example_create :: CreateTaskRequest where
  "example_create = \<lparr>ct_ID = ''t'', ct_Bundle = ''/b'', ct_Rootfs = [], ct_Terminal = False, ct_Stdin = [], ct_Stdout = [],
     ct_Stderr = [], ct_Options = None\<rparr>"

theorem process_calls_atomic_witness:
  "\<exists>m'. CreateTask NewTaskManager example_create svc_fine io_fine () = (Inr 1, m', ()) \<and> tm_reg m' = {(''t'', [])}"
proof -
  obtain m' where c: "CreateTask NewTaskManager example_create svc_fine io_fine () = (Inr 1, m', ())"
    by (simp add: CreateTask_def example_create_def svc_fine_def io_fine_def newProc_def NewTaskManager_def Let_def)
  from process_calls_atomic[OF tm_inv_New(1), where req = example_create and svc = svc_fine and io = io_fine and w = "()"] c show ?thesis
    by (simp add: example_create_def)
qed

text \<open>
  A failed creation can remove the process of another call. The undo step deletes by ids, not
  by the process it added: when a task's first creation is still under way while the task is
  deleted and created anew, the failure of the first creation deletes the second one's
  process, which the second call still reports as created.
\<close>

theorem undo_removes_other_process:
  "\<exists>m p q. tm_step\<^sup>*\<^sup>* (NewTaskManager, {#}) (m, {#p, q#}) \<and> p \<noteq> q \<and>
     tm_lookup m ''t'' [] = Some q \<and>
     tm_step (m, {#p, q#}) (snd (deleteProc m (vp_taskID p) (vp_execID p)), {#q#}) \<and>
     tm_reg (snd (deleteProc m (vp_taskID p) (vp_execID p))) = {}"
proof -
  obtain p m1 where p: "newProc NewTaskManager ''t'' [] = (Inr p, m1)"
    by (simp add: newProc_def NewTaskManager_def Let_def)
  have i1: "tm_inv m1" "tm_reg m1 = {(''t'', [])}" "\<not> isShutdown m1"
    using tm.new_inv[OF tm_inv_New(1), of "''t''" "[]"] tm.new_reg[OF tm_inv_New(1), of "''t''" "[]"] p
      tm_lookup_newProc(4)[OF p] by simp_all
  define m2 where "m2 = snd (deleteProc m1 ''t'' [])"
  have i2: "tm_inv m2" "tm_reg m2 = {}" "\<not> isShutdown m2"
    using tm.del_inv[OF i1(1)] tm.del_reg[OF i1(1), of "''t''" "[]"] i1 by (simp_all add: m2_def isShutdown_ops)
  have "isOk (fst (newProc m2 ''t'' []))" using i2 by (simp add: tm.new_ok)
  then obtain q m3 where q: "newProc m2 ''t'' [] = (Inr q, m3)" by (auto simp: isOk_iff prod_eq_iff)
  have "vp_addr p = 0" using tm_lookup_newProc(2)[OF p] by (simp add: NewTaskManager_def)
  moreover have "tm_next m2 = 1"
    using tm_lookup_newProc(3)[OF p] tm_lookup_deleteProc(3)[of m1 "''t''" "[]"] deleteProc_fail[of m1 "''t''" "[]"]
    by (cases "deleteProc m1 ''t'' []"; cases "fst (deleteProc m1 ''t'' [])") (auto simp: m2_def NewTaskManager_def)
  then have "vp_addr q = 1" using tm_lookup_newProc(2)[OF q] by simp
  ultimately have pq: "p \<noteq> q" by auto
  have s1: "tm_step (NewTaskManager, {#}) (m1, {#p#})" using p by (rule begin_step)
  have s2: "tm_step (m1, {#p#}) (m2, {#p#})" unfolding m2_def by (rule delete_step)
  have s3: "tm_step (m2, {#p#}) (m3, {#p, q#})" using begin_step[OF q, of "{#p#}"] by (simp add: add_mset_commute)
  have r: "tm_step\<^sup>*\<^sup>* (NewTaskManager, {#}) (m3, {#p, q#})" using s1 s2 s3 by (meson r_into_rtranclp rtranclp_trans)
  have l: "tm_lookup m3 ''t'' [] = Some q" using tm_lookup_newProc(1)[OF q] by simp
  have pid: "vp_taskID p = ''t''" "vp_execID p = []" using tm_lookup_newProc(2)[OF p] by simp_all
  have i3: "tm_inv m3" "tm_reg m3 = {(''t'', [])}"
    using tm.new_inv[OF i2(1), of "''t''" "[]"] tm.new_reg[OF i2(1), of "''t''" "[]"] q i2 by simp_all
  then have "tm_reg (snd (deleteProc m3 (vp_taskID p) (vp_execID p))) = {}"
    using tm.del_reg[OF i3(1)] by (simp add: pid)
  moreover have "tm_step (m3, {#p, q#}) (snd (deleteProc m3 (vp_taskID p) (vp_execID p)), {#q#})"
    using undo_step[of p "{#p, q#}" m3] by simp
  ultimately show ?thesis using r pq l by blast
qed

end
