(* ===== verification/Vsock.thy ===== *)
theory Vsock
  imports Prelude FcTypes
begin

text \<open>
  \<open>internal/vm/vsock.go\<close>: connections between host and guest over Firecracker's vsock. The
  network is a parameter. A connection is what the code can do with it before its deadline:
  the pieces that successive reads into the 32 byte buffer give, the error after them, and
  the result of a write. Time is a schedule: the outcomes of the \<open>select\<close> of the retry loop,
  in order, a tick of the ticker or the end of the context.
\<close>

section \<open>Connections\<close>

record net_conn =
  conn_chunks :: "string list"
  conn_end :: gerr
  conn_Write :: "string \<Rightarrow> nat \<times> gerr option"

record 'w net =
  net_DialTimeout :: "string \<Rightarrow> int \<Rightarrow> 'w \<Rightarrow> (gerr + net_conn) \<times> 'w"
  net_Close :: "net_conn \<Rightarrow> 'w \<Rightarrow> gerr option \<times> 'w"

datatype select = Tick | Done gerr

definition vsockRetryTimeout :: int where "vsockRetryTimeout = 20000 * time_Millisecond"

definition vsockRetryInterval :: int where "vsockRetryInterval = 100 * time_Millisecond"

definition unixDialTimeout :: int where "unixDialTimeout = 100 * time_Millisecond"

definition vsockConnectMsg :: "32 word \<Rightarrow> string" where
  "vsockConnectMsg port = ''CONNECT '' @ utoa (unat port) @ [CHR 0x0A]"

text \<open>\<open>bufio.Reader.ReadString\<close>; what the buffer holds beyond the delimiter is lost with it.\<close>

fun read_string :: "char \<Rightarrow> string \<Rightarrow> string list \<Rightarrow> gerr \<Rightarrow> (string \<times> gerr option) \<times> string list" where
  "read_string c acc [] err = ((acc, Some err), [])"
| "read_string c acc (chunk # chunks) err =
     (if c \<in> set chunk then ((acc @ takeWhile (\<lambda>x. x \<noteq> c) chunk @ [c], None), chunks)
      else read_string c (acc @ chunk) chunks err)"

definition tryConnReadUntil :: "net_conn \<Rightarrow> char \<Rightarrow> (string \<times> gerr option) \<times> net_conn" where
  "tryConnReadUntil conn c =
     (case read_string c [] (conn_chunks conn) (conn_end conn) of
        (r, chunks) \<Rightarrow> (r, conn\<lparr>conn_chunks := chunks\<rparr>))"

definition tryConnWrite :: "net_conn \<Rightarrow> string \<Rightarrow> gerr option" where
  "tryConnWrite conn expectedWrite =
     (case conn_Write conn expectedWrite of
        (_, Some err) \<Rightarrow> Some err
      | (bytesWritten, None) \<Rightarrow>
          if bytesWritten \<noteq> length expectedWrite
          then Some (Errorf ''incomplete write, expected %d bytes but wrote %d''
                  [utoa (length expectedWrite), utoa bytesWritten])
          else None)"

text \<open>
  The deferred close looks at the variable \<open>err\<close>, which is still nil when the acknowledgement
  is not the expected one.
\<close>

definition tryConnect :: "'w net \<Rightarrow> string \<Rightarrow> 32 word \<Rightarrow> 'w \<Rightarrow> (gerr + net_conn) \<times> 'w" where
  "tryConnect net udsPath port w =
     (case net_DialTimeout net udsPath unixDialTimeout w of
        (Inl err, w) \<Rightarrow> (Inl err, w)
      | (Inr conn, w) \<Rightarrow>
          (case tryConnWrite conn (vsockConnectMsg port) of
             Some err \<Rightarrow> (Inl (VsockConnectMsgError err), snd (net_Close net conn w))
           | None \<Rightarrow>
               (case tryConnReadUntil conn (CHR 0x0A) of
                  ((line, Some err), conn) \<Rightarrow> (Inl (VsockAckError err), snd (net_Close net conn w))
                | ((line, None), conn) \<Rightarrow>
                    if \<not> strings_HasPrefix line ''OK ''
                    then (Inl (VsockAckError (Errorf ''expected to read OK <port>, but instead read %q'' [line])), w)
                    else (Inr conn, w))))"

definition tryAccept :: "('w \<Rightarrow> (gerr + net_conn) \<times> 'w) \<Rightarrow> 'w \<Rightarrow> (gerr + net_conn) \<times> 'w" where
  "tryAccept accept w =
     (case accept w of (Inl err, w) \<Rightarrow> (Inl err, w) | (Inr conn, w) \<Rightarrow> (Inr conn, w))"

section \<open>Which errors are temporary\<close>

text \<open>
  The method \<open>Temporary\<close> of an error, if it has one. Of the kernel's errors \<open>EINTR\<close>, \<open>EAGAIN\<close>,
  \<open>ENFILE\<close>, \<open>EMFILE\<close> and \<open>ETIMEDOUT\<close> are temporary. A wrapped error has no such method.
\<close>

fun Temporary :: "gerr \<Rightarrow> bool option" where
  "Temporary (NetError t _) = Some t"
| "Temporary (VsockConnectMsgError _) = Some False"
| "Temporary (VsockAckError _) = Some True"
| "Temporary ContextDeadlineExceeded = Some True"
| "Temporary (Errno (OtherErrno n)) = Some (n \<in> {4, 11, 23, 24, 110})"
| "Temporary (Errno _) = Some False"
| "Temporary _ = None"

definition isTemporaryNetErr :: "gerr option \<Rightarrow> bool" where
  "isTemporaryNetErr err = (case err of None \<Rightarrow> False | Some e \<Rightarrow> Temporary e = Some True)"

section \<open>Retrying\<close>

text \<open>
  The loop of \<open>VSockDial\<close> and of the listener's \<open>Accept\<close>, over the schedule; \<open>None\<close> while it is still
  waiting when the schedule ends.
\<close>

fun retry_loop ::
    "('w \<Rightarrow> (gerr + net_conn) \<times> 'w) \<Rightarrow> string \<Rightarrow> select list \<Rightarrow> 'w \<Rightarrow> (gerr + net_conn) option \<times> 'w" where
  "retry_loop attempt msg [] w = (None, w)"
| "retry_loop attempt msg (Done err # sched) w = (Some (Inl err), w)"
| "retry_loop attempt msg (Tick # sched) w =
     (case attempt w of
        (Inl err, w) \<Rightarrow>
          if isTemporaryNetErr (Some err) then retry_loop attempt msg sched w
          else (Some (Inl (Wrap err msg [])), w)
      | (Inr conn, w) \<Rightarrow> (Some (Inr conn), w))"

definition VSockDial ::
    "'w net \<Rightarrow> string \<Rightarrow> 32 word \<Rightarrow> select list \<Rightarrow> 'w \<Rightarrow> (gerr + net_conn) option \<times> 'w" where
  "VSockDial net udsPath port sched w =
     retry_loop (tryConnect net udsPath port) ''non-temporary vsock dial failure'' sched w"

definition vsockListener_Accept ::
    "('w \<Rightarrow> (gerr + net_conn) \<times> 'w) \<Rightarrow> select list \<Rightarrow> 'w \<Rightarrow> (gerr + net_conn) option \<times> 'w" where
  "vsockListener_Accept accept sched w =
     retry_loop (tryAccept accept) ''non-temporary vsock accept failure'' sched w"

text \<open>
  The connectors. The result is what the channel delivers; the outer \<open>None\<close> means that the
  connector itself does not return, the inner one that nothing has been delivered yet. The
  accepting connector reports a failure to listen by a send on an unbuffered channel that
  nobody can receive from before it returns.
\<close>

definition VSockDialConnector ::
    "'w net \<Rightarrow> string \<Rightarrow> 32 word \<Rightarrow> select list \<Rightarrow> 'w \<Rightarrow> (gerr + net_conn) option option \<times> 'w" where
  "VSockDialConnector net udsPath port sched w =
     (let (r, w) = VSockDial net udsPath port sched w in (Some r, w))"

definition VSockAcceptConnector ::
    "(32 word \<Rightarrow> 'w \<Rightarrow> gerr option \<times> 'w) \<Rightarrow> ('w \<Rightarrow> (gerr + net_conn) \<times> 'w) \<Rightarrow> ('w \<Rightarrow> 'w) \<Rightarrow> 32 word \<Rightarrow> select list \<Rightarrow>
     'w \<Rightarrow> (gerr + net_conn) option option \<times> 'w" where
  "VSockAcceptConnector listen accept close_listener port sched w =
     (case listen port w of
        (Some err, w) \<Rightarrow> (None, w)
      | (None, w) \<Rightarrow>
          (let (r, w) = vsockListener_Accept accept sched w
           in (Some r, if r = None then w else close_listener w)))"

section \<open>The handshake\<close>

datatype net_event = EvDial string | EvClose

definition traced_net :: "'w net \<Rightarrow> ('w \<times> net_event list) net" where
  "traced_net net =
     \<lparr>net_DialTimeout = (\<lambda>p d s. case net_DialTimeout net p d (fst s) of (r, w) \<Rightarrow> (r, (w, snd s @ [EvDial p]))),
      net_Close = (\<lambda>c s. case net_Close net c (fst s) of (r, w) \<Rightarrow> (r, (w, snd s @ [EvClose])))\<rparr>"

definition newline :: string where "newline = [CHR 0x0A]"

text \<open>What a read up to a delimiter makes of the pieces that arrive.\<close>

lemma read_string_spec:
  "read_string c acc chunks err =
     (if c \<in> set (concat chunks)
      then ((acc @ takeWhile (\<lambda>x. x \<noteq> c) (concat chunks) @ [c], None), tl (dropWhile (\<lambda>chunk. c \<notin> set chunk) chunks))
      else ((acc @ concat chunks, Some err), []))"
proof (induction chunks arbitrary: acc)
  case (Cons chunk chunks)
  show ?case
  proof (cases "c \<in> set chunk")
    case True
    then show ?thesis by (simp add: takeWhile_append1)
  next
    case False
    then have "takeWhile (\<lambda>x. x \<noteq> c) (chunk @ concat chunks) = chunk @ takeWhile (\<lambda>x. x \<noteq> c) (concat chunks)"
      by (intro takeWhile_append2) blast
    with False Cons.IH[of "acc @ chunk"] show ?thesis by simp
  qed
qed simp

lemma ok_line: "strings_HasPrefix (line @ newline) ''OK '' \<longleftrightarrow> prefix ''OK '' line"
proof -
  have "''OK '' \<noteq> line @ newline"
  proof
    assume "''OK '' = line @ newline"
    then have "last ''OK '' = last (line @ newline)" by simp
    then show False by (simp add: newline_def)
  qed
  then show ?thesis by (simp add: strings_HasPrefix_iff newline_def)
qed

text \<open>
  C38: The handshake. \<open>tryConnect\<close> writes "CONNECT ", the number of the port and a newline in one go, and then reads up to the first newline,
  however the answer is cut into reads. It gives a connection exactly when the socket could be dialled, all bytes of the request were written
  without an error, a newline arrived and the line before it begins with "OK "; the connection then holds only the reads after the one with
  the newline. A request that fails or is written in part is a permanent error, a missing or bad answer a temporary one. A
  connection that is not given back is closed, except when the answer is a line that
  does not begin with "OK ": then it is leaked.
\<close>

theorem tryConnect_handshake:
  assumes "tryConnect (traced_net net) uds port (w, []) = (r, (w', t))"
  shows "case fst (net_DialTimeout net uds unixDialTimeout w) of
      Inl err \<Rightarrow> r = Inl err \<and> t = [EvDial uds]
    | Inr conn \<Rightarrow>
       (let request = ''CONNECT '' @ utoa (unat port) @ newline; answer = concat (conn_chunks conn) in
        if conn_Write conn request \<noteq> (length request, None)
        then t = [EvDial uds, EvClose] \<and>
          (\<exists>err. r = Inl (VsockConnectMsgError err) \<and> \<not> isTemporaryNetErr (Some (VsockConnectMsgError err)) \<and>
             (\<forall>e. snd (conn_Write conn request) = Some e \<longrightarrow> err = e))
        else if CHR 0x0A \<notin> set answer
        then t = [EvDial uds, EvClose] \<and> r = Inl (VsockAckError (conn_end conn)) \<and> isTemporaryNetErr (Some (VsockAckError (conn_end conn)))
        else t = [EvDial uds] \<and>
          (if prefix ''OK '' (takeWhile (\<lambda>x. x \<noteq> CHR 0x0A) answer)
           then r = Inr (conn\<lparr>conn_chunks := tl (dropWhile (\<lambda>chunk. CHR 0x0A \<notin> set chunk) (conn_chunks conn))\<rparr>)
           else \<exists>e. r = Inl (VsockAckError e) \<and> isTemporaryNetErr (Some (VsockAckError e))))"
proof -
  obtain d w1 where d: "net_DialTimeout net uds unixDialTimeout w = (d, w1)" by fastforce
  show ?thesis
  proof (cases d)
    case (Inl err)
    have "tryConnect (traced_net net) uds port (w, []) = (Inl err, (w1, [EvDial uds]))"
      by (simp add: tryConnect_def traced_net_def d Inl)
    with assms show ?thesis unfolding d fst_conv Inl sum.case by simp
  next
    case (Inr conn)
    define request where "request = ''CONNECT '' @ utoa (unat port) @ newline"
    define answer where "answer = concat (conn_chunks conn)"
    let ?line = "takeWhile (\<lambda>x. x \<noteq> CHR 0x0A) answer"
    let ?rest = "conn\<lparr>conn_chunks := tl (dropWhile (\<lambda>chunk. CHR 0x0A \<notin> set chunk) (conn_chunks conn))\<rparr>"
    have msg: "vsockConnectMsg port = request" by (simp add: vsockConnectMsg_def request_def newline_def)
    have wr: "tryConnWrite conn request = None \<longleftrightarrow> conn_Write conn request = (length request, None)"
      "\<forall>e. snd (conn_Write conn request) = Some e \<longrightarrow> tryConnWrite conn request = Some e"
      by (auto simp: tryConnWrite_def split: prod.splits option.splits)
    have rd: "tryConnReadUntil conn (CHR 0x0A) =
        (if CHR 0x0A \<in> set answer then ((?line @ newline, None), ?rest) else ((answer, Some (conn_end conn)), conn\<lparr>conn_chunks := []\<rparr>))"
      by (simp add: tryConnReadUntil_def read_string_spec newline_def answer_def)
    have tmp: "isTemporaryNetErr (Some (VsockAckError e))" "\<not> isTemporaryNetErr (Some (VsockConnectMsgError e))" for e
      by (simp_all add: isTemporaryNetErr_def)
    note red = assms[unfolded tryConnect_def msg]
    have dial: "net_DialTimeout (traced_net net) uds unixDialTimeout (w, []) = (Inr conn, (w1, [EvDial uds]))"
      using d Inr by (simp add: traced_net_def)
    have close: "snd (net_Close (traced_net net) c (w2, ts)) = (snd (net_Close net c w2), ts @ [EvClose])" for c w2 ts
      by (simp add: traced_net_def split: prod.splits)
    note goal = d fst_conv Inr sum.case Let_def request_def[symmetric] answer_def[symmetric]
    show ?thesis
    proof (cases "tryConnWrite conn request")
      case (Some err)
      with red have "r = Inl (VsockConnectMsgError err)" "t = [EvDial uds, EvClose]" by (simp_all add: dial close)
      moreover have "conn_Write conn request \<noteq> (length request, None)" using Some wr(1) by auto
      moreover have "\<forall>e. snd (conn_Write conn request) = Some e \<longrightarrow> err = e" using wr(2) Some by auto
      ultimately show ?thesis unfolding goal using tmp(2) by simp
    next
      case None
      with wr(1) have ok: "conn_Write conn request = (length request, None)" by blast
      note red' = red[unfolded dial prod.case sum.case None option.case rd]
      show ?thesis
      proof (cases "CHR 0x0A \<in> set answer")
        case False
        with red' have "r = Inl (VsockAckError (conn_end conn))" "t = [EvDial uds, EvClose]" by (simp_all add: close)
        with False ok tmp(1) show ?thesis unfolding goal by simp
      next
        case True
        note red'' = red'[unfolded if_P[OF True] prod.case option.case ok_line]
        have "t = [EvDial uds]" using red'' by (simp split: if_splits)
        moreover have "if prefix ''OK '' ?line then r = Inr ?rest else \<exists>e. r = Inl (VsockAckError e)"
          using red'' by (auto split: if_splits)
        ultimately show ?thesis unfolding goal using True ok tmp(1) by simp
      qed
    qed
  qed
qed

text \<open>A socket that can be dialled and whose peer answers with the given pieces.\<close>

definition net_with :: "string list \<Rightarrow> 'w net" where
  "net_with chunks =
     \<lparr>net_DialTimeout = (\<lambda>p d w. (Inr \<lparr>conn_chunks = chunks, conn_end = NetError True ''i/o timeout'',
        conn_Write = (\<lambda>s. (length s, None))\<rparr>, w)),
      net_Close = (\<lambda>c w. (None, w))\<rparr>"

theorem tryConnect_handshake_witness:
  "\<exists>conn. tryConnect (traced_net (net_with [''O'', ''K 5'' @ newline @ ''lost'', ''kept''])) ''/s'' 10789 ((), []) =
     (Inr conn, ((), [EvDial ''/s''])) \<and> conn_chunks conn = [''kept'']"
proof -
  let ?net = "net_with [''O'', ''K 5'' @ newline @ ''lost'', ''kept''] :: unit net"
  obtain r t where x: "tryConnect (traced_net ?net) ''/s'' 10789 ((), []) = (r, ((), t))"
    by (cases "tryConnect (traced_net ?net) ''/s'' 10789 ((), [])") auto
  define conn :: net_conn where "conn = \<lparr>conn_chunks = [''O'', ''K 5'' @ newline @ ''lost'', ''kept''],
      conn_end = NetError True ''i/o timeout'', conn_Write = (\<lambda>m. (length m, None))\<rparr>"
  have c: "fst (net_DialTimeout ?net ''/s'' unixDialTimeout ()) = Inr conn"
    "conn_chunks conn = [''O'', ''K 5'' @ newline @ ''lost'', ''kept'']" "\<And>m. conn_Write conn m = (length m, None)"
    by (simp_all add: net_with_def conn_def)
  have line: "takeWhile (\<lambda>x. x \<noteq> CHR 0x0A) (concat (conn_chunks conn)) = ''OK 5''" "CHR 0x0A \<in> set (concat (conn_chunks conn))"
    "tl (dropWhile (\<lambda>chunk. CHR 0x0A \<notin> set chunk) (conn_chunks conn)) = [''kept'']"
    by (simp_all add: c(2) newline_def)
  from tryConnect_handshake[OF x, unfolded c(1) sum.case Let_def c(3) line(1) line(3)]
  have "t = [EvDial ''/s''] \<and> r = Inr (conn\<lparr>conn_chunks := [''kept'']\<rparr>)" using line(2) by simp
  with x show ?thesis by simp
qed

lemma tryConnect_buffered:
  assumes "net_DialTimeout net uds unixDialTimeout w =
      (Inr \<lparr>conn_chunks = (''OK '' @ p @ newline @ early) # later, conn_end = e, conn_Write = wr\<rparr>, w1)"
    and "CHR 0x0A \<notin> set p" and "wr (vsockConnectMsg port) = (length (vsockConnectMsg port), None)"
  shows "tryConnect net uds port w = (Inr \<lparr>conn_chunks = later, conn_end = e, conn_Write = wr\<rparr>, w1)"
proof -
  let ?n = "CHR 0x0A"
  have "takeWhile (\<lambda>x. x \<noteq> ?n) (''OK '' @ p @ newline @ early) = ''OK '' @ p"
    using assms(2) by (auto simp: newline_def takeWhile_append)
  then have "read_string ?n [] ((''OK '' @ p @ newline @ early) # later) e = ((''OK '' @ p @ [?n], None), later)"
    by (simp add: newline_def)
  moreover have "strings_HasPrefix (''OK '' @ p @ [?n]) ''OK ''" by (simp add: strings_HasPrefix_def)
  ultimately show ?thesis
    using assms by (simp add: tryConnect_def tryConnWrite_def tryConnReadUntil_def)
qed

text \<open>
  Data that follows the acknowledgement in the same read is lost: the reader is buffered and is
  dropped after the first line, so that what the guest has already sent never reaches the
  copying of the stream. (The line is "OK port", within the 32 bytes of one read.)
\<close>

theorem tryConnect_drops_early_data:
  assumes "net_DialTimeout net uds unixDialTimeout w =
      (Inr \<lparr>conn_chunks = (''OK '' @ p @ newline @ early) # later, conn_end = e, conn_Write = wr\<rparr>, w1)"
    and "CHR 0x0A \<notin> set p" and "wr (vsockConnectMsg port) = (length (vsockConnectMsg port), None)"
  shows "tryConnect net uds port w = (Inr \<lparr>conn_chunks = later, conn_end = e, conn_Write = wr\<rparr>, w1)"
  using assms by (rule tryConnect_buffered)

theorem tryConnect_drops_early_data_witness:
  "\<exists>conn. tryConnect (net_with [''OK 5'' @ newline @ ''hello'', ''world'']) ''/s'' 11001 () = (Inr conn, ()) \<and>
     concat (conn_chunks conn) = ''world''"
proof -
  have d: "net_DialTimeout (net_with [''OK 5'' @ newline @ ''hello'', ''world'']) ''/s'' unixDialTimeout () =
      (Inr \<lparr>conn_chunks = (''OK '' @ ''5'' @ newline @ ''hello'') # [''world''], conn_end = NetError True ''i/o timeout'',
        conn_Write = (\<lambda>s. (length s, None))\<rparr>, ())"
    by (simp add: net_with_def)
  have "CHR 0x0A \<notin> set ''5''" by simp
  from tryConnect_drops_early_data[OF d this, of 11001] show ?thesis by simp
qed

section \<open>The retry loop\<close>

text \<open>
  The outcomes of the attempts of a schedule: \<open>attempts n\<close> attempts fail temporarily in a row.
\<close>

fun fails :: "('w \<Rightarrow> (gerr + net_conn) \<times> 'w) \<Rightarrow> nat \<Rightarrow> 'w \<Rightarrow> 'w option" where
  "fails attempt 0 w = Some w"
| "fails attempt (Suc n) w =
     (case attempt w of
        (Inl err, w) \<Rightarrow> if isTemporaryNetErr (Some err) then fails attempt n w else None
      | (Inr conn, w) \<Rightarrow> None)"

lemma retry_loop_spec:
  "\<exists>n w1. fails attempt n w = Some w1 \<and> n \<le> length sched \<and> (\<forall>s \<in> set (take n sched). s = Tick) \<and>
     (case drop n sched of
        [] \<Rightarrow> retry_loop attempt msg sched w = (None, w1)
      | Done err # _ \<Rightarrow> retry_loop attempt msg sched w = (Some (Inl err), w1)
      | Tick # _ \<Rightarrow>
          (case attempt w1 of
             (Inl err, w2) \<Rightarrow> \<not> isTemporaryNetErr (Some err) \<and>
                retry_loop attempt msg sched w = (Some (Inl (Wrap err msg [])), w2)
           | (Inr conn, w2) \<Rightarrow> retry_loop attempt msg sched w = (Some (Inr conn), w2)))"
proof (induction attempt msg sched w rule: retry_loop.induct)
  case (1 attempt msg w)
  show ?case by (intro exI[of _ 0] exI[of _ w]) simp
next
  case (2 attempt msg err sched w)
  show ?case by (intro exI[of _ 0] exI[of _ w]) simp
next
  case (3 attempt msg sched w)
  obtain r w1 where a: "attempt w = (r, w1)" by fastforce
  show ?case
  proof (cases "\<exists>err. r = Inl err \<and> isTemporaryNetErr (Some err)")
    case True
    then obtain err where r: "r = Inl err" "isTemporaryNetErr (Some err)" by blast
    from 3[OF a[symmetric] r] obtain n w2 where IH: "fails attempt n w1 = Some w2" "n \<le> length sched"
      "\<forall>s \<in> set (take n sched). s = Tick"
      "case drop n sched of
        [] \<Rightarrow> retry_loop attempt msg sched w1 = (None, w2)
      | Done err # _ \<Rightarrow> retry_loop attempt msg sched w1 = (Some (Inl err), w2)
      | Tick # _ \<Rightarrow>
          (case attempt w2 of
             (Inl err, w3) \<Rightarrow> \<not> isTemporaryNetErr (Some err) \<and>
                retry_loop attempt msg sched w1 = (Some (Inl (Wrap err msg [])), w3)
           | (Inr conn, w3) \<Rightarrow> retry_loop attempt msg sched w1 = (Some (Inr conn), w3))"
      by blast
    have eq: "retry_loop attempt msg (Tick # sched) w = retry_loop attempt msg sched w1" using a r by simp
    show ?thesis unfolding eq
      using IH a r by (intro exI[of _ "Suc n"] exI[of _ w2]) simp
  next
    case False
    then show ?thesis using a
      by (intro exI[of _ 0] exI[of _ w]) (auto split: sum.splits)
  qed
qed

lemma retry_loop_returns:
  "Done err \<in> set sched \<Longrightarrow> fst (retry_loop attempt msg sched w) \<noteq> None"
proof (induction sched arbitrary: w)
  case (Cons s sched)
  then show ?case by (cases s) (auto split: prod.splits sum.splits)
qed simp

text \<open>
  C39: \<open>VSockDial\<close> retries exactly the temporary failures, once per tick: after some number of attempts
  that all failed temporarily, it returns the connection of the next attempt, or that
  attempt's permanent error, or the context's error when the context ends first, and else it
  is still waiting. It never gives up by itself: of the "fixed timeout" that the comment on it speaks of there is none in the code.
\<close>

theorem VSockDial_retries:
  "\<exists>n w1. fails (tryConnect net uds port) n w = Some w1 \<and> n \<le> length sched \<and> (\<forall>s \<in> set (take n sched). s = Tick) \<and>
     (case drop n sched of
        [] \<Rightarrow> VSockDial net uds port sched w = (None, w1)
      | Done err # _ \<Rightarrow> VSockDial net uds port sched w = (Some (Inl err), w1)
      | Tick # _ \<Rightarrow>
          (case tryConnect net uds port w1 of
             (Inl err, w2) \<Rightarrow> \<not> isTemporaryNetErr (Some err) \<and>
                VSockDial net uds port sched w = (Some (Inl (Wrap err ''non-temporary vsock dial failure'' [])), w2)
           | (Inr conn, w2) \<Rightarrow> VSockDial net uds port sched w = (Some (Inr conn), w2)))"
  unfolding VSockDial_def by (rule retry_loop_spec)

theorem VSockDial_retries_witness:
  "\<exists>conn. VSockDial (net_with [''OK 5'' @ newline]) ''/s'' 10789 [Tick] () = (Some (Inr conn), ())"
proof -
  define net :: "unit net" where "net = net_with [''OK 5'' @ newline]"
  have d: "net_DialTimeout net ''/s'' unixDialTimeout () =
      (Inr \<lparr>conn_chunks = (''OK '' @ ''5'' @ newline @ []) # [], conn_end = NetError True ''i/o timeout'',
        conn_Write = (\<lambda>s. (length s, None))\<rparr>, ())"
    by (simp add: net_def net_with_def)
  have p: "CHR 0x0A \<notin> set ''5''" by simp
  obtain conn where c: "tryConnect net ''/s'' 10789 () = (Inr conn, ())"
    using tryConnect_buffered[OF d p, of 10789] by simp
  obtain n w1 where n: "fails (tryConnect net ''/s'' 10789) n () = Some w1"
    and s: "case drop n [Tick] of [] \<Rightarrow> VSockDial net ''/s'' 10789 [Tick] () = (None, w1)
      | Done err # _ \<Rightarrow> VSockDial net ''/s'' 10789 [Tick] () = (Some (Inl err), w1)
      | Tick # _ \<Rightarrow> (case tryConnect net ''/s'' 10789 w1 of
             (Inl err, w2) \<Rightarrow> \<not> isTemporaryNetErr (Some err) \<and>
                VSockDial net ''/s'' 10789 [Tick] () = (Some (Inl (Wrap err ''non-temporary vsock dial failure'' [])), w2)
           | (Inr conn, w2) \<Rightarrow> VSockDial net ''/s'' 10789 [Tick] () = (Some (Inr conn), w2))"
    using VSockDial_retries[of net "''/s''" 10789 "()" "[Tick]"] by blast
  have "n = 0" using n c by (cases n) auto
  with s c show ?thesis by (simp add: net_def)
qed

text \<open>
  A guest side connector that cannot listen never returns: it sends its error on an unbuffered
  channel before it has handed that channel to anybody.
\<close>

theorem VSockAcceptConnector_blocks:
  "fst (VSockAcceptConnector listen accept close port sched w) = None \<longleftrightarrow> fst (listen port w) \<noteq> None"
  by (auto simp: VSockAcceptConnector_def Let_def split: prod.splits option.splits)

end
