(* ===== verification/IOProxies.thy ===== *)
theory IOProxies
  imports Vsock TaskManager
begin

text \<open>
  \<open>internal/vm/ioproxy.go\<close>, \<open>agent.go\<close> and \<open>fifo.go\<close>: proxying the stdio of a process. Which
  connectors a proxy has is data (\<open>connector\<close>, \<open>ioproxy\<close>). The goroutine of a pair is a function
  of what it receives, in the order of arrival, and of what the copying gives; \<open>start\<close> is a
  function of its pairs' runs in the order in which they end. A run says what it has sent on
  its channels before they were closed, and which streams it has closed.
\<close>

section \<open>Connectors\<close>

datatype connector =
    VSockDialConn string "32 word"
  | VSockAcceptConn "32 word"
  | FifoConn string bool

definition ReadFIFOConnector :: "string \<Rightarrow> connector" where
  "ReadFIFOConnector path = FifoConn path False"

definition WriteFIFOConnector :: "string \<Rightarrow> connector" where
  "WriteFIFOConnector path = FifoConn path True"

record IOConnectorPair =
  ReadConnector :: connector
  WriteConnector :: connector

datatype ioproxy =
    NullIOProxy
  | IOConnectorSet "IOConnectorPair option" "IOConnectorPair option" "IOConnectorPair option"

definition NewNullIOProxy :: ioproxy where
  "NewNullIOProxy = NullIOProxy"

definition NewIOConnectorProxy ::
    "IOConnectorPair option \<Rightarrow> IOConnectorPair option \<Rightarrow> IOConnectorPair option \<Rightarrow> ioproxy" where
  "NewIOConnectorProxy sin sout serr = IOConnectorSet sin sout serr"

text \<open>
  The scheme of a URL as \<open>net/url\<close> finds it: letters, and after the first letter also digits and
  "+-.", up to a colon. \<open>rest_ok\<close> says whether what follows the scheme parses.
\<close>

definition is_letter :: "char \<Rightarrow> bool" where
  "is_letter c \<longleftrightarrow> (65 \<le> (of_char c :: nat) \<and> (of_char c :: nat) \<le> 90) \<or> (97 \<le> (of_char c :: nat) \<and> (of_char c :: nat) \<le> 122)"

definition to_lower :: "char \<Rightarrow> char" where
  "to_lower c = (if 65 \<le> (of_char c :: nat) \<and> (of_char c :: nat) \<le> 90 then char_of ((of_char c :: nat) + 32) else c)"

fun getscheme :: "string \<Rightarrow> string \<Rightarrow> string \<Rightarrow> gerr + string \<times> string" where
  "getscheme whole acc [] = Inr ([], whole)"
| "getscheme whole acc (c # cs) =
     (if is_letter c then getscheme whole (acc @ [c]) cs
      else if is_digit c \<or> c \<in> {CHR ''+'', CHR ''-'', CHR ''.''}
        then (if acc = [] then Inr ([], whole) else getscheme whole (acc @ [c]) cs)
      else if c = CHR '':''
        then (if acc = [] then Inl (ExtError ''missing protocol scheme'') else Inr (acc, cs))
      else Inr ([], whole))"

definition url_Scheme :: "(string \<Rightarrow> gerr option) \<Rightarrow> string \<Rightarrow> gerr + string" where
  "url_Scheme rest_ok s =
     (case getscheme s [] s of
        Inl err \<Rightarrow> Inl err
      | Inr (scheme, rest) \<Rightarrow> (case rest_ok rest of Some err \<Rightarrow> Inl err | None \<Rightarrow> Inr (map to_lower scheme)))"

definition IsAgentOnlyIO :: "(string \<Rightarrow> gerr option) \<Rightarrow> string \<Rightarrow> bool" where
  "IsAgentOnlyIO rest_ok stdout =
     (case url_Scheme rest_ok stdout of
        Inl err \<Rightarrow> False
      | Inr scheme \<Rightarrow> scheme = ''binary'' \<or> scheme = ''file'')"

section \<open>One pair\<close>

datatype side = Reader | Writer

record 's proxy_run =
  initMsgs :: "gerr list"
  copyMsg :: "gerr option"
  copied :: bool
  closed :: "'s list"

definition logClose :: "'s option \<Rightarrow> 's option \<Rightarrow> 's list" where
  "logClose reader writer =
     (case reader of None \<Rightarrow> [] | Some s \<Rightarrow> [s]) @ (case writer of None \<Rightarrow> [] | Some s \<Rightarrow> [s])"

text \<open>The receiving loop: reader, writer, the last error and the messages sent.\<close>

fun receive ::
    "(side \<times> (gerr + 's)) list \<Rightarrow> 's option \<Rightarrow> 's option \<Rightarrow> gerr option \<Rightarrow> gerr list \<Rightarrow>
     's option \<times> 's option \<times> gerr option \<times> gerr list" where
  "receive [] reader writer ioInitErr msgs = (reader, writer, ioInitErr, msgs)"
| "receive ((Reader, Inr s) # rs) reader writer ioInitErr msgs = receive rs (Some s) writer ioInitErr msgs"
| "receive ((Writer, Inr s) # rs) reader writer ioInitErr msgs = receive rs reader (Some s) ioInitErr msgs"
| "receive ((_, Inl err) # rs) reader writer ioInitErr msgs =
     (let e = Wrap err ''error initializing io'' [] in receive rs reader writer (Some e) (msgs @ [e]))"

definition proxy :: "('s \<Rightarrow> 's \<Rightarrow> gerr option) \<Rightarrow> (side \<times> (gerr + 's)) list \<Rightarrow> 's proxy_run" where
  "proxy copyBuffer arrivals =
     (case receive arrivals None None None [] of
        (reader, writer, ioInitErr, msgs) \<Rightarrow>
          (case (ioInitErr, reader, writer) of
             (None, Some r, Some wr) \<Rightarrow>
               \<lparr>initMsgs = msgs, copyMsg = copyBuffer wr r, copied = True, closed = logClose reader writer\<rparr>
           | _ \<Rightarrow> \<lparr>initMsgs = msgs, copyMsg = None, copied = False, closed = logClose reader writer\<rparr>))"

text \<open>The two orders in which the results of a pair can arrive.\<close>

definition arrival :: "bool \<Rightarrow> gerr + 's \<Rightarrow> gerr + 's \<Rightarrow> (side \<times> (gerr + 's)) list" where
  "arrival readerFirst r w = (if readerFirst then [(Reader, r), (Writer, w)] else [(Writer, w), (Reader, r)])"

section \<open>All streams\<close>

text \<open>Receiving once from a channel on which these messages are sent before it is closed.\<close>

definition receive_once :: "gerr list \<Rightarrow> gerr option" where
  "receive_once msgs = (case msgs of [] \<Rightarrow> None | e # _ \<Rightarrow> Some e)"

text \<open>\<open>errgroup\<close>'s \<open>Wait\<close>: the first error in the order in which the functions return.\<close>

fun errgroup_Wait :: "gerr option list \<Rightarrow> gerr option" where
  "errgroup_Wait [] = None"
| "errgroup_Wait (r # rs) = (case r of Some err \<Rightarrow> Some err | None \<Rightarrow> errgroup_Wait rs)"

definition start_initDone :: "'s proxy_run list \<Rightarrow> gerr option" where
  "start_initDone runs = errgroup_Wait (map (\<lambda>r. receive_once (initMsgs r)) runs)"

definition start_copyDone :: "'s proxy_run list \<Rightarrow> gerr option" where
  "start_copyDone runs = errgroup_Wait (map copyMsg runs)"

definition null_start :: "gerr option \<times> gerr option" where
  "null_start = (receive_once [], receive_once [])"

section \<open>Properties\<close>

lemma proxy_arrival:
  "proxy copyBuffer (arrival b r w) =
     (case (r, w) of
        (Inr s, Inr d) \<Rightarrow> \<lparr>initMsgs = [], copyMsg = copyBuffer d s, copied = True, closed = [s, d]\<rparr>
      | (Inr s, Inl e) \<Rightarrow> \<lparr>initMsgs = [Wrap e ''error initializing io'' []], copyMsg = None, copied = False, closed = [s]\<rparr>
      | (Inl e, Inr d) \<Rightarrow> \<lparr>initMsgs = [Wrap e ''error initializing io'' []], copyMsg = None, copied = False, closed = [d]\<rparr>
      | (Inl e, Inl f) \<Rightarrow>
          \<lparr>initMsgs = (if b then [Wrap e ''error initializing io'' [], Wrap f ''error initializing io'' []]
                      else [Wrap f ''error initializing io'' [], Wrap e ''error initializing io'' []]),
           copyMsg = None, copied = False, closed = []\<rparr>)"
  by (cases r; cases w; cases b) (simp_all add: proxy_def arrival_def logClose_def Let_def)

lemma errgroup_Wait_None: "errgroup_Wait rs = None \<longleftrightarrow> (\<forall>r \<in> set rs. r = None)"
  by (induction rs) (auto split: option.splits)

lemma errgroup_Wait_Some: "errgroup_Wait rs = Some e \<Longrightarrow> Some e \<in> set rs"
  by (induction rs) (auto split: option.splits)

text \<open>
  C37: The initialisation of a process's IO succeeds exactly when both ends of every stream could
  be connected, in whatever order the ends and the streams report. A stream with an end that
  failed copies nothing and closes the other end if that was opened; a stream that was set
  up is copied and has both ends closed afterwards. The error that is reported is one of
  the connectors' errors.
\<close>

theorem io_initialisation:
  fixes results :: "(bool \<times> (gerr + 's) \<times> (gerr + 's)) list" and copyBuffer :: "'s \<Rightarrow> 's \<Rightarrow> gerr option"
  defines "runs \<equiv> map (\<lambda>(b, r, w). proxy copyBuffer (arrival b r w)) results"
  shows "(start_initDone runs = None \<longleftrightarrow> (\<forall>(b, r, w) \<in> set results. isOk r \<and> isOk w)) \<and>
     (\<forall>e. start_initDone runs = Some e \<longrightarrow> (\<exists>(b, r, w) \<in> set results. \<exists>f.
        e = Wrap f ''error initializing io'' [] \<and> (r = Inl f \<or> w = Inl f))) \<and>
     (\<forall>(b, r, w) \<in> set results. copied (proxy copyBuffer (arrival b r w)) = (isOk r \<and> isOk w) \<and>
        set (closed (proxy copyBuffer (arrival b r w))) = {s. r = Inr s \<or> w = Inr s})"
proof (intro conjI)
  have init: "receive_once (initMsgs (proxy copyBuffer (arrival b r w))) = None \<longleftrightarrow> isOk r \<and> isOk w" for b and r w :: "gerr + 's"
    by (cases r; cases w) (simp_all add: proxy_arrival receive_once_def)
  show "start_initDone runs = None \<longleftrightarrow> (\<forall>(b, r, w) \<in> set results. isOk r \<and> isOk w)"
    by (auto simp: start_initDone_def runs_def errgroup_Wait_None init)
  have err: "receive_once (initMsgs (proxy copyBuffer (arrival b r w))) = Some e \<Longrightarrow>
      \<exists>f. e = Wrap f ''error initializing io'' [] \<and> (r = Inl f \<or> w = Inl f)" for b e and r w :: "gerr + 's"
    by (cases r; cases w) (auto simp: proxy_arrival receive_once_def split: if_splits)
  show "\<forall>e. start_initDone runs = Some e \<longrightarrow> (\<exists>(b, r, w) \<in> set results. \<exists>f.
        e = Wrap f ''error initializing io'' [] \<and> (r = Inl f \<or> w = Inl f))"
  proof (intro allI impI)
    fix e assume "start_initDone runs = Some e"
    then have "Some e \<in> set (map (\<lambda>r. receive_once (initMsgs r)) runs)"
      unfolding start_initDone_def by (rule errgroup_Wait_Some)
    then obtain b r w where "(b, r, w) \<in> set results" "receive_once (initMsgs (proxy copyBuffer (arrival b r w))) = Some e"
      by (auto simp: runs_def)
    with err show "\<exists>(b, r, w) \<in> set results. \<exists>f. e = Wrap f ''error initializing io'' [] \<and> (r = Inl f \<or> w = Inl f)"
      by fast
  qed
  have "copied (proxy copyBuffer (arrival b r w)) = (isOk r \<and> isOk w) \<and>
        set (closed (proxy copyBuffer (arrival b r w))) = {s. r = Inr s \<or> w = Inr s}" for b and r w :: "gerr + 's"
    by (cases r; cases w) (auto simp: proxy_arrival)
  then show "\<forall>(b, r, w) \<in> set results. copied (proxy copyBuffer (arrival b r w)) = (isOk r \<and> isOk w) \<and>
        set (closed (proxy copyBuffer (arrival b r w))) = {s. r = Inr s \<or> w = Inr s}"
    by auto
qed

theorem io_initialisation_witness:
  "start_initDone [proxy (\<lambda>_ _. None) (arrival True (Inr (1 :: nat)) (Inr 2)), proxy (\<lambda>_ _. None) (arrival False (Inr 3) (Inl EOF))]
     \<noteq> None"
  using io_initialisation[of "\<lambda>_ _. None" "[(True, Inr (1 :: nat), Inr 2), (False, Inr 3, Inl EOF)]"] by simp

end
