(* ===== verification/VMDir.thy ===== *)
theory VMDir
  imports World GoPath
begin

text \<open>
  Where things are: \<open>internal/vm/dir.go\<close> (the shim directory of a VM),
  \<open>internal/bundle/bundle.go\<close> (the bundle directory of a container), the socket addresses
  of \<open>internal/shim/shim.go\<close> and the VM id annotation of \<open>runtime/firecrackeroci\<close>.
  containerd's identifier check \<open>identifiers.Validate\<close>, its function for a shim's socket
  address and the JSON decoding of an OCI configuration are parameters. What the code
  relies on is that a valid identifier is a good path component: containerd documents
  identifiers as alphanumeric words joined by single dots, dashes and underscores.
\<close>

section \<open>Names, from internal/common.go\<close>

definition FirecrackerSockName :: string where "FirecrackerSockName = ''firecracker.sock''"

definition FirecrackerVSockName :: string where "FirecrackerVSockName = ''firecracker.vsock''"

definition FirecrackerLogFifoName :: string where "FirecrackerLogFifoName = ''fc-logs.fifo''"

definition FirecrackerMetricsFifoName :: string where
  "FirecrackerMetricsFifoName = ''fc-metrics.fifo''"

definition ShimAddrFileName :: string where "ShimAddrFileName = ''address''"

definition ShimLogFifoName :: string where "ShimLogFifoName = ''log''"

definition OCIConfigName :: string where "OCIConfigName = ''config.json''"

definition BundleRootfsName :: string where "BundleRootfsName = ''rootfs''"

section \<open>The bundle directory\<close>

definition vmBundleRoot :: string where "vmBundleRoot = ''/container''"

definition VMBundleDir :: "string \<Rightarrow> string" where
  "VMBundleDir taskID = filepath_Join [vmBundleRoot, taskID]"

definition bundle_RootPath :: "string \<Rightarrow> string" where
  "bundle_RootPath d = d"

definition bundle_AddrFilePath :: "string \<Rightarrow> string" where
  "bundle_AddrFilePath d = filepath_Join [bundle_RootPath d, ShimAddrFileName]"

definition bundle_LogFifoPath :: "string \<Rightarrow> string" where
  "bundle_LogFifoPath d = filepath_Join [bundle_RootPath d, ShimLogFifoName]"

definition RootfsPath :: "string \<Rightarrow> string" where
  "RootfsPath d = filepath_Join [bundle_RootPath d, BundleRootfsName]"

definition OCIConfigPath :: "string \<Rightarrow> string" where
  "OCIConfigPath d = filepath_Join [bundle_RootPath d, OCIConfigName]"

text \<open>An \<open>OCIConfig\<close> is the path of the file.\<close>

definition OCIConfig :: "string \<Rightarrow> string" where
  "OCIConfig d = OCIConfigPath d"

definition OCIConfig_File :: "'w os \<Rightarrow> string \<Rightarrow> 'w \<Rightarrow> (gerr + string) \<times> 'w" where
  "OCIConfig_File os path w =
     (case os_Open os path w of
        (Inl err, w) \<Rightarrow> (Inl (Wrap err ''failed to open OCI config file %s'' [path]), w)
      | (Inr f, w) \<Rightarrow> (Inr f, w))"

definition OCIConfig_Bytes :: "'w os \<Rightarrow> string \<Rightarrow> 'w \<Rightarrow> (gerr + string) \<times> 'w" where
  "OCIConfig_Bytes os path w =
     (case os_ReadFile os path w of
        (Inl err, w) \<Rightarrow> (Inl (Wrap err ''failed to read OCI config file %s'' [path]), w)
      | (Inr f, w) \<Rightarrow> (Inr f, w))"

text \<open>\<open>0700\<close> is 448.\<close>

definition OCIConfig_Write :: "'w os \<Rightarrow> string \<Rightarrow> string \<Rightarrow> 'w \<Rightarrow> gerr option \<times> 'w" where
  "OCIConfig_Write os path contents w =
     (case os_WriteFile os path contents 448 w of
        (Some err, w) \<Rightarrow> (Some (Wrap err ''failed to write OCI config file %s'' [path]), w)
      | (None, w) \<Rightarrow> (None, w))"

definition VMIDAnnotationKey :: string where "VMIDAnnotationKey = ''aws.firecracker.vm.id''"

text \<open>
  The annotations are a nil map when the section is absent; indexing it, like any missing
  key, gives the empty string. \<open>decode\<close> is the JSON decoding of the annotations section.
\<close>

definition OCIConfig_VMID ::
    "'w os \<Rightarrow> (string \<Rightarrow> gerr + (string \<rightharpoonup> string)) \<Rightarrow> string \<Rightarrow> 'w \<Rightarrow> (gerr + string) \<times> 'w" where
  "OCIConfig_VMID os decode path w =
     (case OCIConfig_File os path w of
        (Inl err, w) \<Rightarrow> (Inl err, w)
      | (Inr f, w) \<Rightarrow>
          (let (_, w) = os_Close os path w in
           case decode f of
             Inl err \<Rightarrow> (Inl (Wrap err ''failed to parse Annotations section of OCI config file %s'' [path]), w)
           | Inr annotations \<Rightarrow>
               (Inr (case annotations VMIDAnnotationKey of None \<Rightarrow> [] | Some v \<Rightarrow> v), w)))"

text \<open>The client's side: the option that puts the annotation into a spec.\<close>

definition WithVMID :: "string \<Rightarrow> (string \<rightharpoonup> string) option \<Rightarrow> (string \<rightharpoonup> string) option" where
  "WithVMID vmID annotations =
     (let annotations = (case annotations of None \<Rightarrow> Map.empty | Some m \<Rightarrow> m)
      in Some (annotations(VMIDAnnotationKey \<mapsto> vmID)))"

fun WithVMNetwork :: "('s \<Rightarrow> gerr + 's) list \<Rightarrow> 's \<Rightarrow> gerr + 's" where
  "WithVMNetwork [] spec = Inr spec"
| "WithVMNetwork (opt # opts) spec =
     (case opt spec of Inl err \<Rightarrow> Inl err | Inr spec \<Rightarrow> WithVMNetwork opts spec)"

section \<open>The shim directory\<close>

definition shimDir ::
    "'w os \<Rightarrow> (string \<Rightarrow> gerr option) \<Rightarrow> string \<Rightarrow> string \<Rightarrow> string \<Rightarrow> 'w \<Rightarrow> (gerr + string) \<times> 'w" where
  "shimDir os Validate varRunDir namespace vmID w =
     (case Validate namespace of
        Some err \<Rightarrow> (Inl (Wrap err ''invalid namespace'' []), w)
      | None \<Rightarrow>
          (case Validate vmID of
             Some err \<Rightarrow> (Inl (Wrap err ''invalid vm id'' []), w)
           | None \<Rightarrow>
               (case os_EvalSymlinks os varRunDir w of
                  (Inl err, w) \<Rightarrow> (Inl (Wrap err ''failed evaluating any symlinks in path %q'' [varRunDir]), w)
                | (Inr resolvedVarRunDir, w) \<Rightarrow>
                    (Inr (filepath_Join [resolvedVarRunDir, namespace, vmID]), w))))"

definition ShimDir ::
    "'w os \<Rightarrow> (string \<Rightarrow> gerr option) \<Rightarrow> string \<Rightarrow> string \<Rightarrow> string \<Rightarrow> 'w \<Rightarrow> (gerr + string) \<times> 'w" where
  "ShimDir os Validate shimBaseDir namespace vmID w = shimDir os Validate shimBaseDir namespace vmID w"

definition RootPath :: "string \<Rightarrow> string" where
  "RootPath d = d"

definition dir_Mkdir :: "'w os \<Rightarrow> string \<Rightarrow> 'w \<Rightarrow> gerr option \<times> 'w" where
  "dir_Mkdir os d w = os_MkdirAll os (RootPath d) 448 w"

definition AddrFilePath :: "string \<Rightarrow> string" where
  "AddrFilePath d = filepath_Join [RootPath d, ShimAddrFileName]"

definition LogFifoPath :: "string \<Rightarrow> string" where
  "LogFifoPath d = filepath_Join [RootPath d, ShimLogFifoName]"

definition FirecrackerSockPath :: "string \<Rightarrow> string" where
  "FirecrackerSockPath d = filepath_Join [RootPath d, FirecrackerSockName]"

definition relPathTo :: "'w os \<Rightarrow> string \<Rightarrow> 'w \<Rightarrow> (gerr + string) \<times> 'w" where
  "relPathTo os absPath w =
     (case os_Getwd os w of
        (Inl err, w) \<Rightarrow> (Inl (Wrap err ''failed to get current working directory'' []), w)
      | (Inr cwd, w) \<Rightarrow>
          (case filepath_Rel cwd absPath of
             Inl err \<Rightarrow> (Inl (Wrap err ''failed to get relative path from %q to %q'' [cwd, absPath]), w)
           | Inr relPath \<Rightarrow> (Inr relPath, w)))"

definition FirecrackerSockRelPath :: "'w os \<Rightarrow> string \<Rightarrow> 'w \<Rightarrow> (gerr + string) \<times> 'w" where
  "FirecrackerSockRelPath os d w = relPathTo os (FirecrackerSockPath d) w"

definition FirecrackerVSockPath :: "string \<Rightarrow> string" where
  "FirecrackerVSockPath d = filepath_Join [RootPath d, FirecrackerVSockName]"

definition FirecrackerVSockRelPath :: "'w os \<Rightarrow> string \<Rightarrow> 'w \<Rightarrow> (gerr + string) \<times> 'w" where
  "FirecrackerVSockRelPath os d w = relPathTo os (FirecrackerVSockPath d) w"

definition FirecrackerLogFifoPath :: "string \<Rightarrow> string" where
  "FirecrackerLogFifoPath d = filepath_Join [RootPath d, FirecrackerLogFifoName]"

definition FirecrackerMetricsFifoPath :: "string \<Rightarrow> string" where
  "FirecrackerMetricsFifoPath d = filepath_Join [RootPath d, FirecrackerMetricsFifoName]"

definition BundleLink :: "(string \<Rightarrow> gerr option) \<Rightarrow> string \<Rightarrow> string \<Rightarrow> gerr + string" where
  "BundleLink Validate d containerID =
     (case Validate containerID of
        Some err \<Rightarrow> Inl (Wrap err ''invalid container id %q'' [containerID])
      | None \<Rightarrow> Inr (filepath_Join [RootPath d, containerID]))"

definition createSymlink :: "'w os \<Rightarrow> string \<Rightarrow> string \<Rightarrow> string \<Rightarrow> 'w \<Rightarrow> gerr option \<times> 'w" where
  "createSymlink os oldPath newPath errMsgName w =
     (case os_Symlink os oldPath newPath w of
        (Some err, w) \<Rightarrow>
          (Some (Wrap err ''failed to create %s symlink from \"%s\"->\"%s\"'' [errMsgName, newPath, oldPath]), w)
      | (None, w) \<Rightarrow> (None, w))"

definition CreateBundleLink ::
    "'w os \<Rightarrow> (string \<Rightarrow> gerr option) \<Rightarrow> string \<Rightarrow> string \<Rightarrow> string \<Rightarrow> 'w \<Rightarrow> gerr option \<times> 'w" where
  "CreateBundleLink os Validate d containerID bundleDir w =
     (case BundleLink Validate d containerID of
        Inl err \<Rightarrow> (Some err, w)
      | Inr path \<Rightarrow> createSymlink os (bundle_RootPath bundleDir) (bundle_RootPath path) ''bundle'' w)"

definition CreateAddressLink ::
    "'w os \<Rightarrow> (string \<Rightarrow> gerr option) \<Rightarrow> string \<Rightarrow> string \<Rightarrow> 'w \<Rightarrow> gerr option \<times> 'w" where
  "CreateAddressLink os Validate d containerID w =
     (case BundleLink Validate d containerID of
        Inl err \<Rightarrow> (Some err, w)
      | Inr path \<Rightarrow>
          createSymlink os (AddrFilePath d) (bundle_AddrFilePath path) ''shim address file'' w)"

definition CreateShimLogFifoLink ::
    "'w os \<Rightarrow> (string \<Rightarrow> gerr option) \<Rightarrow> string \<Rightarrow> string \<Rightarrow> 'w \<Rightarrow> gerr option \<times> 'w" where
  "CreateShimLogFifoLink os Validate d containerID w =
     (case BundleLink Validate d containerID of
        Inl err \<Rightarrow> (Some err, w)
      | Inr path \<Rightarrow> createSymlink os (bundle_LogFifoPath path) (LogFifoPath d) ''shim log fifo'' w)"

section \<open>Socket addresses\<close>

definition SocketAddress :: "(string \<Rightarrow> string \<Rightarrow> gerr + string) \<Rightarrow> string \<Rightarrow> string \<Rightarrow> gerr + string" where
  "SocketAddress shim_SocketAddress namespace vmID = shim_SocketAddress namespace vmID"

definition FCControlSocketAddress ::
    "(string \<Rightarrow> string \<Rightarrow> gerr + string) \<Rightarrow> string \<Rightarrow> string \<Rightarrow> gerr + string" where
  "FCControlSocketAddress shim_SocketAddress namespace vmID =
     (case SocketAddress shim_SocketAddress namespace vmID of
        Inl err \<Rightarrow> Inl err
      | Inr shimSocketAddr \<Rightarrow> Inr (filepath_Join [shimSocketAddr, ''fccontrol'']))"

section \<open>Facts\<close>

lemmas name_defs = FirecrackerSockName_def FirecrackerVSockName_def FirecrackerLogFifoName_def
  FirecrackerMetricsFifoName_def ShimAddrFileName_def ShimLogFifoName_def OCIConfigName_def
  BundleRootfsName_def

lemmas dir_defs = RootPath_def AddrFilePath_def LogFifoPath_def FirecrackerSockPath_def
  FirecrackerVSockPath_def FirecrackerLogFifoPath_def FirecrackerMetricsFifoPath_def

lemma good_names [simp]:
  "good_comp FirecrackerSockName" "good_comp FirecrackerVSockName"
  "good_comp FirecrackerLogFifoName" "good_comp FirecrackerMetricsFifoName"
  "good_comp ShimAddrFileName" "good_comp ShimLogFifoName" "good_comp OCIConfigName"
  "good_comp BundleRootfsName"
  by (simp_all add: name_defs good_comp_def)

text \<open>What the code relies on in \<open>identifiers.Validate\<close>.\<close>

definition valid_names :: "(string \<Rightarrow> gerr option) \<Rightarrow> bool" where
  "valid_names Validate \<longleftrightarrow> (\<forall>s. Validate s = None \<longrightarrow> good_comp s)"

definition no_symlinks :: "'w os \<Rightarrow> string \<Rightarrow> string list \<Rightarrow> bool" where
  "no_symlinks os p cs \<longleftrightarrow>
     (\<forall>w. fst (os_EvalSymlinks os p w) = Inr (abs_path cs)) \<and> (\<forall>c \<in> set cs. good_comp c)"

text \<open>The resolved base directory, as \<open>EvalSymlinks\<close> gives it: absolute and clean.\<close>

lemma shimDir_result:
  assumes "fst (shimDir os V base ns vm w) = Inr d" "valid_names V"
    and "fst (os_EvalSymlinks os base w) = Inr (abs_path cs)" "\<forall>c \<in> set cs. good_comp c"
  shows "d = abs_path (cs @ [ns, vm])" "good_comp ns" "good_comp vm"
proof -
  from assms(1) have v: "V ns = None" "V vm = None"
    by (auto simp: shimDir_def split: option.splits)
  with assms(2) show g: "good_comp ns" "good_comp vm"
    by (auto simp: valid_names_def)
  from assms(1,3) v have "d = filepath_Join [abs_path cs, ns, vm]"
    by (auto simp: shimDir_def split: prod.splits sum.splits)
  also have "\<dots> = abs_path (cs @ [ns, vm])"
    using g assms(4) by (simp add: filepath_Join_good)
  finally show "d = abs_path (cs @ [ns, vm])" .
qed

lemma Join_inside:
  "\<forall>c \<in> set cs. good_comp c \<Longrightarrow> good_comp n \<Longrightarrow> filepath_Join [abs_path cs, n] = abs_path (cs @ [n])"
  using filepath_Join_good[of cs "[n]"] by simp

section \<open>Properties\<close>

text \<open>
  C40: two VMs never share a shim directory, and neither directory lies inside the other:
  with one base directory, the directories of two (namespace, VM id) pairs are equal only
  for equal pairs, and a path below one is a path below the other only then.
\<close>

theorem shimDir_isolated:
  assumes "fst (ShimDir os V base ns vm w) = Inr d" "fst (ShimDir os V base ns' vm' w) = Inr d'"
    and "valid_names V"
    and "fst (os_EvalSymlinks os base w) = Inr (abs_path cs)" "\<forall>c \<in> set cs. good_comp c"
    and "prefix (path_comps d) (path_comps d')"
  shows "ns = ns' \<and> vm = vm' \<and> d = d'"
proof -
  note 1 = shimDir_result[OF assms(1)[unfolded ShimDir_def] assms(3-5)]
  note 2 = shimDir_result[OF assms(2)[unfolded ShimDir_def] assms(3-5)]
  have "prefix (cs @ [ns, vm]) (cs @ [ns', vm'])"
    using assms(5,6) 1 2 by simp
  then show ?thesis using 1(1) 2(1) by simp
qed

definition V_example :: "string \<Rightarrow> gerr option" where
  "V_example s = (if s \<in> {''default'', ''vm-1'', ''vm-2''} then None else Some (Errorf ''invalid'' []))"

lemma V_example_valid: "valid_names V_example"
  by (simp add: valid_names_def V_example_def good_comp_def)

theorem shimDir_isolated_witness:
  "\<exists>d. fst (ShimDir os_fine V_example ''/run'' ''default'' ''vm-1'' ()) = Inr d \<and> d = ''/run/default/vm-1''"
proof -
  have r: "abs_path [''run''] = ''/run''" by (simp add: abs_path_def)
  have g: "\<forall>c \<in> set [''run'', ''default'', ''vm-1'']. good_comp c" by (simp add: good_comp_def)
  have d: "fst (ShimDir os_fine V_example ''/run'' ''default'' ''vm-1'' ()) =
      Inr (abs_path [''run'', ''default'', ''vm-1''])"
    using g filepath_Join_good[of "[''run'']" "[''default'', ''vm-1'']"]
    by (simp add: ShimDir_def shimDir_def V_example_def os_fine_def r)
  have "''default'' = ''default'' \<and> ''vm-1'' = ''vm-1'' \<and>
      abs_path [''run'', ''default'', ''vm-1''] = abs_path [''run'', ''default'', ''vm-1'']"
    by (rule shimDir_isolated[OF d d V_example_valid, of "[''run'']"])
      (use g in \<open>simp_all add: os_fine_def r\<close>)
  with d show ?thesis by (simp add: abs_path_def)
qed

text \<open>
  The relative socket paths the shim hands to Firecracker, resolved from the working
  directory they were computed for, are the absolute socket paths of the VM directory.
\<close>

theorem rel_socket_path_resolves:
  assumes "\<forall>c \<in> set cs. good_comp c" "\<forall>c \<in> set ds. good_comp c"
    and "os_Getwd os w = (Inr (abs_path cs), w')"
  shows "(\<exists>r. FirecrackerSockRelPath os (abs_path ds) w = (Inr r, w') \<and>
            filepath_Join [abs_path cs, r] = FirecrackerSockPath (abs_path ds)) \<and>
         (\<exists>r. FirecrackerVSockRelPath os (abs_path ds) w = (Inr r, w') \<and>
            filepath_Join [abs_path cs, r] = FirecrackerVSockPath (abs_path ds))"
proof -
  have "\<exists>r. relPathTo os (filepath_Join [abs_path ds, n]) w = (Inr r, w') \<and>
      filepath_Join [abs_path cs, r] = filepath_Join [abs_path ds, n]" if n: "good_comp n" for n
  proof -
    have "\<forall>c \<in> set (ds @ [n]). good_comp c" using assms(2) n by simp
    from filepath_Rel_Join[OF assms(1) this] show ?thesis
      using assms(2,3) n by (auto simp: relPathTo_def Join_inside)
  qed
  from this[of FirecrackerSockName] this[of FirecrackerVSockName] show ?thesis
    by (simp add: FirecrackerSockRelPath_def FirecrackerVSockRelPath_def dir_defs)
qed

theorem rel_socket_path_resolves_witness:
  "\<exists>r. FirecrackerSockRelPath os_fine (abs_path [''run'', ''vm'']) () = (Inr r, ()) \<and>
     filepath_Join [abs_path [], r] = FirecrackerSockPath (abs_path [''run'', ''vm''])"
proof -
  have "\<forall>c \<in> set [''run'', ''vm'']. good_comp c" by (simp add: good_comp_def)
  moreover have "os_Getwd os_fine () = (Inr (abs_path []), ())"
    by (simp add: os_fine_def abs_path_def)
  ultimately show ?thesis
    using rel_socket_path_resolves[of "[]" "[''run'', ''vm'']" os_fine "()" "()"] by simp
qed

text \<open>
  The link that \<open>CreateBundleLink\<close> makes for a container lies directly in the VM's
  directory, differs from the link of any other container, and collides with a file of
  the VM itself exactly for the container ids that name one.
\<close>

theorem BundleLink_layout:
  assumes "valid_names V" "\<forall>c \<in> set cs. good_comp c"
    and "BundleLink V (abs_path cs) i = Inr p" "BundleLink V (abs_path cs) j = Inr q"
  shows "path_comps p = cs @ [i] \<and> (p = q \<longleftrightarrow> i = j) \<and>
     (p = AddrFilePath (abs_path cs) \<longleftrightarrow> i = ''address'') \<and>
     (p = LogFifoPath (abs_path cs) \<longleftrightarrow> i = ''log'') \<and>
     (p = FirecrackerSockPath (abs_path cs) \<longleftrightarrow> i = ''firecracker.sock'') \<and>
     (p = FirecrackerVSockPath (abs_path cs) \<longleftrightarrow> i = ''firecracker.vsock'') \<and>
     (p = FirecrackerLogFifoPath (abs_path cs) \<longleftrightarrow> i = ''fc-logs.fifo'') \<and>
     (p = FirecrackerMetricsFifoPath (abs_path cs) \<longleftrightarrow> i = ''fc-metrics.fifo'')"
proof -
  have g: "good_comp i" "good_comp j"
    using assms by (auto simp: BundleLink_def valid_names_def split: option.splits)
  have p: "p = filepath_Join [abs_path cs, i]" and q: "q = filepath_Join [abs_path cs, j]"
    using assms(3,4) by (auto simp: BundleLink_def RootPath_def split: option.splits)
  have inj: "p = filepath_Join [abs_path cs, n] \<longleftrightarrow> i = n" if "good_comp n" for n
    using assms(2) g that by (simp only: p abs_path_snoc_inject)
  have "path_comps p = cs @ [i]"
    using assms(2) g by (simp add: p Join_inside)
  moreover have "p = q \<longleftrightarrow> i = j" using inj[OF g(2)] by (simp only: q)
  ultimately show ?thesis
    unfolding dir_defs by (simp only: inj good_names) (simp add: name_defs)
qed

theorem BundleLink_layout_witness:
  "BundleLink (\<lambda>s. if s = ''address'' then None else Some (Errorf ''x'' [])) (abs_path [''run'']) ''address'' =
     Inr (AddrFilePath (abs_path [''run'']))"
proof -
  let ?V = "\<lambda>s. if s = ''address'' then None else Some (Errorf ''x'' [])"
  have v: "valid_names ?V" by (simp add: valid_names_def good_comp_def)
  have l: "BundleLink ?V (abs_path [''run'']) ''address'' = Inr (filepath_Join [abs_path [''run''], ''address''])"
    by (simp add: BundleLink_def RootPath_def)
  have "\<forall>c \<in> set [''run'']. good_comp c" by (simp add: good_comp_def)
  from BundleLink_layout[OF v this l l] show ?thesis by (simp add: l)
qed

text \<open>
  A VM id that a client puts into a container's OCI annotations is the one the shim
  reads back from the bundle; without the annotation the shim reads the empty id.
\<close>

theorem VMID_annotation_roundtrip:
  assumes "os_Open os (OCIConfig d) w = (Inr f, w')"
    and "decode f = Inr m" "WithVMID i annotations = Some m"
  shows "fst (OCIConfig_VMID os decode (OCIConfig d) w) = Inr i"
  using assms
  by (auto simp: OCIConfig_VMID_def OCIConfig_File_def WithVMID_def Let_def split: prod.splits)

theorem VMID_annotation_roundtrip_witness:
  "fst (OCIConfig_VMID os_fine (\<lambda>_. Inr [VMIDAnnotationKey \<mapsto> ''vm-1'']) (OCIConfig ''/b'') ()) = Inr ''vm-1''"
  by (rule VMID_annotation_roundtrip[of os_fine "''/b''" "()" "[]" "()" _ _ "''vm-1''" None])
    (simp_all add: os_fine_def WithVMID_def)

end
