(* ===== verification/Encoding.thy ===== *)
theory Encoding
  imports Prelude
begin

text \<open>
  \<open>base32.StdEncoding\<close> without padding and \<open>base64.URLEncoding\<close>, the two encodings the
  repository builds identifiers with (drive ids in \<open>runtime/drive_handler.go\<close>, task and
  exec ids in \<open>agent/service.go\<close>). Both cut the bits of the input into groups of a fixed
  width and look each group up in an alphabet. The locale \<open>sym_codec\<close> states what an
  alphabet must satisfy and derives that decoding inverts encoding, hence that encoding
  is injective; it is interpreted on both alphabets.
\<close>

section \<open>Bit strings\<close>

fun bits_of :: "nat \<Rightarrow> nat \<Rightarrow> bool list" where
  "bits_of 0 n = []"
| "bits_of (Suc k) n = bits_of k (n div 2) @ [odd n]"

definition nat_of_bits :: "bool list \<Rightarrow> nat" where
  "nat_of_bits bs = foldl (\<lambda>n b. 2 * n + of_bool b) 0 bs"

function chunks :: "nat \<Rightarrow> 'a list \<Rightarrow> 'a list list" where
  "chunks k xs = (if k = 0 \<or> xs = [] then [] else take k xs # chunks k (drop k xs))"
  by pat_completeness auto
termination
  by (relation "measure (\<lambda>(k, xs). length xs)") auto

declare chunks.simps [simp del]

definition pad_bits :: "nat \<Rightarrow> bool list \<Rightarrow> bool list" where
  "pad_bits k bs = bs @ replicate (k - length bs) False"

fun index_of :: "'a list \<Rightarrow> 'a \<Rightarrow> nat" where
  "index_of [] x = 0"
| "index_of (y # ys) x = (if x = y then 0 else Suc (index_of ys x))"

definition byte_bits :: "string \<Rightarrow> bool list" where
  "byte_bits s = concat (map (\<lambda>c. bits_of 8 (of_char c)) s)"

definition encode_with :: "nat \<Rightarrow> string \<Rightarrow> string \<Rightarrow> string" where
  "encode_with k alpha s =
     map (\<lambda>b. alpha ! nat_of_bits (pad_bits k b)) (chunks k (byte_bits s))"

definition decode_with :: "nat \<Rightarrow> string \<Rightarrow> string \<Rightarrow> string" where
  "decode_with k alpha t =
     (let bs = concat (map (\<lambda>c. bits_of k (index_of alpha c)) t)
      in map (\<lambda>b. char_of (nat_of_bits b)) (chunks 8 (take (8 * (length bs div 8)) bs)))"

section \<open>Facts on bit strings\<close>

lemma length_bits_of [simp]: "length (bits_of k n) = k"
  by (induction k arbitrary: n) simp_all

lemma nat_of_bits_snoc: "nat_of_bits (bs @ [b]) = 2 * nat_of_bits bs + of_bool b"
  by (simp add: nat_of_bits_def)

lemma nat_of_bits_bits_of: "n < 2 ^ k \<Longrightarrow> nat_of_bits (bits_of k n) = n"
proof (induction k arbitrary: n)
  case 0
  then show ?case by (simp add: nat_of_bits_def)
next
  case (Suc k)
  then have "n div 2 < 2 ^ k" by simp
  with Suc.IH show ?case by (simp add: nat_of_bits_snoc)
qed

lemma nat_of_bits_less: "nat_of_bits bs < 2 ^ length bs"
proof (induction bs rule: rev_induct)
  case Nil
  then show ?case by (simp add: nat_of_bits_def)
next
  case (snoc b bs)
  then show ?case by (cases b) (auto simp: nat_of_bits_snoc)
qed

lemma bits_of_nat_of_bits: "bits_of (length bs) (nat_of_bits bs) = bs"
proof (induction bs rule: rev_induct)
  case Nil
  then show ?case by simp
next
  case (snoc b bs)
  then show ?case by (cases b) (simp_all add: nat_of_bits_snoc)
qed

lemma chunks_Nil [simp]: "chunks k [] = []"
  by (subst chunks.simps) simp

lemma chunks_step: "0 < k \<Longrightarrow> xs \<noteq> [] \<Longrightarrow> chunks k xs = take k xs # chunks k (drop k xs)"
  by (subst chunks.simps) simp

lemma concat_chunks: "0 < k \<Longrightarrow> concat (chunks k xs) = xs"
proof (induction k xs rule: chunks.induct)
  case (1 k xs)
  then show ?case by (cases "xs = []") (simp_all add: chunks_step)
qed

lemma chunks_concat:
  assumes "0 < k" "\<forall>b \<in> set bss. length b = k"
  shows "chunks k (concat bss) = bss"
  using assms(2)
proof (induction bss)
  case (Cons b bss)
  then have "b \<noteq> []" using assms(1) by auto
  with Cons assms(1) show ?case by (simp add: chunks_step)
qed simp

lemma chunks_length_le: "c \<in> set (chunks k xs) \<Longrightarrow> length c \<le> k"
proof (induction k xs rule: chunks.induct)
  case (1 k xs)
  then show ?case by (cases "k = 0 \<or> xs = []") (auto simp: chunks.simps[of k xs])
qed

lemma length_pad_bits: "length b \<le> k \<Longrightarrow> length (pad_bits k b) = k"
  by (simp add: pad_bits_def)

text \<open>Padding only the last group adds fewer than \<open>k\<close> bits at the end.\<close>

lemma concat_pad_chunks:
  assumes "0 < k"
  shows "\<exists>p < k. concat (map (pad_bits k) (chunks k xs)) = xs @ replicate p False"
  using assms
proof (induction k xs rule: chunks.induct)
  case (1 k xs)
  show ?case
  proof (cases "k \<le> length xs")
    case False
    show ?thesis
    proof (cases "xs = []")
      case True
      with 1 show ?thesis by auto
    next
      case ne: False
      with False have "k - length xs < k" by simp
      with False ne "1.prems" show ?thesis
        by (auto simp: chunks_step pad_bits_def intro!: exI[of _ "k - length xs"])
    qed
  next
    case True
    with "1.prems" have ne: "xs \<noteq> []" by auto
    with 1 obtain p where p: "p < k"
      "concat (map (pad_bits k) (chunks k (drop k xs))) = drop k xs @ replicate p False"
      by auto
    have "pad_bits k (take k xs) = take k xs"
      using True by (simp add: pad_bits_def)
    then have "concat (map (pad_bits k) (chunks k xs)) = take k xs @ drop k xs @ replicate p False"
      using ne "1.prems" p by (simp add: chunks_step)
    then show ?thesis using p(1) by (metis append_assoc append_take_drop_id)
  qed
qed

lemma index_of_nth: "distinct ys \<Longrightarrow> i < length ys \<Longrightarrow> index_of ys (ys ! i) = i"
proof (induction ys arbitrary: i)
  case (Cons y ys)
  then show ?case by (cases i) auto
qed simp

lemma byte_bits_length: "length (byte_bits s) = 8 * length s"
  by (induction s) (simp_all add: byte_bits_def)

section \<open>The codec of an alphabet\<close>

locale sym_codec =
  fixes k :: nat and alpha :: string
  assumes width: "0 < k" "k \<le> 8"
    and alpha_length: "length alpha = 2 ^ k"
    and alpha_distinct: "distinct alpha"
begin

lemma sym_bits:
  assumes "length b \<le> k"
  shows "bits_of k (index_of alpha (alpha ! nat_of_bits (pad_bits k b))) = pad_bits k b"
proof -
  have len: "length (pad_bits k b) = k" using assms by (rule length_pad_bits)
  then have "nat_of_bits (pad_bits k b) < length alpha"
    using nat_of_bits_less[of "pad_bits k b"] by (simp add: alpha_length)
  then have "index_of alpha (alpha ! nat_of_bits (pad_bits k b)) = nat_of_bits (pad_bits k b)"
    by (rule index_of_nth[OF alpha_distinct])
  with len show ?thesis using bits_of_nat_of_bits[of "pad_bits k b"] by simp
qed

lemma encode_bits:
  "concat (map (\<lambda>c. bits_of k (index_of alpha c)) (encode_with k alpha s)) =
     concat (map (pad_bits k) (chunks k (byte_bits s)))"
  by (auto simp: encode_with_def sym_bits chunks_length_le intro!: arg_cong[where f = concat])

theorem decode_encode: "decode_with k alpha (encode_with k alpha s) = s"
proof -
  obtain p where p: "p < k"
    "concat (map (pad_bits k) (chunks k (byte_bits s))) = byte_bits s @ replicate p False"
    using concat_pad_chunks width(1) by blast
  have "8 * ((8 * length s + p) div 8) = 8 * length s"
    using p(1) width(2) by simp
  with p have "decode_with k alpha (encode_with k alpha s) =
      map (\<lambda>b. char_of (nat_of_bits b)) (chunks 8 (byte_bits s))"
    by (simp add: decode_with_def encode_bits byte_bits_length Let_def)
  also have "chunks 8 (byte_bits s) = map (\<lambda>c. bits_of 8 (of_char c)) s"
    unfolding byte_bits_def by (rule chunks_concat) auto
  also have "map (\<lambda>b. char_of (nat_of_bits b)) (map (\<lambda>c. bits_of 8 (of_char c)) s) = s"
    by (induction s) (simp_all add: nat_of_bits_bits_of)
  finally show ?thesis .
qed

lemma encode_inject: "encode_with k alpha s = encode_with k alpha t \<longleftrightarrow> s = t"
  by (metis decode_encode)

lemma encode_symbols: "set (encode_with k alpha s) \<subseteq> set alpha"
proof
  fix c assume "c \<in> set (encode_with k alpha s)"
  then obtain b where b: "b \<in> set (chunks k (byte_bits s))" "c = alpha ! nat_of_bits (pad_bits k b)"
    by (auto simp: encode_with_def)
  then have "length (pad_bits k b) = k" by (simp add: chunks_length_le length_pad_bits)
  then have "nat_of_bits (pad_bits k b) < length alpha"
    using nat_of_bits_less[of "pad_bits k b"] by (simp add: alpha_length)
  with b show "c \<in> set alpha" by simp
qed

end

section \<open>Base32 and base64\<close>

definition base32_alphabet :: string where
  "base32_alphabet = ''ABCDEFGHIJKLMNOPQRSTUVWXYZ234567''"

definition base64url_alphabet :: string where
  "base64url_alphabet =
     ''ABCDEFGHIJKLMNOPQRSTUVWXYZabcdefghijklmnopqrstuvwxyz0123456789-_''"

text \<open>\<open>base32.StdEncoding.WithPadding(base32.NoPadding).EncodeToString\<close>.\<close>

definition base32_nopad :: "string \<Rightarrow> string" where
  "base32_nopad s = encode_with 5 base32_alphabet s"

text \<open>\<open>base64.URLEncoding.EncodeToString\<close>, which pads with \<open>=\<close> to a multiple of four.\<close>

definition base64_url :: "string \<Rightarrow> string" where
  "base64_url s =
     (let e = encode_with 6 base64url_alphabet s
      in e @ replicate ((4 - length e mod 4) mod 4) (CHR ''=''))"

interpretation b32: sym_codec 5 base32_alphabet
  by unfold_locales (simp_all add: base32_alphabet_def)

interpretation b64: sym_codec 6 base64url_alphabet
  by unfold_locales (simp_all add: base64url_alphabet_def)

lemma base32_nopad_inject [simp]: "base32_nopad s = base32_nopad t \<longleftrightarrow> s = t"
  by (simp add: base32_nopad_def b32.encode_inject)

lemma base32_nopad_symbols: "set (base32_nopad s) \<subseteq> set base32_alphabet"
  by (simp add: base32_nopad_def b32.encode_symbols)

lemma base64_url_payload:
  "takeWhile (\<lambda>c. c \<noteq> CHR ''='') (base64_url s) = encode_with 6 base64url_alphabet s"
proof -
  have no_eq: "CHR ''='' \<notin> set base64url_alphabet"
    by (simp add: base64url_alphabet_def)
  let ?e = "encode_with 6 base64url_alphabet s"
  have "\<forall>c \<in> set ?e. c \<noteq> CHR ''=''"
    using no_eq b64.encode_symbols[of s] by blast
  then show ?thesis
    by (simp add: base64_url_def Let_def takeWhile_append2 takeWhile_replicate)
qed

lemma base64_url_inject [simp]: "base64_url s = base64_url t \<longleftrightarrow> s = t"
  by (metis b64.encode_inject base64_url_payload)

text \<open>The number of characters of an unpadded base32 string.\<close>

lemma length_chunks: "0 < k \<Longrightarrow> length (chunks k xs) = (length xs + k - 1) div k"
proof (induction k xs rule: chunks.induct)
  case (1 k xs)
  show ?case
  proof (cases "xs = []")
    case True
    with 1 show ?thesis by simp
  next
    case False
    then have pos: "0 < length xs" by simp
    have "length (chunks k xs) = Suc ((length xs - k + k - 1) div k)"
      using 1 False by (simp add: chunks_step)
    also have "\<dots> = (length xs + k - 1) div k"
    proof (cases "k \<le> length xs")
      case True
      then have "length xs + k - 1 = (length xs - k + k - 1) + k" using "1.prems" by simp
      then show ?thesis using "1.prems" by (simp only: div_add_self2)
    next
      case short: False
      then have l: "length xs - k + k - 1 = k - 1" by simp
      have r: "length xs + k - 1 = (length xs - 1) + k" using pos "1.prems" by arith
      have "(length xs - 1) div k = 0" "(k - 1) div k = 0" using short "1.prems" by simp_all
      then show ?thesis using "1.prems" unfolding l r by (simp only: div_add_self2)
    qed
    finally show ?thesis .
  qed
qed

lemma length_base32_nopad: "length (base32_nopad s) = (8 * length s + 4) div 5"
  by (simp add: base32_nopad_def encode_with_def length_chunks byte_bits_length)

end
