(* ===== verification/AgentService.thy ===== *)
theory AgentService
  imports TaskManager IOProxies VMDir Encoding
begin

text \<open>
  \<open>agent/service.go\<close>: the task service that runs inside the VM in front of runc. The runc
  service, the mount package, the FIFOs of containerd's \<open>cio\<close>, the decoding of protobuf
  values and what a goroutine of an IO proxy does are parameters, fields of \<open>agent_env\<close>. A
  cleanup callback is data (\<open>cleanup\<close>) that \<open>run_cleanup\<close> executes.
\<close>

section \<open>State\<close>

record FIFOSet =
  fifo_Stdin :: string
  fifo_Stdout :: string
  fifo_Stderr :: string

datatype cleanup =
    RemoveBundle string
  | UnmountRootfs string
  | RemoveFifo string

record TaskService_agent =
  taskManager_of :: taskManager
  execCleanups :: "(string, cleanup list) mapping"

record 'w agent_env =
  env_os :: "'w os"
  UnmountAll :: "string \<Rightarrow> 'w \<Rightarrow> gerr option \<times> 'w"
  NewFIFOSetInDir :: "string \<Rightarrow> string \<Rightarrow> bool \<Rightarrow> 'w \<Rightarrow> (gerr + FIFOSet) \<times> 'w"
  UnmarshalAny :: "any \<Rightarrow> gerr + ExtraData"
  Validate :: "string \<Rightarrow> gerr option"
  url_rest_ok :: "string \<Rightarrow> gerr option"
  run_proxy :: "ioproxy \<Rightarrow> 'w IOProxy"
  runcService :: "'w TaskService"

definition NewTaskService :: TaskService_agent where
  "NewTaskService = \<lparr>taskManager_of = NewTaskManager, execCleanups = Mapping.empty\<rparr>"

section \<open>Cleanups\<close>

definition TaskExecID :: "(string \<Rightarrow> gerr option) \<Rightarrow> string \<Rightarrow> string \<Rightarrow> gerr + string" where
  "TaskExecID validate taskID execID =
     (let err = validate taskID;
          err = (if execID \<noteq> [] then multi_error_or_nil (multi_append (multi_append [] err) (validate execID)) else err)
      in case err of
           Some e \<Rightarrow> Inl e
         | None \<Rightarrow> Inr (base64_url (taskID @ ''/'' @ execID)))"

definition unmarshalExtraData :: "'w agent_env \<Rightarrow> any \<Rightarrow> gerr + ExtraData" where
  "unmarshalExtraData env marshalled = UnmarshalAny env marshalled"

fun run_cleanup :: "'w agent_env \<Rightarrow> cleanup \<Rightarrow> 'w \<Rightarrow> gerr option \<times> 'w" where
  "run_cleanup env (RemoveBundle path) w =
     (case os_RemoveAll (env_os env) path w of
        (Some err, w) \<Rightarrow> (Some (Wrap err ''failed to remove bundle path %q'' [path]), w)
      | (None, w) \<Rightarrow> (None, w))"
| "run_cleanup env (UnmountRootfs path) w =
     (case UnmountAll env path w of
        (Some err, w) \<Rightarrow> (Some (Wrap err ''failed to unmount bundle rootfs %q'' [path]), w)
      | (None, w) \<Rightarrow> (None, w))"
| "run_cleanup env (RemoveFifo path) w = os_RemoveAll (env_os env) path w"

definition addCleanup :: "TaskService_agent \<Rightarrow> string \<Rightarrow> cleanup \<Rightarrow> TaskService_agent" where
  "addCleanup ts taskExecID c =
     ts\<lparr>execCleanups := Mapping.update taskExecID (Mapping.lookup_default [] (execCleanups ts) taskExecID @ [c]) (execCleanups ts)\<rparr>"

fun cleanup_loop :: "'w agent_env \<Rightarrow> cleanup list \<Rightarrow> multierr \<Rightarrow> 'w \<Rightarrow> multierr \<times> 'w" where
  "cleanup_loop env [] err w = (err, w)"
| "cleanup_loop env (c # cs) err w =
     (let (r, w) = run_cleanup env c w in cleanup_loop env cs (multi_append err r) w)"

definition doCleanup :: "'w agent_env \<Rightarrow> TaskService_agent \<Rightarrow> string \<Rightarrow> 'w \<Rightarrow> gerr option \<times> TaskService_agent \<times> 'w" where
  "doCleanup env ts taskExecID w =
     (let (err, w) = cleanup_loop env (rev (Mapping.lookup_default [] (execCleanups ts) taskExecID)) [] w
      in (multi_error_or_nil err, ts\<lparr>execCleanups := Mapping.delete taskExecID (execCleanups ts)\<rparr>, w))"

section \<open>Create\<close>

text \<open>The IO proxy of a request with the FIFO paths that replace the host's.\<close>

definition stdin_pair :: "ExtraData \<Rightarrow> FIFOSet \<Rightarrow> IOConnectorPair" where
  "stdin_pair x f = \<lparr>ReadConnector = VSockAcceptConn (StdinPort x), WriteConnector = WriteFIFOConnector (fifo_Stdin f)\<rparr>"

definition stdout_pair :: "ExtraData \<Rightarrow> FIFOSet \<Rightarrow> IOConnectorPair" where
  "stdout_pair x f = \<lparr>ReadConnector = ReadFIFOConnector (fifo_Stdout f), WriteConnector = VSockAcceptConn (StdoutPort x)\<rparr>"

definition stderr_pair :: "ExtraData \<Rightarrow> FIFOSet \<Rightarrow> IOConnectorPair" where
  "stderr_pair x f = \<lparr>ReadConnector = ReadFIFOConnector (fifo_Stderr f), WriteConnector = VSockAcceptConn (StderrPort x)\<rparr>"

definition create_io :: "ExtraData \<Rightarrow> FIFOSet \<Rightarrow> CreateTaskRequest \<Rightarrow> ioproxy \<times> CreateTaskRequest" where
  "create_io x f req =
     (NewIOConnectorProxy
        (if ct_Stdin req \<noteq> [] then Some (stdin_pair x f) else None)
        (if ct_Stdout req \<noteq> [] then Some (stdout_pair x f) else None)
        (if ct_Stderr req \<noteq> [] then Some (stderr_pair x f) else None),
      req\<lparr>ct_Stdin := (if ct_Stdin req \<noteq> [] then fifo_Stdin f else ct_Stdin req),
          ct_Stdout := (if ct_Stdout req \<noteq> [] then fifo_Stdout f else ct_Stdout req),
          ct_Stderr := (if ct_Stderr req \<noteq> [] then fifo_Stderr f else ct_Stderr req)\<rparr>)"

text \<open>The choice of the proxy: none for agent only IO, else over FIFOs in the bundle directory.\<close>

definition create_proxy ::
    "'w agent_env \<Rightarrow> string \<Rightarrow> ExtraData \<Rightarrow> CreateTaskRequest \<Rightarrow> 'w \<Rightarrow> (gerr + ioproxy \<times> CreateTaskRequest) \<times> 'w" where
  "create_proxy env taskExecID extraData req w =
     (if IsAgentOnlyIO (url_rest_ok env) (ct_Stdout req) then (Inr (NewNullIOProxy, req), w)
      else case NewFIFOSetInDir env (bundle_RootPath (ct_Bundle req)) taskExecID (ct_Terminal req) w of
             (Inl err, w) \<Rightarrow> (Inl (Wrap err ''failed to open stdio FIFOs'' []), w)
           | (Inr fifoSet, w) \<Rightarrow> (Inr (create_io extraData fifoSet req), w))"

text \<open>The body of \<open>Create\<close> after the deferred cleanup is in place.\<close>

definition create_body ::
    "'w agent_env \<Rightarrow> TaskService_agent \<Rightarrow> string \<Rightarrow> CreateTaskRequest \<Rightarrow> 'w \<Rightarrow> (gerr + nat) \<times> TaskService_agent \<times> 'w" where
  "create_body env ts taskExecID req w =
     (case unmarshalExtraData env (ct_Options req) of
        Inl err \<Rightarrow> (Inl (Wrap err ''failed to unmarshal extra data'' []), ts, w)
      | Inr extraData \<Rightarrow>
        (let req = req\<lparr>ct_Options := RuncOptions extraData\<rparr>;
             bundleDir = ct_Bundle req;
             ts = addCleanup ts taskExecID (RemoveBundle (bundle_RootPath bundleDir)) in
         case os_Stat (env_os env) (RootfsPath bundleDir) w of
           (Inl err, w) \<Rightarrow> (Inl (Wrap err ''failed to stat bundle's rootfs path %q'' [RootfsPath bundleDir]), ts, w)
         | (Inr rootfsStat, w) \<Rightarrow>
           if \<not> fi_isDir rootfsStat then (Inl (Errorf ''bundle's rootfs path %q is not a dir'' [RootfsPath bundleDir]), ts, w)
           else
             (let ts = addCleanup ts taskExecID (UnmountRootfs (RootfsPath bundleDir)) in
              case OCIConfig_Write (env_os env) (OCIConfig bundleDir) (JsonSpec extraData) w of
                (Some err, w) \<Rightarrow> (Inl (Wrap err ''failed to write oci config file'' []), ts, w)
              | (None, w) \<Rightarrow>
                (case create_proxy env taskExecID extraData req w of
                   (Inl err, w) \<Rightarrow> (Inl err, ts, w)
                 | (Inr (ioConnectorSet, req), w) \<Rightarrow>
                   (case CreateTask (taskManager_of ts) req (runcService env) (run_proxy env ioConnectorSet) w of
                      (Inl err, m, w) \<Rightarrow> (Inl (Wrap err ''failed to create runc shim'' []), ts\<lparr>taskManager_of := m\<rparr>, w)
                    | (Inr resp, m, w) \<Rightarrow> (Inr resp, ts\<lparr>taskManager_of := m\<rparr>, w))))))"

definition Create ::
    "'w agent_env \<Rightarrow> TaskService_agent \<Rightarrow> CreateTaskRequest \<Rightarrow> 'w \<Rightarrow> (gerr + nat) \<times> TaskService_agent \<times> 'w" where
  "Create env ts req w =
     (case TaskExecID (Validate env) (ct_ID req) [] of
        Inl err \<Rightarrow> (Inl (Wrap err ''invalid task and/or exec ID'' []), ts, w)
      | Inr taskExecID \<Rightarrow>
          (case create_body env ts taskExecID req w of
             (Inl err, ts, w) \<Rightarrow> (let (_, ts, w) = doCleanup env ts taskExecID w in (Inl err, ts, w))
           | (Inr resp, ts, w) \<Rightarrow> (Inr resp, ts, w)))"

section \<open>Delete\<close>

text \<open>\<open>io\<close> is the proxy that the process was started with; its copying is awaited.\<close>

definition Delete ::
    "'w agent_env \<Rightarrow> TaskService_agent \<Rightarrow> ioproxy \<Rightarrow> DeleteRequest \<Rightarrow> 'w \<Rightarrow> (gerr + string) \<times> TaskService_agent \<times> 'w" where
  "Delete env ts io req w =
     (case TaskExecID (Validate env) (dl_ID req) (dl_ExecID req) of
        Inl err \<Rightarrow> (Inl (Wrap err ''invalid task and/or exec ID'' []), ts, w)
      | Inr taskExecID \<Rightarrow>
          (case DeleteProcess (taskManager_of ts) req (runcService env) (run_proxy env io) w of
             (Inl err, m, w) \<Rightarrow> (Inl err, ts\<lparr>taskManager_of := m\<rparr>, w)
           | (Inr resp, m, w) \<Rightarrow>
               (case doCleanup env (ts\<lparr>taskManager_of := m\<rparr>) taskExecID w of
                  (Some err, ts, w) \<Rightarrow>
                    (Inl (Wrap err ''failed to cleanup task %q exec %q'' [dl_ID req, dl_ExecID req]), ts, w)
                | (None, ts, w) \<Rightarrow> (Inr resp, ts, w))))"

section \<open>Exec\<close>

definition exec_io ::
    "ExtraData \<Rightarrow> FIFOSet \<Rightarrow> string \<Rightarrow> TaskService_agent \<Rightarrow> ExecProcessRequest \<Rightarrow> ioproxy \<times> ExecProcessRequest \<times> TaskService_agent" where
  "exec_io x f taskExecID ts req =
     (let (sin, req, ts) = (if ex_Stdin req \<noteq> []
            then (Some (stdin_pair x f), req\<lparr>ex_Stdin := fifo_Stdin f\<rparr>, addCleanup ts taskExecID (RemoveFifo (fifo_Stdin f)))
            else (None, req, ts));
          (sout, req, ts) = (if ex_Stdout req \<noteq> []
            then (Some (stdout_pair x f), req\<lparr>ex_Stdout := fifo_Stdout f\<rparr>, addCleanup ts taskExecID (RemoveFifo (fifo_Stdout f)))
            else (None, req, ts));
          (serr, req, ts) = (if ex_Stderr req \<noteq> []
            then (Some (stderr_pair x f), req\<lparr>ex_Stderr := fifo_Stderr f\<rparr>, addCleanup ts taskExecID (RemoveFifo (fifo_Stderr f)))
            else (None, req, ts))
      in (NewIOConnectorProxy sin sout serr, req, ts))"

definition exec_body ::
    "'w agent_env \<Rightarrow> TaskService_agent \<Rightarrow> string \<Rightarrow> ExecProcessRequest \<Rightarrow> 'w \<Rightarrow> gerr option \<times> TaskService_agent \<times> 'w" where
  "exec_body env ts taskExecID req w =
     (case unmarshalExtraData env (ex_Spec req) of
        Inl err \<Rightarrow> (Some (Wrap err ''failed to unmarshal extra data'' []), ts, w)
      | Inr extraData \<Rightarrow>
        (let req = req\<lparr>ex_Spec := RuncOptions extraData\<rparr>; bundleDir = VMBundleDir (ex_ID req) in
         case (if IsAgentOnlyIO (url_rest_ok env) (ex_Stdout req) then (Inr (NewNullIOProxy, req, ts), w)
               else case NewFIFOSetInDir env (bundle_RootPath bundleDir) taskExecID (ex_Terminal req) w of
                      (Inl err, w) \<Rightarrow> (Inl (Wrap err ''failed to open stdio FIFOs'' []), w)
                    | (Inr fifoSet, w) \<Rightarrow> (Inr (exec_io extraData fifoSet taskExecID ts req), w)) of
           (Inl err, w) \<Rightarrow> (Some err, ts, w)
         | (Inr (ioConnectorSet, req, ts), w) \<Rightarrow>
             (case ExecProcess (taskManager_of ts) req (runcService env) (run_proxy env ioConnectorSet) w of
                (r, m, w) \<Rightarrow> (r, ts\<lparr>taskManager_of := m\<rparr>, w))))"

definition Exec ::
    "'w agent_env \<Rightarrow> TaskService_agent \<Rightarrow> ExecProcessRequest \<Rightarrow> 'w \<Rightarrow> gerr option \<times> TaskService_agent \<times> 'w" where
  "Exec env ts req w =
     (case TaskExecID (Validate env) (ex_ID req) (ex_ExecID req) of
        Inl err \<Rightarrow> (Some (Wrap err ''invalid task and/or exec ID'' []), ts, w)
      | Inr taskExecID \<Rightarrow>
          (case exec_body env ts taskExecID req w of
             (Some err, ts, w) \<Rightarrow> (let (_, ts, w) = doCleanup env ts taskExecID w in (Some err, ts, w))
           | (None, ts, w) \<Rightarrow> (None, ts, w)))"

section \<open>Calls that are passed on to runc\<close>

definition State :: "'w agent_env \<Rightarrow> string \<Rightarrow> string \<Rightarrow> 'w \<Rightarrow> (gerr + string) \<times> 'w" where
  "State env i e w = svc_Call (runcService env) (StateCall i e) w"

definition Start :: "'w agent_env \<Rightarrow> string \<Rightarrow> string \<Rightarrow> 'w \<Rightarrow> (gerr + string) \<times> 'w" where
  "Start env i e w = svc_Call (runcService env) (StartCall i e) w"

definition Pids :: "'w agent_env \<Rightarrow> string \<Rightarrow> 'w \<Rightarrow> (gerr + string) \<times> 'w" where
  "Pids env i w = svc_Call (runcService env) (PidsCall i) w"

definition Pause :: "'w agent_env \<Rightarrow> string \<Rightarrow> 'w \<Rightarrow> (gerr + string) \<times> 'w" where
  "Pause env i w = svc_Call (runcService env) (PauseCall i) w"

definition Resume :: "'w agent_env \<Rightarrow> string \<Rightarrow> 'w \<Rightarrow> (gerr + string) \<times> 'w" where
  "Resume env i w = svc_Call (runcService env) (ResumeCall i) w"

definition Checkpoint :: "'w agent_env \<Rightarrow> string \<Rightarrow> string \<Rightarrow> any \<Rightarrow> 'w \<Rightarrow> (gerr + string) \<times> 'w" where
  "Checkpoint env i path opts w = svc_Call (runcService env) (CheckpointCall i path opts) w"

definition Kill :: "'w agent_env \<Rightarrow> string \<Rightarrow> string \<Rightarrow> nat \<Rightarrow> bool \<Rightarrow> 'w \<Rightarrow> (gerr + string) \<times> 'w" where
  "Kill env i e sig a w = svc_Call (runcService env) (KillCall i e sig a) w"

definition ResizePty :: "'w agent_env \<Rightarrow> string \<Rightarrow> string \<Rightarrow> nat \<Rightarrow> nat \<Rightarrow> 'w \<Rightarrow> (gerr + string) \<times> 'w" where
  "ResizePty env i e wd h w = svc_Call (runcService env) (ResizePtyCall i e wd h) w"

definition CloseIO :: "'w agent_env \<Rightarrow> string \<Rightarrow> string \<Rightarrow> bool \<Rightarrow> 'w \<Rightarrow> (gerr + string) \<times> 'w" where
  "CloseIO env i e s w = svc_Call (runcService env) (CloseIOCall i e s) w"

definition Update :: "'w agent_env \<Rightarrow> string \<Rightarrow> any \<Rightarrow> 'w \<Rightarrow> (gerr + string) \<times> 'w" where
  "Update env i res w = svc_Call (runcService env) (UpdateCall i res) w"

definition Wait :: "'w agent_env \<Rightarrow> string \<Rightarrow> string \<Rightarrow> 'w \<Rightarrow> (gerr + string) \<times> 'w" where
  "Wait env i e w = svc_Call (runcService env) (WaitCall i e) w"

definition Stats :: "'w agent_env \<Rightarrow> string \<Rightarrow> 'w \<Rightarrow> (gerr + string) \<times> 'w" where
  "Stats env i w = svc_Call (runcService env) (StatsCall i) w"

definition Connect :: "'w agent_env \<Rightarrow> string \<Rightarrow> 'w \<Rightarrow> (gerr + string) \<times> 'w" where
  "Connect env i w = svc_Call (runcService env) (ConnectCall i) w"

text \<open>\<open>Shutdown\<close> does not reach runc: it cancels the agent's own context.\<close>

definition Shutdown :: "('w \<Rightarrow> 'w) \<Rightarrow> 'w \<Rightarrow> gerr option \<times> 'w" where
  "Shutdown shimCancel w = (None, shimCancel w)"

section \<open>Execution ids\<close>

definition plain_errors :: "(string \<Rightarrow> gerr option) \<Rightarrow> bool" where
  "plain_errors V \<longleftrightarrow> (\<forall>s. V s \<noteq> Some (MultiError []))"

lemma TaskExecID_ok:
  assumes "plain_errors V"
  shows "TaskExecID V t e = Inr x \<longleftrightarrow> V t = None \<and> (e \<noteq> [] \<longrightarrow> V e = None) \<and> x = base64_url (t @ ''/'' @ e)"
proof -
  have "multi_append m (Some err) = [] \<longleftrightarrow> m = [] \<and> err = MultiError []" for m err
    by (cases err) (auto simp: multi_append_def)
  then have "multi_append (multi_append [] (V t)) (V e) = [] \<longleftrightarrow> V t = None \<and> V e = None"
    using assms by (cases "V t"; cases "V e") (auto simp: plain_errors_def)
  then show ?thesis
    by (auto simp: TaskExecID_def Let_def multi_error_or_nil_def split: option.splits)
qed

text \<open>
  The id that stands for a process is unique: as valid identifiers contain no "/", two
  (task, exec) pairs get the same id only when they are equal; a pair gets an id exactly when
  its task id is valid and its exec id is valid or empty.
\<close>

theorem TaskExecID_injective:
  assumes "valid_names V" "plain_errors V"
  shows "(isOk (TaskExecID V t e) \<longleftrightarrow> V t = None \<and> (e \<noteq> [] \<longrightarrow> V e = None)) \<and>
     (isOk (TaskExecID V t e) \<and> TaskExecID V t' e' = TaskExecID V t e \<longrightarrow> t' = t \<and> e' = e)"
proof (intro conjI impI)
  show "isOk (TaskExecID V t e) \<longleftrightarrow> V t = None \<and> (e \<noteq> [] \<longrightarrow> V e = None)"
    by (auto simp: isOk_iff TaskExecID_ok[OF assms(2)])
  assume "isOk (TaskExecID V t e) \<and> TaskExecID V t' e' = TaskExecID V t e"
  then obtain x where x: "TaskExecID V t e = Inr x" "TaskExecID V t' e' = Inr x" by (auto simp: isOk_iff)
  then have v: "V t = None" "V t' = None" and eq: "t @ CHR ''/'' # e = t' @ CHR ''/'' # e'"
    by (auto simp: TaskExecID_ok[OF assms(2)])
  have "CHR ''/'' \<notin> set t" "CHR ''/'' \<notin> set t'"
    using v assms(1) by (auto simp: valid_names_def dest: good_comp_no_slash)
  from split_at_sep_unique[OF this eq] show "t' = t" "e' = e" by simp_all
qed

lemma V_example_plain: "plain_errors V_example"
  by (simp add: plain_errors_def V_example_def)

theorem TaskExecID_injective_witness:
  "isOk (TaskExecID V_example ''vm-1'' []) \<and>
   TaskExecID V_example ''vm-1'' ''default'' \<noteq> TaskExecID V_example ''default'' ''vm-1''"
proof -
  have 1: "isOk (TaskExecID V_example ''vm-1'' [])"
    using TaskExecID_injective[OF V_example_valid V_example_plain, of "''vm-1''" "[]"] by (simp add: V_example_def)
  have "isOk (TaskExecID V_example ''default'' ''vm-1'')"
    using TaskExecID_injective[OF V_example_valid V_example_plain, of "''default''" "''vm-1''"] by (simp add: V_example_def)
  then have "TaskExecID V_example ''vm-1'' ''default'' \<noteq> TaskExecID V_example ''default'' ''vm-1''"
    using TaskExecID_injective[OF V_example_valid V_example_plain, of "''default''" "''vm-1''" "''vm-1''" "''default''"] by auto
  with 1 show ?thesis by blast
qed

section \<open>Unwinding\<close>

text \<open>The environment with the file removals and unmounts noted in a trace.\<close>

definition quiet_service :: "'w TaskService \<Rightarrow> ('w \<times> 'e list) TaskService" where
  "quiet_service svc =
     \<lparr>svc_Create = (\<lambda>r. quiet (svc_Create svc r)), svc_Exec = (\<lambda>r. quiet (svc_Exec svc r)),
      svc_Delete = (\<lambda>r. quiet (svc_Delete svc r)), svc_Call = (\<lambda>r. quiet (svc_Call svc r))\<rparr>"

definition quiet_io :: "'w IOProxy \<Rightarrow> ('w \<times> 'e list) IOProxy" where
  "quiet_io io =
     \<lparr>io_start = (\<lambda>p s. (io_start io p (fst s), snd s)), io_initDone = (\<lambda>p. quiet (io_initDone io p)),
      io_copyDone = (\<lambda>p s. (io_copyDone io p (fst s), snd s)), io_cancel = (\<lambda>p s. (io_cancel io p (fst s), snd s))\<rparr>"

definition traced_agent :: "'w agent_env \<Rightarrow> ('w \<times> os_event list) agent_env" where
  "traced_agent env =
     \<lparr>env_os = traced_os (env_os env), UnmountAll = (\<lambda>p. note_ev (UnmountAll env p) (EvUmount p)),
      NewFIFOSetInDir = (\<lambda>d i t. quiet (NewFIFOSetInDir env d i t)), UnmarshalAny = UnmarshalAny env,
      Validate = Validate env, url_rest_ok = url_rest_ok env, run_proxy = (\<lambda>p. quiet_io (run_proxy env p)),
      runcService = quiet_service (runcService env)\<rparr>"

fun cleanup_ev :: "cleanup \<Rightarrow> gerr option \<Rightarrow> os_event" where
  "cleanup_ev (RemoveBundle p) r = EvRemoveAll p r"
| "cleanup_ev (UnmountRootfs p) r = EvUmount p r"
| "cleanup_ev (RemoveFifo p) r = EvRemoveAll p r"

fun cleanup_trace :: "cleanup list \<Rightarrow> gerr option list \<Rightarrow> os_event list" where
  "cleanup_trace (c # cs) (r # rs) = cleanup_ev c r # cleanup_trace cs rs"
| "cleanup_trace _ _ = []"

lemma run_cleanup_traced:
  "\<exists>r0 w1. run_cleanup (traced_agent env) c (w, t) = (fst (run_cleanup env c w), (w1, t @ [cleanup_ev c r0])) \<and>
     (r0 = None \<longleftrightarrow> fst (run_cleanup env c w) = None)"
  by (cases c) (auto simp: traced_agent_def note_ev_def split: prod.splits option.splits)

lemma cleanup_loop_traced:
  "\<exists>rs r w1. cleanup_loop (traced_agent env) cs err (w, t) = (r, (w1, t @ cleanup_trace cs rs)) \<and> length rs = length cs \<and>
     ((\<forall>x \<in> set rs. x = None) \<longrightarrow> r = err)"
proof (induction cs arbitrary: err w t)
  case Nil
  show ?case by (intro exI[of _ "[]"] exI[of _ err] exI[of _ w]) simp
next
  case (Cons c cs)
  obtain r0 w1 where r0: "run_cleanup (traced_agent env) c (w, t) = (fst (run_cleanup env c w), (w1, t @ [cleanup_ev c r0]))"
    "r0 = None \<longleftrightarrow> fst (run_cleanup env c w) = None"
    using run_cleanup_traced[of env c w t] by (elim exE conjE) (rule that; assumption)
  obtain rs r w2 where IH: "cleanup_loop (traced_agent env) cs (multi_append err (fst (run_cleanup env c w))) (w1, t @ [cleanup_ev c r0])
      = (r, (w2, (t @ [cleanup_ev c r0]) @ cleanup_trace cs rs))" "length rs = length cs"
      "(\<forall>x \<in> set rs. x = None) \<longrightarrow> r = multi_append err (fst (run_cleanup env c w))"
    using Cons.IH[of "multi_append err (fst (run_cleanup env c w))" w1 "t @ [cleanup_ev c r0]"]
    by (elim exE conjE) (rule that; assumption)
  have "cleanup_loop (traced_agent env) (c # cs) err (w, t) = (r, (w2, t @ cleanup_trace (c # cs) (r0 # rs)))"
    by (simp add: r0(1) IH(1))
  moreover have "(\<forall>x \<in> set (r0 # rs). x = None) \<longrightarrow> r = err"
    using IH(3) r0(2) by auto
  ultimately show ?case using IH(2) by (metis length_Cons)
qed

abbreviation cleanups_of :: "TaskService_agent \<Rightarrow> string \<Rightarrow> cleanup list" where
  "cleanups_of ts i \<equiv> Mapping.lookup_default [] (execCleanups ts) i"

lemma cleanups_addCleanup [simp]:
  "cleanups_of (addCleanup ts i c) i' = (if i' = i then cleanups_of ts i @ [c] else cleanups_of ts i')"
  "taskManager_of (addCleanup ts i c) = taskManager_of ts"
  by (simp_all add: addCleanup_def lookup_default_def lookup_update')

lemma cleanups_New [simp]: "cleanups_of NewTaskService i = []"
  by (simp add: NewTaskService_def lookup_default_def)

text \<open>
  Cleaning up a process runs all its callbacks, in the reverse order of their registration,
  each exactly once and also after one has failed; it then forgets them, leaves those of
  every other process alone, and reports no error when none failed.
\<close>

theorem doCleanup_unwinds:
  "\<exists>rs. case doCleanup (traced_agent env) ts i (w, []) of (r, ts', (w', t)) \<Rightarrow>
     t = cleanup_trace (rev (cleanups_of ts i)) rs \<and> length rs = length (cleanups_of ts i) \<and>
     ((\<forall>x \<in> set rs. x = None) \<longrightarrow> r = None) \<and>
     cleanups_of ts' i = [] \<and> (\<forall>i'. i' \<noteq> i \<longrightarrow> cleanups_of ts' i' = cleanups_of ts i') \<and>
     taskManager_of ts' = taskManager_of ts"
proof -
  obtain rs r w1 where l: "cleanup_loop (traced_agent env) (rev (cleanups_of ts i)) [] (w, []) =
      (r, (w1, [] @ cleanup_trace (rev (cleanups_of ts i)) rs))" "length rs = length (rev (cleanups_of ts i))"
      "(\<forall>x \<in> set rs. x = None) \<longrightarrow> r = []"
    using cleanup_loop_traced[of env "rev (cleanups_of ts i)" "[]" w "[]"]
    by (elim exE conjE) (rule that; assumption)
  have "Mapping.lookup_default [] (Mapping.delete i (execCleanups ts)) i' = (if i' = i then [] else cleanups_of ts i')" for i'
    by (simp add: lookup_default_def lookup_delete_if)
  note del = this
  have d: "doCleanup (traced_agent env) ts i (w, []) = (multi_error_or_nil r,
      ts\<lparr>execCleanups := Mapping.delete i (execCleanups ts)\<rparr>, (w1, cleanup_trace (rev (cleanups_of ts i)) rs))"
    by (simp add: doCleanup_def l(1))
  have "(\<forall>x \<in> set rs. x = None) \<longrightarrow> multi_error_or_nil r = None" using l(3) by simp
  then show ?thesis unfolding d prod.case using l(2)
    by (intro exI[of _ rs] conjI) (simp_all add: del)
qed

definition agent_fine :: "'w agent_env" where
  "agent_fine = \<lparr>env_os = os_fine, UnmountAll = (\<lambda>p w. (None, w)),
     NewFIFOSetInDir = (\<lambda>d i t w. (Inr \<lparr>fifo_Stdin = ''/i'', fifo_Stdout = ''/o'', fifo_Stderr = ''/e''\<rparr>, w)),
     UnmarshalAny = (\<lambda>a. Inr \<lparr>JsonSpec = ''{}'', RuncOptions = None, StdinPort = 1, StdoutPort = 2, StderrPort = 3\<rparr>),
     Validate = V_example, url_rest_ok = (\<lambda>s. None), run_proxy = (\<lambda>p. io_fine), runcService = svc_fine\<rparr>"

theorem doCleanup_unwinds_witness:
  "\<exists>r1 r2. snd (snd (snd (doCleanup (traced_agent agent_fine)
       (addCleanup (addCleanup NewTaskService ''x'' (RemoveBundle ''/b'')) ''x'' (UnmountRootfs ''/b/rootfs'')) ''x'' ((), [])))) =
     [EvUmount ''/b/rootfs'' r1, EvRemoveAll ''/b'' r2]"
proof -
  let ?ts = "addCleanup (addCleanup NewTaskService ''x'' (RemoveBundle ''/b'')) ''x'' (UnmountRootfs ''/b/rootfs'')"
  have c: "cleanups_of ?ts ''x'' = [RemoveBundle ''/b'', UnmountRootfs ''/b/rootfs'']"
    by simp
  obtain r ts' w' t where d: "doCleanup (traced_agent agent_fine) ?ts ''x'' ((), []) = (r, ts', (w', t))"
    by (metis prod_cases4)
  from doCleanup_unwinds[where env = agent_fine and ts = ?ts and i = "''x''" and w = "()"] obtain rs where
     "t = cleanup_trace (rev (cleanups_of ?ts ''x'')) rs" "length rs = length (cleanups_of ?ts ''x'')"
    unfolding d by auto
  then have "length rs = 2" "t = cleanup_trace [UnmountRootfs ''/b/rootfs'', RemoveBundle ''/b''] rs"
    unfolding c by simp_all
  then show ?thesis unfolding d by (cases rs; cases "tl rs") auto
qed

section \<open>Create and its failures\<close>

lemma CreateTask_quiet:
  "CreateTask m req (quiet_service svc) (quiet_io io) (w, t) =
     (case CreateTask m req svc io w of (r, m', w') \<Rightarrow> (r, m', (w', t)))"
  by (simp add: CreateTask_def quiet_service_def quiet_io_def quiet_def undo_proc_spec Let_def
      split: prod.splits sum.splits option.splits)

lemma traced_agent_simps [simp]:
  "env_os (traced_agent env) = traced_os (env_os env)" "UnmarshalAny (traced_agent env) = UnmarshalAny env"
  "Validate (traced_agent env) = Validate env" "url_rest_ok (traced_agent env) = url_rest_ok env"
  "runcService (traced_agent env) = quiet_service (runcService env)"
  "run_proxy (traced_agent env) p = quiet_io (run_proxy env p)"
  "NewFIFOSetInDir (traced_agent env) d i b = quiet (NewFIFOSetInDir env d i b)"
  by (simp_all add: traced_agent_def)

lemma OCIConfig_Write_quiet:
  "OCIConfig_Write (traced_os os) p c (w, t) = (case OCIConfig_Write os p c w of (r, w') \<Rightarrow> (r, (w', t)))"
  by (simp add: OCIConfig_Write_def traced_os_def quiet_def split: prod.splits option.splits)

lemma create_proxy_quiet:
  "create_proxy (traced_agent env) i x req (w, t) = (case create_proxy env i x req w of (r, w') \<Rightarrow> (r, (w', t)))"
  by (simp add: create_proxy_def quiet_def split: prod.splits sum.splits)

text \<open>What the body of \<open>Create\<close> does in the traced environment.\<close>

lemma create_body_traced:
  assumes "create_body (traced_agent env) ts i req (w, t) = (r, ts', (w', t'))"
  shows "t' = t \<and> (\<exists>m req' io w1 w2. taskManager_of ts' = m \<and>
     (\<exists>cs. cleanups_of ts' i = cleanups_of ts i @ cs \<and> (\<forall>i'. i' \<noteq> i \<longrightarrow> cleanups_of ts' i' = cleanups_of ts i') \<and>
       (cs = [] \<and> isOk r = False \<and> m = taskManager_of ts \<or>
        cs = [RemoveBundle (ct_Bundle req)] \<and> isOk r = False \<and> m = taskManager_of ts \<or>
        cs = [RemoveBundle (ct_Bundle req), UnmountRootfs (RootfsPath (ct_Bundle req))] \<and>
          (isOk r = False \<and> m = taskManager_of ts \<or>
           (\<exists>q. CreateTask (taskManager_of ts) req' (runcService env) (run_proxy env io) w1 = (q, m, w2) \<and>
              ct_ID req' = ct_ID req \<and> isOk r = isOk q)))))"
proof (cases "unmarshalExtraData env (ct_Options req)")
  case (Inl err)
  then have "unmarshalExtraData (traced_agent env) (ct_Options req) = Inl err" by (simp add: unmarshalExtraData_def)
  with assms show ?thesis by (auto simp: create_body_def isOk_def)
next
  case (Inr x)
  then have x: "unmarshalExtraData (traced_agent env) (ct_Options req) = Inr x" by (simp add: unmarshalExtraData_def)
  let ?b = "ct_Bundle req"
  let ?req = "req\<lparr>ct_Options := RuncOptions x\<rparr>"
  let ?ts1 = "addCleanup ts i (RemoveBundle ?b)"
  let ?ts2 = "addCleanup ?ts1 i (UnmountRootfs (RootfsPath ?b))"
  obtain st w1 where st: "os_Stat (env_os env) (RootfsPath ?b) w = (st, w1)" by fastforce
  show ?thesis
  proof (cases "\<exists>fi. st = Inr fi \<and> fi_isDir fi")
    case False
    with assms x st have "t' = t" "ts' = ?ts1" "isOk r = False"
      by (auto simp: create_body_def Let_def bundle_RootPath_def quiet_def isOk_def split: sum.splits if_splits)
    then show ?thesis by simp
  next
    case True
    obtain o1 w2 where o: "OCIConfig_Write (env_os env) (OCIConfig ?b) (JsonSpec x) w1 = (o1, w2)" by fastforce
    show ?thesis
    proof (cases o1)
      case (Some err)
      with assms x st True o have "t' = t" "ts' = ?ts2" "isOk r = False"
        by (auto simp: create_body_def Let_def bundle_RootPath_def quiet_def isOk_def OCIConfig_Write_quiet)
      then show ?thesis by simp
    next
      case None
      obtain pr w3 where P: "create_proxy env i x ?req w2 = (pr, w3)" by fastforce
      show ?thesis
      proof (cases pr)
        case (Inl err)
        with assms x st True o None P have "t' = t" "ts' = ?ts2" "isOk r = False"
          by (auto simp: create_body_def Let_def bundle_RootPath_def quiet_def isOk_def OCIConfig_Write_quiet create_proxy_quiet)
        then show ?thesis by simp
      next
        case (Inr iq)
        obtain io req' where iq: "iq = (io, req')" by fastforce
        have rid: "ct_ID req' = ct_ID req"
          using P Inr iq by (auto simp: create_proxy_def create_io_def split: if_splits prod.splits sum.splits)
        obtain q m w4 where c: "CreateTask (taskManager_of ts) req' (runcService env) (run_proxy env io) w3 = (q, m, w4)"
          by (metis prod_cases3)
        from assms x st True o None P Inr iq c have "t' = t" "ts' = ?ts2\<lparr>taskManager_of := m\<rparr>" "isOk r = isOk q"
          by (auto simp: create_body_def Let_def bundle_RootPath_def quiet_def isOk_def OCIConfig_Write_quiet
              create_proxy_quiet CreateTask_quiet split: sum.splits)
        with c rid show ?thesis by auto
      qed
    qed
  qed
qed

text \<open>
  The cleanups of the steps that a \<open>Create\<close> reaches: none when its options cannot be unmarshalled, else the removal of the bundle, and the
  unmounting of the rootfs once that has been seen to be a directory.
\<close>

definition rootfs_is_dir :: "'w agent_env \<Rightarrow> CreateTaskRequest \<Rightarrow> 'w \<Rightarrow> bool" where
  "rootfs_is_dir env req w =
     (case fst (os_Stat (env_os env) (RootfsPath (ct_Bundle req)) w) of Inr fi \<Rightarrow> fi_isDir fi | Inl _ \<Rightarrow> False)"

definition reached_cleanups :: "'w agent_env \<Rightarrow> CreateTaskRequest \<Rightarrow> 'w \<Rightarrow> cleanup list" where
  "reached_cleanups env req w =
     (if \<not> isOk (UnmarshalAny env (ct_Options req)) then []
      else if \<not> rootfs_is_dir env req w then [RemoveBundle (ct_Bundle req)]
      else [RemoveBundle (ct_Bundle req), UnmountRootfs (RootfsPath (ct_Bundle req))])"

lemma create_body_reached:
  assumes "create_body (traced_agent env) ts i req (w, t) = (r, ts', (w', t'))"
  shows "cleanups_of ts' i = cleanups_of ts i @ reached_cleanups env req w"
proof (cases "UnmarshalAny env (ct_Options req)")
  case (Inl err)
  then show ?thesis using assms by (auto simp: create_body_def unmarshalExtraData_def reached_cleanups_def)
next
  case (Inr x)
  obtain st w1 where st: "os_Stat (env_os env) (RootfsPath (ct_Bundle req)) w = (st, w1)" by fastforce
  show ?thesis
  proof (cases "\<exists>fi. st = Inr fi \<and> fi_isDir fi")
    case False
    with assms Inr st show ?thesis
      by (auto simp: create_body_def unmarshalExtraData_def reached_cleanups_def rootfs_is_dir_def Let_def bundle_RootPath_def quiet_def
          split: sum.splits if_splits)
  next
    case True
    with assms Inr st show ?thesis
      by (auto simp: create_body_def unmarshalExtraData_def reached_cleanups_def rootfs_is_dir_def Let_def bundle_RootPath_def quiet_def
          split: sum.splits option.splits prod.splits)
  qed
qed

lemma doCleanup_traced:
  assumes "doCleanup (traced_agent env) ts i (w, t) = (r, ts', (w', t'))"
  shows "\<exists>rs. t' = t @ cleanup_trace (rev (cleanups_of ts i)) rs \<and> length rs = length (cleanups_of ts i)"
    and "cleanups_of ts' i' = (if i' = i then [] else cleanups_of ts i')" and "taskManager_of ts' = taskManager_of ts"
proof -
  obtain rs r1 w1 where l: "cleanup_loop (traced_agent env) (rev (cleanups_of ts i)) [] (w, t) =
      (r1, (w1, t @ cleanup_trace (rev (cleanups_of ts i)) rs))" "length rs = length (rev (cleanups_of ts i))"
    using cleanup_loop_traced[of env "rev (cleanups_of ts i)" "[]" w t]
    by (elim exE conjE) (rule that; assumption)
  from assms l(1) have e: "t' = t @ cleanup_trace (rev (cleanups_of ts i)) rs"
      "ts' = ts\<lparr>execCleanups := Mapping.delete i (execCleanups ts)\<rparr>"
    by (simp_all add: doCleanup_def)
  show "\<exists>rs. t' = t @ cleanup_trace (rev (cleanups_of ts i)) rs \<and> length rs = length (cleanups_of ts i)"
    using e(1) l(2) by auto
  show "cleanups_of ts' i' = (if i' = i then [] else cleanups_of ts i')" "taskManager_of ts' = taskManager_of ts"
    by (simp_all add: e(2) lookup_default_def lookup_delete_if)
qed

lemma Create_traced:
  assumes "TaskExecID (Validate env) (ct_ID req) [] = Inr i"
    and "Create (traced_agent env) ts req (w, []) = (r, ts', (w', t))"
  shows "\<exists>q ts1 w1. create_body (traced_agent env) ts i req (w, []) = (q, ts1, (w1, [])) \<and> isOk r = isOk q \<and>
     (if isOk q then ts' = ts1 \<and> t = []
      else \<exists>e. doCleanup (traced_agent env) ts1 i (w1, []) = (e, ts', (w', t)))"
proof -
  obtain q ts1 w1 t1 where b: "create_body (traced_agent env) ts i req (w, []) = (q, ts1, (w1, t1))"
    by (metis prod_cases4)
  have "t1 = []" using create_body_traced[OF b] by simp
  with b assms show ?thesis
    by (cases q) (auto simp: Create_def isOk_def split: prod.splits)
qed

lemma CreateTask_frame:
  assumes "tm_inv m" "CreateTask m req svc io w = (q, m', w')"
  shows "tm_inv m'" "tm_reg m' = (if isOk q then insert (ct_ID req, []) (tm_reg m) else tm_reg m)"
    "isOk q \<longrightarrow> (ct_ID req, []) \<notin> tm_reg m"
  using process_call_parts(1)[OF assms(1), where req = req and svc = svc and io = io and w = w] assms(2)
  by (auto split: sum.splits)

text \<open>
  C34: Creating a task is undone in full when it fails. For a task without callbacks, a failed
  \<open>Create\<close> leaves no callback and no process registered and has undone exactly the steps it had
  reached: nothing when the options could not be unmarshalled; only the removal of the bundle directory when its rootfs was not found or is no directory;
  and after any later failure the unmounting of the rootfs followed by that removal, whatever the unmounting gave. A successful one
  registers the process and both callbacks and has removed nothing. Other tasks are not affected.
\<close>

theorem Create_unwinds:
  assumes "TaskExecID (Validate env) (ct_ID req) [] = Inr i" and "cleanups_of ts i = []"
    and "tm_inv (taskManager_of ts)"
    and "Create (traced_agent env) ts req (w, []) = (r, ts', (w', t))"
  shows "(\<forall>i'. i' \<noteq> i \<longrightarrow> cleanups_of ts' i' = cleanups_of ts i') \<and>
     (if isOk r
      then t = [] \<and> cleanups_of ts' i = [RemoveBundle (ct_Bundle req), UnmountRootfs (RootfsPath (ct_Bundle req))] \<and>
        tm_reg (taskManager_of ts') = insert (ct_ID req, []) (tm_reg (taskManager_of ts))
      else cleanups_of ts' i = [] \<and> tm_reg (taskManager_of ts') = tm_reg (taskManager_of ts) \<and>
        (if \<not> isOk (UnmarshalAny env (ct_Options req)) then t = []
         else if \<not> rootfs_is_dir env req w then \<exists>r1. t = [EvRemoveAll (ct_Bundle req) r1]
         else \<exists>r1 r2. t = [EvUmount (RootfsPath (ct_Bundle req)) r2, EvRemoveAll (ct_Bundle req) r1]))"
proof -
  from Create_traced[OF assms(1,4)] obtain q ts1 w1 where
    b: "create_body (traced_agent env) ts i req (w, []) = (q, ts1, (w1, []))" and r: "isOk r = isOk q"
    and rest: "if isOk q then ts' = ts1 \<and> t = [] else \<exists>e. doCleanup (traced_agent env) ts1 i (w1, []) = (e, ts', (w', t))"
    by blast
  from create_body_traced[OF b] obtain cs where cs: "cleanups_of ts1 i = cleanups_of ts i @ cs"
    "\<forall>i'. i' \<noteq> i \<longrightarrow> cleanups_of ts1 i' = cleanups_of ts i'"
    and shape: "(cs = [] \<or> cs = [RemoveBundle (ct_Bundle req)]) \<and> isOk q = False \<and> taskManager_of ts1 = taskManager_of ts \<or>
        cs = [RemoveBundle (ct_Bundle req), UnmountRootfs (RootfsPath (ct_Bundle req))] \<and>
          (isOk q = False \<and> taskManager_of ts1 = taskManager_of ts \<or>
           (\<exists>req' io w2 w3 p. CreateTask (taskManager_of ts) req' (runcService env) (run_proxy env io) w2 =
              (p, taskManager_of ts1, w3) \<and> ct_ID req' = ct_ID req \<and> isOk q = isOk p))"
    by blast
  have reach: "cs = reached_cleanups env req w" using create_body_reached[OF b] cs(1) by simp
  have reg: "tm_reg (taskManager_of ts1) =
      (if isOk q then insert (ct_ID req, []) (tm_reg (taskManager_of ts)) else tm_reg (taskManager_of ts))"
  proof (cases "taskManager_of ts1 = taskManager_of ts \<and> isOk q = False")
    case False
    with shape obtain req' io w2 w3 p where "CreateTask (taskManager_of ts) req' (runcService env) (run_proxy env io) w2 =
        (p, taskManager_of ts1, w3)" "ct_ID req' = ct_ID req" "isOk q = isOk p" by blast
    with CreateTask_frame(2)[OF assms(3) this(1)] show ?thesis by simp
  qed simp
  show ?thesis
  proof (cases "isOk q")
    case True
    with rest r cs shape reg assms(2) show ?thesis by auto
  next
    case False
    with rest obtain e where d: "doCleanup (traced_agent env) ts1 i (w1, []) = (e, ts', (w', t))" by auto
    from doCleanup_traced(1)[OF d] obtain rs where
      t: "t = cleanup_trace (rev cs) rs" and rs: "length rs = length cs"
      using cs(1) assms(2) by auto
    have "if \<not> isOk (UnmarshalAny env (ct_Options req)) then t = []
        else if \<not> rootfs_is_dir env req w then \<exists>r1. t = [EvRemoveAll (ct_Bundle req) r1]
        else \<exists>r1 r2. t = [EvUmount (RootfsPath (ct_Bundle req)) r2, EvRemoveAll (ct_Bundle req) r1]"
      using t rs unfolding reach reached_cleanups_def by (cases rs; cases "tl rs") (auto split: if_splits)
    then show ?thesis
      using False r reg cs(2) doCleanup_traced(2,3)[OF d] by simp
  qed
qed

definition agent_request :: CreateTaskRequest where
  "agent_request = example_create\<lparr>ct_ID := ''vm-1''\<rparr>"

lemma V_example_id: "TaskExecID V_example ''vm-1'' [] = Inr (base64_url ''vm-1/'')"
  by (simp add: TaskExecID_ok[OF V_example_plain]) (simp add: V_example_def)

text \<open>The same agent on a read-only file system.\<close>

definition agent_readonly :: "unit agent_env" where
  "agent_readonly = agent_fine\<lparr>env_os := os_fine\<lparr>os_WriteFile := \<lambda>p c m w. (Some EOF, w)\<rparr>\<rparr>"

lemma readonly_Create_fails:
  "\<not> isOk (fst (Create (traced_agent agent_readonly) NewTaskService agent_request ((), [])))"
proof -
  have "TaskExecID (Validate agent_readonly) (ct_ID agent_request) [] = Inr (base64_url ''vm-1/'')"
    by (simp add: agent_readonly_def agent_fine_def agent_request_def V_example_id)
  moreover have "OCIConfig_Write (env_os agent_readonly) p x () = (Some (Wrap EOF ''failed to write OCI config file %s'' [p]), ())" for p x
    by (simp add: OCIConfig_Write_def agent_readonly_def)
  ultimately show ?thesis
    by (simp add: Create_def create_body_def Let_def unmarshalExtraData_def OCIConfig_Write_quiet quiet_def isOk_def
        split: prod.splits sum.splits)
qed

theorem Create_unwinds_witness:
  "(\<exists>ts'. Create (traced_agent agent_fine) NewTaskService agent_request ((), []) = (Inr 1, ts', ((), [])) \<and>
     tm_reg (taskManager_of ts') = {(''vm-1'', [])}) \<and>
   (\<exists>e r1 r2 ts'. Create (traced_agent agent_readonly) NewTaskService agent_request ((), []) =
     (Inl e, ts', ((), [EvUmount (RootfsPath (ct_Bundle agent_request)) r2, EvRemoveAll (ct_Bundle agent_request) r1])))"
proof
  have id: "TaskExecID (Validate agent_readonly) (ct_ID agent_request) [] = Inr (base64_url ''vm-1/'')"
    by (simp add: agent_readonly_def agent_fine_def agent_request_def V_example_id)
  have inv: "tm_inv (taskManager_of NewTaskService)" by (simp add: NewTaskService_def)
  obtain r ts' t where c: "Create (traced_agent agent_readonly) NewTaskService agent_request ((), []) = (r, ts', ((), t))"
    by (metis prod_cases4 unit.exhaust)
  have "\<not> isOk r" using readonly_Create_fails c by simp
  moreover have "isOk (UnmarshalAny agent_readonly (ct_Options agent_request))" "rootfs_is_dir agent_readonly agent_request ()"
    by (simp_all add: agent_readonly_def agent_fine_def rootfs_is_dir_def os_fine_def)
  ultimately have "\<exists>r1 r2. t = [EvUmount (RootfsPath (ct_Bundle agent_request)) r2, EvRemoveAll (ct_Bundle agent_request) r1]"
    using Create_unwinds[OF id cleanups_New inv c] by simp
  moreover obtain e where "r = Inl e" using \<open>\<not> isOk r\<close> by (cases r) simp_all
  ultimately show "\<exists>e r1 r2 ts'. Create (traced_agent agent_readonly) NewTaskService agent_request ((), []) =
     (Inl e, ts', ((), [EvUmount (RootfsPath (ct_Bundle agent_request)) r2, EvRemoveAll (ct_Bundle agent_request) r1]))"
    using c by blast
next
  show "\<exists>ts'. Create (traced_agent agent_fine) NewTaskService agent_request ((), []) = (Inr 1, ts', ((), [])) \<and>
     tm_reg (taskManager_of ts') = {(''vm-1'', [])}"
  proof -
    have id: "TaskExecID (Validate (agent_fine :: unit agent_env)) (ct_ID agent_request) [] = Inr (base64_url ''vm-1/'')"
      by (simp add: agent_fine_def agent_request_def V_example_id)
    have inv: "tm_inv (taskManager_of NewTaskService)" by (simp add: NewTaskService_def)
    obtain r ts' t where c: "Create (traced_agent agent_fine) NewTaskService agent_request ((), []) = (r, ts', ((), t))"
      by (metis prod_cases4 unit.exhaust)
    let ?env = "traced_agent agent_fine :: (unit \<times> os_event list) agent_env"
    have u: "\<exists>x. unmarshalExtraData ?env a = Inr x" for a
      by (simp add: unmarshalExtraData_def agent_fine_def)
    have st: "\<exists>fi. os_Stat (env_os ?env) p ((), []) = (Inr fi, ((), [])) \<and> fi_isDir fi" for p
      by (simp add: agent_fine_def os_fine_def quiet_def)
    have wr: "OCIConfig_Write (env_os ?env) p x ((), []) = (None, ((), []))" for p x
      by (simp add: OCIConfig_Write_quiet) (simp add: OCIConfig_Write_def agent_fine_def os_fine_def)
    have pr: "\<exists>io req'. create_proxy ?env i x req ((), []) = (Inr (io, req'), ((), []))" for i x req
      by (cases "create_io x \<lparr>fifo_Stdin = ''/i'', fifo_Stdout = ''/o'', fifo_Stderr = ''/e''\<rparr> req")
        (simp add: create_proxy_quiet, simp add: create_proxy_def agent_fine_def)
    have ct: "\<exists>m. CreateTask NewTaskManager req (runcService ?env) (run_proxy ?env io) ((), []) = (Inr 1, m, ((), []))" for req io
      by (simp add: CreateTask_quiet)
        (simp add: agent_fine_def CreateTask_def newProc_def NewTaskManager_def svc_fine_def io_fine_def Let_def)
    have "\<exists>ts'. create_body ?env NewTaskService (base64_url ''vm-1/'') agent_request ((), []) = (Inr 1, ts', ((), []))"
    proof -
      obtain x where x: "unmarshalExtraData ?env (ct_Options agent_request) = Inr x" using u by blast
      obtain fi where fi: "os_Stat (env_os ?env) (RootfsPath (ct_Bundle agent_request)) ((), []) = (Inr fi, ((), []))" "fi_isDir fi"
        using st by blast
      let ?req = "agent_request\<lparr>ct_Options := RuncOptions x\<rparr>"
      obtain io req' where io: "create_proxy ?env (base64_url ''vm-1/'') x ?req ((), []) = (Inr (io, req'), ((), []))"
        using pr by blast
      obtain m where m: "CreateTask NewTaskManager req' (runcService ?env) (run_proxy ?env io) ((), []) = (Inr 1, m, ((), []))"
        using ct by blast
      have tm: "taskManager_of NewTaskService = NewTaskManager" by (simp add: NewTaskService_def)
      have bb: "ct_Bundle ?req = ct_Bundle agent_request" by simp
      show ?thesis
        unfolding create_body_def x sum.case Let_def bb fi(1) prod.case cleanups_addCleanup tm wr option.case io m
        using fi(2) by simp
    qed
    then have "fst (Create ?env NewTaskService agent_request ((), [])) = Inr 1"
      using id by (auto simp: Create_def)
    with c have "r = Inr 1" by simp
    with Create_unwinds[OF id cleanups_New inv c] c show ?thesis by (simp add: agent_request_def NewTaskService_def)
  qed
qed

text \<open>
  C35: A second \<open>Create\<close> for a task that is already running destroys the running task's files: it
  fails, as it must, but its failure runs the callbacks that the first one registered, so that
  the rootfs in use is unmounted and the bundle removed.
\<close>

theorem Create_duplicate_destroys:
  assumes "TaskExecID (Validate env) (ct_ID req) [] = Inr i" and "tm_inv (taskManager_of ts)"
    and "(ct_ID req, []) \<in> tm_reg (taskManager_of ts)" and "cleanups_of ts i = [RemoveBundle b, UnmountRootfs rb]"
    and "Create (traced_agent env) ts req (w, []) = (r, ts', (w', t))"
  shows "\<not> isOk r \<and> (ct_ID req, []) \<in> tm_reg (taskManager_of ts') \<and> cleanups_of ts' i = [] \<and>
     (\<exists>r1 r2. EvUmount rb r2 \<in> set t \<and> EvRemoveAll b r1 \<in> set t)"
proof -
  from Create_traced[OF assms(1,5)] obtain q ts1 w1 where
    b: "create_body (traced_agent env) ts i req (w, []) = (q, ts1, (w1, []))" and r: "isOk r = isOk q"
    and rest: "if isOk q then ts' = ts1 \<and> t = [] else \<exists>e. doCleanup (traced_agent env) ts1 i (w1, []) = (e, ts', (w', t))"
    by blast
  from create_body_traced[OF b] obtain cs where cs: "cleanups_of ts1 i = cleanups_of ts i @ cs"
    and shape: "isOk q = False \<and> taskManager_of ts1 = taskManager_of ts \<or>
           (\<exists>req' io w2 w3 p. CreateTask (taskManager_of ts) req' (runcService env) (run_proxy env io) w2 =
              (p, taskManager_of ts1, w3) \<and> ct_ID req' = ct_ID req \<and> isOk q = isOk p)"
    by blast
  have q: "\<not> isOk q" using shape assms(3) CreateTask_frame(3)[OF assms(2)] by metis
  have reg: "tm_reg (taskManager_of ts1) = tm_reg (taskManager_of ts)"
    using shape q CreateTask_frame(2)[OF assms(2)] by metis
  from rest q obtain e where d: "doCleanup (traced_agent env) ts1 i (w1, []) = (e, ts', (w', t))" by auto
  from doCleanup_traced(1)[OF d] obtain rs where
    t: "t = cleanup_trace (rev (RemoveBundle b # UnmountRootfs rb # cs)) rs" and rs: "length rs = Suc (Suc (length cs))"
    using cs assms(4) by auto
  have "\<exists>r1. EvRemoveAll b r1 \<in> set (cleanup_trace cl rs)" if "RemoveBundle b \<in> set cl" "length rs = length cl" for cl rs
    using that
  proof (induction cl rs rule: cleanup_trace.induct)
    case (1 c cl x rs)
    then show ?case by auto
  qed auto
  moreover have "\<exists>r2. EvUmount rb r2 \<in> set (cleanup_trace cl rs)" if "UnmountRootfs rb \<in> set cl" "length rs = length cl" for cl rs
    using that
  proof (induction cl rs rule: cleanup_trace.induct)
    case (1 c cl x rs)
    then show ?case by auto
  qed auto
  ultimately have "\<exists>r1 r2. EvUmount rb r2 \<in> set t \<and> EvRemoveAll b r1 \<in> set t"
    unfolding t using rs by (simp del: rev.simps)
  then show ?thesis
    using r q reg assms(3) doCleanup_traced(2,3)[OF d] by simp
qed

theorem Create_duplicate_destroys_witness:
  "\<exists>ts b rb r t r1 r2. (''vm-1'', []) \<in> tm_reg (taskManager_of ts) \<and>
     fst (Create (traced_agent agent_fine) ts agent_request ((), [])) = r \<and> \<not> isOk r \<and>
     snd (snd (snd (Create (traced_agent agent_fine) ts agent_request ((), [])))) = t \<and>
     EvUmount rb r2 \<in> set t \<and> EvRemoveAll b r1 \<in> set t"
proof -
  have id: "TaskExecID (Validate (agent_fine :: unit agent_env)) (ct_ID agent_request) [] = Inr (base64_url ''vm-1/'')"
    by (simp add: agent_fine_def agent_request_def V_example_id)
  let ?ts = "addCleanup (addCleanup (NewTaskService\<lparr>taskManager_of := snd (newProc NewTaskManager ''vm-1'' [])\<rparr>)
      (base64_url ''vm-1/'') (RemoveBundle ''/b'')) (base64_url ''vm-1/'') (UnmountRootfs ''/b/rootfs'')"
  have inv: "tm_inv (taskManager_of ?ts)" by (simp add: tm_inv_newProc)
  have reg: "(ct_ID agent_request, []) \<in> tm_reg (taskManager_of ?ts)"
    by (simp add: tm_reg_newProc newProc_ok agent_request_def)
      (simp add: NewTaskManager_def tm_lookup_def)
  have cl: "cleanups_of ?ts (base64_url ''vm-1/'') = [RemoveBundle ''/b'', UnmountRootfs ''/b/rootfs'']"
    by simp
  obtain r ts' u t where c: "Create (traced_agent agent_fine) ?ts agent_request ((), []) = (r, ts', ((u :: unit), t))"
    by (rule prod_cases4)
  from Create_duplicate_destroys[OF id inv reg cl c] obtain r1 r2 where
    "\<not> isOk r" "EvUmount ''/b/rootfs'' r2 \<in> set t" "EvRemoveAll ''/b'' r1 \<in> set t" by blast
  moreover have "(''vm-1'', []) \<in> tm_reg (taskManager_of ?ts)" using reg by (simp add: agent_request_def)
  ultimately show ?thesis
    by (intro exI[of _ ?ts] exI[of _ "''/b''"] exI[of _ "''/b/rootfs''"] exI[of _ r] exI[of _ t] exI[of _ r1] exI[of _ r2])
      (simp only: c fst_conv snd_conv simp_thms)
qed

section \<open>Delete\<close>

lemma DeleteProcess_quiet:
  "DeleteProcess m req (quiet_service svc) (quiet_io io) (w, t) =
     (case DeleteProcess m req svc io w of (r, m', w') \<Rightarrow> (r, m', (w', t)))"
  by (simp add: DeleteProcess_def quiet_service_def quiet_io_def quiet_def split: prod.splits sum.splits)

text \<open>
  C36: Deleting a process cleans up only after the runc service has deleted it and its IO has been
  flushed: when the ids are invalid, the service fails or the process is not known, nothing
  is removed and the callbacks stay for another attempt; else the process is forgotten and
  all its callbacks have run, in reverse order, also when the result is then the error of
  one of them.
\<close>

theorem Delete_cleans_up:
  assumes "tm_inv (taskManager_of ts)"
    and "Delete (traced_agent env) ts io req (w, []) = (r, ts', (w', t))"
  shows "(\<not> isOk r \<and> t = [] \<and> execCleanups ts' = execCleanups ts \<and>
        tm_reg (taskManager_of ts') = tm_reg (taskManager_of ts)) \<or>
     (\<exists>i resp m w1 rs. TaskExecID (Validate env) (dl_ID req) (dl_ExecID req) = Inr i \<and>
        DeleteProcess (taskManager_of ts) req (runcService env) (run_proxy env io) w = (Inr resp, m, w1) \<and>
        tm_reg (taskManager_of ts') = tm_reg (taskManager_of ts) - {(dl_ID req, dl_ExecID req)} \<and>
        cleanups_of ts' i = [] \<and> t = cleanup_trace (rev (cleanups_of ts i)) rs \<and> length rs = length (cleanups_of ts i) \<and>
        (isOk r \<longrightarrow> r = Inr resp))"
proof (cases "TaskExecID (Validate env) (dl_ID req) (dl_ExecID req)")
  case (Inl err)
  with assms(2) show ?thesis by (auto simp: Delete_def)
next
  case (Inr i)
  obtain d m w1 where d: "DeleteProcess (taskManager_of ts) req (runcService env) (run_proxy env io) w = (d, m, w1)"
    by (metis prod_cases3)
  note at = process_call_parts(3)[OF assms(1), where dreq = req and svc = "runcService env" and io = "run_proxy env io" and w = w]
  show ?thesis
  proof (cases d)
    case (Inl err)
    with assms(2) Inr d at show ?thesis by (auto simp: Delete_def DeleteProcess_quiet)
  next
    case resp: (Inr resp)
    obtain e ts1 w2 t2 where c: "doCleanup (traced_agent env) (ts\<lparr>taskManager_of := m\<rparr>) i (w1, []) = (e, ts1, (w2, t2))"
      by (metis prod_cases4)
    from doCleanup_traced(1)[OF c] obtain rs where rs: "t2 = cleanup_trace (rev (cleanups_of ts i)) rs" "length rs = length (cleanups_of ts i)"
      by auto
    have "ts' = ts1" "t = t2" "isOk r \<longrightarrow> r = Inr resp"
      using assms(2) Inr d resp c by (auto simp: Delete_def DeleteProcess_quiet split: option.splits)
    moreover have "tm_reg m = tm_reg (taskManager_of ts) - {(dl_ID req, dl_ExecID req)}" using at d resp by simp
    ultimately show ?thesis
      using Inr d resp rs doCleanup_traced(2,3)[OF c]
      by (intro disjI2 exI[of _ i] exI[of _ resp] exI[of _ m] exI[of _ w1] exI[of _ rs]) simp
  qed
qed

theorem Delete_cleans_up_witness:
  "\<exists>ts t r1. cleanups_of ts (base64_url ''vm-1/'') = [RemoveBundle ''/b''] \<and>
     snd (snd (snd (Delete (traced_agent agent_fine) ts NullIOProxy \<lparr>dl_ID = ''vm-1'', dl_ExecID = []\<rparr> ((), [])))) = t \<and>
     (t = [] \<or> t = [EvRemoveAll ''/b'' r1])"
proof -
  let ?ts = "addCleanup (NewTaskService\<lparr>taskManager_of := snd (newProc NewTaskManager ''vm-1'' [])\<rparr>)
      (base64_url ''vm-1/'') (RemoveBundle ''/b'')"
  have inv: "tm_inv (taskManager_of ?ts)" by (simp add: tm_inv_newProc)
  have cl: "cleanups_of ?ts (base64_url ''vm-1/'') = [RemoveBundle ''/b'']"
    by simp
  obtain r ts' u t where d: "Delete (traced_agent agent_fine) ?ts NullIOProxy \<lparr>dl_ID = ''vm-1'', dl_ExecID = []\<rparr> ((), []) = (r, ts', ((u :: unit), t))"
    by (rule prod_cases4)
  have v: "TaskExecID (Validate (agent_fine :: unit agent_env)) ''vm-1'' [] = Inr (base64_url ''vm-1/'')"
    by (simp add: agent_fine_def V_example_id)
  from Delete_cleans_up[OF inv d] have "t = [] \<or> (\<exists>rs. t = cleanup_trace (rev (cleanups_of ?ts (base64_url ''vm-1/''))) rs \<and>
      length rs = length (cleanups_of ?ts (base64_url ''vm-1/'')))"
    using v by auto
  then have "\<exists>r1. t = [] \<or> t = [EvRemoveAll ''/b'' r1]"
  proof (elim disjE exE conjE)
    fix rs assume "t = cleanup_trace (rev (cleanups_of ?ts (base64_url ''vm-1/''))) rs"
      "length rs = length (cleanups_of ?ts (base64_url ''vm-1/''))"
    then show ?thesis unfolding cl by (cases rs) auto
  qed simp
  then obtain r1 where "t = [] \<or> t = [EvRemoveAll ''/b'' r1]" by blast
  with cl d show ?thesis by (intro exI[of _ ?ts] exI[of _ t] exI[of _ r1]) (simp only: cl d snd_conv simp_thms)
qed

end
