(* ===== verification/AgentMain.thy ===== *)
theory AgentMain
  imports AgentDrive AgentService
begin

text \<open>
  \<open>agent/main.go\<close>: the agent's process. Its start is a function over the calls it makes; afterwards three goroutines run: one
  serves ttrpc over vsock, one handles signals and the end of the context, and \<open>main\<close> waits for both. Their steps
  interleave freely with signals and with calls of \<open>Shutdown\<close>. The group of goroutines
  (\<open>errgroup\<close>) is the list of what they returned, in order: the first error ends the context and is what \<open>Wait\<close> gives.
\<close>

section \<open>Start\<close>

definition defaultPort :: "32 word" where "defaultPort = 10789"

datatype registered = EventGetter | RuncTasks | DriveMounter

record 'w agent_setup =
  as_os :: "'w os"
  as_SetSubreaper :: "nat \<Rightarrow> 'w \<Rightarrow> gerr option \<times> 'w"
  as_NewServer :: "'w \<Rightarrow> gerr option \<times> 'w"
  as_NewRunc :: "'w \<Rightarrow> gerr option \<times> 'w"
  as_Listen :: "32 word \<Rightarrow> 'w \<Rightarrow> gerr option \<times> 'w"

record agent_parts =
  ap_tasks :: TaskService_agent
  ap_drives :: driveHandler
  ap_services :: "registered list"
  ap_port :: "32 word"

datatype agent_start =
    ShowedVersion
  | Fatal gerr string
  | Started agent_parts

text \<open>
  What the process makes of its flags \<open>port\<close> and \<open>version\<close>, up to where the goroutines start. A failure ends the process (\<open>log.Fatal\<close>).
\<close>

definition agent_main_start :: "'w agent_setup \<Rightarrow> int \<Rightarrow> bool \<Rightarrow> 'w \<Rightarrow> agent_start \<times> 'w" where
  "agent_main_start env port version w =
     (if version then (ShowedVersion, w)
      else (case as_SetSubreaper env 1 w of
        (Some err, w) \<Rightarrow> (Fatal err ''failed to set shim as subreaper'', w)
      | (None, w) \<Rightarrow>
     (case as_NewServer env w of
        (Some err, w) \<Rightarrow> (Fatal err ''failed to create ttrpc server'', w)
      | (None, w) \<Rightarrow>
     (let services = [EventGetter] in
      case as_NewRunc env w of
        (Some err, w) \<Rightarrow> (Fatal err ''failed to create task service'', w)
      | (None, w) \<Rightarrow>
     (let services = services @ [RuncTasks] in
      case newDriveHandler (as_os env) blockPath devPath w of
        (Inl err, w) \<Rightarrow> (Fatal err ''failed to create drive handler'', w)
      | (Inr dh, w) \<Rightarrow>
     (let services = services @ [DriveMounter] in
      case as_Listen env (word_of_int port) w of
        (Some err, w) \<Rightarrow> (Fatal err ''failed to listen to vsock on port %d'', w)
      | (None, w) \<Rightarrow>
          (Started \<lparr>ap_tasks = NewTaskService, ap_drives = dh, ap_services = services, ap_port = word_of_int port\<rparr>, w)))))))"

text \<open>
  A process that starts has become the subreaper before runc's service was made and offers all three services, on the drives that it
  found; one that fails has told nobody its port.
\<close>

lemma agent_main_start_complete:
  assumes "agent_main_start env port version w = (Started parts, w')"
  shows "\<not> version \<and> ap_services parts = [EventGetter, RuncTasks, DriveMounter] \<and> ap_tasks parts = NewTaskService \<and>
     (\<exists>x y z v. as_SetSubreaper env 1 w = (None, x) \<and> as_NewServer env x = (None, y) \<and> as_NewRunc env y = (None, z) \<and>
        newDriveHandler (as_os env) blockPath devPath z = (Inr (ap_drives parts), v) \<and> as_Listen env (ap_port parts) v = (None, w'))"
  using assms by (auto simp: agent_main_start_def Let_def split: if_splits prod.splits option.splits sum.splits)

section \<open>The goroutines\<close>

datatype sys_signal = SIGINT | SIGTERM | SIGCHLD

datatype loop_stage =
    Looping
  | StoppingServer "gerr option"
  | LoopReturned

datatype main_end =
    Waiting
  | Exited
  | Panicked gerr

text \<open>
  \<open>am_ctxErr\<close> is \<open>shimCtx.Err()\<close>, \<open>am_serving\<close> says whether \<open>Serve\<close> still runs. The stage \<open>StoppingServer r\<close> is the deferred call
  of the server's \<open>Shutdown\<close>, after which the goroutine returns \<open>r\<close>.
\<close>

record agent_main =
  am_signals :: "sys_signal list"
  am_ctxErr :: "gerr option"
  am_serving :: bool
  am_loop :: loop_stage
  am_results :: "gerr option list"
  am_reaps :: nat
  am_end :: main_end

definition agent_running :: agent_main where
  "agent_running =
     \<lparr>am_signals = [], am_ctxErr = None, am_serving = True, am_loop = Looping, am_results = [], am_reaps = 0, am_end = Waiting\<rparr>"

text \<open>The channel of signals has room for 32; a signal that finds it full is dropped.\<close>

definition notify :: "sys_signal \<Rightarrow> agent_main \<Rightarrow> agent_main" where
  "notify sg s = (if length (am_signals s) < 32 then s\<lparr>am_signals := am_signals s @ [sg]\<rparr> else s)"

definition shimCancel :: "agent_main \<Rightarrow> agent_main" where
  "shimCancel s = (if am_ctxErr s = None then s\<lparr>am_ctxErr := Some ContextCanceled\<rparr> else s)"

definition group_return :: "gerr option \<Rightarrow> agent_main \<Rightarrow> agent_main" where
  "group_return r s =
     (let s = s\<lparr>am_results := am_results s @ [r]\<rparr> in if r = None then s else shimCancel s)"

definition ErrServerClosed :: gerr where "ErrServerClosed = ExtError ''ttrpc: server closed''"

definition serve_goroutine :: "gerr option \<Rightarrow> gerr option" where
  "serve_goroutine err = (if err = Some ErrServerClosed then None else err)"

text \<open>The two cases of the select. An error of the reaper is only logged.\<close>

fun on_signal :: "sys_signal \<Rightarrow> agent_main \<Rightarrow> agent_main" where
  "on_signal SIGCHLD s = s\<lparr>am_reaps := am_reaps s + 1\<rparr>"
| "on_signal SIGINT s = (shimCancel s)\<lparr>am_loop := StoppingServer None\<rparr>"
| "on_signal SIGTERM s = (shimCancel s)\<lparr>am_loop := StoppingServer None\<rparr>"

definition on_done :: "gerr \<Rightarrow> agent_main \<Rightarrow> agent_main" where
  "on_done err s = s\<lparr>am_loop := StoppingServer (Some err)\<rparr>"

definition after_wait :: "gerr option \<Rightarrow> main_end" where
  "after_wait err =
     (case err of None \<Rightarrow> Exited | Some e \<Rightarrow> if e \<noteq> ContextCanceled then Panicked e else Exited)"

text \<open>
  A step, labelled with what happens. \<open>Serve\<close> may end with any error at any time, but with \<open>ErrServerClosed\<close> only once \<open>Shutdown\<close> of the server has been
  called.
\<close>

datatype agent_event =
    Notify sys_signal
  | ShutdownCalled
  | TakesSignal
  | SeesDone
  | ServeEnds "gerr option"
  | ServerStopped
  | WaitEnds

inductive agent_step :: "agent_event \<Rightarrow> agent_main \<Rightarrow> agent_main \<Rightarrow> bool" where
  notify: "am_end s = Waiting \<Longrightarrow> agent_step (Notify sg) s (notify sg s)"
| called: "am_end s = Waiting \<Longrightarrow> agent_step ShutdownCalled s (snd (Shutdown shimCancel s))"
| takes: "am_loop s = Looping \<Longrightarrow> am_signals s = sg # rest \<Longrightarrow>
    agent_step TakesSignal s (on_signal sg (s\<lparr>am_signals := rest\<rparr>))"
| sees_done: "am_loop s = Looping \<Longrightarrow> am_ctxErr s = Some err \<Longrightarrow> agent_step SeesDone s (on_done err s)"
| serve_ends: "am_serving s \<Longrightarrow> r = Some ErrServerClosed \<longrightarrow> am_loop s \<noteq> Looping \<Longrightarrow>
    agent_step (ServeEnds r) s (group_return (serve_goroutine r) (s\<lparr>am_serving := False\<rparr>))"
| stopped: "am_loop s = StoppingServer r \<Longrightarrow> agent_step ServerStopped s (group_return r (s\<lparr>am_loop := LoopReturned\<rparr>))"
| wait_ends: "am_end s = Waiting \<Longrightarrow> \<not> am_serving s \<Longrightarrow> am_loop s = LoopReturned \<Longrightarrow>
    agent_step WaitEnds s (s\<lparr>am_end := after_wait (first_error (am_results s))\<rparr>)"

inductive_cases agent_stepE [consumes 1, case_names notify called takes sees_done serve_ends stopped wait_ends]:
  "agent_step ev s s'"

inductive agent_run :: "agent_main \<Rightarrow> agent_event list \<Rightarrow> agent_main \<Rightarrow> bool" where
  start: "agent_run s [] s"
| step: "agent_run s evs s' \<Longrightarrow> agent_step ev s' s'' \<Longrightarrow> agent_run s (evs @ [ev]) s''"

section \<open>How the process ends\<close>

lemmas agent_defs = notify_def shimCancel_def group_return_def serve_goroutine_def on_done_def Shutdown_def Let_def

lemma shimCancel_fields [simp]:
  "am_signals (shimCancel s) = am_signals s" "am_serving (shimCancel s) = am_serving s" "am_loop (shimCancel s) = am_loop s"
  "am_results (shimCancel s) = am_results s" "am_reaps (shimCancel s) = am_reaps s" "am_end (shimCancel s) = am_end s"
  "am_ctxErr (shimCancel s) \<noteq> None"
  by (simp_all add: shimCancel_def)

definition harmless :: "gerr \<Rightarrow> bool" where
  "harmless err \<longleftrightarrow> err = ErrServerClosed \<or> err = ContextCanceled"

text \<open>What can make the process end.\<close>

fun stop_cause :: "agent_event \<Rightarrow> bool" where
  "stop_cause (Notify sg) \<longleftrightarrow> sg \<noteq> SIGCHLD"
| "stop_cause ShutdownCalled \<longleftrightarrow> True"
| "stop_cause (ServeEnds (Some err)) \<longleftrightarrow> err \<noteq> ErrServerClosed"
| "stop_cause _ \<longleftrightarrow> False"

definition agent_inv :: "agent_event list \<Rightarrow> agent_main \<Rightarrow> bool" where
  "agent_inv evs s \<longleftrightarrow>
     length (am_signals s) \<le> 32 \<and> (am_ctxErr s = None \<or> am_ctxErr s = Some ContextCanceled) \<and>
     (am_loop s \<noteq> Looping \<longrightarrow> am_ctxErr s \<noteq> None) \<and>
     (\<forall>r. am_loop s = StoppingServer r \<longrightarrow> r = None \<or> r = Some ContextCanceled) \<and>
     (am_end s \<noteq> Waiting \<longrightarrow> \<not> am_serving s \<and> am_loop s = LoopReturned \<and> am_end s = after_wait (first_error (am_results s))) \<and>
     count_list evs ServerStopped = (if am_loop s = LoopReturned then 1 else 0) \<and>
     (\<forall>err. Some err \<in> set (am_results s) \<longrightarrow> err = ContextCanceled \<or> ServeEnds (Some err) \<in> set evs \<and> err \<noteq> ErrServerClosed) \<and>
     (\<forall>sg \<in> set (am_signals s). Notify sg \<in> set evs) \<and>
     (am_ctxErr s \<noteq> None \<longrightarrow> (\<exists>ev \<in> set evs. stop_cause ev))"

lemma agent_inv_step:
  assumes "agent_step ev s s'" "agent_inv evs s"
  shows "agent_inv (evs @ [ev]) s'"
  using assms
proof (cases rule: agent_stepE)
  case (takes sg rest)
  with assms(2) show ?thesis
    by (cases sg) (auto simp: agent_inv_def shimCancel_def intro: bexI[of _ "Notify sg"])
next
  case (serve_ends r)
  with assms(2) show ?thesis
    by (cases r) (auto simp: agent_inv_def agent_defs)
qed (auto simp: agent_inv_def agent_defs)

lemma agent_inv_run: "agent_run agent_running evs s \<Longrightarrow> agent_inv evs s"
proof (induction agent_running evs s rule: agent_run.induct)
  case start
  show ?case by (simp add: agent_inv_def agent_running_def)
next
  case (step evs s' ev s'')
  then show ?case by (simp add: agent_inv_step)
qed

lemma agent_run_append:
  "agent_run s' evs' s'' \<Longrightarrow> agent_run s evs s' \<Longrightarrow> agent_run s (evs @ evs') s''"
proof (induction s' evs' s'' rule: agent_run.induct)
  case (step s' evs' t ev t')
  from agent_run.step[OF step.IH[OF step.prems] step.hyps(2)] show ?case by simp
qed simp

lemma agent_run_split:
  "agent_run s (xs @ ys) s' \<Longrightarrow> \<exists>t. agent_run s xs t \<and> agent_run t ys s'"
proof (induction ys arbitrary: s' rule: rev_induct)
  case Nil
  then show ?case by (auto intro: agent_run.start)
next
  case (snoc y ys)
  from snoc.prems obtain u where "agent_run s (xs @ ys) u" "agent_step y u s'"
    by (auto elim: agent_run.cases)
  with snoc.IH show ?case by (blast intro: agent_run.step)
qed

lemma agent_run_single:
  assumes "agent_run s [ev] s'"
  shows "agent_step ev s s'"
  using assms
proof cases
  case (step evs t ev')
  then have "agent_run s [] t" "ev' = ev" by simp_all
  moreover from this(1) have "t = s" by cases simp_all
  ultimately show ?thesis using step by simp
qed

lemma results_prefix:
  "agent_run s evs s' \<Longrightarrow> am_results s = Some err # rs \<Longrightarrow> \<exists>rs'. am_results s' = Some err # rs'"
proof (induction rule: agent_run.induct)
  case (step s evs t ev t')
  then obtain rs' where "am_results t = Some err # rs'" by blast
  with step.hyps(2) show ?case
  proof (cases rule: agent_stepE)
    case (takes sg rest)
    with \<open>am_results t = _\<close> show ?thesis by (cases sg) (simp_all add: agent_defs)
  qed (auto simp: agent_defs)
qed simp

lemma quiet_so_far:
  assumes "agent_run agent_running evs s" "\<forall>ev \<in> set evs. \<not> stop_cause ev"
  shows "am_loop s = Looping \<and> (am_serving s \<longrightarrow> am_results s = [])"
  using assms
proof (induction agent_running evs s rule: agent_run.induct)
  case start
  show ?case by (simp add: agent_running_def)
next
  case (step evs s ev s')
  then have l: "am_loop s = Looping" "am_serving s \<longrightarrow> am_results s = []" by simp_all
  have i: "agent_inv evs s" "\<forall>e \<in> set evs. \<not> stop_cause e" using agent_inv_run[OF step.hyps(1)] step.prems by simp_all
  have n: "am_ctxErr s = None" using i by (auto simp: agent_inv_def)
  have "Notify sg \<in> set evs" if "sg \<in> set (am_signals s)" for sg using i(1) that by (simp add: agent_inv_def)
  with i(2) have n2: "\<forall>sg \<in> set (am_signals s). sg = SIGCHLD" by fastforce
  from step.hyps(3) show ?case
  proof (cases rule: agent_stepE)
    case (takes sg rest)
    with n2 l show ?thesis by simp
  next
    case (serve_ends r)
    with l step.prems show ?thesis by (cases r) (auto simp: agent_defs)
  qed (use l n n2 in \<open>auto simp: agent_defs\<close>)
qed

text \<open>A failure of \<open>Serve\<close> that comes first is what the process dies of.\<close>

lemma serve_failure_panics:
  assumes "agent_run agent_running (xs @ ServeEnds (Some err) # ys) s"
    and "\<forall>ev \<in> set xs. \<not> stop_cause ev" "\<not> harmless err"
  shows "am_end s = Waiting \<or> am_end s = Panicked err"
proof -
  obtain t where t: "agent_run agent_running xs t" "agent_run t (ServeEnds (Some err) # ys) s"
    using agent_run_split[OF assms(1)] by blast
  then obtain u where u: "agent_run t [ServeEnds (Some err)] u" "agent_run u ys s"
    using agent_run_split[of t "[ServeEnds (Some err)]" ys s] by auto
  then have "agent_step (ServeEnds (Some err)) t u" by (blast dest: agent_run_single)
  then have "am_results u = [Some err]"
    using quiet_so_far[OF t(1) assms(2)] assms(3)
    by (cases rule: agent_stepE) (simp_all add: agent_defs harmless_def)
  then obtain rs where "am_results s = Some err # rs" using results_prefix[OF u(2)] by blast
  moreover have "agent_inv (xs @ ServeEnds (Some err) # ys) s" by (rule agent_inv_run[OF assms(1)])
  ultimately show ?thesis using assms(3) by (auto simp: agent_inv_def after_wait_def harmless_def)
qed

text \<open>
  C27: However its goroutines interleave with signals and calls, the agent's process does not end on its own: an interrupt, a call of \<open>Shutdown\<close> or a failing
  server comes first, and the server's deferred \<open>Shutdown\<close> has then run exactly once. The process panics only with an error other than the two expected ones that
  \<open>Serve\<close> itself returned, and it does panic with that error when nothing had asked it to stop before.
\<close>

theorem agent_ends_once:
  assumes "agent_run agent_running evs s"
  shows "count_list evs ServerStopped \<le> 1 \<and>
     (am_end s \<noteq> Waiting \<longrightarrow> count_list evs ServerStopped = 1 \<and> \<not> am_serving s \<and> (\<exists>ev \<in> set evs. stop_cause ev)) \<and>
     (\<forall>err. am_end s = Panicked err \<longrightarrow> ServeEnds (Some err) \<in> set evs \<and> \<not> harmless err) \<and>
     (\<forall>xs err ys. evs = xs @ ServeEnds (Some err) # ys \<and> \<not> harmless err \<and> (\<forall>ev \<in> set xs. \<not> stop_cause ev) \<longrightarrow>
        am_end s = Waiting \<or> am_end s = Panicked err)"
proof -
  have inv: "agent_inv evs s" by (rule agent_inv_run[OF assms])
  have "ServeEnds (Some err) \<in> set evs \<and> \<not> harmless err" if "am_end s = Panicked err" for err
  proof -
    from inv that have "after_wait (first_error (am_results s)) = Panicked err" by (simp add: agent_inv_def)
    then have "first_error (am_results s) = Some err" "err \<noteq> ContextCanceled"
      by (auto simp: after_wait_def split: option.splits if_splits)
    with inv first_error_mem show ?thesis by (auto simp: agent_inv_def harmless_def)
  qed
  moreover have "am_end s = Waiting \<or> am_end s = Panicked err"
    if "evs = xs @ ServeEnds (Some err) # ys" "\<not> harmless err" "\<forall>ev \<in> set xs. \<not> stop_cause ev" for xs err ys
    using serve_failure_panics assms that by blast
  ultimately show ?thesis using inv by (auto simp: agent_inv_def)
qed

text \<open>A run that ends after a termination signal, with a child reaped before.\<close>

definition example_stop :: "agent_event list" where
  "example_stop = [Notify SIGCHLD, Notify SIGTERM, TakesSignal, TakesSignal, ServeEnds (Some ErrServerClosed), ServerStopped, WaitEnds]"

lemma example_stop_run:
  "\<exists>s. agent_run agent_running example_stop s \<and> am_end s = Exited \<and> am_reaps s = 1"
proof -
  let ?s1 = "notify SIGCHLD agent_running"
  let ?s2 = "notify SIGTERM ?s1"
  let ?s3 = "on_signal SIGCHLD (?s2\<lparr>am_signals := [SIGTERM]\<rparr>)"
  let ?s4 = "on_signal SIGTERM (?s3\<lparr>am_signals := []\<rparr>)"
  let ?s5 = "group_return (serve_goroutine (Some ErrServerClosed)) (?s4\<lparr>am_serving := False\<rparr>)"
  let ?s6 = "group_return None (?s5\<lparr>am_loop := LoopReturned\<rparr>)"
  let ?s7 = "?s6\<lparr>am_end := after_wait (first_error (am_results ?s6))\<rparr>"
  note start = agent_run.start[of agent_running]
  have r1: "agent_run agent_running [Notify SIGCHLD] ?s1"
    using agent_run.step[OF start agent_step.notify] by (simp add: agent_running_def)
  have r2: "agent_run agent_running [Notify SIGCHLD, Notify SIGTERM] ?s2"
    using agent_run.step[OF r1 agent_step.notify] by (simp add: agent_running_def notify_def)
  have r3: "agent_run agent_running [Notify SIGCHLD, Notify SIGTERM, TakesSignal] ?s3"
    using agent_run.step[OF r2 agent_step.takes] by (simp add: agent_running_def notify_def)
  have r4: "agent_run agent_running [Notify SIGCHLD, Notify SIGTERM, TakesSignal, TakesSignal] ?s4"
    using agent_run.step[OF r3 agent_step.takes] by (simp add: agent_running_def notify_def)
  have r5: "agent_run agent_running [Notify SIGCHLD, Notify SIGTERM, TakesSignal, TakesSignal, ServeEnds (Some ErrServerClosed)] ?s5"
    using agent_run.step[OF r4 agent_step.serve_ends] by (simp add: agent_running_def notify_def)
  have r6: "agent_run agent_running [Notify SIGCHLD, Notify SIGTERM, TakesSignal, TakesSignal, ServeEnds (Some ErrServerClosed), ServerStopped] ?s6"
    using agent_run.step[OF r5 agent_step.stopped] by (simp add: group_return_def serve_goroutine_def)
  have "agent_run agent_running example_stop ?s7"
    using agent_run.step[OF r6 agent_step.wait_ends]
    by (simp add: example_stop_def group_return_def serve_goroutine_def agent_running_def notify_def)
  then show ?thesis
    by (intro exI[of _ ?s7]) (simp add: group_return_def serve_goroutine_def agent_running_def notify_def after_wait_def)
qed

theorem agent_ends_once_witness:
  "\<exists>s. agent_run agent_running example_stop s \<and> am_end s = Exited \<and> count_list example_stop ServerStopped = 1 \<and> \<not> am_serving s"
proof -
  obtain s where s: "agent_run agent_running example_stop s" "am_end s = Exited" using example_stop_run by blast
  with agent_ends_once[OF s(1)] show ?thesis by auto
qed

section \<open>That the process ends\<close>

text \<open>The steps of the process itself, as opposed to what comes from outside.\<close>

fun own_step :: "agent_event \<Rightarrow> bool" where
  "own_step (Notify _) \<longleftrightarrow> False"
| "own_step ShutdownCalled \<longleftrightarrow> False"
| "own_step _ \<longleftrightarrow> True"

definition stop_requested :: "agent_main \<Rightarrow> bool" where
  "stop_requested s \<longleftrightarrow> am_ctxErr s \<noteq> None \<or> SIGINT \<in> set (am_signals s) \<or> SIGTERM \<in> set (am_signals s)"

definition steps_left :: "agent_main \<Rightarrow> nat" where
  "steps_left s =
     length (am_signals s) + (case am_loop s of Looping \<Rightarrow> 2 | StoppingServer _ \<Rightarrow> 1 | LoopReturned \<Rightarrow> 0) +
     (if am_serving s then 1 else 0) + (if am_end s = Waiting then 1 else 0)"

lemma own_step_decreases: "agent_step ev s s' \<Longrightarrow> own_step ev \<Longrightarrow> steps_left s' < steps_left s"
proof (induction rule: agent_step.induct)
  case (takes s sg rest)
  then show ?case by (cases sg) (simp_all add: steps_left_def)
qed (simp_all add: steps_left_def agent_defs after_wait_def split: option.splits)

lemma stop_requested_step: "agent_step ev s s' \<Longrightarrow> stop_requested s \<Longrightarrow> stop_requested s'"
proof (induction rule: agent_step.induct)
  case (takes s sg rest)
  then show ?case by (cases sg) (auto simp: stop_requested_def)
qed (auto simp: stop_requested_def agent_defs)

lemma own_run_bounded:
  "agent_run s evs s' \<Longrightarrow> \<forall>ev \<in> set evs. own_step ev \<Longrightarrow> length evs + steps_left s' \<le> steps_left s"
proof (induction rule: agent_run.induct)
  case (step s evs t ev t')
  then show ?case using own_step_decreases[OF step.hyps(2)] by simp
qed simp

lemma stop_requested_run: "agent_run s evs s' \<Longrightarrow> stop_requested s \<Longrightarrow> stop_requested s'"
  by (induction rule: agent_run.induct) (auto dest: stop_requested_step)

lemma stop_progress:
  assumes "stop_requested s" "am_end s = Waiting"
  shows "\<exists>ev s'. own_step ev \<and> (\<forall>r. ev = ServeEnds r \<longrightarrow> r = Some ErrServerClosed) \<and> agent_step ev s s'"
proof (cases "am_loop s")
  case Looping
  show ?thesis
  proof (cases "am_ctxErr s")
    case None
    with assms(1) obtain sg rest where "am_signals s = sg # rest" by (cases "am_signals s") (auto simp: stop_requested_def)
    with Looping show ?thesis using agent_step.takes by (intro exI[of _ TakesSignal]) auto
  next
    case (Some err)
    with Looping show ?thesis using agent_step.sees_done by (intro exI[of _ SeesDone]) auto
  qed
next
  case (StoppingServer r)
  then show ?thesis using agent_step.stopped by (intro exI[of _ ServerStopped]) auto
next
  case LoopReturned
  show ?thesis
  proof (cases "am_serving s")
    case True
    with LoopReturned show ?thesis
      using agent_step.serve_ends[OF True, of "Some ErrServerClosed"] by (intro exI[of _ "ServeEnds (Some ErrServerClosed)"]) auto
  next
    case False
    with LoopReturned assms(2) show ?thesis using agent_step.wait_ends by (intro exI[of _ WaitEnds]) auto
  qed
qed

text \<open>How many steps of its own a run has, and how many signals arrive in it.\<close>

definition own_steps :: "agent_event list \<Rightarrow> nat" where
  "own_steps evs = length (filter own_step evs)"

definition arrivals :: "agent_event list \<Rightarrow> nat" where
  "arrivals evs = length (filter (\<lambda>ev. ev \<in> range Notify) evs)"

lemma steps_simps [simp]:
  "own_steps [] = 0" "arrivals [] = 0" "own_steps (evs @ [ev]) = own_steps evs + (if own_step ev then 1 else 0)"
  "arrivals (evs @ [ev]) = arrivals evs + (if ev \<in> range Notify then 1 else 0)"
  by (simp_all add: own_steps_def arrivals_def)

lemma step_left:
  assumes "agent_step ev s s'"
  shows "steps_left s' + (if own_step ev then 1 else 0) \<le> steps_left s + (if ev \<in> range Notify then 1 else 0)"
proof (cases "own_step ev")
  case True
  with own_step_decreases[OF assms] show ?thesis by simp
next
  case False
  with assms show ?thesis by (cases rule: agent_stepE) (auto simp: steps_left_def agent_defs)
qed

lemma run_left: "agent_run s evs s' \<Longrightarrow> steps_left s' + own_steps evs \<le> steps_left s + arrivals evs"
proof (induction rule: agent_run.induct)
  case (step s evs t ev t')
  from step.IH step_left[OF step.hyps(2)] show ?case by (simp split: if_splits)
qed simp

text \<open>
  Signals are taken in the order of their arrival, so that those behind a waiting interrupt do not count: only the
  ended children before it can be taken before it.
\<close>

definition interrupted :: "agent_main \<Rightarrow> bool" where
  "interrupted s \<longleftrightarrow> am_loop s \<noteq> Looping \<or> (\<exists>sg \<in> set (am_signals s). sg \<noteq> SIGCHLD)"

definition steps_to_interrupt :: "agent_main \<Rightarrow> nat" where
  "steps_to_interrupt s =
     (case am_loop s of Looping \<Rightarrow> length (takeWhile (\<lambda>sg. sg = SIGCHLD) (am_signals s)) + 2 | StoppingServer _ \<Rightarrow> 1 | LoopReturned \<Rightarrow> 0) +
     (if am_serving s then 1 else 0) + (if am_end s = Waiting then 1 else 0)"

lemma group_return_fields [simp]:
  "am_signals (group_return r s) = am_signals s" "am_serving (group_return r s) = am_serving s" "am_loop (group_return r s) = am_loop s"
  "am_end (group_return r s) = am_end s"
  by (simp_all add: group_return_def Let_def)

lemma Shutdown_fields [simp]:
  "am_signals (snd (Shutdown shimCancel s)) = am_signals s" "am_serving (snd (Shutdown shimCancel s)) = am_serving s"
  "am_loop (snd (Shutdown shimCancel s)) = am_loop s" "am_end (snd (Shutdown shimCancel s)) = am_end s"
  by (simp_all add: Shutdown_def)

lemma interrupted_step:
  assumes "agent_step ev s s'" "interrupted s"
  shows "interrupted s' \<and> steps_to_interrupt s' + (if own_step ev then 1 else 0) \<le> steps_to_interrupt s"
  using assms
proof (cases rule: agent_stepE)
  case (notify sg)
  have "interrupted (notify sg s) \<and> steps_to_interrupt (notify sg s) = steps_to_interrupt s"
  proof (cases "am_loop s")
    case Looping
    with assms(2) obtain i where "i \<in> set (am_signals s)" "i \<noteq> SIGCHLD" by (auto simp: interrupted_def)
    with Looping show ?thesis by (auto simp: interrupted_def steps_to_interrupt_def notify_def takeWhile_append1)
  qed (simp_all add: interrupted_def steps_to_interrupt_def notify_def)
  with notify show ?thesis by simp
next
  case (takes sg rest)
  with assms(2) show ?thesis by (cases sg) (auto simp: interrupted_def steps_to_interrupt_def)
next
  case (wait_ends)
  then show ?thesis by (auto simp: interrupted_def steps_to_interrupt_def after_wait_def split: option.splits)
qed (auto simp: interrupted_def steps_to_interrupt_def on_done_def split: loop_stage.splits)

lemma interrupted_run:
  "agent_run s evs s' \<Longrightarrow> interrupted s \<Longrightarrow> interrupted s' \<and> steps_to_interrupt s' + own_steps evs \<le> steps_to_interrupt s"
proof (induction rule: agent_run.induct)
  case (step s evs t ev t')
  then show ?case using interrupted_step[OF step.hyps(2)] by fastforce
qed simp

lemma steps_to_interrupt_bound:
  assumes "length (am_signals s) \<le> 32" "interrupted s"
  shows "steps_to_interrupt s \<le> 35"
proof (cases "am_loop s")
  case Looping
  with assms(2) have "\<exists>sg \<in> set (am_signals s). sg \<noteq> SIGCHLD" by (simp add: interrupted_def)
  then have "length (takeWhile (\<lambda>sg. sg = SIGCHLD) (am_signals s)) < length (am_signals s)"
    by (metis (mono_tags, lifting) length_takeWhile_le nat_less_le set_takeWhileD takeWhile_eq_take take_all_iff)
  with Looping assms(1) show ?thesis by (simp add: steps_to_interrupt_def)
qed (simp_all add: steps_to_interrupt_def)

text \<open>
  C26: Once the agent has been asked to stop (by an interrupt that found room in the channel, or by \<open>Shutdown\<close>) its process is never stuck before its end, whatever
  signals and calls still arrive; all that this needs of the server is that \<open>Shutdown\<close> returns and that \<open>Serve\<close> then returns \<open>ErrServerClosed\<close>. And
  it comes to its end: after an interrupt it takes at most 35 steps of its own in any run, however many signals still arrive, as they are taken in
  order. After \<open>Shutdown\<close> alone the select may prefer waiting signals to the end of the context, so that a run has at most 36 steps of its own and one more
  for each signal that arrives in it.
\<close>

theorem agent_stops:
  assumes "agent_run agent_running evs s" "stop_requested s" "agent_run s evs' s'"
  shows "(am_end s' = Waiting \<longrightarrow>
       (\<exists>ev t. own_step ev \<and> (\<forall>r. ev = ServeEnds r \<longrightarrow> r = Some ErrServerClosed) \<and> agent_step ev s' t)) \<and>
     own_steps evs' \<le> 36 + arrivals evs' \<and>
     (SIGINT \<in> set (am_signals s) \<or> SIGTERM \<in> set (am_signals s) \<or> am_loop s \<noteq> Looping \<longrightarrow> own_steps evs' \<le> 35)"
proof (intro conjI impI)
  assume "am_end s' = Waiting"
  then show "\<exists>ev t. own_step ev \<and> (\<forall>r. ev = ServeEnds r \<longrightarrow> r = Some ErrServerClosed) \<and> agent_step ev s' t"
    using stop_progress stop_requested_run[OF assms(3,2)] by blast
next
  have l: "length (am_signals s) \<le> 32" using agent_inv_run[OF assms(1)] by (simp add: agent_inv_def)
  then have "steps_left s \<le> 36" by (simp add: steps_left_def split: loop_stage.splits)
  with run_left[OF assms(3)] show "own_steps evs' \<le> 36 + arrivals evs'" by simp
  assume "SIGINT \<in> set (am_signals s) \<or> SIGTERM \<in> set (am_signals s) \<or> am_loop s \<noteq> Looping"
  then have "interrupted s" by (auto simp: interrupted_def)
  with interrupted_run[OF assms(3)] steps_to_interrupt_bound[OF l] show "own_steps evs' \<le> 35" by fastforce
qed

theorem agent_stops_witness:
  "\<exists>s. agent_run agent_running [Notify SIGTERM, Notify SIGCHLD, TakesSignal] s \<and> am_loop s = StoppingServer None \<and>
     (\<exists>ev t. own_step ev \<and> agent_step ev s t) \<and>
     (\<forall>evs t. agent_run s evs t \<longrightarrow> own_steps evs \<le> 34)"
proof -
  let ?s1 = "notify SIGTERM agent_running"
  let ?s2 = "notify SIGCHLD ?s1"
  let ?s3 = "on_signal SIGTERM (?s2\<lparr>am_signals := [SIGCHLD]\<rparr>)"
  have 1: "agent_run agent_running [Notify SIGTERM] ?s1"
    using agent_run.step[OF agent_run.start agent_step.notify] by (simp add: agent_running_def)
  have 2: "agent_run ?s1 [Notify SIGCHLD] ?s2"
    using agent_run.step[OF agent_run.start agent_step.notify, of ?s1] by (simp add: agent_running_def notify_def)
  have 3: "agent_run ?s1 [Notify SIGCHLD, TakesSignal] ?s3"
    using agent_run.step[OF 2 agent_step.takes] by (simp add: agent_running_def notify_def)
  have q: "stop_requested ?s1" "SIGTERM \<in> set (am_signals ?s1)" by (simp_all add: stop_requested_def notify_def agent_running_def)
  have "am_end ?s3 = Waiting" "am_loop ?s3 = StoppingServer None" by (simp_all add: notify_def agent_running_def)
  moreover from this(1) have "\<exists>ev t. own_step ev \<and> agent_step ev ?s3 t" using agent_stops[OF 1 q(1) 3] by blast
  moreover have "agent_run agent_running [Notify SIGTERM, Notify SIGCHLD, TakesSignal] ?s3"
    using agent_run_append[OF 3 1] by simp
  moreover have "own_steps evs \<le> 34" if "agent_run ?s3 evs t" for evs t
  proof -
    have "agent_run ?s1 ([Notify SIGCHLD, TakesSignal] @ evs) t" using agent_run_append[OF that 3] .
    from agent_stops[OF 1 q(1) this] q(2) have "own_steps ([Notify SIGCHLD, TakesSignal] @ evs) \<le> 35" by blast
    then show ?thesis by (simp add: own_steps_def)
  qed
  ultimately show ?thesis by blast
qed

end
