(* ===== verification/EventBridge.thy ===== *)
theory EventBridge
  imports TaskAPI
begin

text \<open>
  \<open>eventbridge/eventbridge.go\<close> and \<open>internal/event/exchange.go\<close>: how events get from the VM to
  containerd. The select statements are resolved by the outside: what a channel delivers is
  an argument. The two forwarding goroutines loop for ever, so that they are functions of
  the number of turns; \<open>None\<close> means that they are still running. Their result is what they
  send on their error channel.
\<close>

section \<open>Getting events\<close>

record Envelope =
  env_Timestamp :: int
  env_Namespace :: string
  env_Topic :: string
  env_Event :: any

text \<open>Which case of the select in \<open>GetEvent\<close> wins; a nil error on the error channel is \<open>None\<close>.\<close>

datatype get_select =
    EventChan Envelope
  | ErrChan "gerr option"
  | CtxDone

text \<open>A Go pair of a pointer and an error. \<open>ctx_err\<close> is \<open>ctx.Err()\<close>, nil while the context is open.\<close>

definition GetEvent :: "gerr option \<Rightarrow> get_select \<Rightarrow> Envelope option \<times> gerr option" where
  "GetEvent ctx_err sel =
     (case sel of
        EventChan e \<Rightarrow>
          (Some \<lparr>env_Timestamp = env_Timestamp e, env_Namespace = env_Namespace e, env_Topic = env_Topic e,
                 env_Event = env_Event e\<rparr>, None)
      | ErrChan err \<Rightarrow> (None, if err = None then ctx_err else err)
      | CtxDone \<Rightarrow> (None, ctx_err))"

text \<open>The client side, over a call that gives a response or an error.\<close>

definition getterClient_GetEvent ::
    "('w \<Rightarrow> (gerr + Envelope) \<times> 'w) \<Rightarrow> 'w \<Rightarrow> (Envelope option \<times> gerr option) \<times> 'w" where
  "getterClient_GetEvent call w =
     (case call w of (Inl err, w) \<Rightarrow> ((None, Some err), w) | (Inr resp, w) \<Rightarrow> ((Some resp, None), w))"

text \<open>\<open>ExchangeCloser.Close\<close>.\<close>

definition ExchangeCloser_Close :: "gerr option" where
  "ExchangeCloser_Close = None"

section \<open>Forwarding\<close>

text \<open>
  \<open>ctx_err\<close> reads the context. Dereferencing a nil envelope is a panic of the goroutine.
\<close>

fun attach_loop ::
    "nat \<Rightarrow> ('w \<Rightarrow> gerr option) \<Rightarrow> ('w \<Rightarrow> (Envelope option \<times> gerr option) \<times> 'w) \<Rightarrow> (Envelope \<Rightarrow> 'w \<Rightarrow> gerr option \<times> 'w) \<Rightarrow>
     'w \<Rightarrow> gerr option \<times> 'w" where
  "attach_loop 0 ctx_err source sink w = (None, w)"
| "attach_loop (Suc n) ctx_err source sink w =
     (case ctx_err w of
        Some err \<Rightarrow> (Some err, w)
      | None \<Rightarrow>
          (case source w of
             ((_, Some err), w) \<Rightarrow> (Some err, w)
           | ((None, None), w) \<Rightarrow> (Some (Panic ''nil pointer dereference''), w)
           | ((Some envelope, None), w) \<Rightarrow>
               (case sink \<lparr>env_Timestamp = env_Timestamp envelope, env_Namespace = env_Namespace envelope,
                           env_Topic = env_Topic envelope, env_Event = env_Event envelope\<rparr> w of
                  (Some err, w) \<Rightarrow> (Some err, w)
                | (None, w) \<Rightarrow> attach_loop n ctx_err source sink w)))"

definition Attach ::
    "nat \<Rightarrow> ('w \<Rightarrow> gerr option) \<Rightarrow> ('w \<Rightarrow> (Envelope option \<times> gerr option) \<times> 'w) \<Rightarrow> (Envelope \<Rightarrow> 'w \<Rightarrow> gerr option \<times> 'w) \<Rightarrow>
     'w \<Rightarrow> gerr option \<times> 'w" where
  "Attach n ctx_err source sink w = attach_loop n ctx_err source sink w"

text \<open>
  \<open>Republish\<close>: \<open>select\<close> says which case wins, \<open>decode\<close> is \<open>typeurl.UnmarshalAny\<close>. The error
  that is sent may be nil, so that the result is an optional error once more.
\<close>

fun republish_loop ::
    "nat \<Rightarrow> ('w \<Rightarrow> gerr option) \<Rightarrow> ('w \<Rightarrow> get_select \<times> 'w) \<Rightarrow> (any \<Rightarrow> gerr + 'e) \<Rightarrow> (string \<Rightarrow> 'e \<Rightarrow> 'w \<Rightarrow> gerr option \<times> 'w) \<Rightarrow>
     'w \<Rightarrow> gerr option option \<times> 'w" where
  "republish_loop 0 ctx_err select decode publish w = (None, w)"
| "republish_loop (Suc n) ctx_err select decode publish w =
     (case select w of
        (EventChan envelope, w) \<Rightarrow>
          (case decode (env_Event envelope) of
             Inl err \<Rightarrow> (Some (Some err), w)
           | Inr decodedEvent \<Rightarrow>
               (case publish (env_Topic envelope) decodedEvent w of
                  (Some err, w) \<Rightarrow> (Some (Some err), w)
                | (None, w) \<Rightarrow> republish_loop n ctx_err select decode publish w))
      | (ErrChan err, w) \<Rightarrow> (Some (if err = None then ctx_err w else err), w)
      | (CtxDone, w) \<Rightarrow> (Some (ctx_err w), w))"

definition Republish ::
    "nat \<Rightarrow> ('w \<Rightarrow> gerr option) \<Rightarrow> ('w \<Rightarrow> get_select \<times> 'w) \<Rightarrow> (any \<Rightarrow> gerr + 'e) \<Rightarrow> (string \<Rightarrow> 'e \<Rightarrow> 'w \<Rightarrow> gerr option \<times> 'w) \<Rightarrow>
     'w \<Rightarrow> gerr option option \<times> 'w" where
  "Republish n ctx_err select decode publish w = republish_loop n ctx_err select decode publish w"

section \<open>What is forwarded\<close>

text \<open>Runs that note what came out of the source and what went into the sink.\<close>

datatype 'e bridge_ev =
    Got Envelope
  | Fwd Envelope "gerr option"
  | Pub string 'e "gerr option"

definition traced_source ::
    "('w \<Rightarrow> (Envelope option \<times> gerr option) \<times> 'w) \<Rightarrow> 'w \<times> 'e bridge_ev list \<Rightarrow> (Envelope option \<times> gerr option) \<times> 'w \<times> 'e bridge_ev list" where
  "traced_source source s =
     (case source (fst s) of (r, w) \<Rightarrow> (r, (w, snd s @ (case r of (Some e, None) \<Rightarrow> [Got e] | _ \<Rightarrow> []))))"

definition traced_sink ::
    "(Envelope \<Rightarrow> 'w \<Rightarrow> gerr option \<times> 'w) \<Rightarrow> Envelope \<Rightarrow> 'w \<times> 'e bridge_ev list \<Rightarrow> gerr option \<times> 'w \<times> 'e bridge_ev list" where
  "traced_sink sink e s = (case sink e (fst s) of (r, w) \<Rightarrow> (r, (w, snd s @ [Fwd e r])))"

definition forwarded :: "Envelope list \<Rightarrow> 'e bridge_ev list" where
  "forwarded es = concat (map (\<lambda>e. [Got e, Fwd e None]) es)"

lemma forwarded_simps [simp]:
  "forwarded [] = []" "forwarded (e # es) = Got e # Fwd e None # forwarded es"
  by (simp_all add: forwarded_def)

lemma envelope_copy:
  "\<lparr>env_Timestamp = env_Timestamp e, env_Namespace = env_Namespace e, env_Topic = env_Topic e, env_Event = env_Event e\<rparr> =
     (e :: Envelope)"
  by simp

lemma traced_source_step:
  "source w = ((Some e, None), w') \<Longrightarrow> traced_source source (w, t) = ((Some e, None), (w', t @ [Got e]))"
  by (simp add: traced_source_def)

lemma traced_sink_step:
  "sink e w = (r, w') \<Longrightarrow> traced_sink sink e (w, t) = (r, (w', t @ [Fwd e r]))"
  by (simp add: traced_sink_def)

lemma attach_loop_trace:
  fixes t :: "'e bridge_ev list"
  assumes "attach_loop n (ctx \<circ> fst) (traced_source source) (traced_sink sink) (w, t0) = (r, (w', t))"
  shows "\<exists>es rest. t = t0 @ forwarded es @ rest \<and> length es \<le> n \<and> (r = None \<longleftrightarrow> length es = n) \<and>
     (rest = [] \<or> (\<exists>e err. rest = [Got e, Fwd e (Some err)] \<and> r = Some err))"
  using assms
proof (induction n arbitrary: w t0)
  case 0
  then show ?case by simp
next
  case (Suc n)
  show ?case
  proof (cases "ctx w")
    case (Some err)
    with Suc.prems have "r = Some err" "t = t0" by simp_all
    then show ?thesis by (intro exI[of _ "[]"]) simp
  next
    case None
    obtain oe oerr w1 where s: "source w = ((oe, oerr), w1)" by (metis prod.exhaust)
    show ?thesis
    proof (cases "\<exists>e. oe = Some e \<and> oerr = None")
      case False
      with Suc.prems None s show ?thesis
        by (intro exI[of _ "[]"]) (auto simp: traced_source_def split: option.splits)
    next
      case True
      then obtain e where e: "oe = Some e" "oerr = None" by blast
      obtain fr w2 where f: "sink e w1 = (fr, w2)" by (metis prod.exhaust)
      show ?thesis
      proof (cases fr)
        case (Some err)
        with Suc.prems None s e f have "r = Some err" "t = t0 @ [Got e, Fwd e (Some err)]"
          by (auto simp: traced_source_step traced_sink_step envelope_copy)
        then show ?thesis by (intro exI[of _ "[]"] exI[of _ "[Got e, Fwd e (Some err)]"]) simp
      next
        case fr: None
        have "attach_loop n (ctx \<circ> fst) (traced_source source) (traced_sink sink) (w2, t0 @ [Got e, Fwd e None]) = (r, (w', t))"
          using Suc.prems None s e f fr by (simp add: traced_source_step traced_sink_step envelope_copy comp_def)
        from Suc.IH[OF this] obtain es rest where
          "t = (t0 @ [Got e, Fwd e None]) @ forwarded es @ rest" "length es \<le> n" "r = None \<longleftrightarrow> length es = n"
          "rest = [] \<or> (\<exists>e err. rest = [Got e, Fwd e (Some err)] \<and> r = Some err)" by blast
        then show ?thesis by (intro exI[of _ "e # es"] exI[of _ rest]) simp
      qed
    qed
  qed
qed

text \<open>
  Events cross the bridge in order, unchanged and exactly once. What \<open>Attach\<close> has taken from its
  source it has passed on to its sink, event by event, before it takes the next; it stops at the
  first error and only then, reports that error, and at most the one event whose
  forwarding failed was taken and not delivered.
\<close>

theorem Attach_forwards:
  assumes "Attach n (ctx \<circ> fst) (traced_source source) (traced_sink sink) (w, []) = (r, (w', t))"
  shows "\<exists>es rest. t = forwarded es @ rest \<and> (r = None \<longleftrightarrow> length es = n) \<and>
     (rest = [] \<or> (\<exists>e err. rest = [Got e, Fwd e (Some err)] \<and> r = Some err))"
  using attach_loop_trace[OF assms[unfolded Attach_def]] by auto

definition example_event :: Envelope where
  "example_event = \<lparr>env_Timestamp = 1, env_Namespace = ''default'', env_Topic = ''/t'', env_Event = None\<rparr>"

theorem Attach_forwards_witness:
  "\<exists>r w' t. Attach 2 ((\<lambda>_. None) \<circ> fst) (traced_source (\<lambda>w. ((Some example_event, None), w)))
       (traced_sink (\<lambda>e k. (if k = (0 :: nat) then None else Some EOF, Suc k))) (0, []) = (r, (w', t)) \<and>
     (\<exists>es rest. (t :: unit bridge_ev list) = forwarded es @ rest \<and> (r = None \<longleftrightarrow> length es = 2) \<and>
       (rest = [] \<or> (\<exists>e err. rest = [Got e, Fwd e (Some err)] \<and> r = Some err))) \<and> t \<noteq> []"
proof -
  let ?src = "traced_source (\<lambda>w. ((Some example_event, None), w :: nat)) ::
      nat \<times> unit bridge_ev list \<Rightarrow> (Envelope option \<times> gerr option) \<times> nat \<times> unit bridge_ev list"
  let ?snk = "traced_sink (\<lambda>e k. (if k = (0 :: nat) then None else Some EOF, Suc k))"
  obtain r w' t where a: "Attach 2 ((\<lambda>_. None) \<circ> fst) ?src ?snk (0, []) = (r, (w', t))"
    by (rule prod_cases3)
  moreover from a have "t \<noteq> []"
    by (auto simp: Attach_def numeral_2_eq_2 traced_source_def traced_sink_def)
  ultimately show ?thesis using Attach_forwards[OF a] by blast
qed

text \<open>
  A nil envelope with a nil error comes out of \<open>GetEvent\<close> exactly when the subscription ended with a
  nil error, or the context fired, while the request's own context has no error. The first can
  happen: the subscription belongs to another context than the request.
\<close>

lemma GetEvent_nothing:
  "GetEvent ctx_err sel = (None, None) \<longleftrightarrow> ctx_err = None \<and> (sel = ErrChan None \<or> sel = CtxDone)"
  by (auto simp: GetEvent_def split: get_select.splits)

lemma getterClient_never_nil: "fst (getterClient_GetEvent call w) \<noteq> (None, None)"
  by (simp add: getterClient_GetEvent_def split: prod.splits sum.splits)

section \<open>What is published\<close>

definition traced_select :: "('w \<Rightarrow> get_select \<times> 'w) \<Rightarrow> 'w \<times> 'e bridge_ev list \<Rightarrow> get_select \<times> 'w \<times> 'e bridge_ev list" where
  "traced_select sel s =
     (case sel (fst s) of (r, w) \<Rightarrow> (r, (w, snd s @ (case r of EventChan e \<Rightarrow> [Got e] | _ \<Rightarrow> []))))"

definition traced_publish ::
    "(string \<Rightarrow> 'e \<Rightarrow> 'w \<Rightarrow> gerr option \<times> 'w) \<Rightarrow> string \<Rightarrow> 'e \<Rightarrow> 'w \<times> 'e bridge_ev list \<Rightarrow> gerr option \<times> 'w \<times> 'e bridge_ev list" where
  "traced_publish publish topic e s = (case publish topic e (fst s) of (r, w) \<Rightarrow> (r, (w, snd s @ [Pub topic e r])))"

lemma traced_select_step:
  "sel w = (EventChan e, w') \<Longrightarrow> traced_select sel (w, t) = (EventChan e, (w', t @ [Got e]))"
  by (simp add: traced_select_def)

lemma traced_publish_step:
  "publish topic e w = (r, w') \<Longrightarrow> traced_publish publish topic e (w, t) = (r, (w', t @ [Pub topic e r]))"
  by (simp add: traced_publish_def)

definition published :: "(any \<Rightarrow> gerr + 'e) \<Rightarrow> Envelope list \<Rightarrow> 'e bridge_ev list" where
  "published decode es =
     concat (map (\<lambda>e. case decode (env_Event e) of Inl _ \<Rightarrow> [] | Inr d \<Rightarrow> [Got e, Pub (env_Topic e) d None]) es)"

lemma published_Cons:
  "decode (env_Event e) = Inr d \<Longrightarrow> published decode (e # es) = Got e # Pub (env_Topic e) d None # published decode es"
  by (simp add: published_def)

lemma published_Nil [simp]: "published decode [] = []"
  by (simp add: published_def)

lemma republish_loop_trace:
  assumes "republish_loop n (ctx \<circ> fst) (traced_select sel) decode (traced_publish publish) (w, t0) = (r, (w', t))"
  shows "\<exists>es rest. t = t0 @ published decode es @ rest \<and> (\<forall>e \<in> set es. isOk (decode (env_Event e))) \<and>
     (r = None \<longleftrightarrow> length es = n) \<and> length es \<le> n \<and>
     (rest = [] \<or> (\<exists>e err. rest = [Got e] \<and> decode (env_Event e) = Inl err \<and> r = Some (Some err)) \<or>
       (\<exists>e d err. rest = [Got e, Pub (env_Topic e) d (Some err)] \<and> decode (env_Event e) = Inr d \<and> r = Some (Some err)))"
  using assms
proof (induction n arbitrary: w t0)
  case 0
  then show ?case by simp
next
  case (Suc n)
  obtain g w1 where s: "sel w = (g, w1)" by (metis prod.exhaust)
  show ?case
  proof (cases g)
    case (EventChan e)
    show ?thesis
    proof (cases "decode (env_Event e)")
      case (Inl err)
      with Suc.prems s EventChan show ?thesis
        by (intro exI[of _ "[]"] exI[of _ "[Got e]"]) (auto simp: traced_select_def)
    next
      case (Inr d)
      obtain pr w2 where p: "publish (env_Topic e) d w1 = (pr, w2)" by (metis prod.exhaust)
      show ?thesis
      proof (cases pr)
        case (Some err)
        with Suc.prems s EventChan Inr p show ?thesis
          by (intro exI[of _ "[]"] exI[of _ "[Got e, Pub (env_Topic e) d (Some err)]"])
            (auto simp: traced_select_def traced_publish_def)
      next
        case None
        have "republish_loop n (ctx \<circ> fst) (traced_select sel) decode (traced_publish publish)
            (w2, t0 @ [Got e, Pub (env_Topic e) d None]) = (r, (w', t))"
          using Suc.prems s EventChan Inr p None by (simp add: traced_select_step traced_publish_step comp_def)
        from Suc.IH[OF this] obtain es rest where ih:
          "t = (t0 @ [Got e, Pub (env_Topic e) d None]) @ published decode es @ rest"
          "\<forall>e \<in> set es. isOk (decode (env_Event e))" "r = None \<longleftrightarrow> length es = n" "length es \<le> n"
          "rest = [] \<or> (\<exists>e err. rest = [Got e] \<and> decode (env_Event e) = Inl err \<and> r = Some (Some err)) \<or>
            (\<exists>e d err. rest = [Got e, Pub (env_Topic e) d (Some err)] \<and> decode (env_Event e) = Inr d \<and> r = Some (Some err))"
          by blast
        then show ?thesis
          using Inr by (intro exI[of _ "e # es"] exI[of _ rest]) (simp add: published_Cons)
      qed
    qed
  qed (use Suc.prems s in \<open>auto simp: traced_select_def intro!: exI[of _ "[]"]\<close>)
qed

text \<open>
  What the shim gets from its own exchange it publishes to containerd in the same order, each event
  once, under its own topic and with its decoded content; \<open>Republish\<close> runs until an event cannot
  be decoded or published, the subscription ends or the context does, and reports that
  event's error as it is.
\<close>

theorem Republish_in_order:
  assumes "Republish n (ctx \<circ> fst) (traced_select sel) decode (traced_publish publish) (w, []) = (r, (w', t))"
  shows "\<exists>es rest. t = published decode es @ rest \<and> (\<forall>e \<in> set es. isOk (decode (env_Event e))) \<and>
     (r = None \<longleftrightarrow> length es = n) \<and>
     (rest = [] \<or> (\<exists>e err. rest = [Got e] \<and> decode (env_Event e) = Inl err \<and> r = Some (Some err)) \<or>
       (\<exists>e d err. rest = [Got e, Pub (env_Topic e) d (Some err)] \<and> decode (env_Event e) = Inr d \<and> r = Some (Some err)))"
  using republish_loop_trace[OF assms[unfolded Republish_def]] by (metis append_Nil)

theorem Republish_in_order_witness:
  "\<exists>r w' t. Republish 2 ((\<lambda>_. None) \<circ> fst) (traced_select (\<lambda>w. (EventChan example_event, w))) (\<lambda>_. Inr ())
       (traced_publish (\<lambda>_ _ k. (if k = (0 :: nat) then None else Some EOF, Suc k))) (0, []) = (r, (w', t)) \<and>
     (\<exists>es rest. t = published (\<lambda>_. Inr ()) es @ rest \<and> (r = None \<longleftrightarrow> length es = 2)) \<and> t \<noteq> []"
proof -
  let ?sel = "traced_select (\<lambda>w. (EventChan example_event, w :: nat))"
  let ?pub = "traced_publish (\<lambda>_ _ k. (if k = (0 :: nat) then None else Some EOF, Suc k))"
  obtain r w' t where a: "Republish 2 ((\<lambda>_. None) \<circ> fst) ?sel (\<lambda>_. Inr ()) ?pub (0, []) = (r, (w', t))"
    by (rule prod_cases3)
  moreover from a have "t \<noteq> []"
    by (auto simp: Republish_def numeral_2_eq_2 traced_select_def traced_publish_def)
  ultimately show ?thesis using Republish_in_order[OF a] by blast
qed

end
