(* ===== verification/EventPipeline.thy ===== *)
theory EventPipeline
  imports EventBridge
begin

text \<open>
  The way of an event from the agent to containerd: the agent's exchange, the getter service and its client, \<open>Attach\<close>, the shim's
  exchange, \<open>Republish\<close>, the publisher of containerd, and \<open>startEventForwarders\<close> of \<open>runtime/service.go\<close>, which connects them. A
  subscription of an exchange is an unbounded queue (containerd). Every turn of a loop is one step and is taken
  from the loops of \<open>EventBridge\<close>, so that the goroutines interleave freely with each other and with the events that come in.
\<close>

section \<open>The getter service on a server\<close>

definition getterServiceName :: string where "getterServiceName = ''aws.firecracker.containerd.eventbridge.getter''"

definition getEventMethodName :: string where "getEventMethodName = ''GetEvent''"

text \<open>A ttrpc server: the handler of a service and a method. The handler of \<open>GetEvent\<close> gets the outcome of its select.\<close>

type_synonym getter_server = "string \<times> string \<rightharpoonup> (get_select \<Rightarrow> Envelope option \<times> gerr option)"

definition RegisterGetterService :: "getter_server \<Rightarrow> (get_select \<Rightarrow> Envelope option \<times> gerr option) \<Rightarrow> getter_server" where
  "RegisterGetterService srv svc = srv((getterServiceName, getEventMethodName) \<mapsto> (\<lambda>sel. svc sel))"

section \<open>The state between agent and containerd\<close>

datatype forwarder_stage = WaitsReady | WaitsAttach | WaitsRepublish | PublisherClosed

text \<open>
  The queue of the getter service's subscription in the agent, the queue of \<open>Republish\<close>'s subscription in the shim, what containerd has got by
  calls of \<open>Publish\<close> that have returned nil, what it gets although \<open>Publish\<close> returned an error, the stage of the goroutine in \<open>startEventForwarders\<close>, and what the two loops have sent on their error channels (\<open>None\<close>: still running).
\<close>

record 'e pipe =
  pp_agent :: "Envelope list"
  pp_shim :: "Envelope list"
  pp_published :: "(string \<times> 'e) list"
  pp_unacknowledged :: "(string \<times> 'e) list"
  pp_stage :: forwarder_stage
  pp_attach :: "gerr option"
  pp_republish :: "gerr option option"

definition startEventForwarders :: "'e pipe" where
  "startEventForwarders =
     \<lparr>pp_agent = [], pp_shim = [], pp_published = [], pp_unacknowledged = [], pp_stage = WaitsReady, pp_attach = None, pp_republish = None\<rparr>"

text \<open>
  How a call over the vsock goes: it is answered, it fails before an event was taken (no connection, the agent's context has
  ended), or its answer is lost after the agent has taken the event from its queue.
\<close>

datatype rpc = Answered | NotSent gerr | AnswerLost gerr

definition agent_server :: getter_server where
  "agent_server = RegisterGetterService Map.empty (GetEvent None)"

definition rpc_call :: "rpc \<Rightarrow> 'e pipe \<Rightarrow> (gerr + Envelope) \<times> 'e pipe" where
  "rpc_call rpc p =
     (case rpc of
        NotSent err \<Rightarrow> (Inl err, p)
      | AnswerLost err \<Rightarrow> (Inl err, p\<lparr>pp_agent := tl (pp_agent p)\<rparr>)
      | Answered \<Rightarrow>
          (case agent_server (getterServiceName, getEventMethodName) of
             None \<Rightarrow> (Inl (ExtError ''unimplemented''), p)
           | Some handler \<Rightarrow>
               (case handler (EventChan (hd (pp_agent p))) of
                  (Some envelope, None) \<Rightarrow> (Inr envelope, p\<lparr>pp_agent := tl (pp_agent p)\<rparr>)
                | (_, err) \<Rightarrow> (Inl (the err), p\<lparr>pp_agent := tl (pp_agent p)\<rparr>))))"

text \<open>\<open>Forward\<close> of the shim's exchange: it refuses an invalid envelope and hands every other one to the subscriptions.\<close>

definition exchange_Forward :: "(Envelope \<Rightarrow> gerr option) \<Rightarrow> Envelope \<Rightarrow> 'e pipe \<Rightarrow> gerr option \<times> 'e pipe" where
  "exchange_Forward validate e p =
     (case validate e of Some err \<Rightarrow> (Some err, p) | None \<Rightarrow> (None, p\<lparr>pp_shim := pp_shim p @ [e]\<rparr>))"

definition shim_select :: "'e pipe \<Rightarrow> get_select \<times> 'e pipe" where
  "shim_select p = (EventChan (hd (pp_shim p)), p\<lparr>pp_shim := tl (pp_shim p)\<rparr>)"

text \<open>
  How a call of containerd's publisher goes. An error says nothing about the event: it may be lost, or containerd gets it all the same, because only the answer
  was lost or because the publisher tries again behind the back of its caller.
\<close>

datatype publication = Acknowledged | Refused gerr | Unacknowledged gerr

fun remote_Publish :: "publication \<Rightarrow> string \<Rightarrow> 'e \<Rightarrow> 'e pipe \<Rightarrow> gerr option \<times> 'e pipe" where
  "remote_Publish Acknowledged topic ev p = (None, p\<lparr>pp_published := pp_published p @ [(topic, ev)]\<rparr>)"
| "remote_Publish (Refused err) topic ev p = (Some err, p)"
| "remote_Publish (Unacknowledged err) topic ev p = (Some err, p\<lparr>pp_unacknowledged := pp_unacknowledged p @ [(topic, ev)]\<rparr>)"

text \<open>One turn of each loop; their context comes from \<open>context.Background()\<close> and never ends.\<close>

definition attach_turn :: "(Envelope \<Rightarrow> gerr option) \<Rightarrow> rpc \<Rightarrow> 'e pipe \<Rightarrow> 'e pipe" where
  "attach_turn validate rpc p =
     (case attach_loop 1 (\<lambda>_. None) (getterClient_GetEvent (rpc_call rpc)) (exchange_Forward validate) p of
        (r, p) \<Rightarrow> p\<lparr>pp_attach := r\<rparr>)"

definition republish_turn :: "(any \<Rightarrow> gerr + 'e) \<Rightarrow> publication \<Rightarrow> 'e pipe \<Rightarrow> 'e pipe" where
  "republish_turn decode pub p =
     (case republish_loop 1 (\<lambda>_. None) shim_select decode (remote_Publish pub) p of
        (r, p) \<Rightarrow> p\<lparr>pp_republish := r\<rparr>)"

section \<open>Steps\<close>

datatype pipe_event =
    AgentEmits Envelope
  | ShimEmits Envelope
  | VMReady
  | AttachTurn rpc
  | RepublishTurn publication
  | AttachEnded
  | RepublishEnded

text \<open>
  \<open>Attach\<close> is started when the VM is ready; a turn of a loop waits for an event. The goroutine of \<open>startEventForwarders\<close> receives first from
  \<open>Attach\<close>'s and then from \<open>Republish\<close>'s channel and then closes the publisher.
\<close>

inductive pipe_step :: "(Envelope \<Rightarrow> gerr option) \<Rightarrow> (any \<Rightarrow> gerr + 'e) \<Rightarrow> pipe_event \<Rightarrow> 'e pipe \<Rightarrow> 'e pipe \<Rightarrow> bool"
  for validate :: "Envelope \<Rightarrow> gerr option" and decode :: "any \<Rightarrow> gerr + 'e" where
  agent_emits: "pipe_step validate decode (AgentEmits e) p (p\<lparr>pp_agent := pp_agent p @ [e]\<rparr>)"
| shim_emits: "pipe_step validate decode (ShimEmits e) p (p\<lparr>pp_shim := pp_shim p @ [e]\<rparr>)"
| vm_ready: "pp_stage p = WaitsReady \<Longrightarrow> pipe_step validate decode VMReady p (p\<lparr>pp_stage := WaitsAttach\<rparr>)"
| attach: "pp_stage p \<noteq> WaitsReady \<Longrightarrow> pp_attach p = None \<Longrightarrow> pp_agent p \<noteq> [] \<or> (\<exists>err. rpc = NotSent err) \<Longrightarrow>
    pipe_step validate decode (AttachTurn rpc) p (attach_turn validate rpc p)"
| republish: "pp_republish p = None \<Longrightarrow> pp_shim p \<noteq> [] \<Longrightarrow>
    pipe_step validate decode (RepublishTurn pub) p (republish_turn decode pub p)"
| attach_ended: "pp_stage p = WaitsAttach \<Longrightarrow> pp_attach p \<noteq> None \<Longrightarrow>
    pipe_step validate decode AttachEnded p (p\<lparr>pp_stage := WaitsRepublish\<rparr>)"
| republish_ended: "pp_stage p = WaitsRepublish \<Longrightarrow> pp_republish p \<noteq> None \<Longrightarrow>
    pipe_step validate decode RepublishEnded p (p\<lparr>pp_stage := PublisherClosed\<rparr>)"

inductive_cases pipe_stepE [consumes 1, case_names agent_emits shim_emits vm_ready attach republish attach_ended republish_ended]:
  "pipe_step validate decode ev p p'"

inductive pipe_run :: "(Envelope \<Rightarrow> gerr option) \<Rightarrow> (any \<Rightarrow> gerr + 'e) \<Rightarrow> pipe_event list \<Rightarrow> 'e pipe \<Rightarrow> bool"
  for validate :: "Envelope \<Rightarrow> gerr option" and decode :: "any \<Rightarrow> gerr + 'e" where
  start: "pipe_run validate decode [] startEventForwarders"
| step: "pipe_run validate decode evs p \<Longrightarrow> pipe_step validate decode ev p p' \<Longrightarrow> pipe_run validate decode (evs @ [ev]) p'"

fun agent_emitted :: "pipe_event list \<Rightarrow> Envelope list" where
  "agent_emitted [] = []"
| "agent_emitted (AgentEmits e # evs) = e # agent_emitted evs"
| "agent_emitted (_ # evs) = agent_emitted evs"

fun shim_emitted :: "pipe_event list \<Rightarrow> Envelope list" where
  "shim_emitted [] = []"
| "shim_emitted (ShimEmits e # evs) = e # shim_emitted evs"
| "shim_emitted (_ # evs) = shim_emitted evs"

lemma emitted_append [simp]:
  "agent_emitted (evs @ evs') = agent_emitted evs @ agent_emitted evs'"
  "shim_emitted (evs @ evs') = shim_emitted evs @ shim_emitted evs'"
  by (induction evs rule: agent_emitted.induct) simp_all

section \<open>What one turn does\<close>

lemma attach_turn_cases:
  assumes "pp_agent p \<noteq> [] \<or> (\<exists>err. rpc = NotSent err)" "pp_attach p = None"
  obtains (forwarded) e es where "pp_agent p = e # es" "validate e = None"
      "attach_turn validate rpc p = p\<lparr>pp_agent := es, pp_shim := pp_shim p @ [e]\<rparr>"
  | (lost) e es err where "pp_agent p = e # es" "attach_turn validate rpc p = p\<lparr>pp_agent := es, pp_attach := Some err\<rparr>"
  | (kept) err where "rpc = NotSent err" "attach_turn validate rpc p = p\<lparr>pp_attach := Some err\<rparr>"
proof (cases rpc)
  case Answered
  with assms(1) obtain e es where e: "pp_agent p = e # es" by (cases "pp_agent p") auto
  have "attach_turn validate Answered p =
      (case validate e of None \<Rightarrow> p\<lparr>pp_agent := es, pp_shim := pp_shim p @ [e]\<rparr>
       | Some err \<Rightarrow> p\<lparr>pp_agent := es, pp_attach := Some err\<rparr>)"
    using e assms(2)
    by (simp add: attach_turn_def getterClient_GetEvent_def rpc_call_def agent_server_def RegisterGetterService_def GetEvent_def
      exchange_Forward_def envelope_copy split: option.splits)
  with Answered e that(1,2) show thesis by (cases "validate e") simp_all
next
  case (NotSent err)
  with assms that(3) show thesis by (simp add: attach_turn_def getterClient_GetEvent_def rpc_call_def)
next
  case (AnswerLost err)
  with assms(1) obtain e es where e: "pp_agent p = e # es" by (cases "pp_agent p") auto
  with AnswerLost assms that(2) show thesis by (simp add: attach_turn_def getterClient_GetEvent_def rpc_call_def)
qed

lemma republish_turn_cases:
  assumes "pp_shim p \<noteq> []" "pp_republish p = None"
  obtains (published) e es d where "pp_shim p = e # es" "decode (env_Event e) = Inr d" "pub = Acknowledged"
      "republish_turn decode pub p = p\<lparr>pp_shim := es, pp_published := pp_published p @ [(env_Topic e, d)]\<rparr>"
  | (lost) e es err where "pp_shim p = e # es" "decode (env_Event e) = Inl err \<or> isOk (decode (env_Event e)) \<and> pub = Refused err"
      "republish_turn decode pub p = p\<lparr>pp_shim := es, pp_republish := Some (Some err)\<rparr>"
  | (unacknowledged) e es d err where "pp_shim p = e # es" "decode (env_Event e) = Inr d" "pub = Unacknowledged err"
      "republish_turn decode pub p =
         p\<lparr>pp_shim := es, pp_unacknowledged := pp_unacknowledged p @ [(env_Topic e, d)], pp_republish := Some (Some err)\<rparr>"
proof -
  obtain e es where e: "pp_shim p = e # es" using assms(1) by (cases "pp_shim p") auto
  show thesis
  proof (cases "decode (env_Event e)")
    case (Inl err)
    with e assms(2) that(2) show thesis by (simp add: republish_turn_def shim_select_def)
  next
    case (Inr d)
    with e assms(2) that show thesis by (cases pub) (simp_all add: republish_turn_def shim_select_def)
  qed
qed

section \<open>No event is lost, doubled or overtaken\<close>

lemma shuffles_snoc_left: "zs \<in> shuffles xs ys \<Longrightarrow> zs @ [x] \<in> shuffles (xs @ [x]) ys"
proof (induction zs arbitrary: xs ys)
  case (Cons z zs)
  then show ?case by (auto simp: Cons_in_shuffles_iff)
qed simp

lemma shuffles_snoc_right: "zs \<in> shuffles xs ys \<Longrightarrow> zs @ [y] \<in> shuffles xs (ys @ [y])"
  using shuffles_snoc_left shuffles_commutes by metis

text \<open>What containerd gets for an event.\<close>

definition delivers :: "(any \<Rightarrow> gerr + 'e) \<Rightarrow> Envelope \<Rightarrow> string \<times> 'e \<Rightarrow> bool" where
  "delivers decode e m \<longleftrightarrow> env_Topic e = fst m \<and> decode (env_Event e) = Inr (snd m)"

definition agent_part :: "(Envelope \<Rightarrow> gerr option) \<Rightarrow> Envelope list \<Rightarrow> 'e pipe \<Rightarrow> Envelope list \<Rightarrow> Envelope list \<Rightarrow> bool" where
  "agent_part validate emitted p fwd lost \<longleftrightarrow>
     emitted = fwd @ lost @ pp_agent p \<and> (\<forall>e \<in> set fwd. validate e = None) \<and> length lost \<le> 1 \<and>
     (lost \<noteq> [] \<longrightarrow> pp_attach p \<noteq> None) \<and> (pp_stage p = WaitsReady \<longrightarrow> fwd = [] \<and> pp_attach p = None)"

definition shim_part :: "(any \<Rightarrow> gerr + 'e) \<Rightarrow> Envelope list \<Rightarrow> Envelope list \<Rightarrow> 'e pipe \<Rightarrow> Envelope list \<Rightarrow> Envelope list \<Rightarrow> bool" where
  "shim_part decode emitted fwd p sent lost \<longleftrightarrow>
     sent @ lost @ pp_shim p \<in> shuffles fwd emitted \<and> list_all2 (delivers decode) sent (pp_published p) \<and>
     length lost \<le> 1 \<and> (lost = [] \<longleftrightarrow> pp_republish p = None) \<and>
     (pp_unacknowledged p = [] \<or> list_all2 (delivers decode) lost (pp_unacknowledged p))"

definition stages_ok :: "'e pipe \<Rightarrow> bool" where
  "stages_ok p \<longleftrightarrow>
     (pp_stage p = WaitsRepublish \<or> pp_stage p = PublisherClosed \<longrightarrow> pp_attach p \<noteq> None) \<and>
     (pp_stage p = PublisherClosed \<longrightarrow> pp_republish p \<noteq> None)"

definition pipe_inv :: "(Envelope \<Rightarrow> gerr option) \<Rightarrow> (any \<Rightarrow> gerr + 'e) \<Rightarrow> pipe_event list \<Rightarrow> 'e pipe \<Rightarrow> bool" where
  "pipe_inv validate decode evs p \<longleftrightarrow> stages_ok p \<and>
     (\<exists>fwd lostA sent lostR. agent_part validate (agent_emitted evs) p fwd lostA \<and>
        shim_part decode (shim_emitted evs) fwd p sent lostR)"

lemmas pipe_parts = pipe_inv_def agent_part_def shim_part_def stages_ok_def

lemma pipe_invI:
  "stages_ok p \<Longrightarrow> agent_part validate (agent_emitted evs) p fwd lostA \<Longrightarrow> shim_part decode (shim_emitted evs) fwd p sent lostR \<Longrightarrow>
    pipe_inv validate decode evs p"
  unfolding pipe_inv_def by blast

lemma pipe_inv_step:
  assumes "pipe_step validate decode ev p p'" "pipe_inv validate decode evs p"
  shows "pipe_inv validate decode (evs @ [ev]) p'"
proof -
  obtain fwd lostA sent lostR where o: "stages_ok p" and a: "agent_part validate (agent_emitted evs) p fwd lostA"
      and s: "shim_part decode (shim_emitted evs) fwd p sent lostR"
    using assms(2) by (auto simp: pipe_inv_def)
  from assms(1) show ?thesis
  proof (cases rule: pipe_stepE)
    case (agent_emits e)
    with o a s show ?thesis by (intro pipe_invI[of _ _ _ fwd lostA _ sent lostR]) (simp_all add: pipe_parts)
  next
    case (shim_emits e)
    with o a s shuffles_snoc_right[of "sent @ lostR @ pp_shim p" fwd "shim_emitted evs" e] show ?thesis
      by (intro pipe_invI[of _ _ _ fwd lostA _ sent lostR]) (simp_all add: pipe_parts)
  next
    case vm_ready
    with o a s show ?thesis by (intro pipe_invI[of _ _ _ fwd lostA _ sent lostR]) (auto simp: pipe_parts)
  next
    case (attach rpc)
    have "pp_agent p \<noteq> [] \<or> (\<exists>err. rpc = NotSent err)" using attach by blast
    from this attach(4) show ?thesis
    proof (cases rule: attach_turn_cases[where validate = validate])
      case (forwarded e es)
      with attach o a s shuffles_snoc_left[of "sent @ lostR @ pp_shim p" fwd "shim_emitted evs" e] show ?thesis
        by (intro pipe_invI[of _ _ _ "fwd @ [e]" "[]" _ sent lostR]) (auto simp: pipe_parts)
    next
      case (lost e es err)
      with attach o a s show ?thesis
        by (intro pipe_invI[of _ _ _ fwd "[e]" _ sent lostR]) (auto simp: pipe_parts)
    next
      case (kept err)
      with attach o a s show ?thesis
        by (intro pipe_invI[of _ _ _ fwd lostA _ sent lostR]) (auto simp: pipe_parts)
    qed
  next
    case (republish pub)
    from republish(4,3) show ?thesis
    proof (cases rule: republish_turn_cases[where decode = decode and pub = pub])
      case (published e es d)
      with republish o a s show ?thesis
        by (intro pipe_invI[of _ _ _ fwd lostA _ "sent @ [e]" "[]"])
          (auto simp: pipe_parts delivers_def intro: list_all2_appendI)
    next
      case (lost e es err)
      with republish o a s show ?thesis
        by (intro pipe_invI[of _ _ _ fwd lostA _ sent "[e]"]) (auto simp: pipe_parts)
    next
      case (unacknowledged e es d err)
      with republish o a s show ?thesis
        by (intro pipe_invI[of _ _ _ fwd lostA _ sent "[e]"]) (auto simp: pipe_parts delivers_def)
    qed
  next
    case attach_ended
    with o a s show ?thesis by (intro pipe_invI[of _ _ _ fwd lostA _ sent lostR]) (simp_all add: pipe_parts)
  next
    case republish_ended
    with o a s show ?thesis by (intro pipe_invI[of _ _ _ fwd lostA _ sent lostR]) (simp_all add: pipe_parts)
  qed
qed

lemma pipe_inv_run: "pipe_run validate decode evs p \<Longrightarrow> pipe_inv validate decode evs p"
proof (induction rule: pipe_run.induct)
  case start
  show ?case
    by (rule pipe_invI[of _ _ _ "[]" "[]" _ "[]" "[]"]) (simp_all add: pipe_parts startEventForwarders_def)
next
  case (step evs p ev p')
  then show ?case by (simp add: pipe_inv_step)
qed

text \<open>
  C7: From the agent to containerd: however the two loops, the start of the VM, the shim's own events and failing calls interleave, containerd gets
  an interleaving of the agent's events and the shim's, each source in its order, each event at most once, under its own topic and with its decoded content;
  what it has not got yet waits in one of the two queues. What it has got is what \<open>Publish\<close> returned nil for. Each loop loses at most one event, the one at which it ended, and none while it runs;
  of these only an event whose publication failed may have got through all the same, once and after all the others. \<open>Republish\<close> ends only
  at an event that cannot be decoded or published, so that the publisher is closed only after such a failure and after \<open>Attach\<close> has ended.
\<close>

theorem events_reach_containerd:
  assumes "pipe_run validate decode evs p"
  shows "(\<exists>fwd lostA sent lostR. agent_emitted evs = fwd @ lostA @ pp_agent p \<and>
       sent @ lostR @ pp_shim p \<in> shuffles fwd (shim_emitted evs) \<and> list_all2 (delivers decode) sent (pp_published p) \<and>
       length lostA \<le> 1 \<and> (pp_attach p = None \<longrightarrow> lostA = []) \<and> length lostR \<le> 1 \<and> (lostR = [] \<longleftrightarrow> pp_republish p = None) \<and>
       (pp_unacknowledged p = [] \<or> list_all2 (delivers decode) lostR (pp_unacknowledged p)) \<and>
       (pp_stage p = WaitsReady \<longrightarrow> fwd = [] \<and> lostA = [])) \<and>
     (pp_stage p = PublisherClosed \<longrightarrow> pp_attach p \<noteq> None \<and> pp_republish p \<noteq> None)"
proof -
  obtain fwd lostA sent lostR where h: "stages_ok p" "agent_part validate (agent_emitted evs) p fwd lostA"
      "shim_part decode (shim_emitted evs) fwd p sent lostR"
    using pipe_inv_run[OF assms] by (auto simp: pipe_inv_def)
  have a: "agent_emitted evs = fwd @ lostA @ pp_agent p" "length lostA \<le> 1" "pp_attach p = None \<longrightarrow> lostA = []"
      "pp_stage p = WaitsReady \<longrightarrow> fwd = [] \<and> lostA = []"
    using h(2) by (auto simp: agent_part_def)
  have b: "sent @ lostR @ pp_shim p \<in> shuffles fwd (shim_emitted evs)" "list_all2 (delivers decode) sent (pp_published p)"
      "length lostR \<le> 1" "lostR = [] \<longleftrightarrow> pp_republish p = None"
      "pp_unacknowledged p = [] \<or> list_all2 (delivers decode) lostR (pp_unacknowledged p)"
    using h(3) by (simp_all add: shim_part_def)
  have c: "pp_stage p = PublisherClosed \<longrightarrow> pp_attach p \<noteq> None \<and> pp_republish p \<noteq> None"
    using h(1) by (simp add: stages_ok_def)
  from a b have "agent_emitted evs = fwd @ lostA @ pp_agent p \<and>
       sent @ lostR @ pp_shim p \<in> shuffles fwd (shim_emitted evs) \<and> list_all2 (delivers decode) sent (pp_published p) \<and>
       length lostA \<le> 1 \<and> (pp_attach p = None \<longrightarrow> lostA = []) \<and> length lostR \<le> 1 \<and> (lostR = [] \<longleftrightarrow> pp_republish p = None) \<and>
       (pp_unacknowledged p = [] \<or> list_all2 (delivers decode) lostR (pp_unacknowledged p)) \<and>
       (pp_stage p = WaitsReady \<longrightarrow> fwd = [] \<and> lostA = [])" by (intro conjI)
  then show ?thesis by (intro conjI[OF _ c] exI)
qed

text \<open>Two events of the agent around one of the shim: the first is published, then a call fails.\<close>

definition agent_event_1 :: Envelope where
  "agent_event_1 = \<lparr>env_Timestamp = 2, env_Namespace = ''default'', env_Topic = ''/tasks/exit'', env_Event = None\<rparr>"

definition example_pipe :: "pipe_event list" where
  "example_pipe = [AgentEmits agent_event_1, ShimEmits example_event, VMReady, AttachTurn Answered, RepublishTurn Acknowledged,
     AgentEmits agent_event_1, AttachTurn (AnswerLost EOF), RepublishTurn Acknowledged, AttachEnded]"

definition plain_pipe :: "forwarder_stage \<Rightarrow> Envelope list \<Rightarrow> Envelope list \<Rightarrow> (string \<times> unit) list \<Rightarrow> gerr option \<Rightarrow> unit pipe" where
  "plain_pipe st a b out r = \<lparr>pp_agent = a, pp_shim = b, pp_published = out, pp_unacknowledged = [], pp_stage = st, pp_attach = r, pp_republish = None\<rparr>"

lemma example_pipe_run:
  "pipe_run (\<lambda>_. None) (\<lambda>_. Inr ()) example_pipe
     (plain_pipe WaitsRepublish [] [] [(''/t'', ()), (''/tasks/exit'', ())] (Some EOF))"
proof -
  let ?run = "pipe_run (\<lambda>_. None) (\<lambda>_. Inr ())"
  let ?A = agent_event_1 and ?B = example_event
  note d = plain_pipe_def attach_turn_def republish_turn_def getterClient_GetEvent_def rpc_call_def agent_server_def RegisterGetterService_def
    GetEvent_def exchange_Forward_def shim_select_def agent_event_1_def example_event_def startEventForwarders_def
  note next_event = pipe_run.step[where validate = "\<lambda>_. None" and decode = "\<lambda>_. Inr ()"]
  have r1: "?run [AgentEmits ?A] (plain_pipe WaitsReady [?A] [] [] None)"
    using next_event[OF pipe_run.start pipe_step.agent_emits[of _ _ ?A]] by (simp add: d)
  have r2: "?run [AgentEmits ?A, ShimEmits ?B] (plain_pipe WaitsReady [?A] [?B] [] None)"
    using next_event[OF r1 pipe_step.shim_emits[of _ _ ?B]] by (simp add: d)
  have r3: "?run [AgentEmits ?A, ShimEmits ?B, VMReady] (plain_pipe WaitsAttach [?A] [?B] [] None)"
    using next_event[OF r2 pipe_step.vm_ready] by (simp add: d)
  have r4: "?run [AgentEmits ?A, ShimEmits ?B, VMReady, AttachTurn Answered] (plain_pipe WaitsAttach [] [?B, ?A] [] None)"
    using next_event[OF r3 pipe_step.attach[where rpc = Answered]] by (simp add: d)
  have r5: "?run [AgentEmits ?A, ShimEmits ?B, VMReady, AttachTurn Answered, RepublishTurn Acknowledged]
      (plain_pipe WaitsAttach [] [?A] [(''/t'', ())] None)"
    using next_event[OF r4 pipe_step.republish[where pub = Acknowledged]] by (simp add: d)
  have r6: "?run [AgentEmits ?A, ShimEmits ?B, VMReady, AttachTurn Answered, RepublishTurn Acknowledged, AgentEmits ?A]
      (plain_pipe WaitsAttach [?A] [?A] [(''/t'', ())] None)"
    using next_event[OF r5 pipe_step.agent_emits[of _ _ ?A]] by (simp add: d)
  have r7: "?run [AgentEmits ?A, ShimEmits ?B, VMReady, AttachTurn Answered, RepublishTurn Acknowledged, AgentEmits ?A, AttachTurn (AnswerLost EOF)]
      (plain_pipe WaitsAttach [] [?A] [(''/t'', ())] (Some EOF))"
    using next_event[OF r6 pipe_step.attach[where rpc = "AnswerLost EOF"]] by (simp add: d)
  have r8: "?run [AgentEmits ?A, ShimEmits ?B, VMReady, AttachTurn Answered, RepublishTurn Acknowledged, AgentEmits ?A, AttachTurn (AnswerLost EOF),
      RepublishTurn Acknowledged] (plain_pipe WaitsAttach [] [] [(''/t'', ()), (''/tasks/exit'', ())] (Some EOF))"
    using next_event[OF r7 pipe_step.republish[where pub = Acknowledged]] by (simp add: d)
  show ?thesis
    using next_event[OF r8 pipe_step.attach_ended] by (simp add: d example_pipe_def)
qed

theorem events_reach_containerd_witness:
  "\<exists>p fwd lostA sent. pipe_run (\<lambda>_. None) (\<lambda>_. Inr ()) example_pipe p \<and> pp_attach p = Some EOF \<and>
     agent_emitted example_pipe = fwd @ lostA \<and> sent \<in> shuffles fwd (shim_emitted example_pipe) \<and>
     list_all2 (delivers (\<lambda>_. Inr ())) sent (pp_published p) \<and> length (pp_published p) = 2"
proof -
  let ?p = "plain_pipe WaitsRepublish [] [] [(''/t'', ()), (''/tasks/exit'', ())] (Some EOF)"
  have "pp_agent ?p = []" "pp_shim ?p = []" "pp_republish ?p = None" "pp_attach ?p = Some EOF" "length (pp_published ?p) = 2"
    by (simp_all add: plain_pipe_def)
  moreover obtain fwd lostA sent lostR where "agent_emitted example_pipe = fwd @ lostA @ pp_agent ?p"
      "sent @ lostR @ pp_shim ?p \<in> shuffles fwd (shim_emitted example_pipe)" "list_all2 (delivers (\<lambda>_. Inr ())) sent (pp_published ?p)"
      "lostR = [] \<longleftrightarrow> pp_republish ?p = None"
    using events_reach_containerd[OF example_pipe_run] by (elim conjE exE) (rule that; assumption)
  ultimately show ?thesis
    using example_pipe_run by (intro exI[of _ ?p]) (auto simp: plain_pipe_def)
qed

section \<open>That events are published\<close>

text \<open>The turns that are left until both queues are empty, when no more events come in.\<close>

definition turns_left :: "'e pipe \<Rightarrow> nat" where
  "turns_left p = 2 * length (pp_agent p) + length (pp_shim p)"

lemma attach_turn_ok:
  assumes "pp_agent p = e # es" "validate e = None" "pp_attach p = None"
  shows "attach_turn validate Answered p = p\<lparr>pp_agent := es, pp_shim := pp_shim p @ [e]\<rparr>"
proof -
  have "pp_agent p \<noteq> [] \<or> (\<exists>err. Answered = NotSent err)" using assms(1) by simp
  then show ?thesis
    using assms
    by (simp add: attach_turn_def getterClient_GetEvent_def rpc_call_def agent_server_def RegisterGetterService_def GetEvent_def
      exchange_Forward_def envelope_copy)
qed

lemma republish_turn_ok:
  assumes "pp_shim p = e # es" "decode (env_Event e) = Inr d" "pp_republish p = None"
  shows "republish_turn decode Acknowledged p = p\<lparr>pp_shim := es, pp_published := pp_published p @ [(env_Topic e, d)]\<rparr>"
  using assms by (simp add: republish_turn_def shim_select_def)

definition good_event :: "(Envelope \<Rightarrow> gerr option) \<Rightarrow> (any \<Rightarrow> gerr + 'e) \<Rightarrow> Envelope \<Rightarrow> bool" where
  "good_event validate decode e \<longleftrightarrow> validate e = None \<and> isOk (decode (env_Event e))"

text \<open>
  C28: Events do arrive: once the VM is ready and while both loops run, a turn can be taken as long as an event waits, and after
  as many turns as \<open>turns_left\<close> says, in which every call is answered and every publication succeeds, both queues are empty and containerd has got every event that waited.
\<close>

theorem events_drain:
  assumes "pipe_run validate decode evs p" "pp_stage p \<noteq> WaitsReady" "pp_attach p = None" "pp_republish p = None"
    and "\<forall>e \<in> set (pp_agent p) \<union> set (pp_shim p). good_event validate decode e"
  shows "\<exists>turns q. pipe_run validate decode (evs @ turns) q \<and> length turns = turns_left p \<and>
     set turns \<subseteq> {AttachTurn Answered, RepublishTurn Acknowledged} \<and> pp_agent q = [] \<and> pp_shim q = [] \<and>
     length (pp_published q) = length (pp_published p) + length (pp_agent p) + length (pp_shim p)"
  using assms
proof (induction "turns_left p" arbitrary: evs p rule: less_induct)
  case less
  have go_on: ?case
    if step: "pipe_step validate decode ev p p'" "ev \<in> {AttachTurn Answered, RepublishTurn Acknowledged}" "Suc (turns_left p') = turns_left p"
      and frame: "pp_stage p' \<noteq> WaitsReady" "pp_attach p' = None" "pp_republish p' = None"
      and sets: "set (pp_agent p') \<union> set (pp_shim p') \<subseteq> set (pp_agent p) \<union> set (pp_shim p)"
      and len: "length (pp_published p') + length (pp_agent p') + length (pp_shim p') =
        length (pp_published p) + length (pp_agent p) + length (pp_shim p)"
    for ev p'
  proof -
    have "turns_left p' < turns_left p" using step(3) by simp
    moreover have "pipe_run validate decode (evs @ [ev]) p'" using less.prems(1) step(1) by (rule pipe_run.step)
    moreover have "\<forall>e \<in> set (pp_agent p') \<union> set (pp_shim p'). good_event validate decode e" using less.prems(5) sets by blast
    ultimately obtain turns q where t: "pipe_run validate decode ((evs @ [ev]) @ turns) q" "length turns = turns_left p'"
        "set turns \<subseteq> {AttachTurn Answered, RepublishTurn Acknowledged}" "pp_agent q = []" "pp_shim q = []"
        "length (pp_published q) = length (pp_published p') + length (pp_agent p') + length (pp_shim p')"
      using less.hyps[of p' "evs @ [ev]"] frame by blast
    show ?case
      by (intro exI[of _ "ev # turns"] exI[of _ q]) (use t step(2,3) len in simp)
  qed
  show ?case
  proof (cases "pp_agent p")
    case (Cons e es)
    with less.prems(3,5) have a: "attach_turn validate Answered p = p\<lparr>pp_agent := es, pp_shim := pp_shim p @ [e]\<rparr>"
      by (intro attach_turn_ok) (simp_all add: good_event_def)
    have "pipe_step validate decode (AttachTurn Answered) p (attach_turn validate Answered p)"
      using Cons less.prems(2,3) by (intro pipe_step.attach) simp_all
    then show ?thesis by (rule go_on) (use Cons less.prems a in \<open>auto simp: turns_left_def\<close>)
  next
    case nil: Nil
    show ?thesis
    proof (cases "pp_shim p")
      case (Cons e es)
      with less.prems(5) obtain d where d: "decode (env_Event e) = Inr d" by (auto simp: good_event_def isOk_iff)
      note r = republish_turn_ok[where decode = decode and d = d, OF Cons d less.prems(4)]
      have "pipe_step validate decode (RepublishTurn Acknowledged) p (republish_turn decode Acknowledged p)"
        using Cons less.prems(4) by (intro pipe_step.republish) simp_all
      then show ?thesis by (rule go_on) (use Cons nil less.prems r in \<open>auto simp: turns_left_def\<close>)
    next
      case Nil
      with nil less.prems(1) show ?thesis by (intro exI[of _ "[]"] exI[of _ p]) (simp add: turns_left_def)
    qed
  qed
qed

theorem events_drain_witness:
  "\<exists>turns q. pipe_run (\<lambda>_. None) (\<lambda>_. Inr ()) ([ShimEmits example_event, VMReady, AgentEmits agent_event_1] @ turns) q \<and>
     length turns = 3 \<and> length (pp_published q) = 2"
proof -
  let ?run = "pipe_run (\<lambda>_. None) (\<lambda>_. Inr ()) :: pipe_event list \<Rightarrow> unit pipe \<Rightarrow> bool"
  let ?p = "plain_pipe WaitsAttach [agent_event_1] [example_event] [] None"
  note next_event = pipe_run.step[where validate = "\<lambda>_. None" and decode = "\<lambda>_. Inr ()"]
  have r1: "?run [ShimEmits example_event] (plain_pipe WaitsReady [] [example_event] [] None)"
    using next_event[OF pipe_run.start pipe_step.shim_emits[of _ _ example_event]] by (simp add: plain_pipe_def startEventForwarders_def)
  have r2: "?run [ShimEmits example_event, VMReady] (plain_pipe WaitsAttach [] [example_event] [] None)"
    using next_event[OF r1 pipe_step.vm_ready] by (simp add: plain_pipe_def)
  have r3: "?run [ShimEmits example_event, VMReady, AgentEmits agent_event_1] ?p"
    using next_event[OF r2 pipe_step.agent_emits[of _ _ agent_event_1]] by (simp add: plain_pipe_def)
  have p: "turns_left ?p = 3" "pp_published ?p = []" "pp_agent ?p = [agent_event_1]" "pp_shim ?p = [example_event]"
      "pp_stage ?p \<noteq> WaitsReady" "pp_attach ?p = None" "pp_republish ?p = None"
    by (simp_all add: turns_left_def plain_pipe_def)
  have "\<forall>e \<in> set (pp_agent ?p) \<union> set (pp_shim ?p). good_event (\<lambda>_. None) (\<lambda>_. Inr ()) e" by (simp add: good_event_def)
  from events_drain[OF r3 p(5-7) this] show ?thesis unfolding p(1-4) by (auto simp: numeral_2_eq_2)
qed

end
