(* ===== verification/Jailer.thy ===== *)
theory Jailer
  imports VMDir FcTypes StubContent
begin

text \<open>
  The jailers: \<open>runtime/jailer.go\<close>, \<open>runtime/noop_jailer.go\<close> and
  \<open>runtime/runc_jailer.go\<close>. A jailer is one of two structs; the interface methods
  dispatch on it. The OCI runtime specification keeps the fields that the code touches,
  the rest of each struct is one opaque field. runc, the JSON encoding of a spec and the
  SDK's command builder are parameters. A Go pointer that is nil is \<open>None\<close>, and following
  it is a \<open>Panic\<close>. Octal file modes are written as numbers (0400 is 256).
\<close>

section \<open>State\<close>

definition rootfsFolder :: string where "rootfsFolder = ''rootfs''"

definition kernelImageFileName :: string where "kernelImageFileName = ''kernel-image''"

definition firecrackerFileName :: string where "firecrackerFileName = ''firecracker''"

definition jailerHandlerName :: string where
  "jailerHandlerName = ''firecracker-containerd-jail-handler''"

definition jailerFifoHandlerName :: string where
  "jailerFifoHandlerName = ''firecracker-containerd-jail-fifo-handler''"

definition networkNamespaceRuncName :: string where "networkNamespaceRuncName = ''network''"

record LinuxNamespace =
  ns_Type :: string
  ns_Path :: string

record LinuxCPU =
  Cpus :: string
  cpu_Mems :: string
  cpu_other :: string

record LinuxResources =
  res_CPU :: "LinuxCPU option"
  res_other :: string

record Process =
  process_Args :: "string list option"
  user_UID :: "32 word"
  user_GID :: "32 word"
  process_other :: string

record Root =
  root_Path :: string
  root_Readonly :: bool

record Linux =
  linux_Namespaces :: "LinuxNamespace list"
  linux_Resources :: "LinuxResources option"
  linux_CgroupsPath :: string
  linux_other :: string

record Spec =
  spec_Process :: "Process option"
  spec_Root :: "Root option"
  spec_Linux :: "Linux option"
  spec_other :: string

record runcJailerConfig =
  OCIBundlePath_cfg :: string
  RuncBinPath_cfg :: string
  RuncConfigPath_cfg :: string
  UID :: "32 word"
  GID :: "32 word"
  rj_CPUs_cfg :: string
  rj_Mems_cfg :: string
  CgroupPath_cfg :: string

record runcJailer =
  Config_of :: runcJailerConfig
  runc_vmID :: string
  configSpec :: Spec

record noopJailer =
  noop_shimDir :: string
  noop_pid :: int

datatype jailer = Noop noopJailer | RuncJ runcJailer

text \<open>The runc client.\<close>

record 'w runc =
  runc_Delete :: "string \<Rightarrow> 'w \<Rightarrow> gerr option \<times> 'w"
  runc_Kill :: "string \<Rightarrow> nat \<Rightarrow> 'w \<Rightarrow> gerr option \<times> 'w"

text \<open>What \<open>BuildJailedMachine\<close> hands to the SDK.\<close>

record Cmd =
  cmd_args :: "string list"
  cmd_Dir :: string
  cmd_logged :: bool

datatype fc_Opt =
    WithProcessRunner Cmd
  | WithClient string
  | PrependFcInit string
  | AppendAfterFcInit string string
  | AppendFcInit string

section \<open>Files\<close>

definition mkdirAndChown :: "'w os \<Rightarrow> string \<Rightarrow> nat \<Rightarrow> 32 word \<Rightarrow> 32 word \<Rightarrow> 'w \<Rightarrow> gerr option \<times> 'w" where
  "mkdirAndChown os path mode uid gid w =
     (case os_Mkdir os path mode w of
        (Some err, w) \<Rightarrow> (Some err, w)
      | (None, w) \<Rightarrow>
          (case os_Chown os path (unat uid) (unat gid) w of
             (Some err, w) \<Rightarrow> (Some err, w)
           | (None, w) \<Rightarrow> (None, w)))"

fun mkdirAll_loop ::
    "'w os \<Rightarrow> nat \<Rightarrow> 32 word \<Rightarrow> 32 word \<Rightarrow> string \<Rightarrow> string list \<Rightarrow> 'w \<Rightarrow> gerr option \<times> 'w" where
  "mkdirAll_loop os mode uid gid workingPath [] w = (None, w)"
| "mkdirAll_loop os mode uid gid workingPath (pathPart # pathParts) w =
     (let workingPath = filepath_Join [workingPath, pathPart] in
      case mkdirAndChown os workingPath mode uid gid w of
        (Some err, w) \<Rightarrow>
          if \<not> os_IsExist err then (Some err, w)
          else mkdirAll_loop os mode uid gid workingPath pathParts w
      | (None, w) \<Rightarrow> mkdirAll_loop os mode uid gid workingPath pathParts w)"

definition mkdirAllWithPermissions ::
    "'w os \<Rightarrow> string \<Rightarrow> nat \<Rightarrow> 32 word \<Rightarrow> 32 word \<Rightarrow> 'w \<Rightarrow> gerr option \<times> 'w" where
  "mkdirAllWithPermissions os path mode uid gid w =
     (let workingPath = (if strings_HasPrefix path ''/'' then ''/'' else [])
      in mkdirAll_loop os mode uid gid workingPath
           (strings_Split (CHR ''/'') (filepath_Clean path)) w)"

definition linkAndChown :: "'w os \<Rightarrow> string \<Rightarrow> string \<Rightarrow> 32 word \<Rightarrow> 32 word \<Rightarrow> 'w \<Rightarrow> gerr option \<times> 'w" where
  "linkAndChown os src dst uid gid w =
     (case os_Link os src dst w of
        (Some err, w) \<Rightarrow> (Some err, w)
      | (None, w) \<Rightarrow>
          (case os_Chown os dst (unat uid) (unat gid) w of
             (Some err, w) \<Rightarrow> (Some err, w)
           | (None, w) \<Rightarrow> (None, w)))"

definition copyFile :: "'w os \<Rightarrow> string \<Rightarrow> string \<Rightarrow> 32 word \<Rightarrow> 'w \<Rightarrow> gerr option \<times> 'w" where
  "copyFile os src dst mode w =
     (case os_CpSparse os src dst w of
        (Some err, w) \<Rightarrow> (Some (Wrap err ''failed to copy %q to %q: %s'' [src, dst]), w)
      | (None, w) \<Rightarrow> os_Chmod os dst mode w)"

definition exposeBlockDeviceToJail ::
    "'w os \<Rightarrow> string \<Rightarrow> 64 word \<Rightarrow> 32 word \<Rightarrow> 32 word \<Rightarrow> 'w \<Rightarrow> gerr option \<times> 'w" where
  "exposeBlockDeviceToJail os dst rdev uid gid w =
     (case os_MknodBlk os dst rdev w of
        (Some err, w) \<Rightarrow> (Some err, w)
      | (None, w) \<Rightarrow>
          (case os_Chmod os dst 384 w of
             (Some err, w) \<Rightarrow> (Some err, w)
           | (None, w) \<Rightarrow>
               (case os_Chown os dst (unat uid) (unat gid) w of
                  (Some err, w) \<Rightarrow> (Some err, w)
                | (None, w) \<Rightarrow> (None, w))))"

section \<open>The runc jailer\<close>

definition OCIBundlePath :: "runcJailer \<Rightarrow> string" where
  "OCIBundlePath j = OCIBundlePath_cfg (Config_of j)"

definition runc_RootPath :: "runcJailer \<Rightarrow> string" where
  "runc_RootPath j = filepath_Join [OCIBundlePath j, rootfsFolder]"

definition runc_JailPath :: "runcJailer \<Rightarrow> string" where
  "runc_JailPath j = runc_RootPath j"

definition newRuncJailer ::
    "'w os \<Rightarrow> (string \<Rightarrow> gerr + Spec) \<Rightarrow> string \<Rightarrow> runcJailerConfig \<Rightarrow> 'w \<Rightarrow> (gerr + runcJailer) \<times> 'w" where
  "newRuncJailer os Unmarshal vmID cfg w =
     (case os_ReadFile os (RuncConfigPath_cfg cfg) w of
        (Inl err, w) \<Rightarrow> (Inl (Wrap err ''failed to read %s'' [RuncConfigPath_cfg cfg]), w)
      | (Inr configBytes, w) \<Rightarrow>
          (case Unmarshal configBytes of
             Inl err \<Rightarrow> (Inl (Wrap err ''failed to unmarshal %s'' [RuncConfigPath_cfg cfg]), w)
           | Inr spec \<Rightarrow>
               (let j = \<lparr>Config_of = cfg, runc_vmID = vmID, configSpec = spec\<rparr>;
                    rootPath = runc_RootPath j
                in case mkdirAndChown os rootPath 448 (UID (Config_of j)) (GID (Config_of j)) w of
                     (Some err, w) \<Rightarrow> (Inl (Wrap err ''%s failed to mkdirAndChown'' [rootPath]), w)
                   | (None, w) \<Rightarrow> (Inr j, w))))"

definition runc_CgroupPath :: "runcJailer \<Rightarrow> string" where
  "runc_CgroupPath j =
     (let basePath = (if CgroupPath_cfg (Config_of j) \<noteq> [] then CgroupPath_cfg (Config_of j)
                      else ''/firecracker-containerd'')
      in filepath_Join [basePath, runc_vmID j])"

definition copyFileToJail :: "'w os \<Rightarrow> runcJailer \<Rightarrow> string \<Rightarrow> string \<Rightarrow> 32 word \<Rightarrow> 'w \<Rightarrow> gerr option \<times> 'w" where
  "copyFileToJail os j src dst mode w =
     (case copyFile os src dst mode w of
        (Some err, w) \<Rightarrow> (Some err, w)
      | (None, w) \<Rightarrow>
          (case os_Chown os dst (unat (UID (Config_of j))) (unat (GID (Config_of j))) w of
             (Some err, w) \<Rightarrow> (Some err, w)
           | (None, w) \<Rightarrow> (None, w)))"

definition S_IFMT :: "32 word" where "S_IFMT = 0xF000"

definition S_IFBLK :: "32 word" where "S_IFBLK = 0x6000"

definition S_IFREG :: "32 word" where "S_IFREG = 0x8000"

definition runc_ExposeFileToJail :: "'w os \<Rightarrow> runcJailer \<Rightarrow> string \<Rightarrow> 'w \<Rightarrow> gerr option \<times> 'w" where
  "runc_ExposeFileToJail os j srcPath w =
     (let uid = UID (Config_of j); gid = GID (Config_of j) in
      case os_Stat os srcPath w of
        (Inl err, w) \<Rightarrow> (Some err, w)
      | (Inr stat, w) \<Rightarrow>
          if and (fi_mode stat) S_IFMT = S_IFBLK then
            (let parentDir = filepath_Join [runc_RootPath j, filepath_Dir srcPath] in
             case mkdirAllWithPermissions os parentDir 448 uid gid w of
               (Some err, w) \<Rightarrow> (Some err, w)
             | (None, w) \<Rightarrow>
                 (let dst = filepath_Join [parentDir, filepath_Base srcPath] in
                  exposeBlockDeviceToJail os dst (fi_rdev stat) uid gid w))
          else if and (fi_mode stat) S_IFMT = S_IFREG then
            (let parentDir = filepath_Join [runc_RootPath j, filepath_Dir srcPath] in
             case mkdirAllWithPermissions os parentDir 448 uid gid w of
               (Some err, w) \<Rightarrow> (Some err, w)
             | (None, w) \<Rightarrow>
                 (let dst = filepath_Join [parentDir, filepath_Base srcPath] in
                  copyFileToJail os j srcPath dst (fi_mode stat) w))
          else (Some (Errorf ''unsupported mode: %v'' [utoa (unat (fi_mode stat))]), w))"

definition jailerCommand :: "runcJailer \<Rightarrow> string \<Rightarrow> bool \<Rightarrow> Cmd" where
  "jailerCommand j containerName isDebug =
     \<lparr>cmd_args = [RuncBinPath_cfg (Config_of j), ''run'', containerName],
      cmd_Dir = OCIBundlePath j, cmd_logged = isDebug\<rparr>"

text \<open>
  \<open>vmArgs\<close> is the SDK's \<open>VMCommandBuilder\<close>: the arguments for a binary and a socket path.
  \<open>spec.Linux.CgroupsPath\<close> is assigned without a check, so a nil \<open>Linux\<close> panics.
\<close>

definition setDefaultConfigValues ::
    "(string \<Rightarrow> string \<Rightarrow> string list) \<Rightarrow> runcJailer \<Rightarrow> string \<Rightarrow> Spec \<Rightarrow> gerr + Spec" where
  "setDefaultConfigValues vmArgs j socketPath spec =
     (let p = (case spec_Process spec of
                 None \<Rightarrow> \<lparr>process_Args = None, user_UID = 0, user_GID = 0, process_other = []\<rparr>
               | Some p \<Rightarrow> p);
          p = (if process_Args p = None
               then p\<lparr>process_Args := Some (vmArgs (''/'' @ firecrackerFileName) socketPath)\<rparr> else p);
          spec = spec\<lparr>spec_Process := Some p\<rparr>;
          cgroupPath = runc_CgroupPath j
      in case spec_Linux spec of
           None \<Rightarrow> Inl (Panic ''nil pointer dereference'')
         | Some l \<Rightarrow> Inr (spec\<lparr>spec_Linux := Some (l\<lparr>linux_CgroupsPath := cgroupPath\<rparr>)\<rparr>))"

fun set_network_path :: "string \<Rightarrow> LinuxNamespace list \<Rightarrow> LinuxNamespace list" where
  "set_network_path netns [] = []"
| "set_network_path netns (ns # nss) =
     (if ns_Type ns = networkNamespaceRuncName then ns\<lparr>ns_Path := netns\<rparr> # nss
      else ns # set_network_path netns nss)"

text \<open>
  \<open>overwriteConfig\<close> works on a shallow copy of \<open>j.configSpec\<close>: process, root and Linux
  section are shared pointers, so that every assignment to them is one to \<open>j.configSpec\<close>.
  The result is the error, the jailer with the updated spec, and the world.
\<close>

definition overwriteConfig ::
    "'w os \<Rightarrow> (string \<Rightarrow> string \<Rightarrow> string list) \<Rightarrow> (Spec \<Rightarrow> gerr + string) \<Rightarrow>
     runcJailer \<Rightarrow> 'ip fc_Config \<Rightarrow> string \<Rightarrow> string \<Rightarrow> 'w \<Rightarrow> gerr option \<times> runcJailer \<times> 'w" where
  "overwriteConfig os vmArgs Marshal j machineConfig socketPath configPath w =
     (let spec = configSpec j in
      case spec_Process spec of
        None \<Rightarrow> (Some (Panic ''nil pointer dereference''), j, w)
      | Some p \<Rightarrow>
        if user_UID p \<noteq> 0 \<or> user_GID p \<noteq> 0
        then (Some (Errorf ''using UID %d and GID %d, these values must not be set''
                [utoa (unat (user_UID p)), utoa (unat (user_GID p))]), j, w)
        else
          case setDefaultConfigValues vmArgs j socketPath spec of
            Inl err \<Rightarrow> (Some err, j, w)
          | Inr spec \<Rightarrow>
            (case (spec_Process spec, spec_Root spec, spec_Linux spec) of
               (Some p, Some r, Some l) \<Rightarrow>
                 (let r = \<lparr>root_Path = rootfsFolder, root_Readonly = False\<rparr>;
                      p = p\<lparr>user_UID := UID (Config_of j), user_GID := GID (Config_of j)\<rparr>;
                      l = (if fc_NetNS machineConfig \<noteq> []
                           then l\<lparr>linux_Namespaces := set_network_path (fc_NetNS machineConfig) (linux_Namespaces l)\<rparr>
                           else l);
                      res = (case linux_Resources l of None \<Rightarrow> \<lparr>res_CPU = None, res_other = []\<rparr> | Some res \<Rightarrow> res);
                      cpu = (case res_CPU res of None \<Rightarrow> \<lparr>Cpus = [], cpu_Mems = [], cpu_other = []\<rparr> | Some c \<Rightarrow> c);
                      cpu = cpu\<lparr>Cpus := rj_CPUs_cfg (Config_of j), cpu_Mems := rj_Mems_cfg (Config_of j)\<rparr>;
                      l = l\<lparr>linux_Resources := Some (res\<lparr>res_CPU := Some cpu\<rparr>)\<rparr>;
                      spec = spec\<lparr>spec_Process := Some p, spec_Root := Some r, spec_Linux := Some l\<rparr>;
                      j = j\<lparr>configSpec := spec\<rparr>
                  in case Marshal spec of
                       Inl err \<Rightarrow> (Some err, j, w)
                     | Inr configBytes \<Rightarrow>
                         (case os_WriteFile os configPath configBytes 256 w of
                            (Some err, w) \<Rightarrow> (Some err, j, w)
                          | (None, w) \<Rightarrow> (None, j, w)))
             | _ \<Rightarrow> (Some (Panic ''nil pointer dereference''), j, w)))"

text \<open>The loop over the drives in the jail handler: the error, the drives as changed so far.\<close>

fun jail_drives ::
    "'w os \<Rightarrow> runcJailer \<Rightarrow> Drive list \<Rightarrow> 'w \<Rightarrow> gerr option \<times> Drive list \<times> 'w" where
  "jail_drives os j [] w = (None, [], w)"
| "jail_drives os j (d # ds) w =
     (let drivePath = PathOnHost d;
          fileName = filepath_Base drivePath;
          newDrivePath = filepath_Join [runc_RootPath j, fileName]
      in case os_Open os drivePath w of
           (Inl err, w) \<Rightarrow> (Some (Wrap err ''failed to open drive file'' []), d # ds, w)
         | (Inr f, w) \<Rightarrow>
             (let (copied, w) =
                (if \<not> fst (IsStubDrive file_read f)
                 then copyFileToJail os j drivePath newDrivePath (if IsReadOnly d then 256 else 384) w
                 else (None, w))
              in case copied of
                   Some err \<Rightarrow> (Some err, d # ds, snd (os_Close os drivePath w))
                 | None \<Rightarrow>
                     (let w = snd (os_Close os drivePath w);
                          (err, ds', w) = jail_drives os j ds w
                      in (err, d\<lparr>PathOnHost := fileName\<rparr> # ds', w))))"

definition jail_vsocks :: "(string \<times> string) list \<Rightarrow> (string \<times> string) list" where
  "jail_vsocks vs = map (\<lambda>(path, i). (filepath_Join [''/'', filepath_Base path], i)) vs"

text \<open>\<open>BuildJailedRootHandler\<close> sets the socket path at once and returns the handler below.\<close>

definition BuildJailedRootHandler :: "'ip fc_Config \<Rightarrow> 'ip fc_Config" where
  "BuildJailedRootHandler machineConfig =
     machineConfig\<lparr>fc_SocketPath := filepath_Join [rootfsFolder, ''api.socket'']\<rparr>"

definition jail_handler ::
    "'w os \<Rightarrow> (string \<Rightarrow> string \<Rightarrow> string list) \<Rightarrow> (Spec \<Rightarrow> gerr + string) \<Rightarrow> Config \<Rightarrow>
     runcJailer \<Rightarrow> 'ip fc_Config \<Rightarrow> 'w \<Rightarrow> gerr option \<times> runcJailer \<times> 'ip fc_Config \<times> 'w" where
  "jail_handler os vmArgs Marshal cfg j m w =
     (let rootPathToConfig = filepath_Join [OCIBundlePath j, ''config.json'']; rootPath = runc_RootPath j in
      case copyFile os (RuncConfigPath_cfg (Config_of j)) rootPathToConfig 256 w of
        (Some err, w) \<Rightarrow>
          (Some (Wrap err ''failed to copy config from %v to %v'' [RuncConfigPath_cfg (Config_of j), rootPathToConfig]), j, m, w)
      | (None, w) \<Rightarrow>
        case overwriteConfig os vmArgs Marshal j m (filepath_Base (fc_SocketPath m)) rootPathToConfig w of
          (Some err, j, w) \<Rightarrow> (Some (Wrap err ''failed to overwrite config.json'' []), j, m, w)
        | (None, j, w) \<Rightarrow>
          case copyFileToJail os j (FirecrackerBinaryPath cfg) (filepath_Join [rootPath, firecrackerFileName]) 320 w of
            (Some err, w) \<Rightarrow> (Some err, j, m, w)
          | (None, w) \<Rightarrow>
            case copyFileToJail os j (fc_KernelImagePath m) (filepath_Join [rootPath, kernelImageFileName]) 256 w of
              (Some err, w) \<Rightarrow> (Some err, j, m, w)
            | (None, w) \<Rightarrow>
              (let m = m\<lparr>fc_KernelImagePath := kernelImageFileName\<rparr> in
               case jail_drives os j (fc_Drives m) w of
                 (Some err, ds, w) \<Rightarrow> (Some err, j, m\<lparr>fc_Drives := ds\<rparr>, w)
               | (None, ds, w) \<Rightarrow>
                   (None, j, m\<lparr>fc_Drives := ds, fc_VsockDevices := jail_vsocks (fc_VsockDevices m)\<rparr>, w)))"

definition BuildLinkFifoHandler ::
    "'w os \<Rightarrow> runcJailer \<Rightarrow> 'ip fc_Config \<Rightarrow> 'w \<Rightarrow> gerr option \<times> 'ip fc_Config \<times> 'w" where
  "BuildLinkFifoHandler os j m w =
     (let contentsPath = runc_RootPath j; fifoFileName = filepath_Base (fc_LogFifo m);
          newFifoPath = filepath_Join [contentsPath, fifoFileName] in
      case linkAndChown os (fc_LogFifo m) newFifoPath (UID (Config_of j)) (GID (Config_of j)) w of
        (Some err, w) \<Rightarrow> (Some err, m, w)
      | (None, w) \<Rightarrow>
          (let m = m\<lparr>fc_LogFifo := fifoFileName\<rparr>; metricFifoFileName = filepath_Base (fc_MetricsFifo m);
               newMetricFifoPath = filepath_Join [contentsPath, metricFifoFileName] in
           case linkAndChown os (fc_MetricsFifo m) newMetricFifoPath (UID (Config_of j)) (GID (Config_of j)) w of
             (Some err, w) \<Rightarrow> (Some err, m, w)
           | (None, w) \<Rightarrow> (None, m\<lparr>fc_MetricsFifo := metricFifoFileName\<rparr>, w)))"

definition getNetNS :: "Spec \<Rightarrow> gerr + string" where
  "getNetNS spec =
     (case spec_Linux spec of
        None \<Rightarrow> Inl (Panic ''nil pointer dereference'')
      | Some l \<Rightarrow>
          (case find (\<lambda>ns. ns_Type ns = networkNamespaceRuncName) (linux_Namespaces l) of
             None \<Rightarrow> Inr []
           | Some ns \<Rightarrow> Inr (ns_Path ns)))"

definition CreateLogFilesHandlerName :: string where
  "CreateLogFilesHandlerName = ''fcinit.CreateLogFilesHandler''"

definition runc_BuildJailedMachine ::
    "runcJailer \<Rightarrow> bool \<Rightarrow> 'ip fc_Config \<Rightarrow> string \<Rightarrow> (gerr + fc_Opt list) \<times> 'ip fc_Config" where
  "runc_BuildJailedMachine j logOutput machineConfig vmID =
     (let machineConfig = BuildJailedRootHandler machineConfig;
          opts = [WithProcessRunner (jailerCommand j vmID logOutput),
                  WithClient (fc_SocketPath machineConfig),
                  PrependFcInit jailerHandlerName,
                  AppendAfterFcInit CreateLogFilesHandlerName jailerFifoHandlerName] in
      if fc_NetNS machineConfig = [] then
        (case getNetNS (configSpec j) of
           Inl err \<Rightarrow> (Inl err, machineConfig)
         | Inr netns \<Rightarrow>
             (Inr opts, if netns \<noteq> [] then machineConfig\<lparr>fc_NetNS := netns\<rparr> else machineConfig))
      else (Inr opts, machineConfig))"

definition runc_Close :: "'w os \<Rightarrow> 'w runc \<Rightarrow> runcJailer \<Rightarrow> 'w \<Rightarrow> gerr option \<times> 'w" where
  "runc_Close os rc j w =
     (let (runcErr, w) = runc_Delete rc (runc_vmID j) w;
          (removeErr, w) = os_RemoveAll os (OCIBundlePath j) w
      in (multi_error_or_nil (multi_append (multi_append [] runcErr) removeErr), w))"

text \<open>SIGTERM is 15.\<close>

definition runc_Stop :: "'w runc \<Rightarrow> runcJailer \<Rightarrow> 'w \<Rightarrow> gerr option \<times> 'w" where
  "runc_Stop rc j w = runc_Kill rc (runc_vmID j) 15 w"

text \<open>The one option a stub drive gets: chown of the open file.\<close>

definition runc_StubDrivesOptions :: "'w os \<Rightarrow> runcJailer \<Rightarrow> (string \<Rightarrow> 'w \<Rightarrow> gerr option \<times> 'w) list" where
  "runc_StubDrivesOptions os j =
     [\<lambda>file w. case os_Chown os file (unat (UID (Config_of j))) (unat (GID (Config_of j))) w of
        (Some err, w) \<Rightarrow> (Some (Wrap err ''failed to chown stub file %q'' [file]), w)
      | (None, w) \<Rightarrow> (None, w)]"

section \<open>The noop jailer\<close>

definition newNoopJailer :: "string \<Rightarrow> noopJailer" where
  "newNoopJailer shim_dir = \<lparr>noop_shimDir = shim_dir, noop_pid = 0\<rparr>"

definition pidHandlerName :: string where
  "pidHandlerName = ''firecracker-containerd-jail-pid-handler''"

definition noop_BuildJailedMachine ::
    "'w os \<Rightarrow> (string \<Rightarrow> string \<Rightarrow> string list) \<Rightarrow> noopJailer \<Rightarrow> Config \<Rightarrow> bool \<Rightarrow> 'w \<Rightarrow> (gerr + fc_Opt list) \<times> 'w" where
  "noop_BuildJailedMachine os vmArgs j cfg logOutput w =
     (if length (FirecrackerBinaryPath cfg) = 0 then (Inr [], w)
      else
        case FirecrackerSockRelPath os (noop_shimDir j) w of
          (Inl err, w) \<Rightarrow> (Inl err, w)
        | (Inr relSocketPath, w) \<Rightarrow>
            (let cmd = \<lparr>cmd_args = vmArgs (FirecrackerBinaryPath cfg) relSocketPath, cmd_Dir = [], cmd_logged = logOutput\<rparr>
             in (Inr [WithProcessRunner cmd, AppendFcInit pidHandlerName], w)))"

text \<open>The pid handler, run by the SDK; \<open>pid\<close> is what \<open>m.PID()\<close> returns.\<close>

definition noop_pidHandler :: "gerr + int \<Rightarrow> noopJailer \<Rightarrow> gerr option \<times> noopJailer" where
  "noop_pidHandler pid j =
     (case pid of Inl err \<Rightarrow> (Some err, j) | Inr p \<Rightarrow> (None, j\<lparr>noop_pid := p\<rparr>))"

definition noop_JailPath :: "noopJailer \<Rightarrow> string" where
  "noop_JailPath j = noop_shimDir j"

definition noop_ExposeFileToJail :: "noopJailer \<Rightarrow> string \<Rightarrow> 'w \<Rightarrow> gerr option \<times> 'w" where
  "noop_ExposeFileToJail j path w = (None, w)"

definition noop_StubDrivesOptions :: "noopJailer \<Rightarrow> (string \<Rightarrow> 'w \<Rightarrow> gerr option \<times> 'w) list" where
  "noop_StubDrivesOptions j = []"

definition noop_Stop :: "'w os \<Rightarrow> noopJailer \<Rightarrow> 'w \<Rightarrow> gerr option \<times> 'w" where
  "noop_Stop os j w =
     (if noop_pid j = 0 then (Some (Errorf ''the machine hasn't been started'' []), w)
      else
        case os_Signal os (noop_pid j) 15 w of
          (None, w) \<Rightarrow> (None, w)
        | (Some err, w) \<Rightarrow>
            if err = ExtError ''os: process already finished'' then (None, w) else (Some err, w))"

definition noop_Close :: "'w os \<Rightarrow> noopJailer \<Rightarrow> 'w \<Rightarrow> gerr option \<times> 'w" where
  "noop_Close os j w = os_RemoveAll os (RootPath (noop_shimDir j)) w"

section \<open>The interface\<close>

fun JailPath :: "jailer \<Rightarrow> string" where
  "JailPath (Noop j) = noop_JailPath j"
| "JailPath (RuncJ j) = runc_JailPath j"

fun ExposeFileToJail :: "'w os \<Rightarrow> jailer \<Rightarrow> string \<Rightarrow> 'w \<Rightarrow> gerr option \<times> 'w" where
  "ExposeFileToJail os (Noop j) path w = noop_ExposeFileToJail j path w"
| "ExposeFileToJail os (RuncJ j) path w = runc_ExposeFileToJail os j path w"

fun StubDrivesOptions :: "'w os \<Rightarrow> jailer \<Rightarrow> (string \<Rightarrow> 'w \<Rightarrow> gerr option \<times> 'w) list" where
  "StubDrivesOptions os (Noop j) = noop_StubDrivesOptions j"
| "StubDrivesOptions os (RuncJ j) = runc_StubDrivesOptions os j"

fun jailer_Stop :: "'w os \<Rightarrow> 'w runc \<Rightarrow> jailer \<Rightarrow> 'w \<Rightarrow> gerr option \<times> 'w" where
  "jailer_Stop os rc (Noop j) w = noop_Stop os j w"
| "jailer_Stop os rc (RuncJ j) w = runc_Stop rc j w"

fun jailer_Close :: "'w os \<Rightarrow> 'w runc \<Rightarrow> jailer \<Rightarrow> 'w \<Rightarrow> gerr option \<times> 'w" where
  "jailer_Close os rc (Noop j) w = noop_Close os j w"
| "jailer_Close os rc (RuncJ j) w = runc_Close os rc j w"

fun BuildJailedMachine ::
    "'w os \<Rightarrow> (string \<Rightarrow> string \<Rightarrow> string list) \<Rightarrow> jailer \<Rightarrow> Config \<Rightarrow> bool \<Rightarrow> 'ip fc_Config \<Rightarrow> string \<Rightarrow> 'w \<Rightarrow>
     (gerr + fc_Opt list) \<times> 'ip fc_Config \<times> 'w" where
  "BuildJailedMachine os vmArgs (Noop j) cfg logOutput machineConfig vmID w =
     (case noop_BuildJailedMachine os vmArgs j cfg logOutput w of (r, w) \<Rightarrow> (r, machineConfig, w))"
| "BuildJailedMachine os vmArgs (RuncJ j) cfg logOutput machineConfig vmID w =
     (case runc_BuildJailedMachine j logOutput machineConfig vmID of (r, mc) \<Rightarrow> (r, mc, w))"

text \<open>The \<open>cgroupPather\<close> interface, which only the runc jailer implements.\<close>

fun cgroupPath :: "jailer \<Rightarrow> string option" where
  "cgroupPath (Noop j) = None"
| "cgroupPath (RuncJ j) = Some (runc_CgroupPath j)"

definition newJailer ::
    "'w os \<Rightarrow> (string \<Rightarrow> gerr + Spec) \<Rightarrow> string \<Rightarrow> Config \<Rightarrow> string \<Rightarrow> string \<Rightarrow> CreateVMRequest option \<Rightarrow> 'w \<Rightarrow>
     (gerr + jailer) \<times> 'w" where
  "newJailer os Unmarshal ociBundlePath cfg shim_dir vmID request w =
     (case Option.bind request JailerConfig of
        None \<Rightarrow> (Inr (Noop (newNoopJailer shim_dir)), w)
      | Some jc \<Rightarrow>
        if rj_UID jc = 0 \<or> rj_GID jc = 0
        then (Inl (Errorf ''attempting to run as %d:%d. 0 cannot be used for the UID or GID''
                [utoa (unat (rj_UID jc)), utoa (unat (rj_GID jc))]), w)
        else
          case os_MkdirAll os ociBundlePath 448 w of
            (Some err, w) \<Rightarrow> (Inl (Wrap err ''failed to create oci bundle path: %s'' [ociBundlePath]), w)
          | (None, w) \<Rightarrow>
              (case newRuncJailer os Unmarshal vmID
                 \<lparr>OCIBundlePath_cfg = ociBundlePath, RuncBinPath_cfg = RuncBinaryPath cfg,
                  RuncConfigPath_cfg = RuncConfigPath cfg, UID = rj_UID jc, GID = rj_GID jc,
                  rj_CPUs_cfg = rj_CPUs jc, rj_Mems_cfg = rj_Mems jc, CgroupPath_cfg = rj_CgroupPath jc\<rparr> w of
                 (Inl err, w) \<Rightarrow> (Inl err, w)
               | (Inr j, w) \<Rightarrow> (Inr (RuncJ j), w)))"

section \<open>Which jailer\<close>

lemma newRuncJailer_ok:
  assumes "newRuncJailer os U vm cfg w = (Inr j, w')"
  shows "Config_of j = cfg \<and> runc_vmID j = vm \<and>
     (\<exists>w1 bytes w2. os_ReadFile os (RuncConfigPath_cfg cfg) w = (Inr bytes, w1) \<and> U bytes = Inr (configSpec j) \<and>
        os_Mkdir os (runc_RootPath j) 448 w1 = (None, w2) \<and>
        os_Chown os (runc_RootPath j) (unat (UID cfg)) (unat (GID cfg)) w2 = (None, w'))"
  using assms
  by (auto simp: newRuncJailer_def Let_def mkdirAndChown_def
      split: prod.splits sum.splits option.splits)

text \<open>
  C25: \<open>newJailer\<close> gives the noop jailer exactly when the request has no jailer configuration,
  and then touches nothing. Otherwise the jailer it gives is a runc jailer of this VM and
  bundle, with the user and group of the request, and neither of them is root; its root
  directory was created in this call (an existing one is an error) and given to that user.
\<close>

theorem newJailer_never_root:
  assumes "newJailer os U bundle cfg shim_dir vm request w = (Inr j, w')"
  shows "case Option.bind request JailerConfig of
       None \<Rightarrow> j = Noop (newNoopJailer shim_dir) \<and> w' = w
     | Some jc \<Rightarrow> \<exists>r w1 w2. j = RuncJ r \<and> runc_vmID r = vm \<and> OCIBundlePath r = bundle \<and>
         UID (Config_of r) = rj_UID jc \<and> GID (Config_of r) = rj_GID jc \<and>
         rj_UID jc \<noteq> 0 \<and> rj_GID jc \<noteq> 0 \<and>
         os_Mkdir os (JailPath j) 448 w1 = (None, w2) \<and>
         os_Chown os (JailPath j) (unat (rj_UID jc)) (unat (rj_GID jc)) w2 = (None, w')"
proof (cases "Option.bind request JailerConfig")
  case None
  with assms show ?thesis by (simp add: newJailer_def)
next
  case (Some jc)
  let ?c = "\<lparr>OCIBundlePath_cfg = bundle, RuncBinPath_cfg = RuncBinaryPath cfg,
      RuncConfigPath_cfg = RuncConfigPath cfg, UID = rj_UID jc, GID = rj_GID jc,
      rj_CPUs_cfg = rj_CPUs jc, rj_Mems_cfg = rj_Mems jc, CgroupPath_cfg = rj_CgroupPath jc\<rparr>"
  from assms Some obtain w1 r where u: "rj_UID jc \<noteq> 0" "rj_GID jc \<noteq> 0" "j = RuncJ r"
      and r: "newRuncJailer os U vm ?c w1 = (Inr r, w')"
    by (auto simp: newJailer_def split: if_splits prod.splits sum.splits option.splits)
  from newRuncJailer_ok[OF r] u Some show ?thesis
    by (auto simp: OCIBundlePath_def runc_JailPath_def)
qed

definition example_spec :: Spec where
  "example_spec =
     \<lparr>spec_Process = Some \<lparr>process_Args = None, user_UID = 0, user_GID = 0, process_other = []\<rparr>,
      spec_Root = Some \<lparr>root_Path = ''/somewhere'', root_Readonly = True\<rparr>,
      spec_Linux = Some \<lparr>linux_Namespaces = [\<lparr>ns_Type = ''network'', ns_Path = []\<rparr>],
        linux_Resources = None, linux_CgroupsPath = [], linux_other = []\<rparr>,
      spec_other = []\<rparr>"

definition example_request :: CreateVMRequest where
  "example_request =
     \<lparr>VMID = ''vm'', MachineCfg = None, KernelImagePath = [], KernelArgs = [], RootDrive = None,
      DriveMounts = [], NetworkInterfaces = None, ContainerCount = 0, ExitAfterAllTasksDeleted = False,
      JailerConfig = Some \<lparr>rj_NetNS = [], rj_CPUs = ''0'', rj_Mems = ''0'', rj_UID = 300, rj_GID = 301,
        rj_CgroupPath = []\<rparr>, TimeoutSeconds = 0\<rparr>"

definition example_jailer :: runcJailer where
  "example_jailer =
     \<lparr>Config_of = \<lparr>OCIBundlePath_cfg = ''/b'', RuncBinPath_cfg = ''runc'', RuncConfigPath_cfg = ''c'',
        UID = 300, GID = 301, rj_CPUs_cfg = ''0'', rj_Mems_cfg = ''0'', CgroupPath_cfg = []\<rparr>,
      runc_vmID = ''vm'', configSpec = example_spec\<rparr>"

definition example_config :: Config where
  "example_config =
     \<lparr>FirecrackerBinaryPath = ''fc'', cfg_KernelImagePath = ''k'', cfg_KernelArgs = [], cfg_RootDrive = ''r'',
      cfg_CPUTemplate = [], cfg_HtEnabled = False, DefaultNetworkInterfaces = [], ShimBaseDir = [],
      RuncBinaryPath = ''runc'', RuncConfigPath = ''c''\<rparr>"

theorem newJailer_never_root_witness:
  "\<exists>r. fst (newJailer os_fine (\<lambda>_. Inr example_spec) ''/b'' example_config ''/s'' ''vm'' (Some example_request) ()) = Inr (RuncJ r)
     \<and> UID (Config_of r) = 300 \<and> GID (Config_of r) = 301"
proof -
  have e: "newJailer os_fine (\<lambda>_. Inr example_spec) ''/b'' example_config ''/s'' ''vm'' (Some example_request) () =
      (Inr (RuncJ example_jailer), ())"
    by (simp add: newJailer_def newRuncJailer_def mkdirAndChown_def os_fine_def example_request_def
        example_config_def example_jailer_def Let_def)
  from newJailer_never_root[OF e] e show ?thesis
    by (auto simp: example_request_def)
qed

section \<open>The jail's OCI configuration\<close>

lemma set_network_path_frame:
  "length (set_network_path n nss) = length nss"
  "map ns_Type (set_network_path n nss) = map ns_Type nss"
  "filter (\<lambda>ns. ns_Type ns \<noteq> networkNamespaceRuncName) (set_network_path n nss) =
   filter (\<lambda>ns. ns_Type ns \<noteq> networkNamespaceRuncName) nss"
  by (induction nss) auto

lemma find_set_network_path:
  "find (\<lambda>ns. ns_Type ns = networkNamespaceRuncName) (set_network_path n nss) =
   map_option (\<lambda>ns. ns\<lparr>ns_Path := n\<rparr>) (find (\<lambda>ns. ns_Type ns = networkNamespaceRuncName) nss)"
  by (induction nss) auto

text \<open>What \<open>overwriteConfig\<close> promises of the specification that runc gets.\<close>

definition confined_spec :: "runcJailer \<Rightarrow> Spec \<Rightarrow> bool" where
  "confined_spec j spec \<longleftrightarrow>
     (case (spec_Process spec, spec_Root spec, spec_Linux spec) of
        (Some p, Some r, Some l) \<Rightarrow>
          user_UID p = UID (Config_of j) \<and> user_GID p = GID (Config_of j) \<and>
          process_Args p \<noteq> None \<and>
          r = \<lparr>root_Path = rootfsFolder, root_Readonly = False\<rparr> \<and>
          linux_CgroupsPath l = runc_CgroupPath j \<and>
          (case linux_Resources l of
             Some res \<Rightarrow> (case res_CPU res of
                 Some c \<Rightarrow> Cpus c = rj_CPUs_cfg (Config_of j) \<and> cpu_Mems c = rj_Mems_cfg (Config_of j)
               | None \<Rightarrow> False)
           | None \<Rightarrow> False)
      | _ \<Rightarrow> False)"

lemma setDefaultConfigValues_ok:
  assumes "setDefaultConfigValues vmArgs j sock spec = Inr spec'" and "spec_Process spec = Some p"
  shows "\<exists>p' l. spec_Linux spec = Some l \<and> process_Args p' \<noteq> None \<and>
      user_UID p' = user_UID p \<and> user_GID p' = user_GID p \<and>
      spec' = spec\<lparr>spec_Process := Some p', spec_Linux := Some (l\<lparr>linux_CgroupsPath := runc_CgroupPath j\<rparr>)\<rparr>"
proof (cases "spec_Linux spec")
  case None
  with assms show ?thesis by (simp add: setDefaultConfigValues_def Let_def)
next
  case (Some l)
  let ?p = "if process_Args p = None
       then p\<lparr>process_Args := Some (vmArgs (''/'' @ firecrackerFileName) sock)\<rparr> else p"
  from assms Some show ?thesis
    by (intro exI[of _ ?p] exI[of _ l]) (auto simp: setDefaultConfigValues_def Let_def)
qed

lemma overwriteConfig_ok:
  assumes "overwriteConfig os vmArgs Marshal j m sock path w = (None, j', w')"
  shows "\<exists>p l. spec_Process (configSpec j) = Some p \<and> user_UID p = 0 \<and> user_GID p = 0 \<and>
    spec_Linux (configSpec j) = Some l \<and>
    Config_of j' = Config_of j \<and> runc_vmID j' = runc_vmID j \<and>
    confined_spec j (configSpec j') \<and> spec_other (configSpec j') = spec_other (configSpec j) \<and>
    (\<exists>bytes. Marshal (configSpec j') = Inr bytes \<and> os_WriteFile os path bytes 256 w = (None, w')) \<and>
    (\<exists>l'. spec_Linux (configSpec j') = Some l' \<and>
       linux_Namespaces l' = (if fc_NetNS m \<noteq> [] then set_network_path (fc_NetNS m) (linux_Namespaces l)
                              else linux_Namespaces l))"
proof -
  from assms obtain p spec where p: "spec_Process (configSpec j) = Some p" "user_UID p = 0" "user_GID p = 0"
      and d: "setDefaultConfigValues vmArgs j sock (configSpec j) = Inr spec"
    by (simp add: overwriteConfig_def Let_def split: option.splits if_splits sum.splits)
  from setDefaultConfigValues_ok[OF d p(1)] obtain p' l where
      l: "spec_Linux (configSpec j) = Some l" and a: "process_Args p' \<noteq> None"
      and spec: "spec = (configSpec j)\<lparr>spec_Process := Some p',
                    spec_Linux := Some (l\<lparr>linux_CgroupsPath := runc_CgroupPath j\<rparr>)\<rparr>"
    by blast
  from assms p d spec obtain r where r: "spec_Root (configSpec j) = Some r"
    by (cases "spec_Root (configSpec j)") (simp_all add: overwriteConfig_def Let_def)
  define l1 where "l1 = (if fc_NetNS m \<noteq> []
      then (l\<lparr>linux_CgroupsPath := runc_CgroupPath j\<rparr>)\<lparr>linux_Namespaces := set_network_path (fc_NetNS m) (linux_Namespaces l)\<rparr>
      else l\<lparr>linux_CgroupsPath := runc_CgroupPath j\<rparr>)"
  define res where "res = (case linux_Resources l1 of None \<Rightarrow> \<lparr>res_CPU = None, res_other = []\<rparr> | Some res \<Rightarrow> res)"
  define cpu where "cpu = (case res_CPU res of None \<Rightarrow> \<lparr>Cpus = [], cpu_Mems = [], cpu_other = []\<rparr> | Some c \<Rightarrow> c)
      \<lparr>Cpus := rj_CPUs_cfg (Config_of j), cpu_Mems := rj_Mems_cfg (Config_of j)\<rparr>"
  define new where "new = spec\<lparr>spec_Process := Some (p'\<lparr>user_UID := UID (Config_of j), user_GID := GID (Config_of j)\<rparr>),
      spec_Root := Some \<lparr>root_Path = rootfsFolder, root_Readonly = False\<rparr>,
      spec_Linux := Some (l1\<lparr>linux_Resources := Some (res\<lparr>res_CPU := Some cpu\<rparr>)\<rparr>)\<rparr>"
  have "overwriteConfig os vmArgs Marshal j m sock path w =
      (case Marshal new of
         Inl err \<Rightarrow> (Some err, j\<lparr>configSpec := new\<rparr>, w)
       | Inr bytes \<Rightarrow> (case os_WriteFile os path bytes 256 w of (r, w) \<Rightarrow> (r, j\<lparr>configSpec := new\<rparr>, w)))"
    using p d r
    by (simp add: overwriteConfig_def new_def cpu_def res_def l1_def spec Let_def
        split: sum.splits prod.splits option.splits)
  with assms obtain bytes where "Marshal new = Inr bytes" "os_WriteFile os path bytes 256 w = (None, w')"
      and j': "j' = j\<lparr>configSpec := new\<rparr>"
    by (auto split: sum.splits prod.splits)
  moreover have "confined_spec j new"
    using a by (simp add: confined_spec_def new_def l1_def cpu_def)
  moreover have "spec_other new = spec_other (configSpec j)"
    by (simp add: new_def spec)
  moreover have "\<exists>l'. spec_Linux new = Some l' \<and>
       linux_Namespaces l' = (if fc_NetNS m \<noteq> [] then set_network_path (fc_NetNS m) (linux_Namespaces l)
                              else linux_Namespaces l)"
    by (simp add: new_def l1_def)
  ultimately show ?thesis
    using p l by simp
qed

text \<open>
  C20: When \<open>overwriteConfig\<close> succeeds, the specification it has written for runc is confined: the
  process runs as the jailer's user and group, its root is the jail's rootfs, its cgroup is
  the VM's own, its CPU set is the configured one; its first network namespace is the
  configured one if there is any, and everything outside process, root and Linux section
  is the template's. The template itself had no user set, and because the copy shares
  the template's pointers, a second run with this jailer is refused.
\<close>

theorem overwriteConfig_confines:
  assumes "overwriteConfig os vmArgs Marshal j m sock path w = (None, j', w')"
    and "UID (Config_of j) \<noteq> 0"
  shows "confined_spec j (configSpec j') \<and>
     (\<exists>bytes. Marshal (configSpec j') = Inr bytes \<and> os_WriteFile os path bytes 256 w = (None, w')) \<and>
     getNetNS (configSpec j') =
       (if fc_NetNS m \<noteq> [] \<and> (\<exists>l ns. spec_Linux (configSpec j) = Some l \<and> ns \<in> set (linux_Namespaces l) \<and>
              ns_Type ns = networkNamespaceRuncName)
        then Inr (fc_NetNS m) else getNetNS (configSpec j)) \<and>
     spec_other (configSpec j') = spec_other (configSpec j) \<and>
     (\<exists>args. fst (overwriteConfig os vmArgs Marshal j' m2 sock2 path2 w2) =
        Some (Errorf ''using UID %d and GID %d, these values must not be set'' args))"
proof -
  from overwriteConfig_ok[OF assms(1)] obtain p l l' where
      p: "spec_Process (configSpec j) = Some p" and l: "spec_Linux (configSpec j) = Some l"
      and c: "confined_spec j (configSpec j')" "spec_other (configSpec j') = spec_other (configSpec j)"
      and w: "\<exists>bytes. Marshal (configSpec j') = Inr bytes \<and> os_WriteFile os path bytes 256 w = (None, w')"
      and l': "spec_Linux (configSpec j') = Some l'"
      and ns: "linux_Namespaces l' = (if fc_NetNS m \<noteq> [] then set_network_path (fc_NetNS m) (linux_Namespaces l)
                              else linux_Namespaces l)"
    by blast
  have "getNetNS (configSpec j') =
       (if fc_NetNS m \<noteq> [] \<and> (\<exists>ns \<in> set (linux_Namespaces l). ns_Type ns = networkNamespaceRuncName)
        then Inr (fc_NetNS m) else getNetNS (configSpec j))"
  proof (cases "find (\<lambda>ns. ns_Type ns = networkNamespaceRuncName) (linux_Namespaces l)")
    case None
    moreover from None have "\<not> (\<exists>ns \<in> set (linux_Namespaces l). ns_Type ns = networkNamespaceRuncName)"
      by (auto simp: find_None_iff)
    ultimately show ?thesis using l l' ns by (simp add: getNetNS_def find_set_network_path)
  next
    case (Some n)
    moreover from Some have "\<exists>ns \<in> set (linux_Namespaces l). ns_Type ns = networkNamespaceRuncName"
      by (auto simp: find_Some_iff)
    ultimately show ?thesis using l l' ns by (simp add: getNetNS_def find_set_network_path)
  qed
  moreover from c(1) obtain p' where "spec_Process (configSpec j') = Some p'" "user_UID p' = UID (Config_of j)"
    by (auto simp: confined_spec_def split: option.splits)
  then have "\<exists>args. fst (overwriteConfig os vmArgs Marshal j' m2 sock2 path2 w2) =
        Some (Errorf ''using UID %d and GID %d, these values must not be set'' args)"
    using assms(2) by (simp add: overwriteConfig_def)
  ultimately show ?thesis
    using c w l by auto
qed

definition example_machine :: "unit fc_Config" where
  "example_machine =
     \<lparr>fc_SocketPath = ''/s/firecracker.sock'', fc_LogFifo = ''/s/l'', fc_LogLevel = [], fc_MetricsFifo = ''/s/m'',
      fc_KernelImagePath = ''/k'', fc_KernelArgs = [],
      fc_Drives = [\<lparr>DriveID = ''root_drive'', PathOnHost = ''/d/r'', IsReadOnly = True, drive_RateLimiter = None,
        IsRootDevice = True, Partuuid = []\<rparr>],
      fc_NetworkInterfaces = [], fc_VsockDevices = [(''firecracker.vsock'', ''agent_api'')],
      fc_MachineCfg = \<lparr>CPUTemplate = [], VcpuCount = 1, MemSizeMib = 128, HtEnabled = False\<rparr>,
      fc_VMID = ''vm'', fc_NetNS = ''/n''\<rparr>"

theorem overwriteConfig_confines_witness:
  "\<exists>j'. overwriteConfig os_fine (\<lambda>b s. [b, s]) (\<lambda>_. Inr ''x'') example_jailer example_machine ''s'' ''p'' () = (None, j', ())
     \<and> getNetNS (configSpec j') = Inr ''/n''"
proof -
  define r where "r = overwriteConfig os_fine (\<lambda>b s. [b, s]) (\<lambda>_. Inr ''x'') example_jailer example_machine ''s'' ''p'' ()"
  have "fst r = None"
    by (simp add: r_def overwriteConfig_def setDefaultConfigValues_def os_fine_def example_jailer_def example_spec_def Let_def)
  then obtain j' where e: "overwriteConfig os_fine (\<lambda>b s. [b, s]) (\<lambda>_. Inr ''x'') example_jailer example_machine ''s'' ''p'' () = (None, j', ())"
    by (cases r) (auto simp: r_def)
  have u: "UID (Config_of example_jailer) \<noteq> 0" by (simp add: example_jailer_def)
  from overwriteConfig_confines[OF e u] have "getNetNS (configSpec j') = Inr ''/n''"
    by (auto simp: example_jailer_def example_spec_def example_machine_def networkNamespaceRuncName_def)
  with e show ?thesis by blast
qed

section \<open>Exposing a file\<close>

text \<open>
  What a run of \<open>ExposeFileToJail\<close> for the file \<open>src\<close> may do to the file system, with the
  destination given by its components.
\<close>

fun expose_event :: "runcJailer \<Rightarrow> string \<Rightarrow> string list \<Rightarrow> os_event list \<Rightarrow> os_event \<Rightarrow> bool" where
  "expose_event j src dst t (EvMkdir p mode r) = (mode = 448 \<and> (\<exists>k. p = abs_path (take k dst)))"
| "expose_event j src dst t (EvChown p u g r) =
     (u = unat (UID (Config_of j)) \<and> g = unat (GID (Config_of j)) \<and>
      (p = abs_path dst \<or> EvMkdir p 448 None \<in> set t))"
| "expose_event j src dst t (EvChmod p mode r) = (p = abs_path dst)"
| "expose_event j src dst t (EvCp a b r) = (a = src \<and> b = abs_path dst)"
| "expose_event j src dst t (EvMknod p dev r) = (p = abs_path dst)"
| "expose_event j src dst t e = False"

lemma expose_event_mono:
  "expose_event j src dst t e \<Longrightarrow> set t \<subseteq> set t' \<Longrightarrow> expose_event j src dst t' e"
  by (cases e) auto

lemma Join_dir_component:
  assumes "\<forall>c \<in> set rs. good_comp c" "c = [] \<or> good_comp c"
  shows "filepath_Join [abs_path rs, c] = abs_path (if c = [] then rs else rs @ [c])"
proof (cases "c = []")
  case True
  have "filepath_Join [abs_path rs, []] = abs_path (path_comps (abs_path rs @ CHR ''/'' # []))"
    by (simp add: filepath_Join_def abs_path_def filepath_Clean_rooted)
  also have "\<dots> = abs_path rs"
    using assms(1) by (simp only: path_comps_append_slash) simp
  finally show ?thesis using True by simp
next
  case False
  with assms show ?thesis by (simp add: filepath_Join_good)
qed

lemma mkdirAndChown_traced:
  assumes "mkdirAndChown (traced_os os) p 448 (UID (Config_of j)) (GID (Config_of j)) (w, t) = (r, (w', t'))"
    and "p = abs_path (take k dst)"
  shows "\<exists>ts. t' = t @ ts \<and> (\<forall>e \<in> set ts. expose_event j src dst ts e)"
  using assms
  by (auto simp: mkdirAndChown_def note_ev_def split: prod.splits option.splits)

lemma mkdirAll_loop_traced:
  assumes "mkdirAll_loop (traced_os os) 448 (UID (Config_of j)) (GID (Config_of j)) (abs_path rs) cs (w, t) = (r, (w', t'))"
    and "\<forall>c \<in> set rs. good_comp c" "\<forall>c \<in> set cs. c = [] \<or> good_comp c"
    and "dst = rs @ filter (\<lambda>c. c \<noteq> []) cs @ ds"
  shows "\<exists>ts. t' = t @ ts \<and> (\<forall>e \<in> set ts. expose_event j src dst ts e)"
  using assms
proof (induction cs arbitrary: rs w t)
  case Nil
  then show ?case by simp
next
  case (Cons c cs)
  let ?rs = "if c = [] then rs else rs @ [c]"
  have p: "filepath_Join [abs_path rs, c] = abs_path ?rs"
    using Cons.prems by (intro Join_dir_component) auto
  have good: "\<forall>c \<in> set ?rs. good_comp c"
    using Cons.prems by auto
  have d: "dst = ?rs @ filter (\<lambda>c. c \<noteq> []) cs @ ds"
    using Cons.prems(4) by auto
  obtain r1 w1 t1 where m: "mkdirAndChown (traced_os os) (abs_path ?rs) 448 (UID (Config_of j)) (GID (Config_of j)) (w, t)
      = (r1, (w1, t1))"
    by (metis prod_cases3)
  have "abs_path ?rs = abs_path (take (length ?rs) dst)"
    using d by auto
  from mkdirAndChown_traced[OF m this, of src] obtain us where us: "t1 = t @ us" "\<forall>e \<in> set us. expose_event j src dst us e"
    by blast
  show ?case
  proof (cases "\<exists>err. r1 = Some err \<and> \<not> os_IsExist err")
    case True
    with Cons.prems(1) m p have "t' = t1" by auto
    with us show ?thesis by blast
  next
    case False
    with Cons.prems(1) m p
    have "mkdirAll_loop (traced_os os) 448 (UID (Config_of j)) (GID (Config_of j)) (abs_path ?rs) cs (w1, t1) = (r, (w', t'))"
      by (auto simp: Let_def split: option.splits if_splits)
    from Cons.IH[OF this good _ d] Cons.prems(3) obtain vs where
        "t' = t1 @ vs" "\<forall>e \<in> set vs. expose_event j src dst vs e"
      by auto
    with us show ?thesis
      by (intro exI[of _ "us @ vs"]) (auto elim!: expose_event_mono)
  qed
qed

lemma mkdirAllWithPermissions_traced:
  assumes "mkdirAllWithPermissions (traced_os os) (abs_path cs) 448 (UID (Config_of j)) (GID (Config_of j)) (w, t) = (r, (w', t'))"
    and cs: "\<forall>c \<in> set cs. good_comp c"
    and "dst = cs @ ds"
  shows "\<exists>ts. t' = t @ ts \<and> (\<forall>e \<in> set ts. expose_event j src dst ts e)"
proof -
  define parts where "parts = (if cs = [] then [[], []] else [] # cs)"
  have "strings_Split (CHR ''/'') (abs_path cs) = parts"
  proof (cases "cs = []")
    case True
    then show ?thesis by (simp add: abs_path_def parts_def)
  next
    case False
    have "strings_Split (CHR ''/'') (strings_Join (CHR ''/'') cs) = cs"
      using cs False good_comp_no_slash by (intro strings_Split_Join) auto
    with False show ?thesis
      unfolding abs_path_def strings_Split_slash_Cons parts_def by simp
  qed
  moreover have "strings_HasPrefix (abs_path cs) ''/''"
    by (simp add: strings_HasPrefix_def abs_path_def)
  moreover have "abs_path [] = ''/''"
    by (simp add: abs_path_def)
  ultimately have loop: "mkdirAll_loop (traced_os os) 448 (UID (Config_of j)) (GID (Config_of j)) (abs_path []) parts (w, t) = (r, (w', t'))"
    using assms(1) cs by (simp add: mkdirAllWithPermissions_def)
  have "\<forall>c \<in> set parts. c = [] \<or> good_comp c" and "filter (\<lambda>c. c \<noteq> []) parts = cs"
    using cs by (auto simp: parts_def good_comp_def filter_id_conv)
  from mkdirAll_loop_traced[OF loop _ this(1), of dst ds src] this(2) assms(3)
  show ?thesis by simp
qed

lemma exposeBlockDevice_traced:
  assumes "exposeBlockDeviceToJail (traced_os os) (abs_path dst) rdev (UID (Config_of j)) (GID (Config_of j)) (w, t) = (r, (w', t'))"
  shows "\<exists>ts. t' = t @ ts \<and> (\<forall>e \<in> set ts. expose_event j src dst ts e)"
  using assms
  by (auto simp: exposeBlockDeviceToJail_def note_ev_def split: prod.splits option.splits)

lemma copyFileToJail_traced:
  assumes "copyFileToJail (traced_os os) j src (abs_path dst) mode (w, t) = (r, (w', t'))"
  shows "\<exists>ts. t' = t @ ts \<and> (\<forall>e \<in> set ts. expose_event j src dst ts e)"
  using assms
  by (auto simp: copyFileToJail_def copyFile_def note_ev_def split: prod.splits option.splits)

lemma S_IFREG_not_S_IFBLK [simp]: "S_IFREG \<noteq> S_IFBLK" "S_IFBLK \<noteq> S_IFREG"
  by (simp_all add: S_IFREG_def S_IFBLK_def)

text \<open>Where the file of an absolute path goes.\<close>

lemma jail_destination:
  assumes rs: "\<forall>c \<in> set rs. good_comp c" and "rooted src"
  shows "\<exists>ds. filepath_Join [abs_path rs, filepath_Dir src] = abs_path (rs @ ds) \<and> (\<forall>d \<in> set ds. good_comp d) \<and>
     filepath_Dir src = abs_path ds"
proof -
  define d where "d = rev (dropWhile (\<lambda>c. c \<noteq> CHR ''/'') (rev src))"
  obtain s where s: "src = CHR ''/'' # s" using assms(2) by (cases src) auto
  have "\<exists>u. d = CHR ''/'' # u"
    unfolding d_def s by (auto simp: dropWhile_append intro: exI[of _ "rev x" for x])
  then have dir: "filepath_Dir src = abs_path (path_comps d)"
    unfolding filepath_Dir_def d_def[symmetric] by (intro filepath_Clean_rooted) auto
  let ?ds = "path_comps d"
  have g: "\<forall>c \<in> set ?ds. good_comp c" by (rule path_comps_good)
  have "filepath_Join [abs_path rs, abs_path ?ds] = abs_path (path_comps (abs_path rs @ CHR ''/'' # abs_path ?ds))"
    by (simp add: filepath_Join_def abs_path_def filepath_Clean_rooted)
  also have "path_comps (abs_path rs @ CHR ''/'' # abs_path ?ds) = rs @ ?ds"
  proof (cases "?ds = []")
    case True
    then show ?thesis using rs by (simp only: path_comps_append_slash) (simp add: abs_path_def path_comps_Join)
  next
    case False
    have "strings_Split (CHR ''/'') (strings_Join (CHR ''/'') ?ds) = ?ds"
      using g False good_comp_no_slash by (intro strings_Split_Join) auto
    then have "strings_Split (CHR ''/'') (abs_path ?ds) = [] # ?ds"
      unfolding abs_path_def strings_Split_slash_Cons by simp
    with rs g show ?thesis
      by (simp only: path_comps_append_slash) (simp add: foldl_clean_step_good)
  qed
  finally show ?thesis using g dir by (intro exI[of _ ?ds]) simp
qed

text \<open>
  C18: Exposing an absolute file to a jail stays in the jail. Whatever the system calls answer,
  the copy, the device node and every change of mode go to the one destination below the
  jail's root; new directories are made with mode 0700 on the way to it; and the owner is
  changed, to the jailer's user and group, only of the destination and of directories that
  this call has itself created. Only the source file is copied.
\<close>

theorem ExposeFileToJail_confined:
  assumes "runc_RootPath j = abs_path rs" and "\<forall>c \<in> set rs. good_comp c"
    and "rooted src" and "good_comp (filepath_Base src)"
    and "ExposeFileToJail (traced_os os) (RuncJ j) src (w, []) = (r, (w', t))"
  shows "\<exists>ds. filepath_Dir src = abs_path ds \<and>
     (\<forall>e \<in> set t. expose_event j src (rs @ ds @ [filepath_Base src]) t e)"
proof -
  from jail_destination[OF assms(2,3)] obtain ds where
      ds: "filepath_Join [abs_path rs, filepath_Dir src] = abs_path (rs @ ds)" "\<forall>d \<in> set ds. good_comp d"
      and dir: "filepath_Dir src = abs_path ds"
    by blast
  let ?dst = "rs @ ds @ [filepath_Base src]"
  have dst: "filepath_Join [abs_path (rs @ ds), filepath_Base src] = abs_path ?dst"
    using assms(2,4) ds(2) by (subst filepath_Join_good) auto
  obtain st w1 where st: "os_Stat os src w = (st, w1)" by fastforce
  show ?thesis
  proof (cases st)
    case (Inl err)
    with assms(5) st have "t = []" by (simp add: runc_ExposeFileToJail_def quiet_def)
    with dir show ?thesis by (intro exI[of _ ds]) simp
  next
    case (Inr info)
    let ?blk = "and (fi_mode info) S_IFMT = S_IFBLK" and ?reg = "and (fi_mode info) S_IFMT = S_IFREG"
    obtain r1 w2 t1 where m: "mkdirAllWithPermissions (traced_os os) (abs_path (rs @ ds)) 448 (UID (Config_of j))
        (GID (Config_of j)) (w1, []) = (r1, (w2, t1))"
      by (metis prod_cases3)
    from mkdirAllWithPermissions_traced[OF m _ append_assoc[symmetric], of src] assms(2) ds(2)
    have t1: "\<forall>e \<in> set t1. expose_event j src ?dst t1 e" by auto
    show ?thesis
    proof (cases "?blk \<or> ?reg")
      case False
      with assms(5) st Inr have "t = []" by (simp add: runc_ExposeFileToJail_def quiet_def Let_def)
      with dir show ?thesis by (intro exI[of _ ds]) simp
    next
      case True
      show ?thesis
      proof (cases r1)
        case (Some err)
        with assms(1,5) st Inr m True have "t = t1"
          by (auto simp: runc_ExposeFileToJail_def quiet_def Let_def ds(1))
        with t1 dir show ?thesis by blast
      next
        case None
        then have "(if ?blk then exposeBlockDeviceToJail (traced_os os) (abs_path ?dst) (fi_rdev info) (UID (Config_of j))
             (GID (Config_of j)) (w2, t1) else copyFileToJail (traced_os os) j src (abs_path ?dst) (fi_mode info) (w2, t1))
           = (r, (w', t))"
          using assms(1,5) st Inr m True
          by (auto simp: runc_ExposeFileToJail_def quiet_def Let_def ds(1) dst)
        then obtain ts where "t = t1 @ ts" "\<forall>e \<in> set ts. expose_event j src ?dst ts e"
          using exposeBlockDevice_traced copyFileToJail_traced by (metis (no_types, lifting))
        with t1 dir show ?thesis
          by (intro exI[of _ ds]) (auto elim!: expose_event_mono)
      qed
    qed
  qed
qed

theorem ExposeFileToJail_confined_witness:
  "\<exists>ds. filepath_Dir ''/d/r'' = abs_path ds \<and>
     (\<forall>e \<in> set (snd (snd (ExposeFileToJail (traced_os os_fine) (RuncJ example_jailer) ''/d/r'' ((), [])))).
        expose_event example_jailer ''/d/r'' ([''b'', ''rootfs''] @ ds @ [''r'']) (snd (snd (ExposeFileToJail (traced_os os_fine) (RuncJ example_jailer) ''/d/r'' ((), [])))) e)"
proof -
  define x where "x = ExposeFileToJail (traced_os os_fine) (RuncJ example_jailer) ''/d/r'' ((), [])"
  have x: "ExposeFileToJail (traced_os os_fine) (RuncJ example_jailer) ''/d/r'' ((), []) = (fst x, ((), snd (snd x)))"
    by (simp add: x_def prod_eq_iff)
  have root: "runc_RootPath example_jailer = abs_path [''b'', ''rootfs'']"
    by (simp add: runc_RootPath_def OCIBundlePath_def example_jailer_def rootfsFolder_def abs_path_def path_simps)
  have base: "filepath_Base ''/d/r'' = ''r''" by (simp add: path_simps)
  have good: "\<forall>c \<in> set [''b'', ''rootfs'']. good_comp c" "good_comp (filepath_Base ''/d/r'')"
    by (simp_all add: base good_comp_def)
  have "rooted ''/d/r''" by simp
  from ExposeFileToJail_confined[OF root good(1) this good(2) x] show ?thesis
    unfolding base x_def[symmetric] .
qed

section \<open>Closing a jail\<close>

lemma runc_Close_removes:
  "runc_Close (traced_os os) \<lparr>runc_Delete = (\<lambda>i. quiet (runc_Delete rc i)), runc_Kill = k\<rparr> j (w, []) =
     (case runc_Delete rc (runc_vmID j) w of (e1, w1) \<Rightarrow>
      case os_RemoveAll os (OCIBundlePath j) w1 of (e2, w2) \<Rightarrow>
        (multi_error_or_nil (multi_append (multi_append [] e1) e2), (w2, [EvRemoveAll (OCIBundlePath j) e2])))"
  by (simp add: runc_Close_def quiet_def note_ev_def split: prod.splits)

text \<open>
  Closing a jailer always removes its directory, once: the OCI bundle for runc, even when
  \<open>runc delete\<close> fails, and the shim directory for the noop jailer. The result is nil exactly
  when every step succeeded (an error without any content apart).
\<close>

theorem jailer_Close_removes:
  "\<exists>w1 e2 w2. os_RemoveAll os (case j of Noop n \<Rightarrow> noop_shimDir n | RuncJ r \<Rightarrow> OCIBundlePath r) w1 = (e2, w2) \<and>
     jailer_Close (traced_os os) \<lparr>runc_Delete = (\<lambda>i. quiet (runc_Delete rc i)), runc_Kill = k\<rparr> j (w, []) =
       (case j of Noop n \<Rightarrow> e2
          | RuncJ r \<Rightarrow> multi_error_or_nil (multi_append (multi_append [] (fst (runc_Delete rc (runc_vmID r) w))) e2),
        (w2, [EvRemoveAll (case j of Noop n \<Rightarrow> noop_shimDir n | RuncJ r \<Rightarrow> OCIBundlePath r) e2])) \<and>
     w1 = (case j of Noop n \<Rightarrow> w | RuncJ r \<Rightarrow> snd (runc_Delete rc (runc_vmID r) w))"
  by (cases j) (auto simp: runc_Close_removes noop_Close_def RootPath_def note_ev_def split: prod.splits)

section \<open>The jail handler\<close>

definition is_cp :: "os_event \<Rightarrow> bool" where
  "is_cp e = (case e of EvCp a b r \<Rightarrow> True | _ \<Rightarrow> False)"

text \<open>The trace of one file that is copied and given to the jailer's user.\<close>

definition given_file :: "runcJailer \<Rightarrow> string \<Rightarrow> string \<Rightarrow> 32 word \<Rightarrow> os_event list" where
  "given_file j src dst mode =
     [EvCp src dst None, EvChmod dst mode None, EvChown dst (unat (UID (Config_of j))) (unat (GID (Config_of j))) None]"

lemma copyFileToJail_ok:
  "copyFileToJail (traced_os os) j src dst mode (w, t) = (None, (w', t')) \<Longrightarrow> t' = t @ given_file j src dst mode"
  by (auto simp: copyFileToJail_def copyFile_def note_ev_def given_file_def split: prod.splits option.splits)

definition jailed_drive :: "Drive \<Rightarrow> Drive" where
  "jailed_drive d = d\<lparr>PathOnHost := filepath_Base (PathOnHost d)\<rparr>"

definition drive_trace :: "runcJailer \<Rightarrow> Drive \<Rightarrow> os_event list" where
  "drive_trace j d = given_file j (PathOnHost d) (filepath_Join [runc_RootPath j, filepath_Base (PathOnHost d)])
     (if IsReadOnly d then 256 else 384)"

lemma traced_open_close:
  "os_Open (traced_os os) p = quiet (os_Open os p)" "os_Close (traced_os os) p = quiet (os_Close os p)"
  "os_WriteFile (traced_os os) p c n = quiet (os_WriteFile os p c n)"
  by (simp_all add: traced_os_def)

text \<open>The drives that are copied into the jail, given what was read from the file of each: those without the mark of a stub drive.\<close>

definition copied_drives :: "Drive list \<Rightarrow> string list \<Rightarrow> Drive list" where
  "copied_drives ds fs = map fst (filter (\<lambda>(d, f). \<not> prefix MagicStubBytes f) (zip ds fs))"

text \<open>What opening the file of a drive has given, at some moment of the run.\<close>

definition opened :: "'w os \<Rightarrow> Drive \<Rightarrow> string \<Rightarrow> bool" where
  "opened os d f \<longleftrightarrow> (\<exists>w w'. os_Open os (PathOnHost d) w = (Inr f, w'))"

lemma IsStubDrive_file: "fst (IsStubDrive file_read f) \<longleftrightarrow> prefix MagicStubBytes f"
  using file_r.IsStubDrive_iff by (simp add: prefix_def)

lemma jail_drives_ok:
  assumes "jail_drives (traced_os os) j ds (w, t) = (None, ds', (w', t'))"
  shows "ds' = map jailed_drive ds \<and>
     (\<exists>fs. list_all2 (opened os) ds fs \<and> t' = t @ concat (map (drive_trace j) (copied_drives ds fs)))"
  using assms
proof (induction ds arbitrary: w t ds')
  case Nil
  then show ?case by (simp add: copied_drives_def)
next
  case (Cons d ds)
  obtain f w1 where o: "os_Open os (PathOnHost d) w = (Inr f, w1)"
    using Cons.prems by (cases "os_Open os (PathOnHost d) w"; cases "fst (os_Open os (PathOnHost d) w)")
      (auto simp: Let_def traced_open_close quiet_def)
  define c where "c = (if \<not> fst (IsStubDrive file_read f)
      then copyFileToJail (traced_os os) j (PathOnHost d)
             (filepath_Join [runc_RootPath j, filepath_Base (PathOnHost d)]) (if IsReadOnly d then 256 else 384) (w1, t)
      else (None, (w1, t)))"
  obtain r w2 t2 where c: "c = (r, (w2, t2))" by (cases c) auto
  have r: "r = None"
    using Cons.prems o c by (cases r) (auto simp: Let_def traced_open_close quiet_def c_def[symmetric])
  have t2: "t2 = t @ (if prefix MagicStubBytes f then [] else drive_trace j d)"
    using c r unfolding c_def drive_trace_def IsStubDrive_file by (auto split: if_splits dest: copyFileToJail_ok)
  obtain ds1 w3 where rest: "jail_drives (traced_os os) j ds (w3, t2) = (None, ds1, (w', t'))"
      and ds': "ds' = jailed_drive d # ds1"
    using Cons.prems o c r
    by (auto simp: Let_def traced_open_close quiet_def c_def[symmetric] jailed_drive_def split: prod.splits)
  from Cons.IH[OF rest] obtain fs where fs: "ds1 = map jailed_drive ds" "list_all2 (opened os) ds fs"
      "t' = t2 @ concat (map (drive_trace j) (copied_drives ds fs))"
    by blast
  have "opened os d f" using o unfolding opened_def by blast
  with fs t2 ds' show ?case
    by (intro conjI exI[of _ "f # fs"]) (simp_all add: copied_drives_def)
qed

text \<open>
  C21: When the jail handler succeeds, the machine configuration that Firecracker gets names only
  files inside the jail: the kernel image and every drive by their names in its root, every
  vsock by its name below "/"; nothing else of it is changed. It has copied, in this
  order, runc's configuration, the Firecracker binary, the kernel and exactly those drives whose
  file, when it was opened, did not begin with the mark of a stub drive; and each file in the jail then had its mode set (0500, 0400, and for
  drives 0400 or 0600) and belongs to the jailer's user.
\<close>

theorem jail_handler_localizes:
  assumes "jail_handler (traced_os os) vmArgs Marshal cfg j m (w, []) = (None, j', m', (w', t))"
  shows "m' = m\<lparr>fc_KernelImagePath := kernelImageFileName, fc_Drives := map jailed_drive (fc_Drives m),
             fc_VsockDevices := map (\<lambda>(p, i). (filepath_Join [''/'', filepath_Base p], i)) (fc_VsockDevices m)\<rparr> \<and>
     (\<exists>fs. list_all2 (opened os) (fc_Drives m) fs \<and>
        t = [EvCp (RuncConfigPath_cfg (Config_of j)) (filepath_Join [OCIBundlePath j, ''config.json'']) None,
             EvChmod (filepath_Join [OCIBundlePath j, ''config.json'']) 256 None]
          @ given_file j (FirecrackerBinaryPath cfg) (filepath_Join [runc_RootPath j, firecrackerFileName]) 320
          @ given_file j (fc_KernelImagePath m) (filepath_Join [runc_RootPath j, kernelImageFileName]) 256
          @ concat (map (drive_trace j) (copied_drives (fc_Drives m) fs)))"
proof -
  define cj where "cj = filepath_Join [OCIBundlePath j, ''config.json'']"
  define fj where "fj = filepath_Join [runc_RootPath j, firecrackerFileName]"
  define kj where "kj = filepath_Join [runc_RootPath j, kernelImageFileName]"
  obtain r1 w1 t1 where c1: "copyFile (traced_os os) (RuncConfigPath_cfg (Config_of j)) cj 256 (w, []) = (r1, (w1, t1))"
    by (metis prod_cases3)
  obtain r2 j2 w2 t2 where c2: "overwriteConfig (traced_os os) vmArgs Marshal j m (filepath_Base (fc_SocketPath m)) cj (w1, t1)
      = (r2, j2, (w2, t2))"
    by (metis prod_cases4)
  obtain r3 w3 t3 where c3: "copyFileToJail (traced_os os) j2 (FirecrackerBinaryPath cfg) fj 320 (w2, t2) = (r3, (w3, t3))"
    by (metis prod_cases3)
  obtain r4 w4 t4 where c4: "copyFileToJail (traced_os os) j2 (fc_KernelImagePath m) kj 256 (w3, t3) = (r4, (w4, t4))"
    by (metis prod_cases3)
  obtain r5 ds w5 t5 where c5: "jail_drives (traced_os os) j2 (fc_Drives m) (w4, t4) = (r5, ds, (w5, t5))"
    by (metis prod_cases4)
  have "r1 = None"
    using assms c1 by (cases r1) (simp_all add: jail_handler_def Let_def cj_def)
  moreover from this have "r2 = None"
    using assms c1 c2 by (cases r2) (simp_all add: jail_handler_def Let_def cj_def)
  moreover from calculation have "r3 = None"
    using assms c1 c2 c3 by (cases r3) (simp_all add: jail_handler_def Let_def cj_def fj_def)
  moreover from calculation have "r4 = None"
    using assms c1 c2 c3 c4 by (cases r4) (simp_all add: jail_handler_def Let_def cj_def fj_def kj_def)
  moreover from calculation have "r5 = None"
    using assms c1 c2 c3 c4 c5 by (cases r5) (simp_all add: jail_handler_def Let_def cj_def fj_def kj_def)
  ultimately have m': "m' = m\<lparr>fc_KernelImagePath := kernelImageFileName, fc_Drives := ds,
         fc_VsockDevices := jail_vsocks (fc_VsockDevices m)\<rparr>" and t: "t = t5"
      and n: "r1 = None" "r2 = None" "r3 = None" "r4 = None" "r5 = None"
    using assms c1 c2 c3 c4 c5 by (simp_all add: jail_handler_def Let_def cj_def fj_def kj_def)
  from c1 n have t1: "t1 = [EvCp (RuncConfigPath_cfg (Config_of j)) cj None, EvChmod cj 256 None]"
    by (auto simp: copyFile_def note_ev_def split: prod.splits option.splits)
  from overwriteConfig_ok[OF c2[unfolded n]] obtain bytes where
      j2: "Config_of j2 = Config_of j" and wr: "os_WriteFile (traced_os os) cj bytes 256 (w1, t1) = (None, (w2, t2))"
    by blast
  from wr have t2: "t2 = t1"
    by (auto simp: traced_open_close quiet_def split: prod.splits)
  have same: "given_file j2 = given_file j" "drive_trace j2 = drive_trace j"
    using j2 by (auto simp: fun_eq_iff given_file_def drive_trace_def runc_RootPath_def OCIBundlePath_def)
  from copyFileToJail_ok[OF c3[unfolded n]] copyFileToJail_ok[OF c4[unfolded n]]
  have "t4 = t1 @ given_file j (FirecrackerBinaryPath cfg) fj 320 @ given_file j (fc_KernelImagePath m) kj 256"
    using t2 same by simp
  with jail_drives_ok[OF c5[unfolded n]] m' t t1 same show ?thesis
    unfolding cj_def[symmetric] fj_def[symmetric] kj_def[symmetric] by (auto simp: jail_vsocks_def)
qed

text \<open>A machine with a root drive and a stub drive.\<close>

definition stub_machine :: "unit fc_Config" where
  "stub_machine = example_machine\<lparr>fc_Drives := fc_Drives example_machine @
     [\<lparr>DriveID = ''stub'', PathOnHost = ''/d/s'', IsReadOnly = False, drive_RateLimiter = None, IsRootDevice = False, Partuuid = []\<rparr>]\<rparr>"

definition os_stub :: "unit os" where
  "os_stub = os_fine\<lparr>os_Open := \<lambda>p w. (Inr (if p = ''/d/s'' then MagicStubBytes else []), w)\<rparr>"

theorem jail_handler_localizes_witness:
  "\<exists>j' m' t. jail_handler (traced_os os_stub) (\<lambda>b s. [b, s]) (\<lambda>_. Inr ''x'') example_config example_jailer stub_machine ((), [])
      = (None, j', m', ((), t)) \<and> map PathOnHost (fc_Drives m') = [''r'', ''s''] \<and>
      fc_VsockDevices m' = [(''/firecracker.vsock'', ''agent_api'')] \<and>
      (\<exists>dst. EvCp ''/d/r'' dst None \<in> set t) \<and> (\<forall>dst r. EvCp ''/d/s'' dst r \<notin> set t)"
proof -
  define x where "x = jail_handler (traced_os os_stub) (\<lambda>b s. [b, s]) (\<lambda>_. Inr ''x'') example_config example_jailer stub_machine ((), [])"
  have "fst x = None"
    by (simp add: x_def jail_handler_def copyFileToJail_def copyFile_def overwriteConfig_def setDefaultConfigValues_def os_stub_def
        os_fine_def example_jailer_def example_spec_def example_machine_def stub_machine_def Let_def note_ev_def quiet_def traced_open_close
        split: prod.splits)
  then obtain j' m' t where e: "jail_handler (traced_os os_stub) (\<lambda>b s. [b, s]) (\<lambda>_. Inr ''x'') example_config example_jailer
      stub_machine ((), []) = (None, j', m', ((), t))"
    by (cases x) (auto simp: x_def)
  have b: "filepath_Base ''/d/r'' = ''r''" "filepath_Base ''/d/s'' = ''s''"
      "filepath_Join [''/'', filepath_Base ''firecracker.vsock''] = ''/firecracker.vsock''"
    by (simp_all add: path_simps)
  have ops: "opened os_stub d f \<longleftrightarrow> f = (if PathOnHost d = ''/d/s'' then MagicStubBytes else [])" for d f
    by (auto simp: opened_def os_stub_def)
  have mg: "MagicStubBytes \<noteq> []" by (simp add: MagicStubBytes_def)
  from jail_handler_localizes[OF e] obtain fs where fs: "list_all2 (opened os_stub) (fc_Drives stub_machine) fs"
      and m': "m' = stub_machine\<lparr>fc_KernelImagePath := kernelImageFileName, fc_Drives := map jailed_drive (fc_Drives stub_machine),
             fc_VsockDevices := map (\<lambda>(p, i). (filepath_Join [''/'', filepath_Base p], i)) (fc_VsockDevices stub_machine)\<rparr>"
      and t: "t = [EvCp (RuncConfigPath_cfg (Config_of example_jailer)) (filepath_Join [OCIBundlePath example_jailer, ''config.json'']) None,
             EvChmod (filepath_Join [OCIBundlePath example_jailer, ''config.json'']) 256 None]
          @ given_file example_jailer (FirecrackerBinaryPath example_config) (filepath_Join [runc_RootPath example_jailer, firecrackerFileName]) 320
          @ given_file example_jailer (fc_KernelImagePath stub_machine) (filepath_Join [runc_RootPath example_jailer, kernelImageFileName]) 256
          @ concat (map (drive_trace example_jailer) (copied_drives (fc_Drives stub_machine) fs))"
    by blast
  have fs': "fs = [[], MagicStubBytes]"
    using fs by (auto simp: list_all2_Cons1 ops stub_machine_def example_machine_def)
  have "copied_drives (fc_Drives stub_machine) fs = fc_Drives example_machine"
    using mg by (simp add: copied_drives_def fs' stub_machine_def example_machine_def)
  with t have "(\<exists>dst. EvCp ''/d/r'' dst None \<in> set t) \<and> (\<forall>dst r. EvCp ''/d/s'' dst r \<notin> set t)"
    by (simp add: given_file_def drive_trace_def example_machine_def stub_machine_def example_jailer_def example_config_def)
  with m' e b show ?thesis
    by (simp add: stub_machine_def example_machine_def jailed_drive_def)
qed

end
