(* ===== verification/DriveHandler.thy ===== *)
theory DriveHandler
  imports Jailer Encoding
begin

text \<open>
  \<open>runtime/drive_handler.go\<close>: the stub drives that a VM boots with, and the handler that
  gives them to containers. Firecracker's machine and the agent's drive mounter are
  parameters. The lock of the handler is held for the whole of each operation, so that an
  operation is one function from handler to handler. Every operation returns its
  result, the handler and the world.
\<close>

section \<open>State\<close>

text \<open>The part of \<open>firecracker.MachineIface\<close> that is used on stub drives.\<close>

record 'w machine =
  UpdateGuestDrive :: "string \<Rightarrow> string \<Rightarrow> 'w \<Rightarrow> gerr option \<times> 'w"

definition fcSectorSize :: int where "fcSectorSize = 512"

definition ErrDrivesExhausted :: gerr where
  "ErrDrivesExhausted = Errorf ''There are no remaining drives to be used'' []"

record stubDrive =
  stubPath :: string
  sd_jail :: jailer
  driveID :: string
  driveMount :: FirecrackerDriveMount

record StubDriveHandler =
  freeDrives :: "stubDrive list"
  usedDrives :: "string \<rightharpoonup> stubDrive"

section \<open>Making a stub drive\<close>

text \<open>The loop of \<open>setReadWriteOptions\<close>: the first "ro" or "rw" decides.\<close>

fun first_rw :: "string list \<Rightarrow> string option" where
  "first_rw [] = None"
| "first_rw (opt # opts) = (if opt = ''ro'' \<or> opt = ''rw'' then Some opt else first_rw opts)"

definition setReadWriteOptions :: "string list \<Rightarrow> bool \<Rightarrow> gerr + string list" where
  "setReadWriteOptions options isWritable =
     (let expectedOpt = (if isWritable then ''rw'' else ''ro'') in
      case first_rw options of
        Some opt \<Rightarrow>
          if opt \<noteq> expectedOpt
          then Inl (Errorf ''mount option %s is incompatible with IsWritable=%t''
                 [opt, if isWritable then ''true'' else ''false''])
          else Inr options
      | None \<Rightarrow> Inr (options @ [expectedOpt]))"

definition stubPathToDriveID :: "string \<Rightarrow> string" where
  "stubPathToDriveID stub_path = base32_nopad (filepath_Base stub_path)"

text \<open>The size that the stub file is given; \<open>info.Size()\<close> is not negative.\<close>

definition stub_size :: "int \<Rightarrow> int" where
  "stub_size fileSize =
     (let sectorCount = fileSize div fcSectorSize; driveSize = fcSectorSize * sectorCount;
          remainingBytes = fileSize mod fcSectorSize
      in if remainingBytes \<noteq> 0 then driveSize + fcSectorSize else driveSize)"

fun apply_opts :: "(string \<Rightarrow> 'w \<Rightarrow> gerr option \<times> 'w) list \<Rightarrow> string \<Rightarrow> 'w \<Rightarrow> gerr option \<times> 'w" where
  "apply_opts [] f w = (None, w)"
| "apply_opts (opt # opts) f w =
     (case opt f w of (Some err, w) \<Rightarrow> (Some err, w) | (None, w) \<Rightarrow> apply_opts opts f w)"

text \<open>The part between opening the file and the deferred \<open>Close\<close>.\<close>

definition newStubDrive_body ::
    "'w os \<Rightarrow> string \<Rightarrow> jailer \<Rightarrow> bool \<Rightarrow> FirecrackerRateLimiter option \<Rightarrow> 'w \<Rightarrow> (gerr + stubDrive) \<times> 'w" where
  "newStubDrive_body os stub_path jail isWritable rateLimiter w =
     (let drive_id = stubPathToDriveID stub_path in
      case GenerateStubContent drive_id of
        Inl err \<Rightarrow> (Inl err, w)
      | Inr stubContent \<Rightarrow>
        (case os_WriteString os stub_path stubContent w of
           (Some err, w) \<Rightarrow> (Inl err, w)
         | (None, w) \<Rightarrow>
           (case os_FStatSize os stub_path w of
              (Inl err, w) \<Rightarrow> (Inl err, w)
            | (Inr fileSize, w) \<Rightarrow>
              (case os_Truncate os stub_path (stub_size fileSize) w of
                 (Some err, w) \<Rightarrow> (Inl err, w)
               | (None, w) \<Rightarrow>
                 (case apply_opts (StubDrivesOptions os jail) stub_path w of
                    (Some err, w) \<Rightarrow> (Inl err, w)
                  | (None, w) \<Rightarrow>
                      (Inr \<lparr>stubPath = stub_path, sd_jail = jail, driveID = drive_id,
                         driveMount = \<lparr>dm_HostPath = [], dm_VMPath = [], dm_FilesystemType = [], dm_Options = [],
                            dm_RateLimiter = rateLimiter, dm_IsWritable = isWritable\<rparr>\<rparr>, w))))))"

definition newStubDrive ::
    "'w os \<Rightarrow> string \<Rightarrow> jailer \<Rightarrow> bool \<Rightarrow> FirecrackerRateLimiter option \<Rightarrow> 'w \<Rightarrow> (gerr + stubDrive) \<times> 'w" where
  "newStubDrive os stub_path jail isWritable rateLimiter w =
     (case os_CreateExcl os stub_path 384 w of
        (Some err, w) \<Rightarrow> (Inl err, w)
      | (None, w) \<Rightarrow>
          (let (r, w) = newStubDrive_body os stub_path jail isWritable rateLimiter w;
               (_, w) = os_Close os stub_path w
           in (r, w)))"

definition withMountConfig :: "stubDrive \<Rightarrow> string \<Rightarrow> string \<Rightarrow> string \<Rightarrow> string list \<Rightarrow> stubDrive" where
  "withMountConfig sd hostPath vmPath filesystemType options =
     sd\<lparr>driveMount := \<lparr>dm_HostPath = hostPath, dm_VMPath = vmPath, dm_FilesystemType = filesystemType, dm_Options = options,
          dm_RateLimiter = dm_RateLimiter (driveMount sd), dm_IsWritable = dm_IsWritable (driveMount sd)\<rparr>\<rparr>"

definition PatchAndMount ::
    "'w os \<Rightarrow> 'w machine \<Rightarrow> 'w DriveMounterService \<Rightarrow> stubDrive \<Rightarrow> 'w \<Rightarrow> gerr option \<times> 'w" where
  "PatchAndMount os mc driveMounter sd w =
     (case ExposeFileToJail os (sd_jail sd) (dm_HostPath (driveMount sd)) w of
        (Some err, w) \<Rightarrow> (Some (Wrap err ''failed to expose patched drive contents to jail'' []), w)
      | (None, w) \<Rightarrow>
        (case UpdateGuestDrive mc (driveID sd) (dm_HostPath (driveMount sd)) w of
           (Some err, w) \<Rightarrow> (Some (Wrap err ''failed to patch drive'' []), w)
         | (None, w) \<Rightarrow>
           (case svc_MountDrive driveMounter
                   \<lparr>mdr_DriveID = driveID sd, DestinationPath = dm_VMPath (driveMount sd),
                    FilesytemType = dm_FilesystemType (driveMount sd), mdr_Options = dm_Options (driveMount sd)\<rparr> w of
              (Some err, w) \<Rightarrow> (Some (Wrap err ''failed to mount newly patched drive'' []), w)
            | (None, w) \<Rightarrow> (None, w))))"

section \<open>Creating the stubs of a VM\<close>

definition stub_model :: "'b tb_sdk \<Rightarrow> stubDrive \<Rightarrow> bool \<Rightarrow> FirecrackerRateLimiter option \<Rightarrow> Drive" where
  "stub_model sdk sd isWritable rateLimiter =
     \<lparr>DriveID = driveID sd, PathOnHost = stubPath sd, IsReadOnly = \<not> isWritable,
      drive_RateLimiter = rateLimiterFromProto sdk rateLimiter, IsRootDevice = False, Partuuid = []\<rparr>"

text \<open>The loop, with the drives appended to the machine configuration and the stubs so far.\<close>

fun container_stubs ::
    "'w os \<Rightarrow> 'b tb_sdk \<Rightarrow> jailer \<Rightarrow> nat list \<Rightarrow> 'ip fc_Config \<Rightarrow> stubDrive list \<Rightarrow> 'w \<Rightarrow>
     (gerr + stubDrive list) \<times> 'ip fc_Config \<times> 'w" where
  "container_stubs os sdk jail [] machineCfg stubs w = (Inr stubs, machineCfg, w)"
| "container_stubs os sdk jail (i # is) machineCfg stubs w =
     (case newStubDrive os (filepath_Join [RootPath (JailPath jail), ''ctrstub'' @ utoa i]) jail True None w of
        (Inl err, w) \<Rightarrow> (Inl (Wrap err ''failed to create container stub drive'' []), machineCfg, w)
      | (Inr sd, w) \<Rightarrow>
          container_stubs os sdk jail is (machineCfg\<lparr>fc_Drives := fc_Drives machineCfg @ [stub_model sdk sd True None]\<rparr>)
            (stubs @ [sd]) w)"

definition CreateContainerStubs ::
    "'w os \<Rightarrow> 'b tb_sdk \<Rightarrow> 'ip fc_Config \<Rightarrow> jailer \<Rightarrow> int \<Rightarrow> 'w \<Rightarrow>
     (gerr + StubDriveHandler) \<times> 'ip fc_Config \<times> 'w" where
  "CreateContainerStubs os sdk machineCfg jail containerCount w =
     (case container_stubs os sdk jail [0..<nat containerCount] machineCfg [] w of
        (Inl err, machineCfg, w) \<Rightarrow> (Inl err, machineCfg, w)
      | (Inr stubs, machineCfg, w) \<Rightarrow> (Inr \<lparr>freeDrives = stubs, usedDrives = Map.empty\<rparr>, machineCfg, w))"

fun drive_mount_stubs ::
    "'w os \<Rightarrow> 'b tb_sdk \<Rightarrow> jailer \<Rightarrow> (nat \<times> FirecrackerDriveMount) list \<Rightarrow> 'ip fc_Config \<Rightarrow> stubDrive list \<Rightarrow> 'w \<Rightarrow>
     (gerr + stubDrive list) \<times> 'ip fc_Config \<times> 'w" where
  "drive_mount_stubs os sdk jail [] machineCfg stubs w = (Inr stubs, machineCfg, w)"
| "drive_mount_stubs os sdk jail ((i, dm) # dms) machineCfg stubs w =
     (case setReadWriteOptions (dm_Options dm) (dm_IsWritable dm) of
        Inl err \<Rightarrow> (Inl err, machineCfg, w)
      | Inr options \<Rightarrow>
        (case newStubDrive os (filepath_Join [RootPath (JailPath jail), ''drivemntstub'' @ utoa i]) jail
                (dm_IsWritable dm) (dm_RateLimiter dm) w of
           (Inl err, w) \<Rightarrow> (Inl (Wrap err ''failed to create drive mount stub drive'' []), machineCfg, w)
         | (Inr sd, w) \<Rightarrow>
             drive_mount_stubs os sdk jail dms
               (machineCfg\<lparr>fc_Drives := fc_Drives machineCfg @ [stub_model sdk sd (dm_IsWritable dm) (dm_RateLimiter dm)]\<rparr>)
               (stubs @ [withMountConfig sd (dm_HostPath dm) (dm_VMPath dm) (dm_FilesystemType dm) options]) w))"

definition CreateDriveMountStubs ::
    "'w os \<Rightarrow> 'b tb_sdk \<Rightarrow> 'ip fc_Config \<Rightarrow> jailer \<Rightarrow> FirecrackerDriveMount list \<Rightarrow> 'w \<Rightarrow>
     (gerr + stubDrive list) \<times> 'ip fc_Config \<times> 'w" where
  "CreateDriveMountStubs os sdk machineCfg jail driveMounts w =
     drive_mount_stubs os sdk jail (enumerate 0 driveMounts) machineCfg [] w"

section \<open>The handler\<close>

definition Reserve ::
    "'w os \<Rightarrow> 'w machine \<Rightarrow> 'w DriveMounterService \<Rightarrow> StubDriveHandler \<Rightarrow>
     string \<Rightarrow> string \<Rightarrow> string \<Rightarrow> string \<Rightarrow> string list \<Rightarrow> 'w \<Rightarrow> gerr option \<times> StubDriveHandler \<times> 'w" where
  "Reserve os mc driveMounter h cid hostPath vmPath filesystemType options w =
     (case freeDrives h of
        [] \<Rightarrow> (Some ErrDrivesExhausted, h, w)
      | freeDrive # rest \<Rightarrow>
        if usedDrives h cid \<noteq> None
        then (Some (Errorf ''drive with ID %s already in use, a previous attempt to remove it may have failed'' [cid]), h, w)
        else
          case setReadWriteOptions options (dm_IsWritable (driveMount freeDrive)) of
            Inl err \<Rightarrow> (Some err, h, w)
          | Inr options \<Rightarrow>
            (let freeDrive = withMountConfig freeDrive hostPath vmPath filesystemType options in
             case PatchAndMount os mc driveMounter freeDrive w of
               (Some err, w) \<Rightarrow> (Some (Wrap err ''failed to mount drive inside vm'' []), h, w)
             | (None, w) \<Rightarrow>
                 (None, h\<lparr>freeDrives := rest, usedDrives := (usedDrives h)(cid \<mapsto> freeDrive)\<rparr>, w)))"

definition Release ::
    "'w machine \<Rightarrow> 'w DriveMounterService \<Rightarrow> StubDriveHandler \<Rightarrow> string \<Rightarrow> 'w \<Rightarrow>
     gerr option \<times> StubDriveHandler \<times> 'w" where
  "Release mc driveMounter h cid w =
     (case usedDrives h cid of
        None \<Rightarrow> (Some (Errorf ''container %s drive wasn't found'' [cid]), h, w)
      | Some drive \<Rightarrow>
        (case svc_UnmountDrive driveMounter (driveID drive) w of
           (Some err, w) \<Rightarrow> (Some (Wrap err ''failed to unmount drive'' []), h, w)
         | (None, w) \<Rightarrow>
           (case UpdateGuestDrive mc (driveID drive) (filepath_Base (stubPath drive)) w of
              (Some err, w) \<Rightarrow> (Some (Wrap err ''failed to patch drive'' []), h, w)
            | (None, w) \<Rightarrow>
                (None, h\<lparr>usedDrives := (usedDrives h)(cid := None), freeDrives := freeDrives h @ [drive]\<rparr>, w))))"

section \<open>Options\<close>

lemma first_rw_Some:
  "first_rw options = Some o1 \<Longrightarrow> o1 \<in> {''ro'', ''rw''} \<and> o1 \<in> set options"
  by (induction options) (auto split: if_splits)

lemma first_rw_append:
  "first_rw (xs @ ys) = (case first_rw xs of None \<Rightarrow> first_rw ys | Some x \<Rightarrow> Some x)"
  by (induction xs) auto

text \<open>
  The options of a mount are completed, never contradicted: \<open>setReadWriteOptions\<close> fails
  exactly when the first of "ro" and "rw" among the options is the wrong one, and else
  gives the options with at most the missing one added at the end, so that the first of
  "ro" and "rw" is there and is the one the drive has.
\<close>

lemma setReadWriteOptions_decides:
  "case setReadWriteOptions options isWritable of
     Inl err \<Rightarrow> first_rw options = Some (if isWritable then ''ro'' else ''rw'')
   | Inr options' \<Rightarrow> first_rw options' = Some (if isWritable then ''rw'' else ''ro'') \<and>
       (options' = options \<or> first_rw options = None \<and> options' = options @ [if isWritable then ''rw'' else ''ro''])"
proof (cases "first_rw options")
  case None
  then show ?thesis by (simp add: setReadWriteOptions_def first_rw_append)
next
  case (Some x)
  then have "x = ''ro'' \<or> x = ''rw''" using first_rw_Some by blast
  with Some show ?thesis by (auto simp: setReadWriteOptions_def)
qed

section \<open>The content and the size of a stub\<close>

lemma stub_size_bounds:
  assumes "0 \<le> n"
  shows "stub_size n mod fcSectorSize = 0" "n \<le> stub_size n" "stub_size n < n + fcSectorSize"
proof -
  obtain q r where q: "n div 512 = q" "n mod 512 = r" by blast
  then have d: "n = 512 * q + r" by (metis mult_div_mod_eq)
  have m: "r < 512" "0 \<le> r" using q by auto
  show "stub_size n mod fcSectorSize = 0"
    unfolding stub_size_def Let_def fcSectorSize_def by (simp add: mod_eq_0_iff_dvd)
  show "n \<le> stub_size n" "stub_size n < n + fcSectorSize"
    unfolding stub_size_def Let_def fcSectorSize_def q using d m by auto
qed

lemma newStubDrive_ok:
  assumes "newStubDrive os p jail isWritable rl w = (Inr sd, w')"
  shows "stubPath sd = p \<and> sd_jail sd = jail \<and> driveID sd = stubPathToDriveID p \<and>
     driveMount sd = \<lparr>dm_HostPath = [], dm_VMPath = [], dm_FilesystemType = [], dm_Options = [],
        dm_RateLimiter = rl, dm_IsWritable = isWritable\<rparr> \<and>
     (\<exists>content w1 w2 w3 n w4. os_CreateExcl os p 384 w = (None, w1) \<and>
        GenerateStubContent (driveID sd) = Inr content \<and> os_WriteString os p content w1 = (None, w2) \<and>
        os_FStatSize os p w2 = (Inr n, w3) \<and> os_Truncate os p (stub_size n) w3 = (None, w4))"
proof -
  from assms obtain w1 w2 where c: "os_CreateExcl os p 384 w = (None, w1)"
      and b: "newStubDrive_body os p jail isWritable rl w1 = (Inr sd, w2)"
    by (auto simp: newStubDrive_def split: prod.splits option.splits)
  then show ?thesis
    by (auto simp: newStubDrive_body_def Let_def split: sum.splits prod.splits option.splits)
qed

text \<open>
  C24: A stub drive that was made can be recognised by the agent: its file was created, not
  reused; what was written into it parses back to the drive's id, whatever the file is
  padded with; and it was then given a size that is a multiple of the sector size, no
  smaller than its content and less than one sector larger, so that no byte of it is
  invisible in the guest. (File names of up to 79 bytes.)
\<close>

theorem newStubDrive_readable:
  assumes "newStubDrive os p jail isWritable rl w = (Inr sd, w')"
    and "length (filepath_Base p) \<le> 79" "filepath_Base p \<noteq> []"
  shows "driveID sd = base32_nopad (filepath_Base p) \<and>
     (\<exists>content w1 w2 w3 n w4. os_CreateExcl os p 384 w = (None, w1) \<and>
        os_WriteString os p content w1 = (None, w2) \<and>
        fst (ParseStubContent file_read (content @ pad)) = Inr (driveID sd) \<and>
        os_FStatSize os p w2 = (Inr n, w3) \<and> os_Truncate os p (stub_size n) w3 = (None, w4) \<and>
        (0 \<le> n \<longrightarrow> stub_size n mod 512 = 0 \<and> n \<le> stub_size n \<and> stub_size n < n + 512))"
proof -
  from newStubDrive_ok[OF assms(1)] obtain content w1 w2 w3 n w4 where
      sd: "driveID sd = base32_nopad (filepath_Base p)"
      and ops: "os_CreateExcl os p 384 w = (None, w1)" "os_WriteString os p content w1 = (None, w2)"
        "os_FStatSize os p w2 = (Inr n, w3)" "os_Truncate os p (stub_size n) w3 = (None, w4)"
      and c: "GenerateStubContent (driveID sd) = Inr content"
    unfolding stubPathToDriveID_def by blast
  have "length (driveID sd) = (8 * length (filepath_Base p) + 4) div 5"
    by (simp add: sd length_base32_nopad)
  moreover have "0 < length (filepath_Base p)" using assms(3) by simp
  ultimately have "0 < length (driveID sd)" "length (driveID sd) < 128"
    using assms(2) by linarith+
  then have "fst (ParseStubContent file_read (content @ pad)) = Inr (driveID sd)"
    using file_r.Generate_Parse[OF c refl, of pad] by auto
  moreover have "0 \<le> n \<longrightarrow> stub_size n mod 512 = 0 \<and> n \<le> stub_size n \<and> stub_size n < n + 512"
    using stub_size_bounds[of n] by (simp add: fcSectorSize_def)
  ultimately show ?thesis using sd ops by (intro conjI exI) assumption+
qed

theorem newStubDrive_readable_witness:
  "\<exists>sd. newStubDrive os_fine ''/s/ctrstub0'' (Noop (newNoopJailer ''/s'')) True None () = (Inr sd, ())
     \<and> driveID sd = base32_nopad ''ctrstub0''"
proof -
  define r where "r = newStubDrive os_fine ''/s/ctrstub0'' (Noop (newNoopJailer ''/s'')) True None ()"
  have b: "filepath_Base ''/s/ctrstub0'' = ''ctrstub0''" by (simp add: path_simps)
  have "length (stubPathToDriveID ''/s/ctrstub0'') < 128"
    by (simp add: stubPathToDriveID_def b length_base32_nopad)
  then have "isOk (fst r)"
    by (simp add: r_def newStubDrive_def newStubDrive_body_def os_fine_def Let_def GenerateStubContent_def
        noop_StubDrivesOptions_def)
  then obtain sd where sd: "newStubDrive os_fine ''/s/ctrstub0'' (Noop (newNoopJailer ''/s'')) True None () = (Inr sd, ())"
    by (cases r) (auto simp: r_def isOk_iff)
  with newStubDrive_readable[OF sd] b show ?thesis by simp
qed

section \<open>The drives that are created\<close>

text \<open>What is fixed of a stub drive: all but the configuration of its current mount.\<close>

definition bare :: "stubDrive \<Rightarrow> stubDrive" where
  "bare sd = withMountConfig sd [] [] [] []"

lemma bare_withMountConfig [simp]: "bare (withMountConfig sd a b c d) = bare sd"
  by (simp add: bare_def withMountConfig_def)

lemma bare_bare [simp]: "bare (bare sd) = bare sd"
  by (simp add: bare_def withMountConfig_def)

lemma withMountConfig_simps [simp]:
  "driveID (withMountConfig sd a b c d) = driveID sd" "stubPath (withMountConfig sd a b c d) = stubPath sd"
  "sd_jail (withMountConfig sd a b c d) = sd_jail sd"
  "dm_IsWritable (driveMount (withMountConfig sd a b c d)) = dm_IsWritable (driveMount sd)"
  by (simp_all add: withMountConfig_def)

lemma bare_simps [simp]: "driveID (bare sd) = driveID sd" "stubPath (bare sd) = stubPath sd"
  by (simp_all add: bare_def)

definition ctr_name :: "nat \<Rightarrow> string" where "ctr_name i = ''ctrstub'' @ utoa i"

definition mnt_name :: "nat \<Rightarrow> string" where "mnt_name i = ''drivemntstub'' @ utoa i"

lemma slash_not_digit [simp]: "\<not> is_digit (CHR ''/'')"
  by (simp add: is_digit_def)

lemma stub_names_good: "good_comp (ctr_name i)" "good_comp (mnt_name i)"
  by (simp_all add: good_comp_def ctr_name_def mnt_name_def)

lemma stub_names_inject:
  "ctr_name i = ctr_name k \<longleftrightarrow> i = k" "mnt_name i = mnt_name k \<longleftrightarrow> i = k" "ctr_name i \<noteq> mnt_name k"
  by (simp_all add: ctr_name_def mnt_name_def)

lemma stub_path_id:
  assumes "RootPath (JailPath jail) = abs_path rs" "\<forall>c \<in> set rs. good_comp c" "good_comp name"
  shows "stubPathToDriveID (filepath_Join [RootPath (JailPath jail), name]) = base32_nopad name"
proof -
  have "filepath_Join [abs_path rs, name] = abs_path (rs @ [name])"
    using assms by (simp add: filepath_Join_good)
  with assms show ?thesis
    by (simp add: stubPathToDriveID_def filepath_Base_abs_path)
qed

text \<open>The ids of the container drives differ in whatever directory their files are.\<close>

lemma container_stubs_ids:
  "container_stubs os sdk jail is mcfg stubs w = (Inr stubs', mcfg', w') \<Longrightarrow>
     map driveID stubs' = map driveID stubs @ map (\<lambda>i. base32_nopad (ctr_name i)) is"
proof (induction "is" arbitrary: mcfg stubs w)
  case (Cons i "is")
  let ?p = "filepath_Join [RootPath (JailPath jail), ctr_name i]"
  from Cons.prems obtain sd w1 where n: "newStubDrive os ?p jail True None w = (Inr sd, w1)"
    and rest: "container_stubs os sdk jail is (mcfg\<lparr>fc_Drives := fc_Drives mcfg @ [stub_model sdk sd True None]\<rparr>)
       (stubs @ [sd]) w1 = (Inr stubs', mcfg', w')"
    unfolding ctr_name_def by (auto split: prod.splits sum.splits)
  have "driveID sd = base32_nopad (ctr_name i)"
    using newStubDrive_ok[OF n] by (simp add: stubPathToDriveID_def filepath_Base_Join stub_names_good)
  with Cons.IH[OF rest] show ?case by simp
qed simp

lemma container_stubs_ok:
  assumes "container_stubs os sdk jail is mcfg stubs w = (Inr stubs', mcfg', w')"
    and "RootPath (JailPath jail) = abs_path rs" "\<forall>c \<in> set rs. good_comp c"
  shows "\<exists>new. stubs' = stubs @ new \<and> map driveID new = map (\<lambda>i. base32_nopad (ctr_name i)) is \<and>
     fc_Drives mcfg' = fc_Drives mcfg @ map (\<lambda>sd. stub_model sdk sd True None) new \<and>
     (\<forall>sd \<in> set new. dm_IsWritable (driveMount sd) \<and> sd_jail sd = jail)"
  using assms
proof (induction "is" arbitrary: mcfg stubs w)
  case Nil
  then show ?case by simp
next
  case (Cons i "is")
  let ?p = "filepath_Join [RootPath (JailPath jail), ctr_name i]"
  from Cons.prems(1) obtain sd w1 where n: "newStubDrive os ?p jail True None w = (Inr sd, w1)"
    and rest: "container_stubs os sdk jail is (mcfg\<lparr>fc_Drives := fc_Drives mcfg @ [stub_model sdk sd True None]\<rparr>)
       (stubs @ [sd]) w1 = (Inr stubs', mcfg', w')"
    unfolding ctr_name_def by (auto split: prod.splits sum.splits)
  from Cons.IH[OF rest Cons.prems(2,3)] newStubDrive_ok[OF n] stub_path_id[OF Cons.prems(2,3) stub_names_good(1)[of i]]
  show ?case by force
qed

lemma drive_mount_stubs_ok:
  assumes "drive_mount_stubs os sdk jail dms mcfg stubs w = (Inr stubs', mcfg', w')"
    and "RootPath (JailPath jail) = abs_path rs" "\<forall>c \<in> set rs. good_comp c"
  shows "\<exists>new. stubs' = stubs @ new \<and> map driveID new = map (\<lambda>(i, dm). base32_nopad (mnt_name i)) dms \<and>
     map DriveID (fc_Drives mcfg') = map DriveID (fc_Drives mcfg) @ map driveID new \<and>
     map IsReadOnly (fc_Drives mcfg') = map IsReadOnly (fc_Drives mcfg) @ map (\<lambda>(i, dm). \<not> dm_IsWritable dm) dms \<and>
     list_all2 (\<lambda>sd (i, dm). dm_HostPath (driveMount sd) = dm_HostPath dm \<and> dm_VMPath (driveMount sd) = dm_VMPath dm \<and>
        dm_FilesystemType (driveMount sd) = dm_FilesystemType dm \<and>
        setReadWriteOptions (dm_Options dm) (dm_IsWritable dm) = Inr (dm_Options (driveMount sd))) new dms"
  using assms
proof (induction dms arbitrary: mcfg stubs w)
  case Nil
  then show ?case by simp
next
  case (Cons x dms)
  obtain i dm where x: "x = (i, dm)" by (cases x)
  let ?p = "filepath_Join [RootPath (JailPath jail), mnt_name i]"
  from Cons.prems(1) x obtain opts sd w1 where o: "setReadWriteOptions (dm_Options dm) (dm_IsWritable dm) = Inr opts"
    and n: "newStubDrive os ?p jail (dm_IsWritable dm) (dm_RateLimiter dm) w = (Inr sd, w1)"
    and rest: "drive_mount_stubs os sdk jail dms
       (mcfg\<lparr>fc_Drives := fc_Drives mcfg @ [stub_model sdk sd (dm_IsWritable dm) (dm_RateLimiter dm)]\<rparr>)
       (stubs @ [withMountConfig sd (dm_HostPath dm) (dm_VMPath dm) (dm_FilesystemType dm) opts]) w1 = (Inr stubs', mcfg', w')"
    unfolding mnt_name_def by (auto split: prod.splits sum.splits)
  let ?sd = "withMountConfig sd (dm_HostPath dm) (dm_VMPath dm) (dm_FilesystemType dm) opts"
  from Cons.IH[OF rest Cons.prems(2,3)] obtain new where new:
     "stubs' = (stubs @ [?sd]) @ new" "map driveID new = map (\<lambda>(i, dm). base32_nopad (mnt_name i)) dms"
     "map DriveID (fc_Drives mcfg') = (map DriveID (fc_Drives mcfg) @ [driveID sd]) @ map driveID new"
     "map IsReadOnly (fc_Drives mcfg') = (map IsReadOnly (fc_Drives mcfg) @ [\<not> dm_IsWritable dm]) @
        map (\<lambda>(i, dm). \<not> dm_IsWritable dm) dms"
     "list_all2 (\<lambda>sd (i, dm). dm_HostPath (driveMount sd) = dm_HostPath dm \<and> dm_VMPath (driveMount sd) = dm_VMPath dm \<and>
        dm_FilesystemType (driveMount sd) = dm_FilesystemType dm \<and>
        setReadWriteOptions (dm_Options dm) (dm_IsWritable dm) = Inr (dm_Options (driveMount sd))) new dms"
    by (auto simp: stub_model_def)
  have "driveID sd = base32_nopad (mnt_name i)"
    using newStubDrive_ok[OF n] stub_path_id[OF Cons.prems(2,3) stub_names_good(2)[of i]] by simp
  with new o x show ?case
    by (intro exI[of _ "?sd # new"]) (simp add: withMountConfig_def)
qed

lemma stub_ids_facts:
  assumes "CreateContainerStubs os sdk mcfg jail n w = (Inr h, mcfg1, w1)"
    and "CreateDriveMountStubs os sdk mcfg1 jail dms w2 = (Inr mounts, mcfg2, w3)"
    and "RootPath (JailPath jail) = abs_path rs" "\<forall>c \<in> set rs. good_comp c"
  shows "\<exists>ids. map DriveID (fc_Drives mcfg2) = map DriveID (fc_Drives mcfg) @ ids \<and>
     ids = map driveID (freeDrives h) @ map driveID mounts \<and> distinct ids \<and>
     length (freeDrives h) = nat n \<and> length mounts = length dms \<and>
     (\<forall>i \<in> set ids. set i \<subseteq> set base32_alphabet \<and> i \<noteq> ''root_drive'') \<and>
     drop (length (fc_Drives mcfg)) (map IsReadOnly (fc_Drives mcfg2)) =
       replicate (nat n) False @ map (\<lambda>dm. \<not> dm_IsWritable dm) dms"
proof -
  from assms(1) obtain stubs where c: "container_stubs os sdk jail [0..<nat n] mcfg [] w = (Inr stubs, mcfg1, w1)"
    and h: "h = \<lparr>freeDrives = stubs, usedDrives = Map.empty\<rparr>"
    by (auto simp: CreateContainerStubs_def split: prod.splits sum.splits)
  from container_stubs_ok[OF c assms(3,4)]
  have s: "map driveID stubs = map (\<lambda>i. base32_nopad (ctr_name i)) [0..<nat n]"
     "fc_Drives mcfg1 = fc_Drives mcfg @ map (\<lambda>sd. stub_model sdk sd True None) stubs" by auto
  then have ls: "length stubs = nat n" by (metis diff_zero length_map length_upt)
  from drive_mount_stubs_ok[OF assms(2)[unfolded CreateDriveMountStubs_def] assms(3,4)]
  have m: "map driveID mounts = map (\<lambda>(i, dm). base32_nopad (mnt_name i)) (enumerate 0 dms)"
     "map DriveID (fc_Drives mcfg2) = map DriveID (fc_Drives mcfg1) @ map driveID mounts"
     "map IsReadOnly (fc_Drives mcfg2) = map IsReadOnly (fc_Drives mcfg1) @ map (\<lambda>(i, dm). \<not> dm_IsWritable dm) (enumerate 0 dms)"
    by auto
  have m1: "map (\<lambda>(i, dm). base32_nopad (mnt_name i)) (enumerate 0 dms) = map (\<lambda>i. base32_nopad (mnt_name i)) [0..<length dms]"
    by (rule nth_equalityI) (simp_all add: enumerate_eq_zip)
  have m2: "map (\<lambda>(i, dm). \<not> dm_IsWritable dm) (enumerate 0 dms) = map (\<lambda>dm. \<not> dm_IsWritable dm) dms"
    by (rule nth_equalityI) (simp_all add: enumerate_eq_zip)
  let ?ids = "map driveID stubs @ map driveID mounts"
  have ids: "map DriveID (fc_Drives mcfg2) = map DriveID (fc_Drives mcfg) @ ?ids"
    using s m by (simp add: stub_model_def comp_def)
  have d: "distinct ?ids"
    using s(1) m(1) m1 by (auto simp: distinct_map inj_on_def stub_names_inject)
  have b: "\<forall>i \<in> set ?ids. set i \<subseteq> set base32_alphabet"
    unfolding s(1) m(1) m1 set_append using base32_nopad_symbols by fastforce
  moreover have "CHR ''_'' \<in> set ''root_drive''" and "CHR ''_'' \<notin> set base32_alphabet"
    by (simp_all add: base32_alphabet_def)
  ultimately have r: "\<forall>i \<in> set ?ids. set i \<subseteq> set base32_alphabet \<and> i \<noteq> ''root_drive''" by blast
  have ro: "drop (length (fc_Drives mcfg)) (map IsReadOnly (fc_Drives mcfg2)) =
       replicate (nat n) False @ map (\<lambda>dm. \<not> dm_IsWritable dm) dms"
    using s m m2 ls by (simp add: stub_model_def comp_def map_replicate_const)
  have "length mounts = length dms"
    using m(1) m1 by (metis diff_zero length_map length_upt)
  with ids d r ro h ls show ?thesis by (intro exI[of _ ?ids]) simp
qed

text \<open>
  The stub drives of a VM, those for containers and those for the drive mounts of the
  request, have pairwise different ids, in the machine configuration as well as in the
  handlers; every id consists of letters and digits of the base32 alphabet only, as
  Firecracker requires, and so none is the root drive's; read-only in the
  configuration are exactly the drive mounts that are not writable.
\<close>

theorem stub_ids_distinct:
  assumes "CreateContainerStubs os sdk mcfg jail n w = (Inr h, mcfg1, w1)"
    and "CreateDriveMountStubs os sdk mcfg1 jail dms w2 = (Inr mounts, mcfg2, w3)"
    and "RootPath (JailPath jail) = abs_path rs" "\<forall>c \<in> set rs. good_comp c"
  shows "\<exists>ids. map DriveID (fc_Drives mcfg2) = map DriveID (fc_Drives mcfg) @ ids \<and>
     ids = map driveID (freeDrives h) @ map driveID mounts \<and> distinct ids \<and>
     length (freeDrives h) = nat n \<and> length mounts = length dms \<and>
     (\<forall>i \<in> set ids. set i \<subseteq> set base32_alphabet \<and> i \<noteq> ''root_drive'') \<and>
     drop (length (fc_Drives mcfg)) (map IsReadOnly (fc_Drives mcfg2)) =
       replicate (nat n) False @ map (\<lambda>dm. \<not> dm_IsWritable dm) dms"
  using assms by (rule stub_ids_facts)

definition plain_config :: "unit fc_Config" where
  "plain_config = example_machine\<lparr>fc_Drives := []\<rparr>"

theorem stub_ids_distinct_witness:
  "\<exists>h mounts m1 m2. CreateContainerStubs os_fine sdk_example plain_config (Noop (newNoopJailer ''/s'')) 1 () = (Inr h, m1, ())
     \<and> CreateDriveMountStubs os_fine sdk_example m1 (Noop (newNoopJailer ''/s''))
         [\<lparr>dm_HostPath = ''/h'', dm_VMPath = ''/v'', dm_FilesystemType = ''ext4'', dm_Options = [], dm_RateLimiter = None,
           dm_IsWritable = False\<rparr>] () = (Inr mounts, m2, ()) \<and>
       distinct (map driveID (freeDrives h) @ map driveID mounts) \<and> map IsReadOnly (fc_Drives m2) = [False, True]"
proof -
  let ?j = "Noop (newNoopJailer ''/s'')"
  let ?dm = "\<lparr>dm_HostPath = ''/h'', dm_VMPath = ''/v'', dm_FilesystemType = ''ext4'', dm_Options = [], dm_RateLimiter = None,
           dm_IsWritable = False\<rparr>"
  have root: "RootPath (JailPath ?j) = abs_path [''s'']" "\<forall>c \<in> set [''s'']. good_comp c"
    by (simp_all add: RootPath_def noop_JailPath_def newNoopJailer_def abs_path_def good_comp_def)
  have short: "length (stubPathToDriveID (filepath_Join [RootPath (JailPath ?j), name])) < 128"
    if "good_comp name" "length name \<le> 20" for name
    using stub_path_id[OF root that(1)] that(2) by (simp add: length_base32_nopad)
  have u: "utoa 0 = ''0''" by (subst utoa.simps) (simp add: digit_char_def char_of_eq_iff)
  have mk: "isOk (fst (newStubDrive os_fine (filepath_Join [RootPath (JailPath ?j), name]) ?j wr None ()))"
    if "good_comp name" "length name \<le> 20" for name wr
    using short[OF that] by (simp add: newStubDrive_def newStubDrive_body_def os_fine_def Let_def GenerateStubContent_def
        noop_StubDrivesOptions_def)
  have n0: "good_comp ''ctrstub0''" "good_comp ''drivemntstub0''" by (simp_all add: good_comp_def)
  from mk[OF n0(1), of True] obtain sd where sd:
     "newStubDrive os_fine (filepath_Join [RootPath (JailPath ?j), ''ctrstub0'']) ?j True None () = (Inr sd, ())"
    by (auto simp: isOk_iff prod_eq_iff)
  from mk[OF n0(2), of False] obtain sd2 where sd2:
     "newStubDrive os_fine (filepath_Join [RootPath (JailPath ?j), ''drivemntstub0'']) ?j False None () = (Inr sd2, ())"
    by (auto simp: isOk_iff prod_eq_iff)
  obtain h m1 where c: "CreateContainerStubs os_fine sdk_example plain_config ?j 1 () = (Inr h, m1, ())"
    using sd u by (simp add: CreateContainerStubs_def)
  have "setReadWriteOptions [] False = Inr [''ro'']" by (simp add: setReadWriteOptions_def)
  then obtain mounts m2 where d: "CreateDriveMountStubs os_fine sdk_example m1 ?j [?dm] () = (Inr mounts, m2, ())"
    using sd2 u by (simp add: CreateDriveMountStubs_def)
  from stub_ids_distinct[OF c d root] obtain ids where
      i: "distinct (map driveID (freeDrives h) @ map driveID mounts)"
      and "drop 0 (map IsReadOnly (fc_Drives m2)) = [False, True]"
    by (auto simp: plain_config_def)
  then have "map IsReadOnly (fc_Drives m2) = [False, True]" by simp
  with c d i show ?thesis by (intro exI conjI) assumption+
qed

section \<open>The handler as a pool\<close>

text \<open>
  A history of the handler: any sequence of reservations and releases, whatever their
  arguments are and whatever Firecracker, the agent and the system answer.
\<close>

inductive handler_step ::
    "'w os \<Rightarrow> 'w machine \<Rightarrow> 'w DriveMounterService \<Rightarrow> StubDriveHandler \<Rightarrow> StubDriveHandler \<Rightarrow> bool"
  for os :: "'w os" and mc :: "'w machine" and dm :: "'w DriveMounterService" where
  reserve_step: "Reserve os mc dm h cid hostPath vmPath fs options w = (r, h', w') \<Longrightarrow> handler_step os mc dm h h'"
| release_step: "Release mc dm h cid w = (r, h', w') \<Longrightarrow> handler_step os mc dm h h'"

inductive_cases handler_stepE: "handler_step os mc dm h h'"

text \<open>All stub drives of a handler, free ones and used ones.\<close>

definition pool :: "StubDriveHandler \<Rightarrow> stubDrive multiset" where
  "pool h = mset (map bare (freeDrives h)) +
     image_mset (\<lambda>k. bare (the (usedDrives h k))) (mset_set (dom (usedDrives h)))"

definition finite_use :: "StubDriveHandler \<Rightarrow> bool" where
  "finite_use h \<longleftrightarrow> finite (dom (usedDrives h))"

text \<open>No two stub drives of the handler have the same id.\<close>

definition distinct_pool :: "StubDriveHandler \<Rightarrow> bool" where
  "distinct_pool h \<longleftrightarrow> (\<exists>ids. distinct ids \<and> image_mset driveID (pool h) = mset ids)"

lemma CreateContainerStubs_distinct:
  assumes "CreateContainerStubs os sdk mcfg jail n w = (Inr h, mcfg', w')"
  shows "finite_use h \<and> distinct_pool h"
proof -
  from assms obtain stubs where c: "container_stubs os sdk jail [0..<nat n] mcfg [] w = (Inr stubs, mcfg', w')"
    and h: "h = \<lparr>freeDrives = stubs, usedDrives = Map.empty\<rparr>"
    by (auto simp: CreateContainerStubs_def split: prod.splits sum.splits)
  have "distinct (map driveID stubs)"
    using container_stubs_ids[OF c] by (simp add: distinct_map inj_on_def stub_names_inject)
  moreover have "image_mset driveID (pool h) = mset (map driveID stubs)"
    by (simp add: h pool_def image_mset.compositionality comp_def flip: mset_map)
  moreover have "finite_use h" by (simp add: h finite_use_def)
  ultimately show ?thesis unfolding distinct_pool_def by blast
qed

lemma distinct_pool_cong: "pool h' = pool h \<Longrightarrow> distinct_pool h' = distinct_pool h"
  by (simp add: distinct_pool_def)

text \<open>The two ways the handler changes.\<close>

lemma Reserve_cases:
  assumes "Reserve os mc dm h cid hostPath vmPath fs options w = (r, h', w')"
  obtains (failed) err where "r = Some err" "h' = h"
  | (taken) d rest opts where "r = None" "freeDrives h = d # rest" "usedDrives h cid = None"
      "setReadWriteOptions options (dm_IsWritable (driveMount d)) = Inr opts"
      "PatchAndMount os mc dm (withMountConfig d hostPath vmPath fs opts) w = (None, w')"
      "h' = h\<lparr>freeDrives := rest, usedDrives := (usedDrives h)(cid \<mapsto> withMountConfig d hostPath vmPath fs opts)\<rparr>"
  using assms
  by (auto simp: Reserve_def Let_def split: list.splits if_splits sum.splits prod.splits option.splits)

lemma Release_cases:
  assumes "Release mc dm h cid w = (r, h', w')"
  obtains (failed) err where "r = Some err" "h' = h"
  | (given) d where "r = None" "usedDrives h cid = Some d"
      "h' = h\<lparr>usedDrives := (usedDrives h)(cid := None), freeDrives := freeDrives h @ [d]\<rparr>"
  using assms by (auto simp: Release_def split: prod.splits option.splits)

lemma pool_take:
  assumes "finite_use h" "freeDrives h = d # rest" "usedDrives h cid = None" "bare d' = bare d"
  shows "pool (h\<lparr>freeDrives := rest, usedDrives := (usedDrives h)(cid \<mapsto> d')\<rparr>) = pool h"
proof -
  have "cid \<notin> dom (usedDrives h)" using assms(3) by auto
  moreover have "image_mset (\<lambda>k. bare (the (((usedDrives h)(cid \<mapsto> d')) k))) (mset_set (dom (usedDrives h))) =
      image_mset (\<lambda>k. bare (the (usedDrives h k))) (mset_set (dom (usedDrives h)))"
    using assms(1,3) by (intro image_mset_cong) (auto simp: finite_use_def)
  ultimately show ?thesis
    using assms by (simp add: pool_def finite_use_def)
qed

lemma pool_give:
  assumes "finite_use h" "usedDrives h cid = Some d"
  shows "pool (h\<lparr>usedDrives := (usedDrives h)(cid := None), freeDrives := freeDrives h @ [d]\<rparr>) = pool h"
proof -
  let ?A = "dom (usedDrives h) - {cid}"
  have "mset_set (dom (usedDrives h)) = add_mset cid (mset_set ?A)"
    using assms by (metis domI finite_use_def mset_set.remove)
  moreover have "image_mset (\<lambda>k. bare (the (((usedDrives h)(cid := None)) k))) (mset_set ?A) =
      image_mset (\<lambda>k. bare (the (usedDrives h k))) (mset_set ?A)"
    using assms(1) by (intro image_mset_cong) (auto simp: finite_use_def)
  ultimately show ?thesis
    using assms by (simp add: pool_def dom_fun_upd)
qed

lemma handler_step_pool [inv_intros]:
  "handler_step os mc dm h h' \<Longrightarrow> finite_use h \<Longrightarrow> pool h' = pool h \<and> finite_use h'"
proof (erule handler_stepE)
  fix cid hostPath vmPath fs options w r w'
  assume "Reserve os mc dm h cid hostPath vmPath fs options w = (r, h', w')" "finite_use h"
  then show "pool h' = pool h \<and> finite_use h'"
    by (cases rule: Reserve_cases) (auto simp: pool_take finite_use_def)
next
  fix cid w r w'
  assume "Release mc dm h cid w = (r, h', w')" "finite_use h"
  then show "pool h' = pool h \<and> finite_use h'"
    by (cases rule: Release_cases) (auto simp: pool_give finite_use_def)
qed

lemma handler_steps_pool:
  "(handler_step os mc dm)\<^sup>*\<^sup>* h h' \<Longrightarrow> finite_use h \<Longrightarrow> pool h' = pool h \<and> finite_use h'"
  by (induction rule: rtranclp_induct) (auto dest: handler_step_pool)

lemma pool_ids_distinct:
  assumes "finite_use h" "image_mset driveID (pool h) = mset ids" "distinct ids"
    and "usedDrives h a = Some d" "usedDrives h b = Some e" "driveID d = driveID e"
  shows "a = b"
proof (rule ccontr)
  assume ab: "a \<noteq> b"
  let ?A = "dom (usedDrives h) - {a} - {b}"
  have "mset_set (dom (usedDrives h)) = add_mset a (mset_set (dom (usedDrives h) - {a}))"
    using assms(1,4) by (metis domI finite_use_def mset_set.remove)
  also have "mset_set (dom (usedDrives h) - {a}) = add_mset b (mset_set ?A)"
    using assms(1,5) ab by (intro mset_set.remove) (auto simp: finite_use_def)
  finally have "count (image_mset driveID (pool h)) (driveID d) \<ge> 2"
    using assms(4-6) by (simp add: pool_def)
  moreover have "count (mset ids) (driveID d) \<le> 1"
    using assms(3) by (simp add: distinct_count_atmost_1)
  ultimately show False using assms(2) by simp
qed

lemma pool_ids_free:
  assumes "finite_use h" "image_mset driveID (pool h) = mset ids" "distinct ids"
    and "usedDrives h a = Some d" "sd \<in> set (freeDrives h)"
  shows "driveID sd \<noteq> driveID d"
proof
  assume eq: "driveID sd = driveID d"
  have "mset_set (dom (usedDrives h)) = add_mset a (mset_set (dom (usedDrives h) - {a}))"
    using assms(1,4) by (metis domI finite_use_def mset_set.remove)
  moreover obtain xs ys where "freeDrives h = xs @ sd # ys"
    using assms(5) by (meson split_list)
  ultimately have "count (image_mset driveID (pool h)) (driveID d) \<ge> 2"
    using assms(4) eq by (simp add: pool_def)
  moreover have "count (mset ids) (driveID d) \<le> 1"
    using assms(3) by (simp add: distinct_count_atmost_1)
  ultimately show False using assms(2) by simp
qed

lemma own_drives:
  assumes "finite_use h" "distinct_pool h"
  shows "\<forall>a b d e. usedDrives h a = Some d \<and> usedDrives h b = Some e \<and> driveID d = driveID e \<longrightarrow> a = b"
    and "\<forall>a d. usedDrives h a = Some d \<longrightarrow> driveID d \<notin> driveID ` set (freeDrives h)"
proof -
  obtain ids where i: "image_mset driveID (pool h) = mset ids" "distinct ids" using assms(2) unfolding distinct_pool_def by blast
  show "\<forall>a b d e. usedDrives h a = Some d \<and> usedDrives h b = Some e \<and> driveID d = driveID e \<longrightarrow> a = b"
    using pool_ids_distinct[OF assms(1) i] by blast
  show "\<forall>a d. usedDrives h a = Some d \<longrightarrow> driveID d \<notin> driveID ` set (freeDrives h)"
    using pool_ids_free[OF assms(1) i] by fastforce
qed

text \<open>
  C19: Over any history of reservations and releases, successful or not, the handler neither
  loses nor duplicates a stub drive: the free and the used drives together are always the
  ones the VM was created with. Hence two containers never share a drive, a drive in use
  is never handed out, and the number of containers with a drive is bounded by the number
  of stubs.
\<close>

theorem stub_pool_invariant:
  assumes "CreateContainerStubs os sdk mcfg jail n w = (Inr h0, mcfg', w')"
    and "RootPath (JailPath jail) = abs_path rs" "\<forall>c \<in> set rs. good_comp c"
    and "(handler_step os' mc dm)\<^sup>*\<^sup>* h0 h"
  shows "pool h = mset (map bare (freeDrives h0)) \<and>
     length (freeDrives h) + card (dom (usedDrives h)) = nat n \<and>
     (\<forall>a b d e. usedDrives h a = Some d \<and> usedDrives h b = Some e \<and> driveID d = driveID e \<longrightarrow> a = b) \<and>
     (\<forall>a d. usedDrives h a = Some d \<longrightarrow> driveID d \<notin> driveID ` set (freeDrives h))"
proof -
  from assms(1) obtain stubs where c: "container_stubs os sdk jail [0..<nat n] mcfg [] w = (Inr stubs, mcfg', w')"
    and h0: "h0 = \<lparr>freeDrives = stubs, usedDrives = Map.empty\<rparr>"
    by (auto simp: CreateContainerStubs_def split: prod.splits sum.splits)
  from container_stubs_ok[OF c assms(2,3)]
  have ids: "map driveID stubs = map (\<lambda>i. base32_nopad (ctr_name i)) [0..<nat n]" by auto
  then have d: "distinct (map driveID stubs)"
    by (simp add: distinct_map inj_on_def stub_names_inject)
  have l: "length stubs = nat n" using arg_cong[OF ids, of length] by simp
  have f0: "finite_use h0" and p0: "pool h0 = mset (map bare stubs)"
    by (simp_all add: h0 finite_use_def pool_def)
  from handler_steps_pool[OF assms(4) f0] p0 have p: "pool h = mset (map bare stubs)" and f: "finite_use h"
    by simp_all
  have i: "image_mset driveID (pool h) = mset (map driveID stubs)"
    by (simp add: p image_mset.compositionality comp_def flip: mset_map)
  have "size (pool h) = nat n" using p l by simp
  then have "length (freeDrives h) + card (dom (usedDrives h)) = nat n"
    by (simp add: pool_def)
  moreover have "pool h = mset (map bare (freeDrives h0))" using p h0 by simp
  moreover have "\<forall>a b d e. usedDrives h a = Some d \<and> usedDrives h b = Some e \<and> driveID d = driveID e \<longrightarrow> a = b"
    using pool_ids_distinct[OF f i d] by blast
  moreover have "\<forall>a d. usedDrives h a = Some d \<longrightarrow> driveID d \<notin> driveID ` set (freeDrives h)"
    using pool_ids_free[OF f i d] by fastforce
  ultimately show ?thesis by blast
qed

definition machine_fine :: "'w machine" where
  "machine_fine = \<lparr>UpdateGuestDrive = (\<lambda>i p w. (None, w))\<rparr>"

definition mounter_fine :: "'w DriveMounterService" where
  "mounter_fine = \<lparr>svc_MountDrive = (\<lambda>r w. (None, w)), svc_UnmountDrive = (\<lambda>i w. (None, w))\<rparr>"

lemma one_container_stub:
  assumes root: "RootPath (JailPath (Noop (newNoopJailer dir))) = abs_path rs" "\<forall>c \<in> set rs. good_comp c"
  shows "\<exists>h m. CreateContainerStubs os_fine sdk_example cfg (Noop (newNoopJailer dir)) 1 () = (Inr h, m, ()) \<and>
     length (freeDrives h) = 1"
proof -
  let ?j = "Noop (newNoopJailer dir)"
  have u: "utoa 0 = ''0''" by (subst utoa.simps) (simp add: digit_char_def char_of_eq_iff)
  let ?p = "filepath_Join [RootPath (JailPath ?j), ''ctrstub0'']"
  have "length (stubPathToDriveID ?p) < 128"
    using stub_path_id[OF root stub_names_good(1)[of 0]] u by (simp add: length_base32_nopad ctr_name_def)
  then have "isOk (fst (newStubDrive os_fine ?p ?j True None ()))"
    by (simp add: newStubDrive_def newStubDrive_body_def os_fine_def Let_def GenerateStubContent_def noop_StubDrivesOptions_def)
  then obtain sd where "newStubDrive os_fine ?p ?j True None () = (Inr sd, ())"
    by (auto simp: isOk_iff prod_eq_iff)
  then show ?thesis using u by (simp add: CreateContainerStubs_def)
qed

theorem stub_pool_invariant_witness:
  "\<exists>h m h'. CreateContainerStubs os_fine sdk_example plain_config (Noop (newNoopJailer ''/s'')) 1 () = (Inr h, m, ()) \<and>
     h' = fst (snd (Reserve os_fine machine_fine mounter_fine h ''c'' ''/h'' ''/v'' ''ext4'' [] ())) \<and>
     usedDrives h' ''c'' \<noteq> None \<and> length (freeDrives h') + card (dom (usedDrives h')) = 1"
proof -
  let ?j = "Noop (newNoopJailer ''/s'')"
  have root: "RootPath (JailPath ?j) = abs_path [''s'']" "\<forall>c \<in> set [''s'']. good_comp c"
    by (simp_all add: RootPath_def noop_JailPath_def newNoopJailer_def abs_path_def good_comp_def)
  obtain h m where c: "CreateContainerStubs os_fine sdk_example plain_config ?j 1 () = (Inr h, m, ())"
      and l: "length (freeDrives h) = 1"
    using one_container_stub[OF root, of plain_config] by blast
  obtain d where d: "freeDrives h = [d]" using l by (cases "freeDrives h") auto
  have "usedDrives h = Map.empty" and "sd_jail d = ?j" and "dm_IsWritable (driveMount d)"
    using c d container_stubs_ok[of os_fine sdk_example ?j "[0]" plain_config "[]" "()" "[d]" m "()", OF _ root]
    by (auto simp: CreateContainerStubs_def split: prod.splits sum.splits)
  then have r: "\<exists>h'. Reserve os_fine machine_fine mounter_fine h ''c'' ''/h'' ''/v'' ''ext4'' [] () = (None, h', ()) \<and>
      usedDrives h' ''c'' \<noteq> None"
    using d by (simp add: Reserve_def Let_def setReadWriteOptions_def PatchAndMount_def machine_fine_def mounter_fine_def
        noop_ExposeFileToJail_def)
  then obtain h' where h': "Reserve os_fine machine_fine mounter_fine h ''c'' ''/h'' ''/v'' ''ext4'' [] () = (None, h', ())"
      and u: "usedDrives h' ''c'' \<noteq> None" by blast
  have "(handler_step (os_fine :: unit os) machine_fine mounter_fine)\<^sup>*\<^sup>* h h'"
    using reserve_step[OF h'] by (rule r_into_rtranclp)
  from stub_pool_invariant[OF c root this]
  have "length (freeDrives h') + card (dom (usedDrives h')) = 1" by simp
  with c h' u show ?thesis by (intro exI conjI) (assumption | simp)+
qed

section \<open>Reserve and Release\<close>

text \<open>The calls to Firecracker and the agent, noted in a trace with their results.\<close>

datatype drive_event =
    EvUpdate string string "gerr option"
  | EvMount MountDriveRequest "gerr option"
  | EvUnmount string "gerr option"

definition note_drive :: "('w \<Rightarrow> gerr option \<times> 'w) \<Rightarrow> (gerr option \<Rightarrow> drive_event) \<Rightarrow>
    'w \<times> drive_event list \<Rightarrow> gerr option \<times> ('w \<times> drive_event list)" where
  "note_drive f ev s = (case f (fst s) of (r, w') \<Rightarrow> (r, (w', snd s @ [ev r])))"

definition traced_machine :: "'w machine \<Rightarrow> ('w \<times> drive_event list) machine" where
  "traced_machine mc = \<lparr>UpdateGuestDrive = (\<lambda>i p. note_drive (UpdateGuestDrive mc i p) (EvUpdate i p))\<rparr>"

definition traced_mounter :: "'w DriveMounterService \<Rightarrow> ('w \<times> drive_event list) DriveMounterService" where
  "traced_mounter dm = \<lparr>svc_MountDrive = (\<lambda>r. note_drive (svc_MountDrive dm r) (EvMount r)),
     svc_UnmountDrive = (\<lambda>i. note_drive (svc_UnmountDrive dm i) (EvUnmount i))\<rparr>"

text \<open>
  C23: \<open>Release\<close> undoes \<open>Reserve\<close>: the drive that a container got is unmounted first and then
  patched back to its stub file, it is the one drive this is done to, and the handler is
  as before with that drive moved to the end of the free ones. Other containers' drives
  are untouched, and when a step fails the handler is unchanged, so that the release can
  be tried again.
\<close>

theorem Reserve_Release:
  assumes "Reserve os mc dm h cid hostPath vmPath fs options w = (None, h1, w1)"
    and "Release (traced_machine mc') (traced_mounter dm') h1 cid (w2, []) = (r, h2, (w3, t))"
  shows "\<exists>d rest. freeDrives h = d # rest \<and> usedDrives h cid = None \<and>
     (case r of
        None \<Rightarrow> map bare (freeDrives h2) = map bare (rest @ [d]) \<and> usedDrives h2 = usedDrives h \<and>
          t = [EvUnmount (driveID d) None, EvUpdate (driveID d) (filepath_Base (stubPath d)) None]
      | Some err \<Rightarrow> h2 = h1 \<and> (\<exists>e. t = [EvUnmount (driveID d) (Some e)] \<or>
          t = [EvUnmount (driveID d) None, EvUpdate (driveID d) (filepath_Base (stubPath d)) (Some e)]))"
proof -
  from assms(1) show ?thesis
  proof (cases rule: Reserve_cases)
    case (taken d rest opts)
    let ?d = "withMountConfig d hostPath vmPath fs opts"
    have u: "(usedDrives h)(cid := None) = usedDrives h" using taken(3) by auto
    from assms(2) taken u show ?thesis
      by (auto simp: Release_def traced_machine_def traced_mounter_def note_drive_def fun_upd_idem
          split: prod.splits option.splits)
  qed simp
qed

lemma reserve_one:
  "\<exists>h d h1. freeDrives h = [d] \<and> driveID d = ''A'' \<and> stubPath d = ''/s/ctrstub0'' \<and>
     Reserve os_fine machine_fine mounter_fine h ''c'' ''/h'' ''/v'' ''ext4'' [] () = (None, h1, ()) \<and>
     usedDrives h1 ''c'' = Some (withMountConfig d ''/h'' ''/v'' ''ext4'' [''rw''])"
  by (intro exI[of _ "\<lparr>freeDrives = [\<lparr>stubPath = ''/s/ctrstub0'', sd_jail = Noop (newNoopJailer ''/s''), driveID = ''A'',
        driveMount = \<lparr>dm_HostPath = [], dm_VMPath = [], dm_FilesystemType = [], dm_Options = [], dm_RateLimiter = None,
          dm_IsWritable = True\<rparr>\<rparr>], usedDrives = Map.empty\<rparr>"])
    (simp add: Reserve_def setReadWriteOptions_def Let_def PatchAndMount_def machine_fine_def mounter_fine_def
      withMountConfig_def noop_ExposeFileToJail_def)

theorem Reserve_Release_witness:
  "\<exists>h d h1 h2. freeDrives h = [d] \<and>
     Reserve os_fine machine_fine mounter_fine h ''c'' ''/h'' ''/v'' ''ext4'' [] () = (None, h1, ()) \<and>
     Release (traced_machine machine_fine) (traced_mounter mounter_fine) h1 ''c'' ((), []) =
       (None, h2, ((), [EvUnmount ''A'' None, EvUpdate ''A'' ''ctrstub0'' None])) \<and> map bare (freeDrives h2) = [bare d]"
proof -
  obtain h d h1 where d: "freeDrives h = [d]" "driveID d = ''A''" "stubPath d = ''/s/ctrstub0''"
      and e: "Reserve os_fine machine_fine mounter_fine h ''c'' ''/h'' ''/v'' ''ext4'' [] () = (None, h1, ())"
      and u: "usedDrives h1 ''c'' = Some (withMountConfig d ''/h'' ''/v'' ''ext4'' [''rw''])"
    using reserve_one by blast
  define x where "x = Release (traced_machine machine_fine) (traced_mounter mounter_fine) h1 ''c'' ((), [])"
  have r: "fst x = None"
    using u by (simp add: x_def Release_def traced_machine_def traced_mounter_def note_drive_def machine_fine_def mounter_fine_def)
  then obtain h2 t where x: "Release (traced_machine machine_fine) (traced_mounter mounter_fine) h1 ''c'' ((), []) = (None, h2, ((), t))"
    by (cases x) (auto simp: x_def)
  have b: "filepath_Base ''/s/ctrstub0'' = ''ctrstub0''" by (simp add: path_simps)
  from Reserve_Release[OF e x] d b
  have "t = [EvUnmount ''A'' None, EvUpdate ''A'' ''ctrstub0'' None]" "map bare (freeDrives h2) = [bare d]" by auto
  with d(1) e x show ?thesis by (intro exI conjI) (assumption | simp)+
qed

text \<open>
  C22: What \<open>Reserve\<close> does on every branch. It fails without touching anything outside when no
  drive is free, when the container already has one, and when the mount options contradict
  the drive; it fails with the handler unchanged when exposing, patching or mounting
  fails. When it succeeds, the first free drive has been exposed to the jail, patched to
  the host path and mounted at the path in the VM, in this order, with options that say
  "rw" or "ro" as the drive is.
\<close>

theorem Reserve_branches:
  assumes "Reserve os mc dm h cid hostPath vmPath fs options w = (r, h', w')"
  shows "case r of
      Some err \<Rightarrow> h' = h \<and>
        (freeDrives h = [] \<longrightarrow> err = ErrDrivesExhausted \<and> w' = w) \<and>
        (freeDrives h \<noteq> [] \<and> cid \<in> dom (usedDrives h) \<longrightarrow> w' = w) \<and>
        (freeDrives h \<noteq> [] \<and> cid \<notin> dom (usedDrives h) \<and>
           first_rw options = Some (if dm_IsWritable (driveMount (hd (freeDrives h))) then ''ro'' else ''rw'') \<longrightarrow> w' = w)
    | None \<Rightarrow> \<exists>d rest opts w1 w2. freeDrives h = d # rest \<and> cid \<notin> dom (usedDrives h) \<and>
        first_rw opts = Some (if dm_IsWritable (driveMount d) then ''rw'' else ''ro'') \<and>
        ExposeFileToJail os (sd_jail d) hostPath w = (None, w1) \<and>
        UpdateGuestDrive mc (driveID d) hostPath w1 = (None, w2) \<and>
        svc_MountDrive dm \<lparr>mdr_DriveID = driveID d, DestinationPath = vmPath, FilesytemType = fs, mdr_Options = opts\<rparr> w2
          = (None, w') \<and>
        freeDrives h' = rest \<and> usedDrives h' = (usedDrives h)(cid \<mapsto> withMountConfig d hostPath vmPath fs opts)"
proof (cases r)
  case (Some err)
  with assms have "h' = h" by (cases rule: Reserve_cases) auto
  moreover have "\<exists>e. setReadWriteOptions options b = Inl e"
    if "first_rw options = Some (if b then ''ro'' else ''rw'')" for b
    using that by (simp add: setReadWriteOptions_def)
  moreover have "w' = w" if "freeDrives h = []"
    using assms that by (simp add: Reserve_def)
  moreover have "w' = w" if "freeDrives h \<noteq> []" "cid \<in> dom (usedDrives h)"
    using assms that by (auto simp: Reserve_def split: list.splits)
  moreover have "err = ErrDrivesExhausted" if "freeDrives h = []"
    using assms that Some by (simp add: Reserve_def)
  moreover have "w' = w" if ne: "freeDrives h \<noteq> []" and new: "cid \<notin> dom (usedDrives h)"
      and rw: "first_rw options = Some (if dm_IsWritable (driveMount (hd (freeDrives h))) then ''ro'' else ''rw'')"
  proof -
    obtain d rest where d: "freeDrives h = d # rest" using ne by (cases "freeDrives h") auto
    then obtain e where "setReadWriteOptions options (dm_IsWritable (driveMount d)) = Inl e"
      using rw calculation(2) by auto
    with assms d new show ?thesis by (auto simp: Reserve_def domIff)
  qed
  ultimately show ?thesis using Some by simp
next
  case None
  from assms show ?thesis
  proof (cases rule: Reserve_cases)
    case (taken d rest opts)
    have "first_rw opts = Some (if dm_IsWritable (driveMount d) then ''rw'' else ''ro'')"
      using taken(4) setReadWriteOptions_decides[of options "dm_IsWritable (driveMount d)"] by simp
    with taken None show ?thesis
      by (auto simp: PatchAndMount_def withMountConfig_def domIff split: prod.splits option.splits)
  qed (use None in simp)
qed

theorem Reserve_branches_witness:
  "\<exists>h d h1. Reserve os_fine machine_fine mounter_fine h ''c'' ''/h'' ''/v'' ''ext4'' [] () = (None, h1, ()) \<and>
     freeDrives h = [d] \<and> usedDrives h ''c'' = None \<and> freeDrives h1 = []"
proof -
  obtain h d h1 where d: "freeDrives h = [d]"
      and e: "Reserve os_fine machine_fine mounter_fine h ''c'' ''/h'' ''/v'' ''ext4'' [] () = (None, h1, ())"
    using reserve_one by blast
  from Reserve_branches[OF e] d have "''c'' \<notin> dom (usedDrives h)" "freeDrives h1 = []" by auto
  with d e show ?thesis by (intro exI[of _ h] exI[of _ d] exI[of _ h1]) (simp add: domIff)
qed

end
