(* ===== verification/ConfigLoad.thy ===== *)
theory ConfigLoad
  imports FcTypes DebugLevels World
begin

text \<open>
  \<open>config/config.go\<close>: loading the runtime configuration. The environment and the JSON
  decoder are parameters: \<open>Unmarshal data (cfg, ls)\<close> decodes \<open>data\<close> over a configuration that is
  already filled in, as \<open>encoding/json\<close> does, and gives the configuration and its
  \<open>log_levels\<close>. \<open>models.CPUTemplateT2\<close>, a constant of the SDK, is the parameter \<open>t2\<close>.
\<close>

definition ConfigPathEnvName :: string where
  "ConfigPathEnvName = ''FIRECRACKER_CONTAINERD_RUNTIME_CONFIG_PATH''"

definition defaultConfigPath :: string where
  "defaultConfigPath = ''/etc/containerd/firecracker-runtime.json''"

definition defaultKernelArgs :: string where
  "defaultKernelArgs = ''console=ttyS0 noapic reboot=k panic=1 pci=off nomodules rw''"

definition defaultFilesPath :: string where
  "defaultFilesPath = ''/var/lib/firecracker-containerd/runtime/''"

definition defaultKernelPath :: string where
  "defaultKernelPath = defaultFilesPath @ ''default-vmlinux.bin''"

definition defaultRootfsPath :: string where
  "defaultRootfsPath = defaultFilesPath @ ''default-rootfs.img''"

definition defaultShimBaseDir :: string where
  "defaultShimBaseDir = ''/var/lib/firecracker-containerd/shim-base''"

definition runcConfigPath :: string where
  "runcConfigPath = ''/etc/containerd/firecracker-runc-config.json''"

text \<open>The configuration before the file is decoded over it.\<close>

definition default_config :: "string \<Rightarrow> Config" where
  "default_config t2 =
     \<lparr>FirecrackerBinaryPath = [], cfg_KernelImagePath = defaultKernelPath, cfg_KernelArgs = defaultKernelArgs,
      cfg_RootDrive = defaultRootfsPath, cfg_CPUTemplate = t2, cfg_HtEnabled = False,
      DefaultNetworkInterfaces = [], ShimBaseDir = defaultShimBaseDir,
      RuncBinaryPath = [], RuncConfigPath = runcConfigPath\<rparr>"

definition config_path :: "(string \<Rightarrow> string) \<Rightarrow> string \<Rightarrow> string" where
  "config_path getenv path =
     (let path = (if path = [] then getenv ConfigPathEnvName else path)
      in if path = [] then defaultConfigPath else path)"

definition LoadConfig ::
    "'w os \<Rightarrow> (string \<Rightarrow> string) \<Rightarrow> (string \<Rightarrow> Config \<times> string list \<Rightarrow> gerr + Config \<times> string list) \<Rightarrow> string \<Rightarrow>
     string \<Rightarrow> 'w \<Rightarrow> (gerr + Config \<times> Helper) \<times> 'w" where
  "LoadConfig os getenv Unmarshal t2 path w =
     (let path = config_path getenv path in
      case os_ReadFile os path w of
        (Inl err, w) \<Rightarrow> (Inl (Wrap err ''failed to read config from %q'' [path]), w)
      | (Inr data, w) \<Rightarrow>
          (case Unmarshal data (default_config t2, []) of
             Inl err \<Rightarrow> (Inl (Wrap err ''failed to unmarshal config from %q'' [path]), w)
           | Inr (cfg, levels) \<Rightarrow>
               (case New levels of
                  Inl err \<Rightarrow> (Inl err, w)
                | Inr helper \<Rightarrow> (Inr (cfg, helper), w))))"

section \<open>Properties\<close>

text \<open>The argument wins over the environment, which wins over the default path.\<close>

lemma config_path_order:
  "config_path getenv p =
     (if p \<noteq> [] then p else if getenv ConfigPathEnvName \<noteq> [] then getenv ConfigPathEnvName else defaultConfigPath)"
  by (simp add: config_path_def)

lemma LoadConfig_ok:
  "LoadConfig os getenv U t2 path w = (Inr (cfg, h), w') \<longleftrightarrow>
     (\<exists>data levels. os_ReadFile os (config_path getenv path) w = (Inr data, w') \<and>
        U data (default_config t2, []) = Inr (cfg, levels) \<and> New levels = Inr h)"
  by (auto simp: LoadConfig_def Let_def split: prod.splits sum.splits)

end
