(* ===== verification/HostService.thy ===== *)
theory HostService
  imports DriveHandler TaskManager IOProxies Vsock ConfigLoad
begin

text \<open>
  \<open>runtime/service.go\<close>: the shim that runs one VM. The Firecracker SDK, runc, the RPC clients,
  the event exchange, the clock and the encoding of protobuf values are parameters, the
  fields of \<open>shim_env\<close>. A call of the API is one step from a service state to the next: the
  channel \<open>vmReady\<close> and the two \<open>sync.Once\<close> are flags, so that a call that waits for \<open>vmReady\<close>
  and sees \<open>CreateVM\<close> finish in time is the call made just after it. A field that is nil
  until the VM is created is an option, and following it is a \<open>Panic\<close>, on which the process
  dies (\<open>logPanicAndDie\<close>).
\<close>

section \<open>State\<close>

definition defaultVsockPort :: "32 word" where "defaultVsockPort = 10789"

definition minVsockIOPort :: "32 word" where "minVsockIOPort = 11000"

definition time_Second :: int where "time_Second = 1000 * time_Millisecond"

definition defaultCreateVMTimeout :: int where "defaultCreateVMTimeout = 20 * time_Second"

definition defaultStopVMTimeout :: int where "defaultStopVMTimeout = 5 * time_Second"

definition defaultShutdownTimeout :: int where "defaultShutdownTimeout = 5 * time_Second"

definition jailerStopTimeout :: int where "jailerStopTimeout = 3 * time_Second"

definition StartEventName :: string where "StartEventName = ''/firecracker-vm/start''"

definition StopEventName :: string where "StopEventName = ''/firecracker-vm/stop''"

definition nil_deref :: gerr where
  "nil_deref = Panic ''invalid memory address or nil pointer dereference''"

text \<open>
  The SDK's machine. Starting it runs the handlers that the jailer installed; it gets the context of the shim, which has no deadline, and \<open>None\<close> means that it
  does not come back. The calls that get the context of a request come back, at the latest with that context's error.
\<close>

record 'w vmm =
  vm_iface :: "'w machine"
  vm_Start :: "jailer \<Rightarrow> 'w \<Rightarrow> (gerr option \<times> jailer) option \<times> 'w"
  vm_Wait :: "'w \<Rightarrow> gerr option \<times> 'w"
  vm_PID :: "'w \<Rightarrow> (int \<times> gerr option) \<times> 'w"
  vm_SetMetadata :: "string \<Rightarrow> 'w \<Rightarrow> gerr option \<times> 'w"
  vm_UpdateMetadata :: "string \<Rightarrow> 'w \<Rightarrow> gerr option \<times> 'w"
  vm_GetMetadata :: "'w \<Rightarrow> (gerr + string) \<times> 'w"

text \<open>
  \<open>e_dial_sched\<close> is what a request context with that timeout lets the dialling loop see. \<open>e_WithRootDrive\<close>
  builds the drives that the SDK's builder makes of a root drive and its options.
\<close>

record ('w, 'ip, 'b) shim_env =
  e_os :: "'w os"
  e_runc :: "'w runc"
  e_net :: "'w net"
  e_tb :: "'b tb_sdk"
  e_Validate :: "string \<Rightarrow> gerr option"
  e_Unmarshal_spec :: "string \<Rightarrow> gerr + Spec"
  e_vmArgs :: "string \<Rightarrow> string \<Rightarrow> string list"
  e_WithRootDrive :: "string \<Rightarrow> (Drive \<Rightarrow> Drive) list \<Rightarrow> Drive list"
  e_WithReadOnly :: "bool \<Rightarrow> Drive \<Rightarrow> Drive"
  e_WithPartuuid :: "string \<Rightarrow> Drive \<Rightarrow> Drive"
  e_ParseCIDR :: "string \<Rightarrow> gerr + 'ip \<times> 'ip"
  e_ParseIP :: "string \<Rightarrow> 'ip option"
  e_NewMachine :: "'ip fc_Config \<Rightarrow> Level option \<Rightarrow> fc_Opt list \<Rightarrow> 'w \<Rightarrow> (gerr + 'w vmm) \<times> 'w"
  e_dial_sched :: "int \<Rightarrow> select list"
  e_clients :: "net_conn \<Rightarrow> 'w TaskService \<times> 'w DriveMounterService"
  e_Publish :: "string \<Rightarrow> string \<Rightarrow> 'w \<Rightarrow> gerr option \<times> 'w"
  e_shimCancel :: "'w \<Rightarrow> 'w"
  e_Sleep :: "int \<Rightarrow> 'w \<Rightarrow> 'w"
  e_MarshalAny :: "ExtraData \<Rightarrow> gerr + any"
  e_url_rest_ok :: "string \<Rightarrow> gerr option"
  e_run_proxy :: "ioproxy \<Rightarrow> 'w IOProxy"

record ('w, 'ip) service =
  s_taskManager :: taskManager
  s_shimNamespace :: "string option"
  s_vmID :: string
  s_shimDir :: string
  s_config :: Config
  s_DebugHelper :: Helper
  vmReady :: bool
  vmStartOnce :: bool
  agentClient :: "'w TaskService option"
  driveMountClient :: "'w DriveMounterService option"
  s_jailer :: "jailer option"
  containerStubHandler :: "StubDriveHandler option"
  driveMountStubs :: "stubDrive list"
  exitAfterAllTasksDeleted :: bool
  cleanupErr :: "gerr option"
  cleanupOnce :: bool
  s_machine :: "'w vmm option"
  machineConfig :: "'ip fc_Config option"
  vsockIOPortCount :: "32 word"

text \<open>The state that \<open>NewService\<close> makes, once its configuration and directory are known.\<close>

definition initial_service ::
    "string option \<Rightarrow> string \<Rightarrow> string \<Rightarrow> Config \<Rightarrow> Helper \<Rightarrow> ('w, 'ip) service" where
  "initial_service ns vmID dir cfg helper =
     \<lparr>s_taskManager = NewTaskManager, s_shimNamespace = ns, s_vmID = vmID, s_shimDir = dir, s_config = cfg,
      s_DebugHelper = helper, vmReady = False, vmStartOnce = False, agentClient = None, driveMountClient = None,
      s_jailer = Some (Noop (newNoopJailer dir)), containerStubHandler = None, driveMountStubs = [],
      exitAfterAllTasksDeleted = False, cleanupErr = None, cleanupOnce = False, s_machine = None,
      machineConfig = None, vsockIOPortCount = 0\<rparr>"

section \<open>Ports\<close>

text \<open>\<open>None\<close> is the panic at the last port.\<close>

definition nextVSockPort :: "('w, 'ip) service \<Rightarrow> (32 word \<times> ('w, 'ip) service) option" where
  "nextVSockPort s =
     (let port = minVsockIOPort + vsockIOPortCount s in
      if port = - 1 then None
      else Some (port, s\<lparr>vsockIOPortCount := vsockIOPortCount s + 1\<rparr>))"

definition generateExtraData ::
    "('w, 'ip) service \<Rightarrow> string \<Rightarrow> any \<Rightarrow> (ExtraData \<times> ('w, 'ip) service) option" where
  "generateExtraData s jsonBytes options =
     (let opts = (case options of None \<Rightarrow> None | Some (TypeUrl, Value) \<Rightarrow> Some (TypeUrl, Value)) in
      case nextVSockPort s of
        None \<Rightarrow> None
      | Some (sin, s) \<Rightarrow>
          (case nextVSockPort s of
             None \<Rightarrow> None
           | Some (sout, s) \<Rightarrow>
               (case nextVSockPort s of
                  None \<Rightarrow> None
                | Some (serr, s) \<Rightarrow>
                    Some (\<lparr>JsonSpec = jsonBytes, RuncOptions = opts, StdinPort = sin, StdoutPort = sout, StderrPort = serr\<rparr>, s))))"

section \<open>Waiting for the VM\<close>

definition waitVMReady :: "('w, 'ip) service \<Rightarrow> gerr option" where
  "waitVMReady s =
     (if vmReady s then None else Some (StatusError DeadlineExceeded ''timed out waiting for VM start''))"

definition publishVMStart :: "('w, 'ip, 'b) shim_env \<Rightarrow> ('w, 'ip) service \<Rightarrow> 'w \<Rightarrow> gerr option \<times> 'w" where
  "publishVMStart env s w = e_Publish env StartEventName (s_vmID s) w"

definition publishVMStop :: "('w, 'ip, 'b) shim_env \<Rightarrow> ('w, 'ip) service \<Rightarrow> 'w \<Rightarrow> gerr option \<times> 'w" where
  "publishVMStop env s w = e_Publish env StopEventName (s_vmID s) w"

section \<open>The VM's configuration\<close>

definition buildRootDrive :: "('w, 'ip, 'b) shim_env \<Rightarrow> ('w, 'ip) service \<Rightarrow> CreateVMRequest \<Rightarrow> Drive list" where
  "buildRootDrive env s req =
     (case RootDrive req of
        Some input \<Rightarrow>
          e_WithRootDrive env (rd_HostPath input)
            [e_WithReadOnly env (\<not> rd_IsWritable input), e_WithPartuuid env (rd_Partuuid input),
             withRateLimiterFromProto (e_tb env) (rd_RateLimiter input)]
      | None \<Rightarrow> e_WithRootDrive env (cfg_RootDrive (s_config s)) [e_WithReadOnly env True])"

fun network_configs ::
    "('w, 'ip, 'b) shim_env \<Rightarrow> string \<Rightarrow> FirecrackerNetworkInterface list \<Rightarrow> 'ip NetworkInterface list \<Rightarrow>
     gerr + 'ip NetworkInterface list" where
  "network_configs env vmID [] acc = Inr acc"
| "network_configs env vmID (ni # nis) acc =
     (case networkConfigFromProto (e_tb env) (e_ParseCIDR env) (e_ParseIP env) ni vmID of
        Inl err \<Rightarrow> Inl (Wrap err ''failed to convert network config %+v'' [])
      | Inr netCfg \<Rightarrow> network_configs env vmID nis (acc @ [netCfg]))"

text \<open>The first loop: the drive mounts must be given by absolute paths.\<close>

fun relative_mount :: "FirecrackerDriveMount list \<Rightarrow> FirecrackerDriveMount option" where
  "relative_mount [] = None"
| "relative_mount (dm # dms) =
     (if \<not> strings_HasPrefix (dm_HostPath dm) ''/'' \<or> \<not> strings_HasPrefix (dm_VMPath dm) ''/'' then Some dm
      else relative_mount dms)"

text \<open>The part up to the drives.\<close>

definition base_config ::
    "('w, 'ip, 'b) shim_env \<Rightarrow> ('w, 'ip) service \<Rightarrow> CreateVMRequest \<Rightarrow> string \<Rightarrow> string \<Rightarrow> 'ip fc_Config" where
  "base_config env s req relSockPath relVSockPath =
     \<lparr>fc_SocketPath = relSockPath,
      fc_LogFifo = FirecrackerLogFifoPath (s_shimDir s),
      fc_LogLevel = GetFirecrackerLogLevel (s_DebugHelper s),
      fc_MetricsFifo = FirecrackerMetricsFifoPath (s_shimDir s),
      fc_KernelImagePath = (if KernelImagePath req \<noteq> [] then KernelImagePath req else cfg_KernelImagePath (s_config s)),
      fc_KernelArgs = (if KernelArgs req \<noteq> [] then KernelArgs req else cfg_KernelArgs (s_config s)),
      fc_Drives = buildRootDrive env s req,
      fc_NetworkInterfaces = [],
      fc_VsockDevices = [(relVSockPath, ''agent_api'')],
      fc_MachineCfg = machineConfigurationFromProto (s_config s) (MachineCfg req),
      fc_VMID = s_vmID s,
      fc_NetNS = (case JailerConfig req of None \<Rightarrow> [] | Some jc \<Rightarrow> rj_NetNS jc)\<rparr>"

text \<open>\<open>int(req.ContainerCount)\<close> of an \<open>int32\<close>; at least one container.\<close>

definition container_count :: "CreateVMRequest \<Rightarrow> int" where
  "container_count req = (if sint (ContainerCount req) < 1 then 1 else sint (ContainerCount req))"

definition buildVMConfiguration ::
    "('w, 'ip, 'b) shim_env \<Rightarrow> ('w, 'ip) service \<Rightarrow> CreateVMRequest \<Rightarrow> 'w \<Rightarrow>
     (gerr + 'ip fc_Config) \<times> ('w, 'ip) service \<times> 'w" where
  "buildVMConfiguration env s req w =
     (case relative_mount (DriveMounts req) of
        Some dm \<Rightarrow> (Inl (Errorf ''driveMount %s contains relative path'' [dm_HostPath dm, dm_VMPath dm]), s, w)
      | None \<Rightarrow>
     (case FirecrackerSockRelPath (e_os env) (s_shimDir s) w of
        (Inl err, w) \<Rightarrow> (Inl (Wrap err ''failed to get relative path to firecracker api socket'' []), s, w)
      | (Inr relSockPath, w) \<Rightarrow>
     (case s_jailer s of
        None \<Rightarrow> (Inl nil_deref, s, w)
      | Some jail \<Rightarrow>
     (case FirecrackerVSockRelPath (e_os env) (JailPath jail) w of
        (Inl err, w) \<Rightarrow> (Inl (Wrap err ''failed to get relative path to firecracker vsock'' []), s, w)
      | (Inr relVSockPath, w) \<Rightarrow>
     (case CreateContainerStubs (e_os env) (e_tb env) (base_config env s req relSockPath relVSockPath) jail (container_count req) w of
        (Inl err, cfg, w) \<Rightarrow>
          (Inl (Wrap err ''failed to create container stub drives'' []), s\<lparr>containerStubHandler := None\<rparr>, w)
      | (Inr h, cfg, w) \<Rightarrow>
     (let s = s\<lparr>containerStubHandler := Some h\<rparr> in
      case CreateDriveMountStubs (e_os env) (e_tb env) cfg jail (DriveMounts req) w of
        (Inl err, cfg, w) \<Rightarrow>
          (Inl (Wrap err ''failed to create drive mount stub drives'' []), s\<lparr>driveMountStubs := []\<rparr>, w)
      | (Inr stubs, cfg, w) \<Rightarrow>
     (let s = s\<lparr>driveMountStubs := stubs\<rparr>;
          nis = (case NetworkInterfaces req of None \<Rightarrow> DefaultNetworkInterfaces (s_config s) | Some nis \<Rightarrow> nis) in
      case network_configs env (s_vmID s) nis [] of
        Inl err \<Rightarrow> (Inl err, s, w)
      | Inr netCfgs \<Rightarrow> (Inr (cfg\<lparr>fc_NetworkInterfaces := netCfgs\<rparr>), s, w))))))))"

section \<open>Creating the VM\<close>

fun mountDrives ::
    "'w os \<Rightarrow> 'w machine \<Rightarrow> 'w DriveMounterService \<Rightarrow> stubDrive list \<Rightarrow> 'w \<Rightarrow> gerr option \<times> 'w" where
  "mountDrives os mc mounter [] w = (None, w)"
| "mountDrives os mc mounter (sd # sds) w =
     (case PatchAndMount os mc mounter sd w of
        (Some err, w) \<Rightarrow> (Some (Wrap err ''failed to patch drive mount stub'' []), w)
      | (None, w) \<Rightarrow> mountDrives os mc mounter sds w)"

text \<open>
  The last part, once the machine has been made: start it, connect to the agent, mount the drives.
  The outer \<open>None\<close> means that the start of the machine does not come back, or that the dialling has not come to an end.
\<close>

definition start_and_connect ::
    "('w, 'ip, 'b) shim_env \<Rightarrow> ('w, 'ip) service \<Rightarrow> CreateVMRequest \<Rightarrow> select list \<Rightarrow> string \<Rightarrow> 'w vmm \<Rightarrow> jailer \<Rightarrow> 'w \<Rightarrow>
     gerr option option \<times> ('w, 'ip) service \<times> 'w" where
  "start_and_connect env s request sched relVSockPath m jail w =
     (case vm_Start m jail w of
        (None, w) \<Rightarrow> (None, s, w)
      | (Some (Some err, jail), w) \<Rightarrow>
          (Some (Some (Wrap err ''failed to start the VM'' [])), s\<lparr>s_jailer := Some jail\<rparr>, w)
      | (Some (None, jail), w) \<Rightarrow>
     (let s = s\<lparr>s_jailer := Some jail\<rparr> in
      case VSockDial (e_net env) relVSockPath defaultVsockPort sched w of
        (None, w) \<Rightarrow> (None, s, w)
      | (Some (Inl err), w) \<Rightarrow> (Some (Some (Wrap err ''failed to dial the VM over vsock'' [])), s, w)
      | (Some (Inr conn), w) \<Rightarrow>
     (let (agent, mounter) = e_clients env conn;
          s = s\<lparr>agentClient := Some agent, driveMountClient := Some mounter,
                exitAfterAllTasksDeleted := ExitAfterAllTasksDeleted request\<rparr> in
      case mountDrives (e_os env) (vm_iface m) mounter (driveMountStubs s) w of
        (Some err, w) \<Rightarrow> (Some (Some err), s, w)
      | (None, w) \<Rightarrow> (Some None, s, w))))"

definition createVM ::
    "('w, 'ip, 'b) shim_env \<Rightarrow> ('w, 'ip) service \<Rightarrow> CreateVMRequest \<Rightarrow> select list \<Rightarrow> 'w \<Rightarrow>
     gerr option option \<times> ('w, 'ip) service \<times> 'w" where
  "createVM env s request sched w =
     (let namespace = (case s_shimNamespace s of None \<Rightarrow> ''default'' | Some ns \<Rightarrow> ns) in
      case ShimDir (e_os env) (e_Validate env) (ShimBaseDir (s_config s)) namespace (s_vmID s) w of
        (Inl err, w) \<Rightarrow> (Some (Some err), s, w)
      | (Inr dir, w) \<Rightarrow>
     (case newJailer (e_os env) (e_Unmarshal_spec env) (RootPath dir) (s_config s) (s_shimDir s) (s_vmID s) (Some request) w of
        (Inl err, w) \<Rightarrow> (Some (Some (Wrap err ''failed to create jailer'' [])), s\<lparr>s_jailer := None\<rparr>, w)
      | (Inr jail, w) \<Rightarrow>
     (case buildVMConfiguration env (s\<lparr>s_jailer := Some jail\<rparr>) request w of
        (Inl err, s, w) \<Rightarrow>
          (Some (Some (Wrap err ''failed to build VM configuration'' [])), s\<lparr>machineConfig := None\<rparr>, w)
      | (Inr cfg, s, w) \<Rightarrow>
     (let s = s\<lparr>machineConfig := Some cfg\<rparr>;
          sdkLevel = (case GetFirecrackerSDKLogLevel (s_DebugHelper s) of (v, ok) \<Rightarrow> if ok then Some v else None) in
      case FirecrackerVSockRelPath (e_os env) (JailPath jail) w of
        (Inl err, w) \<Rightarrow> (Some (Some (Wrap err ''failed to get relative path to firecracker vsock'' [])), s, w)
      | (Inr relVSockPath, w) \<Rightarrow>
     (case BuildJailedMachine (e_os env) (e_vmArgs env) jail (s_config s) (LogFirecrackerOutput (s_DebugHelper s)) cfg (s_vmID s) w of
        (Inl err, cfg, w) \<Rightarrow>
          (Some (Some (Wrap err ''failed to build jailed machine options'' [])), s\<lparr>machineConfig := Some cfg\<rparr>, w)
      | (Inr opts, cfg, w) \<Rightarrow>
     (let s = s\<lparr>machineConfig := Some cfg\<rparr> in
      case e_NewMachine env cfg sdkLevel opts w of
        (Inl err, w) \<Rightarrow> (Some (Some (Wrap err ''failed to create new machine instance'' [])), s\<lparr>s_machine := None\<rparr>, w)
      | (Inr m, w) \<Rightarrow> start_and_connect env (s\<lparr>s_machine := Some m\<rparr>) request sched relVSockPath m jail w))))))"

record CreateVMResponse =
  resp_VMID :: string
  resp_SocketPath :: string
  resp_LogFifoPath :: string
  resp_MetricsFifoPath :: string
  resp_CgroupPath :: string

definition vm_response :: "('w, 'ip) service \<Rightarrow> gerr + CreateVMResponse" where
  "vm_response s =
     (case (machineConfig s, s_jailer s) of
        (Some cfg, Some jail) \<Rightarrow>
          Inr \<lparr>resp_VMID = s_vmID s, resp_SocketPath = FirecrackerSockPath (s_shimDir s),
               resp_LogFifoPath = fc_LogFifo cfg, resp_MetricsFifoPath = fc_MetricsFifo cfg,
               resp_CgroupPath = (case cgroupPath jail of None \<Rightarrow> [] | Some p \<Rightarrow> p)\<rparr>
      | _ \<Rightarrow> Inl nil_deref)"

text \<open>A number of seconds from a request, or the default.\<close>

definition request_timeout :: "32 word \<Rightarrow> int \<Rightarrow> int" where
  "request_timeout seconds dflt = (if seconds > 0 then i64 (uint seconds * time_Second) else dflt)"

text \<open>
  \<open>CreateVM\<close>. The error of a failed publication is only logged. The goroutine \<open>monitorVMExit\<close>, started
  on success, is a step of its own below.
\<close>

definition shim_CreateVM ::
    "('w, 'ip, 'b) shim_env \<Rightarrow> ('w, 'ip) service \<Rightarrow> CreateVMRequest \<Rightarrow> 'w \<Rightarrow>
     (gerr + CreateVMResponse) option \<times> ('w, 'ip) service \<times> 'w" where
  "shim_CreateVM env s request w =
     (let timeout = request_timeout (TimeoutSeconds request) defaultCreateVMTimeout in
      if vmStartOnce s then (Some (Inl (StatusError AlreadyExists ''shim cannot create VM more than once'')), s, w)
      else
        case createVM env s request (e_dial_sched env timeout) w of
          (None, s, w) \<Rightarrow> (None, s, w)
        | (Some (Some err), s, w) \<Rightarrow>
            (Some (Inl (if cause err = ContextDeadlineExceeded then StatusError DeadlineExceeded ''VM %q didn't start within %s: %s''
                        else Wrap err ''failed to create VM'' [])),
             s\<lparr>vmStartOnce := True\<rparr>, e_shimCancel env w)
        | (Some None, s, w) \<Rightarrow>
            (let (_, w) = publishVMStart env s w; s = s\<lparr>vmStartOnce := True, vmReady := True\<rparr>
             in (Some (vm_response s), s, w)))"

definition shim_GetVMInfo :: "('w, 'ip) service \<Rightarrow> gerr + CreateVMResponse" where
  "shim_GetVMInfo s = (case waitVMReady s of Some err \<Rightarrow> Inl err | None \<Rightarrow> vm_response s)"

section \<open>Metadata\<close>

definition shim_SetVMMetadata :: "('w, 'ip) service \<Rightarrow> string \<Rightarrow> 'w \<Rightarrow> gerr option \<times> 'w" where
  "shim_SetVMMetadata s metadata w =
     (case waitVMReady s of
        Some err \<Rightarrow> (Some err, w)
      | None \<Rightarrow>
          (case s_machine s of
             None \<Rightarrow> (Some nil_deref, w)
           | Some m \<Rightarrow>
               (case vm_SetMetadata m metadata w of
                  (Some err, w) \<Rightarrow> (Some (Wrap err ''failed to set VM metadata'' []), w)
                | (None, w) \<Rightarrow> (None, w))))"

definition shim_UpdateVMMetadata :: "('w, 'ip) service \<Rightarrow> string \<Rightarrow> 'w \<Rightarrow> gerr option \<times> 'w" where
  "shim_UpdateVMMetadata s metadata w =
     (case waitVMReady s of
        Some err \<Rightarrow> (Some err, w)
      | None \<Rightarrow>
          (case s_machine s of
             None \<Rightarrow> (Some nil_deref, w)
           | Some m \<Rightarrow>
               (case vm_UpdateMetadata m metadata w of
                  (Some err, w) \<Rightarrow> (Some (Wrap err ''failed to update VM metadata'' []), w)
                | (None, w) \<Rightarrow> (None, w))))"

definition shim_GetVMMetadata :: "('w, 'ip) service \<Rightarrow> 'w \<Rightarrow> (gerr + string) \<times> 'w" where
  "shim_GetVMMetadata s w =
     (case waitVMReady s of
        Some err \<Rightarrow> (Inl err, w)
      | None \<Rightarrow>
          (case s_machine s of
             None \<Rightarrow> (Inl nil_deref, w)
           | Some m \<Rightarrow>
               (case vm_GetMetadata m w of
                  (Inl err, w) \<Rightarrow> (Inl (Wrap err ''failed to get VM metadata'' []), w)
                | (Inr metadata, w) \<Rightarrow> (Inr metadata, w))))"

section \<open>Shutting down\<close>

text \<open>\<open>cleanup\<close> runs its body once and keeps the error for every caller.\<close>

definition cleanup_body :: "('w, 'ip, 'b) shim_env \<Rightarrow> ('w, 'ip) service \<Rightarrow> jailer \<Rightarrow> 'w \<Rightarrow> gerr option \<times> 'w" where
  "cleanup_body env s jail w =
     (let (closeErr, w) = jailer_Close (e_os env) (e_runc env) jail w;
          result = multi_append [] closeErr;
          (pubErr, w) = publishVMStop env s w;
          result = multi_append result pubErr;
          w = e_shimCancel env w
      in (multi_error_or_nil result, w))"

definition shim_cleanup ::
    "('w, 'ip, 'b) shim_env \<Rightarrow> ('w, 'ip) service \<Rightarrow> 'w \<Rightarrow> gerr option \<times> ('w, 'ip) service \<times> 'w" where
  "shim_cleanup env s w =
     (if cleanupOnce s then (cleanupErr s, s, w)
      else
        case s_jailer s of
          None \<Rightarrow> (Some nil_deref, s, w)
        | Some jail \<Rightarrow>
            (let (err, w) = cleanup_body env s jail w
             in (err, s\<lparr>cleanupOnce := True, cleanupErr := err\<rparr>, w)))"

text \<open>The actions of \<open>shutdownLoop\<close>, each with the time to wait after it.\<close>

datatype shutdown_action = AskAgent string bool | StopJailer

definition shutdown_actions :: "int \<Rightarrow> string \<Rightarrow> bool \<Rightarrow> (shutdown_action \<times> int) list" where
  "shutdown_actions timeout taskID now = [(AskAgent taskID now, timeout), (StopJailer, jailerStopTimeout)]"

text \<open>
  \<open>None\<close> is a nil pointer that is followed. The loop runs in a goroutine of its own, where nobody recovers a panic.
\<close>

fun run_action ::
    "('w, 'ip, 'b) shim_env \<Rightarrow> ('w, 'ip) service \<Rightarrow> shutdown_action \<Rightarrow> 'w \<Rightarrow> gerr option option \<times> 'w" where
  "run_action env s (AskAgent taskID now) w =
     (case agentClient s of
        None \<Rightarrow> (None, w)
      | Some agent \<Rightarrow>
          (case svc_Call agent (ShutdownCall taskID now) w of
             (Inl err, w) \<Rightarrow> (Some (Some err), w)
           | (Inr _, w) \<Rightarrow> (Some None, w)))"
| "run_action env s StopJailer w =
     (case s_jailer s of
        None \<Rightarrow> (None, w)
      | Some jail \<Rightarrow> (let (err, w) = jailer_Stop (e_os env) (e_runc env) jail w in (Some err, w)))"

text \<open>
  The loop over some of the actions: it has done them all, or has stopped as there is nothing to kill, or has panicked.
  \<open>machine.PID\<close> is asked before each action.
\<close>

datatype loop_end = LoopDone | NothingToKill | LoopPanicked

fun shutdownLoop ::
    "('w, 'ip, 'b) shim_env \<Rightarrow> ('w, 'ip) service \<Rightarrow> 'w vmm \<Rightarrow> (shutdown_action \<times> int) list \<Rightarrow> 'w \<Rightarrow> loop_end \<times> 'w" where
  "shutdownLoop env s m [] w = (LoopDone, w)"
| "shutdownLoop env s m ((action, timeout) # actions) w =
     (case vm_PID m w of
        ((pid, err), w) \<Rightarrow>
          if pid = 0 \<and> err \<noteq> None then (NothingToKill, w)
          else
            (case run_action env s action w of
               (None, w) \<Rightarrow> (LoopPanicked, w)
             | (Some (Some err), w) \<Rightarrow> shutdownLoop env s m actions w
             | (Some None, w) \<Rightarrow> shutdownLoop env s m actions (e_Sleep env timeout w)))"

text \<open>
  The loop is a goroutine beside \<open>machine.Wait\<close> and the cleanup. \<open>k\<close> is the number of its actions that
  are over when the machine is seen to have exited; the others come after the cleanup. When the loop panics the process dies: before the machine has exited nothing else
  happens then, and after the cleanup the caller gets no answer.
\<close>

definition shim_shutdown ::
    "('w, 'ip, 'b) shim_env \<Rightarrow> nat \<Rightarrow> ('w, 'ip) service \<Rightarrow> int \<Rightarrow> string \<Rightarrow> bool \<Rightarrow> 'w \<Rightarrow> gerr option \<times> ('w, 'ip) service \<times> 'w" where
  "shim_shutdown env k s timeout taskID now w =
     (case s_machine s of
        None \<Rightarrow> (Some nil_deref, s, w)
      | Some m \<Rightarrow>
          (let actions = shutdown_actions timeout taskID now; (loop, w) = shutdownLoop env s m (take k actions) w in
           if loop = LoopPanicked then (Some nil_deref, s, w)
           else
             (let (waitErr, w) = vm_Wait m w;
                  result = multi_append [] waitErr;
                  (cleanErr, s, w) = shim_cleanup env s w;
                  result = multi_append result cleanErr;
                  (loop, w) = (if loop = LoopDone then shutdownLoop env s m (drop k actions) w else (loop, w))
              in (if loop = LoopPanicked then Some nil_deref
                  else if result = [] then None
                  else Some (StatusError Internal ''the VMM was killed forcibly: %v''), s, w))))"

definition shim_StopVM ::
    "('w, 'ip, 'b) shim_env \<Rightarrow> nat \<Rightarrow> ('w, 'ip) service \<Rightarrow> 32 word \<Rightarrow> 'w \<Rightarrow> gerr option \<times> ('w, 'ip) service \<times> 'w" where
  "shim_StopVM env k s timeoutSeconds w =
     (let timeout = request_timeout timeoutSeconds defaultStopVMTimeout in
      case waitVMReady s of
        Some err \<Rightarrow> (Some err, s, w)
      | None \<Rightarrow> shim_shutdown env k s timeout [] True w)"

text \<open>\<open>ShutdownIfEmpty\<close> is called only when the two conditions before it ask for it.\<close>

definition shim_Shutdown ::
    "('w, 'ip, 'b) shim_env \<Rightarrow> nat \<Rightarrow> ('w, 'ip) service \<Rightarrow> string \<Rightarrow> bool \<Rightarrow> 'w \<Rightarrow> gerr option \<times> ('w, 'ip) service \<times> 'w" where
  "shim_Shutdown env k s taskID now w =
     (let (should, s) =
        (if now then (True, s)
         else if exitAfterAllTasksDeleted s
         then (case ShutdownIfEmpty (s_taskManager s) of (b, m) \<Rightarrow> (b, s\<lparr>s_taskManager := m\<rparr>))
         else (False, s))
      in if \<not> should then (None, s, w)
         else shim_shutdown env k s defaultShutdownTimeout taskID now w)"

text \<open>The goroutine that watches the machine; its errors are only logged.\<close>

definition monitorVMExit ::
    "('w, 'ip, 'b) shim_env \<Rightarrow> ('w, 'ip) service \<Rightarrow> 'w \<Rightarrow> ('w, 'ip) service \<times> 'w" where
  "monitorVMExit env s w =
     (case s_machine s of
        None \<Rightarrow> (s, w)
      | Some m \<Rightarrow>
          (let (_, w) = vm_Wait m w; (_, s, w) = shim_cleanup env s w in (s, w)))"

text \<open>\<open>Cleanup\<close> reports the time and the status 128 + SIGKILL.\<close>

definition shim_Cleanup :: "('w, 'ip) service \<Rightarrow> int \<Rightarrow> gerr + int \<times> 32 word" where
  "shim_Cleanup s now = (case waitVMReady s of Some err \<Rightarrow> Inl err | None \<Rightarrow> Inr (now, 128 + 9))"

section \<open>Tasks\<close>

definition newIOProxy ::
    "('w, 'ip, 'b) shim_env \<Rightarrow> ('w, 'ip) service \<Rightarrow> string \<Rightarrow> string \<Rightarrow> string \<Rightarrow> ExtraData \<Rightarrow> 'w \<Rightarrow> (gerr + ioproxy) \<times> 'w" where
  "newIOProxy env s stdin stdout stderr extraData w =
     (case s_jailer s of
        None \<Rightarrow> (Inl nil_deref, w)
      | Some jail \<Rightarrow>
        (case FirecrackerVSockRelPath (e_os env) (JailPath jail) w of
           (Inl err, w) \<Rightarrow> (Inl (Wrap err ''failed to get relative path to firecracker vsock'' []), w)
         | (Inr relVSockPath, w) \<Rightarrow>
             (Inr (if IsAgentOnlyIO (e_url_rest_ok env) stdout then NewNullIOProxy
                   else NewIOConnectorProxy
                     (if stdin \<noteq> []
                      then Some \<lparr>ReadConnector = ReadFIFOConnector stdin,
                                 WriteConnector = VSockDialConn relVSockPath (StdinPort extraData)\<rparr>
                      else None)
                     (if stdout \<noteq> []
                      then Some \<lparr>ReadConnector = VSockDialConn relVSockPath (StdoutPort extraData),
                                 WriteConnector = WriteFIFOConnector stdout\<rparr>
                      else None)
                     (if stderr \<noteq> []
                      then Some \<lparr>ReadConnector = VSockDialConn relVSockPath (StderrPort extraData),
                                 WriteConnector = WriteFIFOConnector stderr\<rparr>
                      else None)), w)))"

text \<open>
  \<open>Create\<close> once the stub drive is reserved: \<open>hostBundleDir\<close> is the bundle on the host, \<open>h\<close> the
  handler after the reservation.
\<close>

definition create_reserved ::
    "('w, 'ip, 'b) shim_env \<Rightarrow> ('w, 'ip) service \<Rightarrow> CreateTaskRequest \<Rightarrow> 'w \<Rightarrow> (gerr + nat) \<times> ('w, 'ip) service \<times> 'w" where
  "create_reserved env s request w =
     (case OCIConfig_Bytes (e_os env) (OCIConfig (ct_Bundle request)) w of
        (Inl err, w) \<Rightarrow> (Inl err, s, w)
      | (Inr ociConfigBytes, w) \<Rightarrow>
     (case generateExtraData s ociConfigBytes (ct_Options request) of
        None \<Rightarrow> (Inl (Panic ''overflow of vsock ports''), s, w)
      | Some (extraData, s) \<Rightarrow>
     (case e_MarshalAny env extraData of
        Inl err \<Rightarrow> (Inl (Wrap err ''failed to marshal extra data'' []), s, w)
      | Inr options \<Rightarrow>
     (let request = request\<lparr>ct_Options := options\<rparr> in
      case newIOProxy env s (ct_Stdin request) (ct_Stdout request) (ct_Stderr request) extraData w of
        (Inl err, w) \<Rightarrow> (Inl err, s, w)
      | (Inr ioConnectorSet, w) \<Rightarrow>
     (let request = request\<lparr>ct_Bundle := bundle_RootPath (VMBundleDir (ct_ID request)), ct_Rootfs := []\<rparr> in
      case agentClient s of
        None \<Rightarrow> (Inl nil_deref, s, w)
      | Some agent \<Rightarrow>
          (case CreateTask (s_taskManager s) request agent (e_run_proxy env ioConnectorSet) w of
             (Inl err, m, w) \<Rightarrow> (Inl (Wrap err ''failed to create task'' []), s\<lparr>s_taskManager := m\<rparr>, w)
           | (Inr resp, m, w) \<Rightarrow> (Inr resp, s\<lparr>s_taskManager := m\<rparr>, w)))))))"

definition shim_Create ::
    "('w, 'ip, 'b) shim_env \<Rightarrow> ('w, 'ip) service \<Rightarrow> CreateTaskRequest \<Rightarrow> 'w \<Rightarrow> (gerr + nat) \<times> ('w, 'ip) service \<times> 'w" where
  "shim_Create env s request w =
     (case waitVMReady s of
        Some err \<Rightarrow> (Inl err, s, w)
      | None \<Rightarrow>
     (let hostBundleDir = ct_Bundle request; vmBundleDir = VMBundleDir (ct_ID request) in
      case CreateBundleLink (e_os env) (e_Validate env) (s_shimDir s) (ct_ID request) hostBundleDir w of
        (Some err, w) \<Rightarrow> (Inl (Wrap err ''failed to create VM dir bundle link'' []), s, w)
      | (None, w) \<Rightarrow>
     (case CreateAddressLink (e_os env) (e_Validate env) (s_shimDir s) (ct_ID request) w of
        (Some err, w) \<Rightarrow> (Inl (Wrap err ''failed to create shim address symlink'' []), s, w)
      | (None, w) \<Rightarrow>
     (case ct_Rootfs request of
        [rootfsMnt] \<Rightarrow>
          (case (containerStubHandler s, s_machine s, driveMountClient s) of
             (Some h, Some m, Some mounter) \<Rightarrow>
               (case Reserve (e_os env) (vm_iface m) mounter h (ct_ID request) (m_Source rootfsMnt)
                       (RootfsPath vmBundleDir) ''ext4'' [] w of
                  (Some err, h, w) \<Rightarrow>
                    (Inl (Wrap err ''failed to get stub drive for task %q'' [ct_ID request]), s\<lparr>containerStubHandler := Some h\<rparr>, w)
                | (None, h, w) \<Rightarrow> create_reserved env (s\<lparr>containerStubHandler := Some h\<rparr>) request w)
           | _ \<Rightarrow> (Inl nil_deref, s, w))
      | _ \<Rightarrow> (Inl (Errorf ''can only support rootfs with exactly one mount: %+v'' []), s, w)))))"

text \<open>
  The part of \<open>Delete\<close> for the container: release the drive, remove the link to the bundle. Every step
  is taken, whatever the ones before it gave. An invalid id gives the empty path.
\<close>

definition delete_container ::
    "('w, 'ip, 'b) shim_env \<Rightarrow> ('w, 'ip) service \<Rightarrow> string \<Rightarrow> 'w \<Rightarrow> gerr option \<times> ('w, 'ip) service \<times> 'w" where
  "delete_container env s cid w =
     (case (containerStubHandler s, s_machine s, driveMountClient s) of
        (Some h, Some m, Some mounter) \<Rightarrow>
          (let (releaseErr, h, w) = Release (vm_iface m) mounter h cid w;
               s = s\<lparr>containerStubHandler := Some h\<rparr>;
               result = (case releaseErr of None \<Rightarrow> []
                         | Some err \<Rightarrow> multi_append [] (Some (Wrap err ''failed to release stub drive for container: %s'' [cid])));
               (dir, result) = (case BundleLink (e_Validate env) (s_shimDir s) cid of
                    Inl err \<Rightarrow> ([], multi_append result (Some (Wrap err ''failed to find the bundle directory of the container: %s'' [cid])))
                  | Inr dir \<Rightarrow> (dir, result));
               (st, w) = os_Stat (e_os env) (bundle_RootPath dir) w;
               result = (case st of
                    Inl err \<Rightarrow> if os_IsNotExist err
                      then multi_append result (Some (Wrap err ''failed to find the bundle directory of the container: %s'' [bundle_RootPath dir]))
                      else result
                  | Inr _ \<Rightarrow> result);
               (rmErr, w) = os_Remove (e_os env) (bundle_RootPath dir) w;
               result = (case rmErr of None \<Rightarrow> result
                         | Some err \<Rightarrow> multi_append result (Some (Wrap err ''failed to remove the bundle directory of the container: %s'' [bundle_RootPath dir])))
           in (multi_error_or_nil result, s, w))
      | _ \<Rightarrow> (Some nil_deref, s, w))"

text \<open>
  \<open>io\<close> is the proxy that the process was started with. The response is returned also beside an error
  of the last part.
\<close>

definition shim_Delete ::
    "('w, 'ip, 'b) shim_env \<Rightarrow> ('w, 'ip) service \<Rightarrow> ioproxy \<Rightarrow> DeleteRequest \<Rightarrow> 'w \<Rightarrow>
     (gerr + string \<times> gerr option) \<times> ('w, 'ip) service \<times> 'w" where
  "shim_Delete env s io req w =
     (case agentClient s of
        None \<Rightarrow> (Inl nil_deref, s, w)
      | Some agent \<Rightarrow>
          (case DeleteProcess (s_taskManager s) req agent (e_run_proxy env io) w of
             (Inl err, m, w) \<Rightarrow> (Inl err, s\<lparr>s_taskManager := m\<rparr>, w)
           | (Inr resp, m, w) \<Rightarrow>
               (let s = s\<lparr>s_taskManager := m\<rparr> in
                if dl_ExecID req \<noteq> [] then (Inr (resp, None), s, w)
                else (let (err, s, w) = delete_container env s (dl_ID req) w in (Inr (resp, err), s, w)))))"

definition shim_Exec ::
    "('w, 'ip, 'b) shim_env \<Rightarrow> ('w, 'ip) service \<Rightarrow> ExecProcessRequest \<Rightarrow> 'w \<Rightarrow> gerr option \<times> ('w, 'ip) service \<times> 'w" where
  "shim_Exec env s req w =
     (case generateExtraData s [] (ex_Spec req) of
        None \<Rightarrow> (Some (Panic ''overflow of vsock ports''), s, w)
      | Some (extraData, s) \<Rightarrow>
     (case e_MarshalAny env extraData of
        Inl err \<Rightarrow> (Some (Wrap err ''failed to marshal extra data'' []), s, w)
      | Inr spec \<Rightarrow>
     (let req = req\<lparr>ex_Spec := spec\<rparr> in
      case newIOProxy env s (ex_Stdin req) (ex_Stdout req) (ex_Stderr req) extraData w of
        (Inl err, w) \<Rightarrow> (Some err, s, w)
      | (Inr ioConnectorSet, w) \<Rightarrow>
     (case agentClient s of
        None \<Rightarrow> (Some nil_deref, s, w)
      | Some agent \<Rightarrow>
          (case ExecProcess (s_taskManager s) req agent (e_run_proxy env ioConnectorSet) w of
             (r, m, w) \<Rightarrow> (r, s\<lparr>s_taskManager := m\<rparr>, w))))))"

section \<open>Calls that are passed on to the agent\<close>

definition forward_call :: "('w, 'ip) service \<Rightarrow> task_call \<Rightarrow> 'w \<Rightarrow> (gerr + string) \<times> 'w" where
  "forward_call s c w =
     (case agentClient s of None \<Rightarrow> (Inl nil_deref, w) | Some agent \<Rightarrow> svc_Call agent c w)"

definition shim_Start :: "('w, 'ip) service \<Rightarrow> string \<Rightarrow> string \<Rightarrow> 'w \<Rightarrow> (gerr + string) \<times> 'w" where
  "shim_Start s i e w = forward_call s (StartCall i e) w"

definition shim_ResizePty :: "('w, 'ip) service \<Rightarrow> string \<Rightarrow> string \<Rightarrow> nat \<Rightarrow> nat \<Rightarrow> 'w \<Rightarrow> (gerr + string) \<times> 'w" where
  "shim_ResizePty s i e wd ht w = forward_call s (ResizePtyCall i e wd ht) w"

definition shim_State :: "('w, 'ip) service \<Rightarrow> string \<Rightarrow> string \<Rightarrow> 'w \<Rightarrow> (gerr + string) \<times> 'w" where
  "shim_State s i e w = forward_call s (StateCall i e) w"

definition shim_Pause :: "('w, 'ip) service \<Rightarrow> string \<Rightarrow> 'w \<Rightarrow> (gerr + string) \<times> 'w" where
  "shim_Pause s i w = forward_call s (PauseCall i) w"

definition shim_Resume :: "('w, 'ip) service \<Rightarrow> string \<Rightarrow> 'w \<Rightarrow> (gerr + string) \<times> 'w" where
  "shim_Resume s i w = forward_call s (ResumeCall i) w"

definition shim_Kill :: "('w, 'ip) service \<Rightarrow> string \<Rightarrow> string \<Rightarrow> nat \<Rightarrow> bool \<Rightarrow> 'w \<Rightarrow> (gerr + string) \<times> 'w" where
  "shim_Kill s i e sig a w = forward_call s (KillCall i e sig a) w"

definition shim_Pids :: "('w, 'ip) service \<Rightarrow> string \<Rightarrow> 'w \<Rightarrow> (gerr + string) \<times> 'w" where
  "shim_Pids s i w = forward_call s (PidsCall i) w"

definition shim_CloseIO :: "('w, 'ip) service \<Rightarrow> string \<Rightarrow> string \<Rightarrow> bool \<Rightarrow> 'w \<Rightarrow> (gerr + string) \<times> 'w" where
  "shim_CloseIO s i e sin w = forward_call s (CloseIOCall i e sin) w"

definition shim_Checkpoint :: "('w, 'ip) service \<Rightarrow> string \<Rightarrow> string \<Rightarrow> any \<Rightarrow> 'w \<Rightarrow> (gerr + string) \<times> 'w" where
  "shim_Checkpoint s i path opts w = forward_call s (CheckpointCall i path opts) w"

definition shim_Stats :: "('w, 'ip) service \<Rightarrow> string \<Rightarrow> 'w \<Rightarrow> (gerr + string) \<times> 'w" where
  "shim_Stats s i w = forward_call s (StatsCall i) w"

definition shim_Update :: "('w, 'ip) service \<Rightarrow> string \<Rightarrow> any \<Rightarrow> 'w \<Rightarrow> (gerr + string) \<times> 'w" where
  "shim_Update s i res w = forward_call s (UpdateCall i res) w"

definition shim_Wait :: "('w, 'ip) service \<Rightarrow> string \<Rightarrow> string \<Rightarrow> 'w \<Rightarrow> (gerr + string) \<times> 'w" where
  "shim_Wait s i e w = forward_call s (WaitCall i e) w"

text \<open>\<open>Connect\<close> is not passed on: the pid in the VM would mean nothing to the caller.\<close>

definition shim_Connect :: "string \<Rightarrow> gerr + string" where
  "shim_Connect i = Inl NotImplemented"

section \<open>Starting the shim\<close>

definition VMIDEnvVarKey :: string where "VMIDEnvVarKey = ''FIRECRACKER_VM_ID''"

definition FCSocketFDEnvKey :: string where "FCSocketFDEnvKey = ''FCCONTROL_SOCKET_FD''"

text \<open>\<open>strconv.Atoi\<close>: an optional sign, then digits, in the range of an \<open>int64\<close>.\<close>

definition strconv_Atoi :: "string \<Rightarrow> gerr + int" where
  "strconv_Atoi s =
     (let digits = (case s of c # cs \<Rightarrow> if c = CHR ''-'' \<or> c = CHR ''+'' then cs else s | [] \<Rightarrow> []);
          n = int (atou digits); i = (case s of c # _ \<Rightarrow> if c = CHR ''-'' then - n else n | [] \<Rightarrow> n)
      in if digits = [] \<or> \<not> list_all is_digit digits then Inl (ExtError ''invalid syntax'')
         else if i < - (2 ^ 63) \<or> 2 ^ 63 \<le> i then Inl (ExtError ''value out of range'')
         else Inr i)"

text \<open>
  \<open>serveFCControl\<close>: with the descriptor of a socket in the environment the control API is served on it,
  in a goroutine. The flag says whether it is.
\<close>

definition serveFCControl ::
    "(string \<Rightarrow> string) \<Rightarrow> ('w \<Rightarrow> gerr option \<times> 'w) \<Rightarrow> (int \<Rightarrow> 'w \<Rightarrow> gerr option \<times> 'w) \<Rightarrow> 'w \<Rightarrow> (gerr + bool) \<times> 'w" where
  "serveFCControl getenv NewServer FileListener w =
     (let fcSocketFDEnvVal = getenv FCSocketFDEnvKey in
      if fcSocketFDEnvVal = [] then (Inr False, w)
      else
        case NewServer w of
          (Some err, w) \<Rightarrow> (Inl err, w)
        | (None, w) \<Rightarrow>
            (case strconv_Atoi fcSocketFDEnvVal of
               Inl err \<Rightarrow> (Inl (Wrap err ''failed to parse fccontrol socket FD value'' []), w)
             | Inr socketFD \<Rightarrow>
                 (case FileListener socketFD w of
                    (Some err, w) \<Rightarrow> (Inl err, w)
                  | (None, w) \<Rightarrow> (Inr True, w))))"

text \<open>
  \<open>NewService\<close>: the options and the namespace come from the context (\<open>None\<close> when absent), the VM's id
  from the environment. The event forwarders it starts are those of \<open>EventBridge\<close>.
\<close>

definition NewService ::
    "'w os \<Rightarrow> (string \<Rightarrow> gerr option) \<Rightarrow> (string \<Rightarrow> string) \<Rightarrow> (string \<Rightarrow> Config \<times> string list \<Rightarrow> gerr + Config \<times> string list) \<Rightarrow> string \<Rightarrow>
     ('w \<Rightarrow> gerr option \<times> 'w) \<Rightarrow> (int \<Rightarrow> 'w \<Rightarrow> gerr option \<times> 'w) \<Rightarrow> bool option \<Rightarrow> string option \<Rightarrow> 'w \<Rightarrow>
     (gerr + ('w, 'ip) service) \<times> 'w" where
  "NewService os Validate getenv Unmarshal t2 NewServer FileListener opts_Debug ctx_namespace w =
     (case LoadConfig os getenv Unmarshal t2 [] w of
        (Inl err, w) \<Rightarrow> (Inl err, w)
      | (Inr (cfg, helper), w) \<Rightarrow>
     (case opts_Debug of
        None \<Rightarrow> (Inl (Errorf ''failed to parse containerd shim opts from context'' []), w)
      | Some debug \<Rightarrow>
     (let helper = helper\<lparr>ShimDebug := debug\<rparr>;
          namespace = (case ctx_namespace of None \<Rightarrow> ''default'' | Some ns \<Rightarrow> ns);
          vmID = getenv VMIDEnvVarKey in
      case (if vmID \<noteq> [] then ShimDir os Validate (ShimBaseDir cfg) namespace vmID w else (Inr [], w)) of
        (Inl err, w) \<Rightarrow> (Inl (Wrap err ''invalid shim directory'' []), w)
      | (Inr dir, w) \<Rightarrow>
          (case serveFCControl getenv NewServer FileListener w of
             (Inl err, w) \<Rightarrow> (Inl (Wrap err ''failed to start fccontrol server'' []), w)
           | (Inr _, w) \<Rightarrow> (Inr (initial_service ctx_namespace vmID dir cfg helper), w)))))"

text \<open>The request that \<open>StartShim\<close> sends; everything else in it is left at its zero value.\<close>

definition start_request :: "string \<Rightarrow> bool \<Rightarrow> int \<Rightarrow> CreateVMRequest" where
  "start_request vmID exitAfter containerCount =
     \<lparr>VMID = vmID, MachineCfg = None, KernelImagePath = [], KernelArgs = [], RootDrive = None, DriveMounts = [],
      NetworkInterfaces = None, ContainerCount = word_of_int containerCount, ExitAfterAllTasksDeleted = exitAfter,
      JailerConfig = None, TimeoutSeconds = 0\<rparr>"

text \<open>
  \<open>StartShim\<close>, run in the bundle directory of a container. \<open>CreateVM\<close> is the call to the control
  service, \<open>decode\<close> the JSON of the bundle's annotations.
\<close>

definition StartShim ::
    "'w os \<Rightarrow> (string \<Rightarrow> gerr + (string \<rightharpoonup> string)) \<Rightarrow> ('w \<Rightarrow> gerr option \<times> 'w) \<Rightarrow> ('w \<Rightarrow> (gerr + string) \<times> 'w) \<Rightarrow>
     (string \<Rightarrow> 'w \<Rightarrow> gerr option \<times> 'w) \<Rightarrow> (CreateVMRequest \<Rightarrow> 'w \<Rightarrow> gerr option \<times> 'w) \<Rightarrow> (string \<Rightarrow> string \<Rightarrow> gerr + string) \<Rightarrow>
     string \<Rightarrow> string \<Rightarrow> ('w, 'ip) service \<Rightarrow> 'w \<Rightarrow> (gerr + string) \<times> ('w, 'ip) service \<times> 'w" where
  "StartShim os decode OpenLogFifo NewV4 NewClient CreateVM shim_SocketAddress namespace ttrpcAddress s w =
     (case OpenLogFifo w of
        (Some err, w) \<Rightarrow> (Inl err, s, w)
      | (None, w) \<Rightarrow>
     (case os_Getwd os w of
        (Inl err, w) \<Rightarrow> (Inl (Wrap err ''failed to get current working directory'' []), s, w)
      | (Inr cwd, w) \<Rightarrow>
     (case OCIConfig_VMID os decode (OCIConfig cwd) w of
        (Inl err, w) \<Rightarrow> (Inl err, s\<lparr>s_vmID := []\<rparr>, w)
      | (Inr vmID, w) \<Rightarrow>
     (case (if vmID = [] then (case NewV4 w of
                (Inl err, w) \<Rightarrow> (Inl (Wrap err ''failed to generate UUID for VMID'' []), w)
              | (Inr uuid, w) \<Rightarrow> (Inr (uuid, 1, True), w))
            else (Inr (vmID, 0, False), w)) of
        (Inl err, w) \<Rightarrow> (Inl err, s\<lparr>s_vmID := vmID\<rparr>, w)
      | (Inr (vmID, containerCount, exitAfter), w) \<Rightarrow>
     (let s = s\<lparr>s_vmID := vmID\<rparr> in
      case NewClient ttrpcAddress w of
        (Some err, w) \<Rightarrow> (Inl err, s, w)
      | (None, w) \<Rightarrow>
     (case CreateVM (start_request vmID exitAfter containerCount) w of
        (err, w) \<Rightarrow>
          (case err of
             Some e \<Rightarrow>
               (case e of
                  StatusError AlreadyExists msg \<Rightarrow> (SocketAddress shim_SocketAddress namespace vmID, s, w)
                | _ \<Rightarrow> (Inl (Wrap e ''unexpected error from CreateVM'' []), s, w))
           | None \<Rightarrow> (SocketAddress shim_SocketAddress namespace vmID, s, w))))))))"

end
