(* ===== verification/ShimState.thy ===== *)
theory ShimState
  imports HostService
begin

text \<open>
  What \<open>runtime/service.go\<close> guarantees over its lifetime: the vsock ports it hands out, and the
  invariant of its state under every sequence of calls.
\<close>

section \<open>Ports\<close>

fun extra_datas ::
    "('w, 'ip) service \<Rightarrow> (string \<times> any) list \<Rightarrow> (ExtraData list \<times> ('w, 'ip) service) option" where
  "extra_datas s [] = Some ([], s)"
| "extra_datas s ((json, opts) # reqs) =
     (case generateExtraData s json opts of
        None \<Rightarrow> None
      | Some (x, s) \<Rightarrow> (case extra_datas s reqs of None \<Rightarrow> None | Some (xs, s) \<Rightarrow> Some (x # xs, s)))"

definition ports_of :: "ExtraData \<Rightarrow> nat list" where
  "ports_of x = [unat (StdinPort x), unat (StdoutPort x), unat (StderrPort x)]"

text \<open>The number of the next port; the last \<open>uint32\<close> is never handed out.\<close>

definition next_port :: "('w, 'ip) service \<Rightarrow> nat" where
  "next_port s = 11000 + unat (vsockIOPortCount s)"

lemma unat32: "n < 2 ^ 32 \<Longrightarrow> unat (of_nat n :: 32 word) = n"
  by (simp add: unsigned_of_nat take_bit_nat_eq_self)

lemma unat_minus_1: "unat (- 1 :: 32 word) = 2 ^ 32 - 1"
  by (simp add: unsigned_minus_1_eq_mask mask_eq_exp_minus_1)

lemma nextVSockPort_spec:
  fixes s :: "('w, 'ip) service"
  assumes "next_port s < 2 ^ 32"
  shows "nextVSockPort s =
     (if next_port s = 2 ^ 32 - 1 then None
      else Some (of_nat (next_port s), s\<lparr>vsockIOPortCount := of_nat (unat (vsockIOPortCount s) + 1)\<rparr>))"
proof -
  let ?c = "vsockIOPortCount s"
  have p: "minVsockIOPort + ?c = (of_nat (next_port s) :: 32 word)"
    by (simp add: minVsockIOPort_def next_port_def)
  have "(of_nat (next_port s) :: 32 word) = - 1 \<longleftrightarrow> next_port s = 2 ^ 32 - 1"
  proof
    assume "(of_nat (next_port s) :: 32 word) = - 1"
    then have "unat (of_nat (next_port s) :: 32 word) = unat (- 1 :: 32 word)" by simp
    then show "next_port s = 2 ^ 32 - 1"
      using assms by (simp add: unat32 unat_minus_1)
  next
    assume "next_port s = 2 ^ 32 - 1"
    then have "(of_nat (next_port s) :: 32 word) = of_nat (2 ^ 32 - 1)" by simp
    then show "(of_nat (next_port s) :: 32 word) = - 1" by simp
  qed
  then show ?thesis unfolding nextVSockPort_def p Let_def by simp
qed

lemma next_port_Suc:
  assumes "next_port s < 2 ^ 32 - 1"
  shows "next_port (s\<lparr>vsockIOPortCount := of_nat (unat (vsockIOPortCount s) + 1)\<rparr>) = Suc (next_port s)"
    and "unat (of_nat (unat (vsockIOPortCount s) + 1) :: 32 word) = unat (vsockIOPortCount s) + 1"
    and "unat (of_nat (next_port s) :: 32 word) = next_port s"
proof -
  have l: "unat (vsockIOPortCount s) + 1 < 2 ^ 32" using assms by (simp add: next_port_def)
  then show u: "unat (of_nat (unat (vsockIOPortCount s) + 1) :: 32 word) = unat (vsockIOPortCount s) + 1"
    by (rule unat32)
  show "next_port (s\<lparr>vsockIOPortCount := of_nat (unat (vsockIOPortCount s) + 1)\<rparr>) = Suc (next_port s)"
    unfolding next_port_def using u by simp
  show "unat (of_nat (next_port s) :: 32 word) = next_port s"
    using assms by (intro unat32) simp
qed

definition with_ports :: "('w, 'ip) service \<Rightarrow> nat \<Rightarrow> ('w, 'ip) service" where
  "with_ports s n = s\<lparr>vsockIOPortCount := of_nat (unat (vsockIOPortCount s) + n)\<rparr>"

lemma nextVSockPort_steps:
  assumes "next_port s < 2 ^ 32"
  shows "nextVSockPort s =
     (if next_port s + 1 < 2 ^ 32 then Some (of_nat (next_port s), with_ports s 1) else None)"
  unfolding nextVSockPort_spec[OF assms] with_ports_def using assms by auto

lemma with_ports_simps:
  assumes "next_port s + n < 2 ^ 32"
  shows "next_port (with_ports s n) = next_port s + n"
    and "with_ports (with_ports s n) m = with_ports s (n + m)"
proof -
  have "unat (of_nat (unat (vsockIOPortCount s) + n) :: 32 word) = unat (vsockIOPortCount s) + n"
    using assms by (intro unat32) (simp add: next_port_def)
  then show "next_port (with_ports s n) = next_port s + n" "with_ports (with_ports s n) m = with_ports s (n + m)"
    by (simp_all add: with_ports_def next_port_def add.assoc)
qed

text \<open>One call hands out the next three ports, or panics.\<close>

lemma generateExtraData_ports:
  fixes s :: "('w, 'ip) service"
  assumes "next_port s < 2 ^ 32"
  shows "case generateExtraData s json opts of
      None \<Rightarrow> 2 ^ 32 \<le> next_port s + 3
    | Some (x, s') \<Rightarrow> next_port s + 3 < 2 ^ 32 \<and> s' = with_ports s 3 \<and>
        ports_of x = [next_port s ..< next_port s + 3] \<and> JsonSpec x = json \<and> RuncOptions x = opts"
proof -
  let ?n = "next_port s"
  note steps = nextVSockPort_steps[OF assms]
  have p1: "nextVSockPort (with_ports s 1) = (if ?n + 2 < 2 ^ 32 then Some (of_nat (?n + 1), with_ports s 2) else None)"
    if "?n + 1 < 2 ^ 32"
    using that nextVSockPort_steps[of "with_ports s 1"] by (simp add: with_ports_simps numeral_2_eq_2 del: of_nat_add of_nat_Suc One_nat_def)
  have p2: "nextVSockPort (with_ports s 2) = (if ?n + 3 < 2 ^ 32 then Some (of_nat (?n + 2), with_ports s 3) else None)"
    if "?n + 2 < 2 ^ 32"
    using that nextVSockPort_steps[of "with_ports s 2"] by (simp add: with_ports_simps del: of_nat_add of_nat_Suc)
  have o: "(case opts of None \<Rightarrow> None | Some (t, v) \<Rightarrow> Some (t, v)) = opts" by (simp split: option.splits)
  have u: "[?n ..< ?n + 3] = [?n, ?n + 1, ?n + 2]" by (simp add: upt_rec)
  consider "?n + 3 < 2 ^ 32" | "?n + 2 < 2 ^ 32" "2 ^ 32 \<le> ?n + 3" | "?n + 1 < 2 ^ 32" "2 ^ 32 \<le> ?n + 2" | "2 ^ 32 \<le> ?n + 1"
    by linarith
  then show ?thesis
  proof cases
    case 1
    have "unat (of_nat ?n :: 32 word) = ?n" "unat (of_nat (?n + 1) :: 32 word) = ?n + 1" "unat (of_nat (?n + 2) :: 32 word) = ?n + 2"
      using 1 by (simp_all add: unat32 del: of_nat_add of_nat_Suc)
    then show ?thesis
      unfolding u generateExtraData_def o
      using 1 p1 p2 steps by (simp add: ports_of_def del: of_nat_add of_nat_Suc One_nat_def)
  next
    case 2
    then show ?thesis
      unfolding generateExtraData_def using p1 p2 steps by (simp del: of_nat_add of_nat_Suc One_nat_def)
  next
    case 3
    then show ?thesis unfolding generateExtraData_def using p1 steps by (simp del: of_nat_add of_nat_Suc One_nat_def)
  next
    case 4
    then show ?thesis unfolding generateExtraData_def using steps by simp
  qed
qed

lemma extra_datas_ports:
  fixes s :: "('w, 'ip) service"
  assumes "next_port s < 2 ^ 32"
  shows "case extra_datas s reqs of
      None \<Rightarrow> 2 ^ 32 \<le> next_port s + 3 * length reqs
    | Some (xs, s') \<Rightarrow> next_port s + 3 * length reqs < 2 ^ 32 \<and> s' = with_ports s (3 * length reqs) \<and>
        concat (map ports_of xs) = [next_port s ..< next_port s + 3 * length reqs] \<and>
        map (\<lambda>x. (JsonSpec x, RuncOptions x)) xs = reqs"
  using assms
proof (induction s reqs rule: extra_datas.induct)
  case (1 s)
  then show ?case by (simp add: with_ports_def)
next
  case (2 s json opts reqs)
  note g = generateExtraData_ports[OF 2(2), of json opts]
  show ?case
  proof (cases "generateExtraData s json opts")
    case None
    with g show ?thesis by simp
  next
    case (Some p)
    obtain x s1 where x: "generateExtraData s json opts = Some (x, s1)" using Some by (cases p) simp
    with g have s1: "next_port s + 3 < 2 ^ 32" "s1 = with_ports s 3" "ports_of x = [next_port s ..< next_port s + 3]"
      "JsonSpec x = json" "RuncOptions x = opts" by simp_all
    have n1: "next_port s1 = next_port s + 3" using s1 by (simp add: with_ports_simps)
    have w: "with_ports s1 m = with_ports s (3 + m)" for m using s1 by (simp add: with_ports_simps)
    have u: "[next_port s ..< next_port s + 3] @ [next_port s + 3 ..< next_port s + 3 + m] = [next_port s ..< next_port s + (3 + m)]" for m
      using upt_add_eq_append[of "next_port s" "next_port s + 3" m] by (simp add: add.assoc)
    have "next_port s1 < 2 ^ 32" using n1 s1(1) by simp
    note ih = 2(1)[OF x refl this, unfolded n1]
    from ih x s1 u[of "3 * length reqs"] w[of "3 * length reqs"] show ?thesis
      by (cases "extra_datas s1 reqs") (auto simp: add.assoc)
  qed
qed

text \<open>
  Every stream of every task and exec gets a vsock port of its own. From its start on the shim hands
  out the ports 11000, 11001, ... one after the other, three per \<open>Create\<close> or \<open>Exec\<close>, wraps the
  request's bytes and options unchanged, and panics in the one call that would hand out the last
  \<open>uint32\<close>, before the counter can wrap around and give a port a second time.
\<close>

theorem vsock_ports_consecutive:
  fixes s :: "('w, 'ip) service"
  assumes "vsockIOPortCount s = 0"
  shows "case extra_datas s reqs of
      None \<Rightarrow> 2 ^ 32 \<le> 11000 + 3 * length reqs
    | Some (xs, s') \<Rightarrow> 11000 + 3 * length reqs < 2 ^ 32 \<and>
        concat (map ports_of xs) = [11000 ..< 11000 + 3 * length reqs] \<and>
        map (\<lambda>x. (JsonSpec x, RuncOptions x)) xs = reqs \<and>
        s' = s\<lparr>vsockIOPortCount := of_nat (3 * length reqs)\<rparr>"
proof -
  have n: "next_port s = 11000" using assms by (simp add: next_port_def)
  then have "next_port s < 2 ^ 32" by simp
  from extra_datas_ports[OF this, of reqs] show ?thesis
    using assms by (cases "extra_datas s reqs") (auto simp: n with_ports_def)
qed

definition example_service :: "(unit, unit) service" where
  "example_service = initial_service (Some ''default'') ''vm-1'' ''/s'' example_config (zero_Helper [])"

theorem vsock_ports_consecutive_witness:
  "\<exists>xs s'. extra_datas example_service [([], None), (''{}'', None)] = Some (xs, s') \<and>
     concat (map ports_of xs) = [11000, 11001, 11002, 11003, 11004, 11005]"
proof -
  have "vsockIOPortCount example_service = 0" by (simp add: example_service_def initial_service_def)
  from vsock_ports_consecutive[OF this, of "[([], None), (''{}'', None)]"]
  have "case extra_datas example_service [([], None), (''{}'', None)] of None \<Rightarrow> False
      | Some (xs, s') \<Rightarrow> concat (map ports_of xs) = [11000 ..< 11006]"
    by (auto split: option.splits)
  moreover have "[11000 ..< 11006] = [11000, 11001, 11002, 11003, 11004, 11005]" by (simp add: upt_rec)
  ultimately show ?thesis by (auto split: option.splits)
qed

section \<open>What an operation leaves alone\<close>

text \<open>The part of the state that only some operations touch.\<close>

definition frame :: "('w, 'ip) service \<Rightarrow> taskManager \<times> 32 word \<times> bool \<times> bool \<times> bool \<times> gerr option \<times> string \<times> string" where
  "frame s = (s_taskManager s, vsockIOPortCount s, vmReady s, vmStartOnce s, cleanupOnce s, cleanupErr s, s_vmID s, s_shimDir s)"

lemma frame_eqs:
  assumes "frame s' = frame s"
  shows "s_taskManager s' = s_taskManager s" "vsockIOPortCount s' = vsockIOPortCount s" "vmReady s' = vmReady s"
    "vmStartOnce s' = vmStartOnce s" "cleanupOnce s' = cleanupOnce s" "cleanupErr s' = cleanupErr s"
  using assms by (simp_all add: frame_def)

lemma buildVMConfiguration_frame:
  assumes "buildVMConfiguration env s req w = (r, s', w')"
  shows "frame s' = frame s \<and> s_jailer s' = s_jailer s \<and> s_machine s' = s_machine s \<and> agentClient s' = agentClient s \<and>
     exitAfterAllTasksDeleted s' = exitAfterAllTasksDeleted s \<and> (isOk r \<longrightarrow> (\<exists>h. containerStubHandler s' = Some h \<and> finite_use h \<and> distinct_pool h))"
  using assms unfolding buildVMConfiguration_def
  by (auto simp: frame_def Let_def dest: CreateContainerStubs_distinct split: option.splits prod.splits sum.splits)

lemma start_and_connect_frame:
  assumes "start_and_connect env s request sched path m jail w = (r, s', w')"
  shows "frame s' = frame s \<and> (s_jailer s \<noteq> None \<longrightarrow> s_jailer s' \<noteq> None) \<and> s_machine s' = s_machine s \<and> machineConfig s' = machineConfig s \<and>
     containerStubHandler s' = containerStubHandler s \<and>
     (r = Some None \<longrightarrow> agentClient s' \<noteq> None \<and> driveMountClient s' \<noteq> None) \<and>
     (exitAfterAllTasksDeleted s' \<longrightarrow> agentClient s' \<noteq> None \<or> exitAfterAllTasksDeleted s)"
  using assms unfolding start_and_connect_def
  by (auto simp: frame_def Let_def split: option.splits prod.splits sum.splits)

text \<open>The pointers that a ready shim follows.\<close>

definition parts_set :: "('w, 'ip) service \<Rightarrow> bool" where
  "parts_set s \<longleftrightarrow> agentClient s \<noteq> None \<and> driveMountClient s \<noteq> None \<and> s_machine s \<noteq> None \<and> s_jailer s \<noteq> None \<and>
     machineConfig s \<noteq> None \<and> (\<exists>h. containerStubHandler s = Some h \<and> finite_use h \<and> distinct_pool h)"

text \<open>What hangs together as soon as it is set, in a failed start as well.\<close>

definition linked :: "('w, 'ip) service \<Rightarrow> bool" where
  "linked s \<longleftrightarrow> (agentClient s \<noteq> None \<longrightarrow> s_machine s \<noteq> None) \<and> (s_machine s \<noteq> None \<longrightarrow> s_jailer s \<noteq> None) \<and>
     (exitAfterAllTasksDeleted s \<longrightarrow> agentClient s \<noteq> None) \<and> (\<not> vmStartOnce s \<longrightarrow> s_machine s = None)"

definition same_links :: "('w, 'ip) service \<Rightarrow> ('w, 'ip) service \<Rightarrow> bool" where
  "same_links s s' \<longleftrightarrow> agentClient s' = agentClient s \<and> exitAfterAllTasksDeleted s' = exitAfterAllTasksDeleted s \<and>
     (s_machine s = None \<longrightarrow> s_machine s' = None)"

lemma same_links_simps [simp]:
  "same_links s s" "same_links s (t\<lparr>s_jailer := x\<rparr>) = same_links s t"
  "same_links s (t\<lparr>machineConfig := y\<rparr>) = same_links s t"
  "same_links s t \<Longrightarrow> same_links s (t\<lparr>s_machine := None\<rparr>)"
  "same_links s t \<Longrightarrow> same_links s (t\<lparr>machineConfig := y, s_machine := None\<rparr>)"
  by (simp_all add: same_links_def)

text \<open>The stages of \<open>createVM\<close>: each fails with the state it has reached, or goes on.\<close>

lemma createVM_stages:
  assumes "createVM env s request sched w = (r, s', w')"
  obtains (early) e where "r = Some (Some e)" "frame s' = frame s" "same_links s s'"
  | (connect) jail w1 cfg s1 w2 cfg' m path w3 where
      "buildVMConfiguration env (s\<lparr>s_jailer := Some jail\<rparr>) request w1 = (Inr cfg, s1, w2)"
      "start_and_connect env (s1\<lparr>machineConfig := Some cfg', s_machine := Some m\<rparr>) request sched path m jail w3 = (r, s', w')"
proof -
  obtain d w1 where d: "ShimDir (e_os env) (e_Validate env) (ShimBaseDir (s_config s))
      (case s_shimNamespace s of None \<Rightarrow> ''default'' | Some ns \<Rightarrow> ns) (s_vmID s) w = (d, w1)" by fastforce
  show thesis
  proof (cases d)
    case (Inl e)
    with assms d show thesis by (intro early) (auto simp: createVM_def Let_def)
  next
    case dir: (Inr dir)
    obtain j w2 where j: "newJailer (e_os env) (e_Unmarshal_spec env) (RootPath dir) (s_config s) (s_shimDir s) (s_vmID s)
        (Some request) w1 = (j, w2)" by fastforce
    show thesis
    proof (cases j)
      case (Inl e)
      with assms d dir j show thesis by (intro early) (auto simp: createVM_def Let_def frame_def)
    next
      case jail: (Inr jail)
      obtain b s1 w3 where b: "buildVMConfiguration env (s\<lparr>s_jailer := Some jail\<rparr>) request w2 = (b, s1, w3)"
        by (rule prod_cases3)
      have f: "frame s1 = frame s" and links: "same_links s s1"
        using buildVMConfiguration_frame[OF b] by (simp_all add: frame_def same_links_def)
      show thesis
      proof (cases b)
        case (Inl e)
        with assms d dir j jail b f links show thesis by (intro early) (auto simp: createVM_def Let_def frame_def)
      next
        case cfg: (Inr cfg)
        obtain p w4 where p: "FirecrackerVSockRelPath (e_os env) (JailPath jail) w3 = (p, w4)" by fastforce
        show thesis
        proof (cases p)
          case (Inl e)
          with assms d dir j jail b cfg p f links show thesis by (intro early) (auto simp: createVM_def Let_def frame_def)
        next
          case path: (Inr path)
          obtain o1 cfg' w5 where o1: "BuildJailedMachine (e_os env) (e_vmArgs env) jail (s_config s1)
              (LogFirecrackerOutput (s_DebugHelper s1)) cfg (s_vmID s1) w4 = (o1, cfg', w5)" by (rule prod_cases3)
          show thesis
          proof (cases o1)
            case (Inl e)
            with assms d dir j jail b cfg p path o1 f links show thesis by (intro early) (auto simp: createVM_def Let_def frame_def)
          next
            case opts: (Inr opts)
            obtain lvl where lvl: "lvl = (case GetFirecrackerSDKLogLevel (s_DebugHelper s1) of (v, ok) \<Rightarrow> if ok then Some v else None)" by simp
            obtain m w6 where m: "e_NewMachine env cfg' lvl opts w5 = (m, w6)" by fastforce
            note red = assms[unfolded createVM_def Let_def, unfolded d] dir j jail b cfg p path o1 opts m lvl[symmetric]
            show thesis
            proof (cases m)
              case (Inl e)
              with red f links show thesis by (intro early) (auto simp: frame_def)
            next
              case (Inr m')
              with red b cfg show thesis by (intro connect) auto
            qed
          qed
        qed
      qed
    qed
  qed
qed

lemma createVM_frame:
  assumes "createVM env s request sched w = (r, s', w')"
  shows "frame s' = frame s \<and> (r = Some None \<longrightarrow> parts_set s')"
  using assms
proof (cases rule: createVM_stages)
  case (connect jail w1 cfg s1 w2 cfg' m path w3)
  from buildVMConfiguration_frame[OF connect(1)] start_and_connect_frame[OF connect(2)] show ?thesis
    by (auto simp: frame_def parts_set_def)
qed simp

lemma createVM_linked:
  assumes "createVM env s request sched w = (r, s', w')" "linked s" "\<not> vmStartOnce s"
  shows "linked (s'\<lparr>vmStartOnce := True, vmReady := b\<rparr>)" "linked (s'\<lparr>vmStartOnce := True\<rparr>)"
proof -
  have n: "s_machine s = None" "agentClient s = None" "\<not> exitAfterAllTasksDeleted s"
    using assms(2,3) by (auto simp: linked_def)
  have "(agentClient s' \<noteq> None \<longrightarrow> s_machine s' \<noteq> None) \<and> (s_machine s' \<noteq> None \<longrightarrow> s_jailer s' \<noteq> None) \<and>
     (exitAfterAllTasksDeleted s' \<longrightarrow> agentClient s' \<noteq> None)"
    using assms(1)
  proof (cases rule: createVM_stages)
    case (early e)
    with n show ?thesis by (auto simp: same_links_def)
  next
    case (connect jail w1 cfg s1 w2 cfg' m path w3)
    from buildVMConfiguration_frame[OF connect(1)] start_and_connect_frame[OF connect(2)] n show ?thesis by auto
  qed
  then show "linked (s'\<lparr>vmStartOnce := True, vmReady := b\<rparr>)" "linked (s'\<lparr>vmStartOnce := True\<rparr>)" by (simp_all add: linked_def)
qed

section \<open>What each operation does to the state\<close>

definition with_cleanup :: "('w, 'ip) service \<Rightarrow> bool \<Rightarrow> gerr option \<Rightarrow> ('w, 'ip) service" where
  "with_cleanup s b e = s\<lparr>cleanupOnce := b, cleanupErr := e\<rparr>"

lemma with_cleanup_id [simp]: "with_cleanup s (cleanupOnce s) (cleanupErr s) = s"
  by (simp add: with_cleanup_def)

lemma with_cleanup_same [simp]: "b = cleanupOnce s \<Longrightarrow> with_cleanup s b (cleanupErr s) = s"
  by simp

lemma with_cleanup_simps [simp]:
  "s_taskManager (with_cleanup s b e) = s_taskManager s" "vmReady (with_cleanup s b e) = vmReady s"
  "vmStartOnce (with_cleanup s b e) = vmStartOnce s" "next_port (with_cleanup s b e) = next_port s"
  "containerStubHandler (with_cleanup s b e) = containerStubHandler s" "parts_set (with_cleanup s b e) = parts_set s"
  "cleanupOnce (with_cleanup s b e) = b" "cleanupErr (with_cleanup s b e) = e"
  "exitAfterAllTasksDeleted (with_cleanup s b e) = exitAfterAllTasksDeleted s" "linked (with_cleanup s b e) = linked s"
  "s_machine (with_cleanup s b e) = s_machine s" "agentClient (with_cleanup s b e) = agentClient s" "s_jailer (with_cleanup s b e) = s_jailer s"
  by (simp_all add: with_cleanup_def next_port_def parts_set_def linked_def)

text \<open>Cleaning up happens once; later calls get the error of the first.\<close>

lemma shim_cleanup_effect:
  assumes "shim_cleanup env s w = (r, s', w')"
  shows "\<exists>b e. s' = with_cleanup s b e \<and> (cleanupOnce s \<longrightarrow> s' = s \<and> w' = w \<and> r = cleanupErr s) \<and>
     (s_jailer s \<noteq> None \<longrightarrow> b \<and> r = e)"
proof (cases "cleanupOnce s")
  case True
  with assms have "s' = s" "w' = w" "r = cleanupErr s" by (auto simp: shim_cleanup_def)
  moreover have "with_cleanup s True (cleanupErr s) = s" using with_cleanup_id[of s] True by simp
  ultimately show ?thesis by (intro exI[of _ True] exI[of _ "cleanupErr s"]) simp
next
  case False
  show ?thesis
  proof (cases "s_jailer s")
    case None
    with assms False have "s' = s" by (simp add: shim_cleanup_def)
    with False None show ?thesis by (intro exI[of _ "cleanupOnce s"] exI[of _ "cleanupErr s"]) simp
  next
    case (Some j)
    with assms False show ?thesis
      by (intro exI[of _ True] exI[of _ r]) (simp add: shim_cleanup_def with_cleanup_def split: prod.splits)
  qed
qed

lemma shim_shutdown_effect:
  assumes "shim_shutdown env k s timeout i now w = (r, s', w')"
  shows "\<exists>b e. s' = with_cleanup s b e \<and> (cleanupOnce s \<longrightarrow> s' = s)"
proof (cases "s_machine s")
  case None
  with assms show ?thesis
    by (intro exI[of _ "cleanupOnce s"] exI[of _ "cleanupErr s"]) (simp add: shim_shutdown_def)
next
  case (Some m)
  obtain l w1 where l: "shutdownLoop env s m (take k (shutdown_actions timeout i now)) w = (l, w1)" by (rule prod.exhaust)
  show ?thesis
  proof (cases "l = LoopPanicked")
    case True
    with assms Some l show ?thesis
      by (intro exI[of _ "cleanupOnce s"] exI[of _ "cleanupErr s"]) (simp add: shim_shutdown_def)
  next
    case False
    obtain c s1 w2 w0 where c: "shim_cleanup env s w0 = (c, s1, w2)" "s' = s1"
      using assms Some l False by (auto simp: shim_shutdown_def Let_def split: prod.splits)
    from shim_cleanup_effect[OF c(1)] c(2) show ?thesis by blast
  qed
qed

lemma monitorVMExit_effect:
  assumes "monitorVMExit env s w = (s', w')"
  shows "\<exists>b e. s' = with_cleanup s b e \<and> (cleanupOnce s \<longrightarrow> s' = s)"
proof (cases "s_machine s")
  case None
  with assms show ?thesis
    by (intro exI[of _ "cleanupOnce s"] exI[of _ "cleanupErr s"]) (simp add: monitorVMExit_def)
next
  case (Some m)
  obtain c w1 w0 where c: "shim_cleanup env s w0 = (c, s', w1)"
    using assms Some by (auto simp: monitorVMExit_def Let_def split: prod.splits)
  from shim_cleanup_effect[OF this] show ?thesis by blast
qed

text \<open>The fields that tasks change.\<close>

definition with_tasks :: "('w, 'ip) service \<Rightarrow> StubDriveHandler option \<Rightarrow> 32 word \<Rightarrow> taskManager \<Rightarrow> ('w, 'ip) service" where
  "with_tasks s h n m = s\<lparr>containerStubHandler := h, vsockIOPortCount := n, s_taskManager := m\<rparr>"

lemma with_tasks_id [simp]: "with_tasks s (containerStubHandler s) (vsockIOPortCount s) (s_taskManager s) = s"
  by (simp add: with_tasks_def)

lemma with_tasks_simps [simp]:
  "s_taskManager (with_tasks s h n m) = m" "vmReady (with_tasks s h n m) = vmReady s" "vmStartOnce (with_tasks s h n m) = vmStartOnce s"
  "containerStubHandler (with_tasks s h n m) = h" "vsockIOPortCount (with_tasks s h n m) = n"
  "cleanupOnce (with_tasks s h n m) = cleanupOnce s" "cleanupErr (with_tasks s h n m) = cleanupErr s"
  "agentClient (with_tasks s h n m) = agentClient s" "driveMountClient (with_tasks s h n m) = driveMountClient s"
  "s_machine (with_tasks s h n m) = s_machine s" "s_jailer (with_tasks s h n m) = s_jailer s"
  "machineConfig (with_tasks s h n m) = machineConfig s" "with_tasks (with_tasks s h n m) h' n' m' = with_tasks s h' n' m'"
  "exitAfterAllTasksDeleted (with_tasks s h n m) = exitAfterAllTasksDeleted s" "linked (with_tasks s h n m) = linked s"
  by (simp_all add: with_tasks_def linked_def)

lemma generateExtraData_effect:
  assumes "next_port s < 2 ^ 32" "generateExtraData s json opts = Some (x, s')"
  shows "\<exists>n. s' = with_tasks s (containerStubHandler s) n (s_taskManager s) \<and> next_port s' < 2 ^ 32"
proof -
  from generateExtraData_ports[OF assms(1), of json opts] assms(2) have "next_port s + 3 < 2 ^ 32" "s' = with_ports s 3" by simp_all
  then show ?thesis
    by (intro exI[of _ "vsockIOPortCount s'"]) (simp add: with_ports_simps, simp add: with_ports_def with_tasks_def)
qed

lemma create_reserved_effect:
  assumes "create_reserved env s req w = (r, s', w')" and "next_port s < 2 ^ 32" "tm_inv (s_taskManager s)"
  shows "\<exists>n m. s' = with_tasks s (containerStubHandler s) n m \<and> next_port s' < 2 ^ 32 \<and> tm_inv m \<and>
     (if isOk r then (ct_ID req, []) \<notin> tm_reg (s_taskManager s) \<and> tm_reg m = insert (ct_ID req, []) (tm_reg (s_taskManager s))
      else tm_reg m = tm_reg (s_taskManager s))"
proof -
  have same: ?thesis if "s' = s" "\<not> isOk r"
    using that assms(2,3) by (intro exI[of _ "vsockIOPortCount s"] exI[of _ "s_taskManager s"]) simp
  have ports: ?thesis if g: "generateExtraData s json opts = Some (x, s')" "\<not> isOk r" for json opts x
    using generateExtraData_effect[OF assms(2) g(1)] that(2) assms(3) by auto
  have task: ?thesis
    if g: "generateExtraData s json opts = Some (x, s1)"
      and q: "ct_ID q = ct_ID req"
      and c: "CreateTask (s_taskManager s1) q agent io w1 = (tr, m, w2)" and s': "s' = s1\<lparr>s_taskManager := m\<rparr>"
      and r: "isOk r = isOk tr"
    for json opts x s1 q agent io w1 tr m w2
  proof -
    from generateExtraData_effect[OF assms(2) g] obtain n where s1: "s1 = with_tasks s (containerStubHandler s) n (s_taskManager s)"
      "next_port s1 < 2 ^ 32" by blast
    have "s' = with_tasks s (containerStubHandler s) n m" using s1 s' by (simp add: with_tasks_def)
    moreover have "next_port s' < 2 ^ 32" using s1 s' by (simp add: next_port_def)
    moreover note process_call_parts(1)[OF assms(3), where req = q and svc = agent and io = io and w = w1]
    ultimately show ?thesis using c s1 q r by (cases tr) auto
  qed
  obtain b w1 where b: "OCIConfig_Bytes (e_os env) (OCIConfig (ct_Bundle req)) w = (b, w1)" by fastforce
  show ?thesis
  proof (cases b)
    case (Inl e)
    with assms(1) b show ?thesis by (intro same) (auto simp: create_reserved_def)
  next
    case json: (Inr json)
    show ?thesis
    proof (cases "generateExtraData s json (ct_Options req)")
      case None
      with assms(1) b json show ?thesis by (intro same) (auto simp: create_reserved_def)
    next
      case (Some p)
      obtain x s1 where x: "generateExtraData s json (ct_Options req) = Some (x, s1)" using Some by (cases p) simp
      show ?thesis
      proof (cases "e_MarshalAny env x")
        case (Inl e)
        with assms(1) b json x show ?thesis by (intro ports[of json "ct_Options req" x]) (auto simp: create_reserved_def)
      next
        case opts: (Inr opts)
        obtain io w2 where io: "newIOProxy env s1 (ct_Stdin req) (ct_Stdout req) (ct_Stderr req) x w1 = (io, w2)" by fastforce
        note red = assms(1)[unfolded create_reserved_def] b json x opts io
        show ?thesis
        proof (cases io)
          case (Inl e)
          with red show ?thesis by (intro ports[of json "ct_Options req" x]) auto
        next
          case pr: (Inr pr)
          show ?thesis
          proof (cases "agentClient s1")
            case None
            with red pr show ?thesis by (intro ports[of json "ct_Options req" x]) (auto simp: Let_def)
          next
            case (Some agent)
            let ?q = "req\<lparr>ct_Options := opts, ct_Bundle := bundle_RootPath (VMBundleDir (ct_ID req)), ct_Rootfs := []\<rparr>"
            obtain tr m w3 where c: "CreateTask (s_taskManager s1) ?q agent (e_run_proxy env pr) w2 = (tr, m, w3)"
              by (rule prod_cases3)
            have e: "(case tr of Inl err \<Rightarrow> (Inl (Wrap err ''failed to create task'' []), s1\<lparr>s_taskManager := m\<rparr>, w3)
                | Inr resp \<Rightarrow> (Inr resp, s1\<lparr>s_taskManager := m\<rparr>, w3)) = (r, s', w')"
              using assms(1)[unfolded create_reserved_def b prod.case json sum.case x option.case opts Let_def]
              by (cases tr) (auto simp: io pr Some c)
            have r: "isOk r = isOk tr \<and> s' = s1\<lparr>s_taskManager := m\<rparr>"
              using e by (cases tr) auto
            have q: "ct_ID ?q = ct_ID req" by simp
            from task[OF x q c conjunct2[OF r] conjunct1[OF r]] show ?thesis .
          qed
        qed
      qed
    qed
  qed
qed

text \<open>\<open>Create\<close> does nothing to the state, or it reserves a drive and goes on with \<open>create_reserved\<close>.\<close>

lemma shim_Create_cases:
  assumes "shim_Create env s req w = (r, s', w')"
  obtains (refused) "\<not> isOk r" "s' = s"
  | (reserved) h m mounter mnt w1 h1 w2 where "vmReady s" "containerStubHandler s = Some h" "s_machine s = Some m"
      "driveMountClient s = Some mounter" "ct_Rootfs req = [mnt]"
      "Reserve (e_os env) (vm_iface m) mounter h (ct_ID req) (m_Source mnt) (RootfsPath (VMBundleDir (ct_ID req))) ''ext4'' [] w1
         = (None, h1, w2)"
      "create_reserved env (s\<lparr>containerStubHandler := Some h1\<rparr>) req w2 = (r, s', w')"
proof (cases "waitVMReady s")
  case (Some e)
  with assms show thesis by (intro refused) (auto simp: shim_Create_def)
next
  case ready: None
  then have vr: "vmReady s" by (simp add: waitVMReady_def split: if_splits)
  obtain l1 w1 where l1: "CreateBundleLink (e_os env) (e_Validate env) (s_shimDir s) (ct_ID req) (ct_Bundle req) w = (l1, w1)" by fastforce
  show thesis
  proof (cases l1)
    case (Some e)
    with assms ready l1 show thesis by (intro refused) (auto simp: shim_Create_def)
  next
    case l1n: None
    obtain l2 w2 where l2: "CreateAddressLink (e_os env) (e_Validate env) (s_shimDir s) (ct_ID req) w1 = (l2, w2)" by fastforce
    show thesis
    proof (cases l2)
      case (Some e)
      with assms ready l1 l1n l2 show thesis by (intro refused) (auto simp: shim_Create_def Let_def)
    next
      case l2n: None
      note red = assms[unfolded shim_Create_def Let_def ready option.case l1 l1n prod.case l2 l2n]
      show thesis
      proof (cases "\<exists>mnt. ct_Rootfs req = [mnt]")
        case False
        with red show thesis by (intro refused) (auto split: list.splits)
      next
        case True
        then obtain mnt where mnt: "ct_Rootfs req = [mnt]" by blast
        show thesis
        proof (cases "\<exists>h m mounter. containerStubHandler s = Some h \<and> s_machine s = Some m \<and> driveMountClient s = Some mounter")
          case False
          with red mnt show thesis by (intro refused) (auto split: option.splits)
        next
          case True
          then obtain h m mounter where p: "containerStubHandler s = Some h" "s_machine s = Some m" "driveMountClient s = Some mounter"
            by blast
          obtain rr h1 w3 where rv: "Reserve (e_os env) (vm_iface m) mounter h (ct_ID req) (m_Source mnt)
              (RootfsPath (VMBundleDir (ct_ID req))) ''ext4'' [] w2 = (rr, h1, w3)" by (rule prod_cases3)
          show thesis
          proof (cases rr)
            case (Some e)
            with rv have "h1 = h" by (cases rule: Reserve_cases) auto
            then have "s\<lparr>containerStubHandler := Some h1\<rparr> = s" using p(1) by simp
            with red mnt p rv Some show thesis by (intro refused) auto
          next
            case None
            with red mnt p rv have "create_reserved env (s\<lparr>containerStubHandler := Some h1\<rparr>) req w3 = (r, s', w')" by simp
            with vr p mnt rv None show thesis by (intro reserved) auto
          qed
        qed
      qed
    qed
  qed
qed

lemma next_port_handler [simp]: "next_port (s\<lparr>containerStubHandler := h\<rparr>) = next_port s"
  by (simp add: next_port_def)

lemma shim_Create_effect:
  assumes "shim_Create env s req w = (r, s', w')" and "next_port s < 2 ^ 32" "tm_inv (s_taskManager s)"
  shows "\<not> isOk r \<and> s' = s \<or>
     (\<exists>h h1 n m mc mounter vmPath path w1 w2. vmReady s \<and> containerStubHandler s = Some h \<and>
        Reserve (e_os env) mc mounter h (ct_ID req) path vmPath ''ext4'' [] w1 = (None, h1, w2) \<and>
        s' = with_tasks s (Some h1) n m \<and> next_port s' < 2 ^ 32 \<and> tm_inv m \<and>
        (if isOk r then (ct_ID req, []) \<notin> tm_reg (s_taskManager s) \<and> tm_reg m = insert (ct_ID req, []) (tm_reg (s_taskManager s))
         else tm_reg m = tm_reg (s_taskManager s)))"
  using assms(1)
proof (cases rule: shim_Create_cases)
  case (reserved h m mounter mnt w1 h1 w2)
  let ?s = "s\<lparr>containerStubHandler := Some h1\<rparr>"
  have "next_port ?s < 2 ^ 32" "tm_inv (s_taskManager ?s)" using assms(2,3) by simp_all
  from create_reserved_effect[OF reserved(7) this] obtain n m' where
    e: "s' = with_tasks ?s (containerStubHandler ?s) n m'" "next_port s' < 2 ^ 32" "tm_inv m'"
    "if isOk r then (ct_ID req, []) \<notin> tm_reg (s_taskManager ?s) \<and> tm_reg m' = insert (ct_ID req, []) (tm_reg (s_taskManager ?s))
      else tm_reg m' = tm_reg (s_taskManager ?s)"
    by (elim exE conjE) (rule that; assumption)
  have s': "s' = with_tasks s (Some h1) n m'" using e(1) by (simp add: with_tasks_def)
  have tm: "s_taskManager ?s = s_taskManager s" by simp
  show ?thesis
    by (rule disjI2, rule exI[of _ h], rule exI[of _ h1], rule exI[of _ n], rule exI[of _ m'], rule exI[of _ "vm_iface m"],
        rule exI[of _ mounter], rule exI[of _ "RootfsPath (VMBundleDir (ct_ID req))"], rule exI[of _ "m_Source mnt"],
        rule exI[of _ w1], rule exI[of _ w2], intro conjI)
      (fact reserved(1) reserved(2) reserved(6) s' e(2) e(3) e(4)[unfolded tm])+
qed simp

lemma shim_Exec_effect:
  assumes "shim_Exec env s req w = (r, s', w')" and "next_port s < 2 ^ 32" "tm_inv (s_taskManager s)"
  shows "\<exists>n m. s' = with_tasks s (containerStubHandler s) n m \<and> next_port s' < 2 ^ 32 \<and> tm_inv m \<and>
     (tm_reg m = tm_reg (s_taskManager s) \<or>
      tm_reg m = insert (ex_ID req, ex_ExecID req) (tm_reg (s_taskManager s)) \<and>
        (ex_ExecID req \<noteq> [] \<longrightarrow> ex_ID req \<in> fst ` tm_reg (s_taskManager s)))"
proof (cases "generateExtraData s [] (ex_Spec req)")
  case None
  with assms have "s' = s" by (simp add: shim_Exec_def)
  with assms(2,3) show ?thesis by (intro exI[of _ "vsockIOPortCount s"] exI[of _ "s_taskManager s"]) simp
next
  case (Some p)
  obtain x s1 where x: "generateExtraData s [] (ex_Spec req) = Some (x, s1)" using Some by (cases p) simp
  from generateExtraData_effect[OF assms(2) x] obtain n where
    s1: "s1 = with_tasks s (containerStubHandler s) n (s_taskManager s)" "next_port s1 < 2 ^ 32" by blast
  have task: ?thesis
    if q: "ex_ID q = ex_ID req" "ex_ExecID q = ex_ExecID req"
      and c: "ExecProcess (s_taskManager s1) q agent io w1 = (tr, m, w2)" "s' = s1\<lparr>s_taskManager := m\<rparr>" for q agent io w1 tr m w2
  proof -
    have "s_taskManager s1 = s_taskManager s" using s1 by simp
    note parts = process_call_parts(2)[OF assms(3), where xreq = q and svc = agent and io = io and w = w1]
    have "s' = with_tasks s (containerStubHandler s) n m" "next_port s' < 2 ^ 32"
      using s1 c(2) by (simp_all add: with_tasks_def next_port_def)
    moreover have "tm_inv m \<and> (tm_reg m = tm_reg (s_taskManager s) \<or>
        tm_reg m = insert (ex_ID req, ex_ExecID req) (tm_reg (s_taskManager s)) \<and>
          (ex_ExecID req \<noteq> [] \<longrightarrow> ex_ID req \<in> fst ` tm_reg (s_taskManager s)))"
    proof (cases tr)
      case (Some e)
      with parts c(1) s1 show ?thesis by auto
    next
      case None
      with c(1) s1 have "isOk (fst (newProc (s_taskManager s) (ex_ID q) (ex_ExecID q)))"
        by (auto simp: ExecProcess_def split: prod.splits sum.splits)
      with parts c(1) s1 None q show ?thesis by (simp add: tm.new_ok[OF assms(3)])
    qed
    ultimately show ?thesis by blast
  qed
  have ports: ?thesis if "s' = s1" using that s1 assms(3) by auto
  show ?thesis
  proof (cases "e_MarshalAny env x")
    case (Inl e)
    with assms(1) x show ?thesis by (intro ports) (auto simp: shim_Exec_def)
  next
    case opts: (Inr opts)
    obtain io w2 where io: "newIOProxy env s1 (ex_Stdin req) (ex_Stdout req) (ex_Stderr req) x w = (io, w2)" by fastforce
    note red = assms(1)[unfolded shim_Exec_def x option.case prod.case opts sum.case Let_def]
    show ?thesis
    proof (cases io)
      case (Inl e)
      with red io show ?thesis by (intro ports) auto
    next
      case pr: (Inr pr)
      show ?thesis
      proof (cases "agentClient s1")
        case None
        with red io pr show ?thesis by (intro ports) auto
      next
        case (Some agent)
        let ?q = "req\<lparr>ex_Spec := opts\<rparr>"
        obtain tr m w3 where c: "ExecProcess (s_taskManager s1) ?q agent (e_run_proxy env pr) w2 = (tr, m, w3)"
          by (rule prod_cases3)
        with red io pr Some have "s' = s1\<lparr>s_taskManager := m\<rparr>" by auto
        then show ?thesis by (intro task[OF _ _ c]) simp_all
      qed
    qed
  qed
qed

lemma delete_container_effect:
  assumes "delete_container env s cid w = (r, s', w')"
  shows "s' = s \<or> (\<exists>h h1 mc mounter rr w1. containerStubHandler s = Some h \<and> Release mc mounter h cid w = (rr, h1, w1) \<and>
     s' = s\<lparr>containerStubHandler := Some h1\<rparr> \<and> (r = None \<longrightarrow> rr = None))"
proof (cases "\<exists>h m mounter. containerStubHandler s = Some h \<and> s_machine s = Some m \<and> driveMountClient s = Some mounter")
  case False
  with assms show ?thesis by (auto simp: delete_container_def split: option.splits)
next
  case True
  then obtain h m mounter where p: "containerStubHandler s = Some h" "s_machine s = Some m" "driveMountClient s = Some mounter"
    by blast
  obtain rr h1 w1 where rl: "Release (vm_iface m) mounter h cid w = (rr, h1, w1)" by (rule prod_cases3)
  have ne: "multi_append x y \<noteq> []" if "x \<noteq> []" for x y using that by (simp add: multi_append_def split: option.splits)
  have "s' = s\<lparr>containerStubHandler := Some h1\<rparr>"
    using assms p rl by (auto simp: delete_container_def Let_def split: prod.splits sum.splits option.splits)
  moreover have "rr = None" if "r = None"
  proof (rule ccontr)
    assume "rr \<noteq> None"
    then obtain e where e: "rr = Some e" by blast
    have "multi_append [] (Some (Wrap e ''failed to release stub drive for container: %s'' [cid])) \<noteq> []"
      by (simp add: multi_append_def)
    with assms p rl e \<open>r = None\<close> show False
      by (auto simp: delete_container_def Let_def multi_append_def split: prod.splits sum.splits option.splits if_splits)
  qed
  ultimately show ?thesis using p rl by blast
qed

lemma shim_Delete_effect:
  fixes w :: 'w
  assumes "shim_Delete env s io req w = (r, s', w')" and "tm_inv (s_taskManager s)"
  shows "\<exists>h' m. s' = with_tasks s h' (vsockIOPortCount s) m \<and> tm_inv m \<and>
     (if isOk r then (dl_ID req, dl_ExecID req) \<in> tm_reg (s_taskManager s) \<and>
        tm_reg m = tm_reg (s_taskManager s) - {(dl_ID req, dl_ExecID req)} else tm_reg m = tm_reg (s_taskManager s)) \<and>
     (h' = containerStubHandler s \<or>
      isOk r \<and> dl_ExecID req = [] \<and> (\<exists>h h1 (mc :: 'w machine) mounter rr w1 w2. containerStubHandler s = Some h \<and> h' = Some h1 \<and>
        Release mc mounter h (dl_ID req) w1 = (rr, h1, w2) \<and> (\<forall>resp. r = Inr (resp, None) \<longrightarrow> rr = None)))"
proof (cases "agentClient s")
  case None
  with assms show ?thesis
    by (intro exI[of _ "containerStubHandler s"] exI[of _ "s_taskManager s"]) (auto simp: shim_Delete_def)
next
  case (Some agent)
  obtain d m w1 where d: "DeleteProcess (s_taskManager s) req agent (e_run_proxy env io) w = (d, m, w1)" by (rule prod_cases3)
  note parts = process_call_parts(3)[OF assms(2), where dreq = req and svc = agent and io = "e_run_proxy env io" and w = w]
  have wt: "s\<lparr>s_taskManager := m\<rparr> = with_tasks s (containerStubHandler s) (vsockIOPortCount s) m"
    by (simp add: with_tasks_def)
  show ?thesis
  proof (cases d)
    case (Inl e)
    with assms(1) Some d have "\<not> isOk r" "s' = s\<lparr>s_taskManager := m\<rparr>" by (auto simp: shim_Delete_def)
    with parts d Inl show ?thesis
      unfolding wt by (intro exI[of _ "containerStubHandler s"] exI[of _ m]) simp
  next
    case resp: (Inr resp)
    note reg = parts[unfolded d resp, simplified]
    show ?thesis
    proof (cases "dl_ExecID req = []")
      case False
      with assms(1) Some d resp have "isOk r" "s' = s\<lparr>s_taskManager := m\<rparr>" by (auto simp: shim_Delete_def)
      with reg show ?thesis
        unfolding wt by (intro exI[of _ "containerStubHandler s"] exI[of _ m]) simp
    next
      case True
      let ?s = "s\<lparr>s_taskManager := m\<rparr>"
      obtain e s2 w2 where c: "delete_container env ?s (dl_ID req) w1 = (e, s2, w2)" by (rule prod_cases3)
      with assms(1) Some d resp True have r: "r = Inr (resp, e)" and s': "s' = s2" by (auto simp: shim_Delete_def Let_def)
      from delete_container_effect[OF c] consider "s2 = ?s"
        | h h1 mc mounter rr w3 where "containerStubHandler ?s = Some h" "Release mc mounter h (dl_ID req) w1 = (rr, h1, w3)"
          "s2 = ?s\<lparr>containerStubHandler := Some h1\<rparr>" "e = None \<longrightarrow> rr = None" by blast
      then show ?thesis
      proof cases
        case 1
        with s' r reg show ?thesis
          unfolding wt by (intro exI[of _ "containerStubHandler s"] exI[of _ m]) simp
      next
        case 2
        have s2: "s' = with_tasks s (Some h1) (vsockIOPortCount s) m" using 2(3) s' by (simp add: with_tasks_def)
        have h: "containerStubHandler s = Some h" using 2(1) by simp
        have rr: "\<forall>resp'. r = Inr (resp', None) \<longrightarrow> rr = None" using r 2(4) by auto
        have rl: "\<exists>h h1' (mc :: 'w machine) mounter rr w1 w2. containerStubHandler s = Some h \<and> Some h1 = Some h1' \<and>
            Release mc mounter h (dl_ID req) w1 = (rr, h1', w2) \<and> (\<forall>resp. r = Inr (resp, None) \<longrightarrow> rr = None)"
          using h 2(2) rr by (intro exI conjI) (assumption | rule refl)+
        have ok: "isOk r" using r by simp
        show ?thesis
        proof (intro exI conjI)
          show "s' = with_tasks s (Some h1) (vsockIOPortCount s) m" by (rule s2)
          show "tm_inv m" using reg by simp
          show "if isOk r then (dl_ID req, dl_ExecID req) \<in> tm_reg (s_taskManager s) \<and>
              tm_reg m = tm_reg (s_taskManager s) - {(dl_ID req, dl_ExecID req)} else tm_reg m = tm_reg (s_taskManager s)"
            using reg ok by simp
          show "Some h1 = containerStubHandler s \<or> isOk r \<and> dl_ExecID req = [] \<and> (\<exists>h h1' (mc :: 'w machine) mounter rr w1 w2.
              containerStubHandler s = Some h \<and> Some h1 = Some h1' \<and>
              Release mc mounter h (dl_ID req) w1 = (rr, h1', w2) \<and> (\<forall>resp. r = Inr (resp, None) \<longrightarrow> rr = None))"
            using ok True rl by blast
        qed
      qed
    qed
  qed
qed

lemma shim_Shutdown_effect:
  assumes "shim_Shutdown env k s i now w = (r, s', w')"
  shows "\<exists>m b e. s' = with_cleanup (s\<lparr>s_taskManager := m\<rparr>) b e \<and> (cleanupOnce s \<longrightarrow> b \<and> e = cleanupErr s) \<and>
     (m = s_taskManager s \<or> m = snd (ShutdownIfEmpty (s_taskManager s)))"
proof -
  have run: ?thesis
    if "shim_shutdown env k (s\<lparr>s_taskManager := m\<rparr>) defaultShutdownTimeout i now w1 = (r, s', w2)"
      and "m = s_taskManager s \<or> m = snd (ShutdownIfEmpty (s_taskManager s))" for m w1 w2
  proof -
    let ?s = "s\<lparr>s_taskManager := m\<rparr>"
    from shim_shutdown_effect[OF that(1)] obtain b e where "s' = with_cleanup ?s b e" "cleanupOnce ?s \<longrightarrow> s' = ?s" by blast
    with that(2) show ?thesis
      by (intro exI[of _ m] exI[of _ "cleanupOnce s'"] exI[of _ "cleanupErr s'"]) (auto simp: with_cleanup_def)
  qed
  have none: ?thesis if "s' = s\<lparr>s_taskManager := m\<rparr>" "m = s_taskManager s \<or> m = snd (ShutdownIfEmpty (s_taskManager s))" for m
    using that by (intro exI[of _ m] exI[of _ "cleanupOnce s"] exI[of _ "cleanupErr s"]) (simp add: with_cleanup_def)
  have id: "s\<lparr>s_taskManager := s_taskManager s\<rparr> = s" by simp
  obtain b m where e: "ShutdownIfEmpty (s_taskManager s) = (b, m)" by fastforce
  consider "now" | "\<not> now" "exitAfterAllTasksDeleted s" "b" | "\<not> now" "exitAfterAllTasksDeleted s" "\<not> b" | "\<not> now" "\<not> exitAfterAllTasksDeleted s"
    by blast
  then show ?thesis
  proof cases
    case 1
    with assms show ?thesis by (intro run[of "s_taskManager s"]) (simp_all add: shim_Shutdown_def id)
  next
    case 2
    with assms e show ?thesis by (intro run[of m]) (simp_all add: shim_Shutdown_def)
  next
    case 3
    with assms e show ?thesis by (intro none[of m]) (simp_all add: shim_Shutdown_def)
  next
    case 4
    with assms show ?thesis by (intro none[of "s_taskManager s"]) (simp_all add: shim_Shutdown_def id)
  qed
qed

section \<open>The life of a shim\<close>

text \<open>
  One step: a call that has returned, or the monitor seeing the VM's end. The arguments and everything
  that the outside answers are free, but the exec id of an \<open>Exec\<close> is not empty, which containerd
  validates. The calls that do not change the state are left out.
\<close>

inductive shim_step :: "('w, 'ip, 'b) shim_env \<Rightarrow> ('w, 'ip) service \<Rightarrow> ('w, 'ip) service \<Rightarrow> bool"
  for env :: "('w, 'ip, 'b) shim_env" where
  create_vm: "shim_CreateVM env s request w = (Some r, s', w') \<Longrightarrow> shim_step env s s'"
| stop_vm: "shim_StopVM env k s timeout w = (r, s', w') \<Longrightarrow> shim_step env s s'"
| shutdown: "shim_Shutdown env k s i now w = (r, s', w') \<Longrightarrow> shim_step env s s'"
| vm_exit: "monitorVMExit env s w = (s', w') \<Longrightarrow> shim_step env s s'"
| create_task: "shim_Create env s creq w = (rc, s', w') \<Longrightarrow> shim_step env s s'"
| delete_task: "shim_Delete env s io dreq w = (rd, s', w') \<Longrightarrow> shim_step env s s'"
| exec_task: "shim_Exec env s xreq w = (rx, s', w') \<Longrightarrow> ex_ExecID xreq \<noteq> [] \<Longrightarrow> shim_step env s s'"

inductive_cases shim_stepE [consumes 1, case_names create_vm stop_vm shutdown vm_exit create_task delete_task exec_task]:
  "shim_step env s s'"

definition tasks_of :: "('w, 'ip) service \<Rightarrow> string set" where
  "tasks_of s = {t. (t, []) \<in> tm_reg (s_taskManager s)}"

definition drives_of :: "('w, 'ip) service \<Rightarrow> string set" where
  "drives_of s = (case containerStubHandler s of None \<Rightarrow> {} | Some h \<Rightarrow> dom (usedDrives h))"

definition shim_inv :: "('w, 'ip) service \<Rightarrow> bool" where
  "shim_inv s \<longleftrightarrow>
     (vmReady s \<longrightarrow> parts_set s \<and> vmStartOnce s) \<and> (\<not> vmReady s \<longrightarrow> tm_reg (s_taskManager s) = {}) \<and>
     tm_inv (s_taskManager s) \<and> next_port s < 2 ^ 32 \<and> tasks_of s \<subseteq> drives_of s \<and> linked s"

lemma parts_set_frames [simp]:
  "parts_set (s\<lparr>s_taskManager := m\<rparr>) = parts_set s"
  "next_port (s\<lparr>s_taskManager := m\<rparr>) = next_port s" "linked (s\<lparr>s_taskManager := m\<rparr>) = linked s"
  by (simp_all add: parts_set_def next_port_def linked_def)

lemma drives_of_cleanup [simp]: "drives_of (with_cleanup s b e) = drives_of s" "tasks_of (with_cleanup s b e) = tasks_of s"
  by (simp_all add: drives_of_def tasks_of_def)

lemma shim_inv_cleanup [simp]: "shim_inv (with_cleanup s b e) = shim_inv s"
  by (simp add: shim_inv_def)

lemma shim_inv_CreateVM:
  assumes "shim_CreateVM env s request w = (Some r, s', w')" "shim_inv s"
  shows "shim_inv s'"
proof (cases "vmStartOnce s")
  case True
  with assms show ?thesis by (simp add: shim_CreateVM_def)
next
  case False
  with assms(2) have nr: "\<not> vmReady s" "tm_reg (s_taskManager s) = {}" "tm_inv (s_taskManager s)" "next_port s < 2 ^ 32"
    by (auto simp: shim_inv_def)
  let ?sched = "e_dial_sched env (request_timeout (TimeoutSeconds request) defaultCreateVMTimeout)"
  obtain x s1 w1 where c: "createVM env s request ?sched w = (x, s1, w1)" by (rule prod_cases3)
  note f = createVM_frame[OF c]
  have keep: "s_taskManager s1 = s_taskManager s" "vmReady s1 = vmReady s" "next_port s1 = next_port s"
    using frame_eqs[OF conjunct1[OF f]] by (simp_all add: next_port_def)
  have ln: "linked s" using assms(2) by (simp add: shim_inv_def)
  note links = createVM_linked[OF c ln False]
  obtain y where y: "x = Some y" using assms(1) False c by (cases x) (auto simp: shim_CreateVM_def Let_def)
  show ?thesis
  proof (cases y)
    case (Some e)
    with assms(1) False c y have "s' = s1\<lparr>vmStartOnce := True\<rparr>" by (auto simp: shim_CreateVM_def Let_def)
    with keep nr links show ?thesis by (simp add: shim_inv_def next_port_def tasks_of_def)
  next
    case None
    with assms(1) False c y have "s' = s1\<lparr>vmStartOnce := True, vmReady := True\<rparr>"
      by (auto simp: shim_CreateVM_def Let_def split: prod.splits)
    with keep nr f None y links show ?thesis by (simp add: shim_inv_def next_port_def tasks_of_def parts_set_def)
  qed
qed

text \<open>
  What the service relies on in its stub drive handler: containers take a drive and give it back, a container has at most one, and
  the drives as a whole stay the same.
\<close>

locale drive_store =
  fixes used :: "'h \<Rightarrow> string set"
    and wf :: "'h \<Rightarrow> bool"
    and content :: "'h \<Rightarrow> 'c"
    and takes :: "'h \<Rightarrow> string \<Rightarrow> 'h \<Rightarrow> bool"
    and gives_back :: "'h \<Rightarrow> string \<Rightarrow> 'h \<Rightarrow> bool"
  assumes take_new: "takes h c h' \<Longrightarrow> c \<notin> used h"
    and take_used: "takes h c h' \<Longrightarrow> used h' = insert c (used h)"
    and take_kept: "takes h c h' \<Longrightarrow> wf h \<Longrightarrow> wf h' \<and> content h' = content h"
    and give_used: "gives_back h c h' \<Longrightarrow> used h' = used h - {c}"
    and give_kept: "gives_back h c h' \<Longrightarrow> wf h \<Longrightarrow> wf h' \<and> content h' = content h"
begin

lemma refused_while_used: "c \<in> used h \<Longrightarrow> \<not> takes h c h'"
  using take_new by blast

end

definition stub_takes ::
    "'w os \<Rightarrow> 'w machine \<Rightarrow> 'w DriveMounterService \<Rightarrow> StubDriveHandler \<Rightarrow> string \<Rightarrow> StubDriveHandler \<Rightarrow> bool" where
  "stub_takes os mc mounter h cid h1 \<longleftrightarrow> (\<exists>p v fs opts w w1. Reserve os mc mounter h cid p v fs opts w = (None, h1, w1))"

definition stub_gives ::
    "'w machine \<Rightarrow> 'w DriveMounterService \<Rightarrow> StubDriveHandler \<Rightarrow> string \<Rightarrow> StubDriveHandler \<Rightarrow> bool" where
  "stub_gives mc mounter h cid h1 \<longleftrightarrow> (\<exists>w w1. Release mc mounter h cid w = (None, h1, w1))"

interpretation stubs: drive_store "\<lambda>h. dom (usedDrives h)" finite_use pool "stub_takes os mc mounter" "stub_gives mc mounter"
  for os :: "'w os" and mc mounter
proof
  fix h cid h'
  assume "stub_takes os mc mounter h cid h'"
  then obtain p v fs opts w w1 where r: "Reserve os mc mounter h cid p v fs opts w = (None, h', w1)"
    unfolding stub_takes_def by (elim exE)
  show "cid \<notin> dom (usedDrives h)" "dom (usedDrives h') = insert cid (dom (usedDrives h))"
    using r by (cases rule: Reserve_cases; auto)+
  show "finite_use h' \<and> pool h' = pool h" if "finite_use h"
    using r that by (cases rule: Reserve_cases) (auto simp: finite_use_def pool_take)
next
  fix h cid h'
  assume "stub_gives mc mounter h cid h'"
  then obtain w w1 where r: "Release mc mounter h cid w = (None, h', w1)" unfolding stub_gives_def by (elim exE)
  show "dom (usedDrives h') = dom (usedDrives h) - {cid}" using r by (cases rule: Release_cases) auto
  show "finite_use h' \<and> pool h' = pool h" if "finite_use h"
    using r that by (cases rule: Release_cases) (auto simp: finite_use_def pool_give)
qed

lemma Reserve_drives:
  assumes "Reserve os mc mounter h cid p v fs opts w = (None, h1, w1)"
  shows "dom (usedDrives h1) = insert cid (dom (usedDrives h))" "cid \<notin> dom (usedDrives h)"
    "finite_use h \<longrightarrow> finite_use h1 \<and> pool h1 = pool h"
proof -
  have "stub_takes os mc mounter h cid h1" using assms unfolding stub_takes_def by blast
  from stubs.take_used[OF this] stubs.take_new[OF this] stubs.take_kept[OF this]
  show "dom (usedDrives h1) = insert cid (dom (usedDrives h))" "cid \<notin> dom (usedDrives h)"
    "finite_use h \<longrightarrow> finite_use h1 \<and> pool h1 = pool h" by blast+
qed

lemma Release_drives:
  assumes "Release mc mounter h cid w = (r, h1, w1)"
  shows "dom (usedDrives h1) = dom (usedDrives h) - (if r = None then {cid} else {})"
    "finite_use h \<longrightarrow> finite_use h1 \<and> pool h1 = pool h"
proof -
  have *: "(dom (usedDrives h1) = dom (usedDrives h) - (if r = None then {cid} else {})) \<and>
      (finite_use h \<longrightarrow> finite_use h1 \<and> pool h1 = pool h)"
  proof (cases r)
    case None
    then have "stub_gives mc mounter h cid h1" using assms unfolding stub_gives_def by blast
    from stubs.give_used[OF this] stubs.give_kept[OF this] None show ?thesis by simp
  next
    case (Some e)
    have "h1 = h" using assms Some by (cases rule: Release_cases[OF assms]) auto
    with Some show ?thesis by simp
  qed
  show "dom (usedDrives h1) = dom (usedDrives h) - (if r = None then {cid} else {})" by (rule conjunct1[OF *])
  show "finite_use h \<longrightarrow> finite_use h1 \<and> pool h1 = pool h" by (rule conjunct2[OF *])
qed

lemma shim_inv_tasks:
  assumes "shim_inv s" "s' = with_tasks s h n m" "next_port s' < 2 ^ 32" "tm_inv m"
    and "vmReady s \<longrightarrow> (\<exists>h'. h = Some h' \<and> finite_use h' \<and> distinct_pool h')" "\<not> vmReady s \<longrightarrow> tm_reg m = {}"
    and "{t. (t, []) \<in> tm_reg m} \<subseteq> (case h of None \<Rightarrow> {} | Some h \<Rightarrow> dom (usedDrives h))"
  shows "shim_inv s'"
  using assms by (auto simp: shim_inv_def parts_set_def tasks_of_def drives_of_def)

text \<open>What stays true from a state to a later one.\<close>

definition handler_kept :: "StubDriveHandler option \<Rightarrow> StubDriveHandler option \<Rightarrow> bool" where
  "handler_kept h h' \<longleftrightarrow> (\<forall>x. h = Some x \<longrightarrow> finite_use x \<longrightarrow> (\<exists>y. h' = Some y \<and> finite_use y \<and> pool y = pool x))"

lemma handler_kept_refl [simp]: "handler_kept h h"
  by (simp add: handler_kept_def)

lemma handler_kept_trans: "handler_kept a b \<Longrightarrow> handler_kept b c \<Longrightarrow> handler_kept a c"
  unfolding handler_kept_def by metis

definition kept :: "('w, 'ip) service \<Rightarrow> ('w, 'ip) service \<Rightarrow> bool" where
  "kept s s' \<longleftrightarrow>
     (vmStartOnce s \<longrightarrow> vmStartOnce s' \<and> vmReady s' = vmReady s \<and> handler_kept (containerStubHandler s) (containerStubHandler s')) \<and>
     (cleanupOnce s \<longrightarrow> cleanupOnce s' \<and> cleanupErr s' = cleanupErr s) \<and>
     (isShutdown (s_taskManager s) \<longrightarrow> isShutdown (s_taskManager s'))"

lemma kept_refl [simp]: "kept s s"
  by (simp add: kept_def)

lemma kept_trans: "kept a b \<Longrightarrow> kept b c \<Longrightarrow> kept a c"
  unfolding kept_def by (auto intro: handler_kept_trans)

lemma kept_tasks:
  assumes "s' = with_tasks s h n m" "handler_kept (containerStubHandler s) h"
    and "isShutdown (s_taskManager s) \<longrightarrow> isShutdown m"
  shows "kept s s'"
  using assms by (simp add: kept_def)

lemma isShutdown_calls:
  "CreateTask m q svc io w = (r, m', w') \<Longrightarrow> isShutdown m' = isShutdown m"
  "ExecProcess m xq svc io w = (rx, m', w') \<Longrightarrow> isShutdown m' = isShutdown m"
  "DeleteProcess m dq svc io w = (rd, m', w') \<Longrightarrow> isShutdown m' = isShutdown m"
proof -
  have d: "isShutdown x = isShutdown m" if "deleteProc m t e = (y, x)" for m t e x y
    using isShutdown_ops(2)[of m t e] that by simp
  have n: "isShutdown x = isShutdown m" if "newProc m t e = (y, x)" for m t e x y
    using isShutdown_ops(1)[of m t e] that by simp
  show "CreateTask m q svc io w = (r, m', w') \<Longrightarrow> isShutdown m' = isShutdown m"
    by (auto simp: CreateTask_def undo_proc_def Let_def dest!: d n split: prod.splits sum.splits option.splits)
  show "ExecProcess m xq svc io w = (rx, m', w') \<Longrightarrow> isShutdown m' = isShutdown m"
    by (auto simp: ExecProcess_def undo_proc_def Let_def dest!: d n split: prod.splits sum.splits option.splits)
  show "DeleteProcess m dq svc io w = (rd, m', w') \<Longrightarrow> isShutdown m' = isShutdown m"
    by (auto simp: DeleteProcess_def dest!: d split: prod.splits sum.splits)
qed

lemma generateExtraData_tm:
  "generateExtraData s json opts = Some (x, s') \<Longrightarrow> s_taskManager s' = s_taskManager s"
  by (auto simp: generateExtraData_def nextVSockPort_def Let_def split: option.splits if_splits prod.splits)

lemma shim_tasks_isShutdown:
  "shim_Create env s q w = (r, s', w') \<Longrightarrow> isShutdown (s_taskManager s') = isShutdown (s_taskManager s)"
  "shim_Exec env s xq w = (rx, s', w') \<Longrightarrow> isShutdown (s_taskManager s') = isShutdown (s_taskManager s)"
  "shim_Delete env s io dq w = (rd, s', w') \<Longrightarrow> isShutdown (s_taskManager s') = isShutdown (s_taskManager s)"
proof -
  have c: "isShutdown (s_taskManager s') = isShutdown (s_taskManager s)"
    if "create_reserved env s q w = (r, s', w')" for s s' :: "('a, 'b) service" and w w' r
    using that
    by (auto simp: create_reserved_def Let_def dest!: generateExtraData_tm isShutdown_calls(1)
        split: prod.splits sum.splits option.splits)
  show "shim_Create env s q w = (r, s', w') \<Longrightarrow> isShutdown (s_taskManager s') = isShutdown (s_taskManager s)"
  proof (erule shim_Create_cases)
    fix h1 w2
    assume "create_reserved env (s\<lparr>containerStubHandler := Some h1\<rparr>) q w2 = (r, s', w')"
    from c[OF this] show "isShutdown (s_taskManager s') = isShutdown (s_taskManager s)" by simp
  qed simp
  show "shim_Exec env s xq w = (rx, s', w') \<Longrightarrow> isShutdown (s_taskManager s') = isShutdown (s_taskManager s)"
    by (auto simp: shim_Exec_def Let_def dest!: generateExtraData_tm isShutdown_calls(2)
        split: prod.splits sum.splits option.splits)
  show "shim_Delete env s io dq w = (rd, s', w') \<Longrightarrow> isShutdown (s_taskManager s') = isShutdown (s_taskManager s)"
    by (auto simp: shim_Delete_def Let_def dest!: isShutdown_calls(3) delete_container_effect
        split: prod.splits sum.splits option.splits if_splits)
qed

lemma shim_step_inv:
  assumes "shim_step env s s'" "shim_inv s"
  shows "shim_inv s' \<and> kept s s'"
  using assms(1)
proof (cases rule: shim_stepE)
  case (create_vm request w r w')
  have "kept s s'"
  proof (cases "vmStartOnce s")
    case True
    with create_vm show ?thesis by (simp add: shim_CreateVM_def)
  next
    case False
    obtain x s1 w1 where c: "createVM env s request (e_dial_sched env (request_timeout (TimeoutSeconds request) defaultCreateVMTimeout)) w
        = (x, s1, w1)" by (rule prod_cases3)
    note f = frame_eqs[OF conjunct1[OF createVM_frame[OF c]]]
    have "s_taskManager s' = s_taskManager s1 \<and> cleanupOnce s' = cleanupOnce s1 \<and> cleanupErr s' = cleanupErr s1"
      using create_vm False c by (auto simp: shim_CreateVM_def Let_def split: option.splits prod.splits)
    with f False show ?thesis by (simp add: kept_def)
  qed
  with shim_inv_CreateVM[OF create_vm assms(2)] show ?thesis by blast
next
  case (stop_vm k timeout w r w')
  have "\<exists>b e. s' = with_cleanup s b e \<and> (cleanupOnce s \<longrightarrow> s' = s)"
  proof (cases "waitVMReady s")
    case (Some err)
    with stop_vm show ?thesis
      by (intro exI[of _ "cleanupOnce s"] exI[of _ "cleanupErr s"]) (simp add: shim_StopVM_def)
  next
    case None
    with stop_vm show ?thesis by (intro shim_shutdown_effect) (simp add: shim_StopVM_def)
  qed
  then obtain b e where e: "s' = with_cleanup s b e" "cleanupOnce s \<longrightarrow> s' = s" by blast
  have "kept s s'"
  proof (cases "cleanupOnce s")
    case False
    then show ?thesis using e(1) by (simp add: kept_def)
  qed (use e in simp)
  with e(1) assms(2) show ?thesis by simp
next
  case (shutdown k i now w r w')
  from shim_Shutdown_effect[OF this] obtain m b e where
    e: "s' = with_cleanup (s\<lparr>s_taskManager := m\<rparr>) b e" "cleanupOnce s \<longrightarrow> b \<and> e = cleanupErr s"
      "m = s_taskManager s \<or> m = snd (ShutdownIfEmpty (s_taskManager s))" by blast
  have inv: "tm_inv (s_taskManager s)" using assms(2) by (simp add: shim_inv_def)
  have m: "tm_inv m" "tm_reg m = tm_reg (s_taskManager s)" "isShutdown (s_taskManager s) \<longrightarrow> isShutdown m"
    using e(3) inv tm.shut_inv[OF inv] tm.shut_reg[OF inv] tm.closed_shut[OF inv] by auto
  have "shim_inv (s\<lparr>s_taskManager := m\<rparr>)" using assms(2) m by (simp add: shim_inv_def tasks_of_def drives_of_def)
  with e(1,2) m show ?thesis by (simp add: kept_def)
next
  case (vm_exit w w')
  from monitorVMExit_effect[OF this] obtain b e where e: "s' = with_cleanup s b e" "cleanupOnce s \<longrightarrow> s' = s" by blast
  have "kept s s'"
  proof (cases "cleanupOnce s")
    case False
    then show ?thesis using e(1) by (simp add: kept_def)
  qed (use e in simp)
  with e(1) assms(2) show ?thesis by simp
next
  case (create_task creq w rc w')
  have np: "next_port s < 2 ^ 32" and ti: "tm_inv (s_taskManager s)" using assms(2) by (simp_all add: shim_inv_def)
  from shim_Create_effect[OF create_task np ti] consider "s' = s"
    | h h1 n m mc mounter vmPath path w1 w2 where "vmReady s" "containerStubHandler s = Some h"
        "Reserve (e_os env) mc mounter h (ct_ID creq) path vmPath ''ext4'' [] w1 = (None, h1, w2)"
        "s' = with_tasks s (Some h1) n m" "next_port s' < 2 ^ 32" "tm_inv m"
        "if isOk rc then (ct_ID creq, []) \<notin> tm_reg (s_taskManager s) \<and>
           tm_reg m = insert (ct_ID creq, []) (tm_reg (s_taskManager s)) else tm_reg m = tm_reg (s_taskManager s)"
    by blast
  then show ?thesis
  proof cases
    case 1
    with assms(2) show ?thesis by simp
  next
    case 2
    note rd = Reserve_drives[OF 2(3)]
    have fin: "finite_use h" "distinct_pool h" using assms(2) 2(1,2) by (simp_all add: shim_inv_def parts_set_def)
    have sub: "tasks_of s \<subseteq> dom (usedDrives h)" using assms(2) 2(2) by (simp add: shim_inv_def drives_of_def)
    have "{t. (t, []) \<in> tm_reg m} \<subseteq> dom (usedDrives h1)"
      using sub 2(7) rd(1) by (auto simp: tasks_of_def split: if_splits)
    then have "shim_inv s'" using rd(3) fin 2(1,5,6) distinct_pool_cong[of h1 h] by (intro shim_inv_tasks[OF assms(2) 2(4)]) simp_all
    moreover have "isShutdown m = isShutdown (s_taskManager s)"
      using shim_tasks_isShutdown(1)[OF create_task] 2(4) by simp
    then have "kept s s'" using rd(3) 2(2) by (intro kept_tasks[OF 2(4)]) (simp_all add: handler_kept_def)
    ultimately show ?thesis by blast
  qed
next
  case (delete_task io dreq w rd w')
  have ti: "tm_inv (s_taskManager s)" using assms(2) by (simp add: shim_inv_def)
  from shim_Delete_effect[OF delete_task ti] obtain h' m where
    e: "s' = with_tasks s h' (vsockIOPortCount s) m" "tm_inv m"
      "if isOk rd then (dl_ID dreq, dl_ExecID dreq) \<in> tm_reg (s_taskManager s) \<and>
         tm_reg m = tm_reg (s_taskManager s) - {(dl_ID dreq, dl_ExecID dreq)} else tm_reg m = tm_reg (s_taskManager s)"
    and h': "h' = containerStubHandler s \<or> isOk rd \<and> dl_ExecID dreq = [] \<and>
       (\<exists>h h1 mc mounter rr w1 w2. containerStubHandler s = Some h \<and> h' = Some h1 \<and>
          Release mc mounter h (dl_ID dreq) (w1 :: 'a) = (rr, h1, w2) \<and> (\<forall>resp. rd = Inr (resp, None) \<longrightarrow> rr = None))"
    by (elim exE conjE) (rule that; assumption)
  have sub: "tm_reg m \<subseteq> tm_reg (s_taskManager s)" using e(3) by (auto split: if_splits)
  have np: "next_port s' < 2 ^ 32" using assms(2) e(1) by (simp add: shim_inv_def next_port_def)
  have sh: "isShutdown m = isShutdown (s_taskManager s)" using shim_tasks_isShutdown(3)[OF delete_task] e(1) by simp
  have old: "{t. (t, []) \<in> tm_reg m} \<subseteq> drives_of s" using sub assms(2) by (auto simp: shim_inv_def tasks_of_def)
  have rdy: "vmReady s \<longrightarrow> (\<exists>h. containerStubHandler s = Some h \<and> finite_use h \<and> distinct_pool h)" "\<not> vmReady s \<longrightarrow> tm_reg m = {}"
    using assms(2) sub by (auto simp: shim_inv_def parts_set_def)
  from h' consider "h' = containerStubHandler s"
    | h h1 mc mounter rr w1 w2 where "isOk rd" "dl_ExecID dreq = []" "containerStubHandler s = Some h" "h' = Some h1"
        "Release mc mounter h (dl_ID dreq) (w1 :: 'a) = (rr, h1, w2)" by blast
  then show ?thesis
  proof cases
    case 1
    have "shim_inv s'" using rdy old 1 by (intro shim_inv_tasks[OF assms(2) e(1) np e(2)]) (simp_all add: drives_of_def)
    moreover have "kept s s'" using 1 sh by (intro kept_tasks[OF e(1)]) simp_all
    ultimately show ?thesis by blast
  next
    case 2
    note rl = Release_drives[OF 2(5)]
    have gone: "(dl_ID dreq, []) \<notin> tm_reg m" using e(3) 2(1,2) by simp
    have "{t. (t, []) \<in> tm_reg m} \<subseteq> dom (usedDrives h1)"
      using old gone rl(1) 2(3) by (auto simp: drives_of_def)
    then have "shim_inv s'" using rdy 2(3,4) rl(2) distinct_pool_cong[of h1 h]
      by (intro shim_inv_tasks[OF assms(2) e(1) np e(2)]) auto
    moreover have "kept s s'" using 2(3,4) rl(2) sh by (intro kept_tasks[OF e(1)]) (auto simp: handler_kept_def)
    ultimately show ?thesis by blast
  qed
next
  case (exec_task xreq w rx w')
  have np: "next_port s < 2 ^ 32" and ti: "tm_inv (s_taskManager s)" using assms(2) by (simp_all add: shim_inv_def)
  from shim_Exec_effect[OF exec_task(1) np ti] obtain n m where
    e: "s' = with_tasks s (containerStubHandler s) n m" "next_port s' < 2 ^ 32" "tm_inv m"
      "tm_reg m = tm_reg (s_taskManager s) \<or> tm_reg m = insert (ex_ID xreq, ex_ExecID xreq) (tm_reg (s_taskManager s)) \<and>
        (ex_ExecID xreq \<noteq> [] \<longrightarrow> ex_ID xreq \<in> fst ` tm_reg (s_taskManager s))" by (elim exE conjE) (rule that; assumption)
  have t: "{t. (t, []) \<in> tm_reg m} = tasks_of s" using e(4) exec_task(2) by (auto simp: tasks_of_def)
  have "\<not> vmReady s \<longrightarrow> tm_reg m = {}" using e(4) exec_task(2) assms(2) by (auto simp: shim_inv_def)
  then have "shim_inv s'"
    using assms(2) t by (intro shim_inv_tasks[OF assms(2) e(1-3)]) (auto simp: shim_inv_def parts_set_def drives_of_def)
  moreover have "kept s s'" using shim_tasks_isShutdown(2)[OF exec_task(1)] e(1) by (intro kept_tasks[OF e(1)]) simp_all
  ultimately show ?thesis by blast
qed

lemma shim_steps_inv:
  assumes "(shim_step env)\<^sup>*\<^sup>* s s'" "shim_inv s"
  shows "shim_inv s' \<and> kept s s'"
  using assms
proof (induction rule: rtranclp_induct)
  case (step y z)
  then show ?case using shim_step_inv[of env y z] kept_trans[of s y z] by blast
qed simp

lemma initial_inv: "shim_inv (initial_service ns vmID dir cfg helper)"
  by (simp add: shim_inv_def initial_service_def next_port_def tasks_of_def linked_def)

end
