(* ===== verification/ShimExample.thy ===== *)
theory ShimExample
  imports ShimState
begin

text \<open>
  A shim in a world where everything succeeds: one VM that is created, becomes ready and runs a
  task. It is the concrete input of the witnesses about \<open>runtime/service.go\<close>.
\<close>

definition vmm_fine :: "'w vmm" where
  "vmm_fine =
     \<lparr>vm_iface = machine_fine, vm_Start = (\<lambda>j w. (Some (None, j), w)), vm_Wait = (\<lambda>w. (None, w)), vm_PID = (\<lambda>w. ((1, None), w)),
      vm_SetMetadata = (\<lambda>d w. (None, w)), vm_UpdateMetadata = (\<lambda>d w. (None, w)), vm_GetMetadata = (\<lambda>w. (Inr [], w))\<rparr>"

definition runc_fine :: "'w runc" where
  "runc_fine = \<lparr>runc_Delete = (\<lambda>i w. (None, w)), runc_Kill = (\<lambda>i sig w. (None, w))\<rparr>"

text \<open>An encoding of the message of the first \<open>Create\<close>, and its decoding.\<close>

definition first_marshal :: "ExtraData \<Rightarrow> gerr + any" where
  "first_marshal x =
     (if RuncOptions x = None \<and> StdinPort x = 11000 \<and> StdoutPort x = 11001 \<and> StderrPort x = 11002
      then Inr (Some (''extra'', JsonSpec x)) else Inl EOF)"

definition first_unmarshal :: "any \<Rightarrow> gerr + ExtraData" where
  "first_unmarshal a =
     (case a of
        None \<Rightarrow> Inl EOF
      | Some (url, v) \<Rightarrow>
          Inr \<lparr>JsonSpec = v, RuncOptions = None, StdinPort = 11000, StdoutPort = 11001, StderrPort = 11002\<rparr>)"

lemma first_marshal_roundtrip: "first_marshal x = Inr a \<Longrightarrow> first_unmarshal a = Inr x"
  by (auto simp: first_marshal_def first_unmarshal_def split: if_splits)

text \<open>\<open>agent\<close> is the task service in the VM.\<close>

definition shim_fine :: "'w TaskService \<Rightarrow> ('w, unit, TokenBucket) shim_env" where
  "shim_fine agent =
     \<lparr>e_os = os_fine, e_runc = runc_fine, e_net = net_with [''OK '' @ ''5'' @ newline], e_tb = sdk_example,
      e_Validate = V_example, e_Unmarshal_spec = (\<lambda>_. Inr example_spec), e_vmArgs = (\<lambda>b s. [b, s]),
      e_WithRootDrive = (\<lambda>p opts. [foldl (\<lambda>d f. f d) \<lparr>DriveID = ''root_drive'', PathOnHost = p, IsReadOnly = False,
         drive_RateLimiter = None, IsRootDevice = True, Partuuid = []\<rparr> opts]),
      e_WithReadOnly = (\<lambda>b d. d\<lparr>IsReadOnly := b\<rparr>), e_WithPartuuid = (\<lambda>u d. d\<lparr>Partuuid := u\<rparr>),
      e_ParseCIDR = (\<lambda>_. Inl EOF), e_ParseIP = (\<lambda>_. None), e_NewMachine = (\<lambda>cfg lvl opts w. (Inr vmm_fine, w)),
      e_dial_sched = (\<lambda>_. [Tick, Done ContextDeadlineExceeded]), e_clients = (\<lambda>_. (agent, mounter_fine)),
      e_Publish = (\<lambda>t i w. (None, w)), e_shimCancel = (\<lambda>w. w), e_Sleep = (\<lambda>d w. w),
      e_MarshalAny = first_marshal, e_url_rest_ok = (\<lambda>_. None), e_run_proxy = (\<lambda>_. io_fine)\<rparr>"

definition plain_shim_config :: Config where
  "plain_shim_config = example_config\<lparr>FirecrackerBinaryPath := [], ShimBaseDir := ''/run''\<rparr>"

definition first_service :: "('w, unit) service" where
  "first_service = initial_service (Some ''default'') ''vm-1'' ''/run/default/vm-1'' plain_shim_config (zero_Helper [])"

lemma rel_fine:
  assumes "good_comp n"
  shows "\<exists>r. relPathTo (os_fine :: 'w os) (filepath_Join [''/run/default/vm-1'', n]) w = (Inr r, w)"
proof -
  have s: "''/run/default/vm-1'' = abs_path [''run'', ''default'', ''vm-1'']" by (simp add: abs_path_def)
  have g: "\<forall>c \<in> set ([''run'', ''default'', ''vm-1''] @ [n]). good_comp c" using assms by (simp add: good_comp_def)
  have j: "filepath_Join [abs_path [''run'', ''default'', ''vm-1''], n] = abs_path ([''run'', ''default'', ''vm-1''] @ [n])" using g by (intro Join_inside) simp_all
  from filepath_Rel_Join[of "[]" "[''run'', ''default'', ''vm-1''] @ [n]"] g obtain r where "filepath_Rel (abs_path []) (abs_path ([''run'', ''default'', ''vm-1''] @ [n])) = Inr r"
    by auto
  then show ?thesis unfolding s j by (simp add: relPathTo_def os_fine_def abs_path_def)
qed


abbreviation (input) fine_jailer :: jailer where
  "fine_jailer \<equiv> Noop (newNoopJailer ''/run/default/vm-1'')"

lemma one_stub:
  fixes cfg :: "unit fc_Config"
  shows "\<exists>h m d. CreateContainerStubs os_fine sdk_example cfg fine_jailer 1 () = (Inr h, m, ()) \<and>
     freeDrives h = [d] \<and> usedDrives h = Map.empty \<and> sd_jail d = fine_jailer \<and> dm_IsWritable (driveMount d)"
proof -
  have root: "RootPath (JailPath fine_jailer) = abs_path [''run'', ''default'', ''vm-1'']" "\<forall>c \<in> set [''run'', ''default'', ''vm-1'']. good_comp c"
    by (simp_all add: RootPath_def noop_JailPath_def newNoopJailer_def abs_path_def good_comp_def)
  obtain h m where c: "CreateContainerStubs os_fine sdk_example cfg fine_jailer 1 () = (Inr h, m, ())"
      and l: "length (freeDrives h) = 1"
    using one_container_stub[OF root, of cfg] by blast
  obtain d where d: "freeDrives h = [d]" using l by (cases "freeDrives h") auto
  have "usedDrives h = Map.empty \<and> sd_jail d = fine_jailer \<and> dm_IsWritable (driveMount d)"
    using c d container_stubs_ok[of os_fine sdk_example fine_jailer "[0]" cfg "[]" "()" "[d]" m "()", OF _ root]
    by (auto simp: CreateContainerStubs_def split: prod.splits sum.splits)
  with c d show ?thesis by blast
qed

lemma fine_rel_paths:
  "\<exists>r. FirecrackerSockRelPath os_fine ''/run/default/vm-1'' () = (Inr r, ())"
  "\<exists>r. FirecrackerVSockRelPath os_fine ''/run/default/vm-1'' () = (Inr r, ())"
  using rel_fine[of FirecrackerSockName "()"] rel_fine[of FirecrackerVSockName "()"]
  by (simp_all add: FirecrackerSockRelPath_def FirecrackerVSockRelPath_def FirecrackerSockPath_def FirecrackerVSockPath_def
      RootPath_def FirecrackerSockName_def FirecrackerVSockName_def good_comp_def)

lemma fine_dial:
  "\<exists>conn. VSockDial (net_with [''OK '' @ ''5'' @ newline]) p port (Tick # sched) () = (Some (Inr conn), ())"
proof -
  let ?net = "net_with [''OK '' @ ''5'' @ newline] :: unit net"
  have d: "net_DialTimeout ?net p unixDialTimeout () =
      (Inr \<lparr>conn_chunks = (''OK '' @ ''5'' @ newline @ []) # [], conn_end = NetError True ''i/o timeout'',
        conn_Write = (\<lambda>s. (length s, None))\<rparr>, ())"
    by (simp add: net_with_def)
  have "CHR 0x0A \<notin> set ''5''" by simp
  from tryConnect_buffered[OF d this, of port] show ?thesis by (simp add: VSockDial_def)
qed

definition first_request :: CreateVMRequest where
  "first_request = start_request ''vm-1'' True 1"

lemma first_request_simps [simp]:
  "DriveMounts first_request = []" "NetworkInterfaces first_request = None" "JailerConfig first_request = None"
  "RootDrive first_request = None" "ExitAfterAllTasksDeleted first_request" "container_count first_request = 1"
  "TimeoutSeconds first_request = 0"
  by (simp_all add: first_request_def start_request_def container_count_def)

text \<open>What the witnesses know of the shim once its VM runs.\<close>

definition fine_state :: "unit TaskService \<Rightarrow> (unit, unit) service \<Rightarrow> stubDrive \<Rightarrow> bool" where
  "fine_state agent s d \<longleftrightarrow>
     containerStubHandler s = Some \<lparr>freeDrives = [d], usedDrives = Map.empty\<rparr> \<and> sd_jail d = fine_jailer \<and>
     dm_IsWritable (driveMount d) \<and> agentClient s = Some agent \<and> driveMountClient s = Some mounter_fine \<and>
     s_machine s = Some vmm_fine \<and> s_jailer s = Some fine_jailer \<and> s_taskManager s = NewTaskManager \<and>
     vsockIOPortCount s = 0 \<and> exitAfterAllTasksDeleted s \<and> s_shimDir s = ''/run/default/vm-1'' \<and> s_vmID s = ''vm-1'' \<and>
     machineConfig s \<noteq> None \<and> \<not> cleanupOnce s \<and> cleanupErr s = None"

lemma fine_shim_dir: "\<exists>d. ShimDir os_fine V_example ''/run'' ''default'' ''vm-1'' w = (Inr d, w)"
  by (simp add: ShimDir_def shimDir_def V_example_def os_fine_def)

lemma fine_build:
  fixes s :: "(unit, unit) service"
  assumes "s_shimDir s = ''/run/default/vm-1''" "s_jailer s = Some fine_jailer" "s_config s = plain_shim_config"
  shows "\<exists>cfg d h. buildVMConfiguration (shim_fine agent) s first_request () =
      (Inr cfg, s\<lparr>containerStubHandler := Some h, driveMountStubs := []\<rparr>, ()) \<and>
     h = \<lparr>freeDrives = [d], usedDrives = Map.empty\<rparr> \<and> sd_jail d = fine_jailer \<and> dm_IsWritable (driveMount d)"
proof -
  from fine_rel_paths obtain r v where r: "FirecrackerSockRelPath os_fine ''/run/default/vm-1'' () = (Inr r, ())"
      and v: "FirecrackerVSockRelPath os_fine ''/run/default/vm-1'' () = (Inr v, ())" by blast
  have e: "e_os (shim_fine agent) = os_fine" "e_tb (shim_fine agent) = sdk_example" by (simp_all add: shim_fine_def)
  obtain h m d where c: "CreateContainerStubs os_fine sdk_example (base_config (shim_fine agent) s first_request r v) fine_jailer 1 ()
      = (Inr h, m, ())" and h: "freeDrives h = [d]" "usedDrives h = Map.empty" "sd_jail d = fine_jailer" "dm_IsWritable (driveMount d)"
    using one_stub by blast
  have n: "DefaultNetworkInterfaces plain_shim_config = []" by (simp add: plain_shim_config_def example_config_def)
  have j: "JailPath fine_jailer = ''/run/default/vm-1''" by (simp add: noop_JailPath_def newNoopJailer_def)
  have "CreateDriveMountStubs os_fine sdk_example m fine_jailer [] () = (Inr [], m, ())"
    by (simp add: CreateDriveMountStubs_def)
  with r v c n assms have "buildVMConfiguration (shim_fine agent) s first_request () =
      (Inr (m\<lparr>fc_NetworkInterfaces := []\<rparr>), s\<lparr>containerStubHandler := Some h, driveMountStubs := []\<rparr>, ())"
    by (simp add: buildVMConfiguration_def e j Let_def del: JailPath.simps)
  moreover have "h = \<lparr>freeDrives = [d], usedDrives = Map.empty\<rparr>" using h by (cases h) simp
  ultimately show ?thesis using h by blast
qed

lemma fine_createVM:
  "\<exists>s d. createVM (shim_fine agent) first_service first_request [Tick, Done ContextDeadlineExceeded] () = (Some None, s, ()) \<and>
     fine_state agent s d \<and> \<not> vmReady s \<and> \<not> vmStartOnce s"
proof -
  let ?env = "shim_fine agent :: (unit, unit, TokenBucket) shim_env"
  let ?s = "first_service\<lparr>s_jailer := Some fine_jailer\<rparr> :: (unit, unit) service"
  note f = first_service_def initial_service_def
  have fs: "s_shimDir first_service = ''/run/default/vm-1''" "s_vmID first_service = ''vm-1''" "s_config first_service = plain_shim_config"
    "s_shimNamespace first_service = Some ''default''" by (simp_all add: f)
  have dir: "ShimBaseDir plain_shim_config = ''/run''" "FirecrackerBinaryPath plain_shim_config = []"
    by (simp_all add: plain_shim_config_def)
  have e: "e_os ?env = os_fine" "e_Validate ?env = V_example" "e_net ?env = net_with [''OK '' @ ''5'' @ newline]"
    "e_clients ?env = (\<lambda>_. (agent, mounter_fine))" "e_NewMachine ?env = (\<lambda>cfg lvl opts w. (Inr vmm_fine, w))"
    by (simp_all add: shim_fine_def)
  obtain d where d: "ShimDir os_fine V_example ''/run'' ''default'' ''vm-1'' () = (Inr d, ())"
    by (rule exE[OF fine_shim_dir])
  have j: "newJailer os_fine U (RootPath d) plain_shim_config ''/run/default/vm-1'' ''vm-1'' (Some first_request) () = (Inr fine_jailer, ())" for U
    by (simp add: newJailer_def)
  obtain cfg sd h where b: "buildVMConfiguration ?env ?s first_request () =
      (Inr cfg, ?s\<lparr>containerStubHandler := Some h, driveMountStubs := []\<rparr>, ())"
      and h: "h = \<lparr>freeDrives = [sd], usedDrives = Map.empty\<rparr>" "sd_jail sd = fine_jailer" "dm_IsWritable (driveMount sd)"
    using fine_build[of ?s agent] fs by auto
  obtain v where v: "FirecrackerVSockRelPath os_fine ''/run/default/vm-1'' () = (Inr v, ())" using fine_rel_paths by blast
  have jp: "JailPath fine_jailer = ''/run/default/vm-1''" by (simp add: noop_JailPath_def newNoopJailer_def)
  have bj: "BuildJailedMachine os_fine va fine_jailer plain_shim_config lg cfg ''vm-1'' () = (Inr [], cfg, ())" for va lg
    by (simp add: noop_BuildJailedMachine_def dir)
  obtain conn where conn: "VSockDial (net_with [''OK '' @ ''5'' @ newline]) v defaultVsockPort [Tick, Done ContextDeadlineExceeded] () =
      (Some (Inr conn), ())" using fine_dial by blast
  have sc: "start_and_connect ?env s1 first_request [Tick, Done ContextDeadlineExceeded] v vmm_fine fine_jailer () =
      (Some None, s1\<lparr>s_jailer := Some fine_jailer, agentClient := Some agent, driveMountClient := Some mounter_fine,
         exitAfterAllTasksDeleted := True\<rparr>, ())" if "driveMountStubs s1 = []" for s1
    using that conn by (simp add: start_and_connect_def e vmm_fine_def Let_def)
  let ?s' = "?s\<lparr>containerStubHandler := Some h, driveMountStubs := [], machineConfig := Some cfg, s_machine := Some vmm_fine,
      s_jailer := Some fine_jailer, agentClient := Some agent, driveMountClient := Some mounter_fine, exitAfterAllTasksDeleted := True\<rparr>"
  have "createVM ?env first_service first_request [Tick, Done ContextDeadlineExceeded] () = (Some None, ?s', ())"
    unfolding createVM_def Let_def e fs option.case dir d prod.case sum.case j b jp v
    by (simp add: fs e sc v jp noop_BuildJailedMachine_def dir)
  moreover have "fine_state agent ?s' sd"
    using h by (simp add: fine_state_def f)
  moreover have "\<not> vmReady ?s'" "\<not> vmStartOnce ?s'" by (simp_all add: f)
  ultimately show ?thesis by blast
qed

lemma fine_CreateVM:
  "\<exists>s d resp. shim_CreateVM (shim_fine agent) first_service first_request () = (Some (Inr resp), s, ()) \<and>
     fine_state agent s d \<and> vmReady s \<and> vmStartOnce s"
proof -
  obtain s d where c: "createVM (shim_fine agent) first_service first_request [Tick, Done ContextDeadlineExceeded] () = (Some None, s, ())"
      "fine_state agent s d" using fine_createVM by blast
  have n: "\<not> vmStartOnce first_service" by (simp add: first_service_def initial_service_def)
  have e: "e_dial_sched (shim_fine agent) t = [Tick, Done ContextDeadlineExceeded]" "e_Publish (shim_fine agent) x y w = (None, w)" for t x y w
    by (simp_all add: shim_fine_def)
  let ?s = "s\<lparr>vmStartOnce := True, vmReady := True\<rparr>"
  have f: "fine_state agent ?s d" using c(2) by (simp add: fine_state_def)
  then have "isOk (vm_response ?s)" by (auto simp: vm_response_def fine_state_def)
  then obtain resp where "vm_response ?s = Inr resp" by (auto simp: isOk_iff)
  then have "shim_CreateVM (shim_fine agent) first_service first_request () = (Some (Inr resp), ?s, ())"
    using c(1) n by (simp add: shim_CreateVM_def e publishVMStart_def Let_def)
  with f show ?thesis by auto
qed

text \<open>A task whose container is called like the second VM, which \<open>V_example\<close> knows.\<close>

definition fine_create :: CreateTaskRequest where
  "fine_create = example_create\<lparr>ct_ID := ''vm-2'',
     ct_Rootfs := [\<lparr>m_Type = ''ext4'', m_Source = ''/h'', m_Target = [], m_Options = []\<rparr>]\<rparr>"

lemma fine_Create:
  assumes "fine_state agent s d" "vmReady s" "\<And>q. ct_ID q = ''vm-2'' \<Longrightarrow> ct_Stdin q = [] \<Longrightarrow> ct_Stdout q = [] \<Longrightarrow> ct_Options q = Some (''extra'', []) \<Longrightarrow>
      svc_Create agent q () = (r, ())"
  shows "\<exists>r' s'. shim_Create (shim_fine agent) s fine_create () = (r', s', ()) \<and> isOk r' = isOk r \<and>
     drives_of s = {} \<and> drives_of s' = {''vm-2''} \<and>
     (\<exists>d n m. s' = with_tasks s (Some \<lparr>freeDrives = [], usedDrives = [''vm-2'' \<mapsto> d]\<rparr>) n m)"
proof -
  let ?env = "shim_fine agent :: (unit, unit, TokenBucket) shim_env"
  note f = assms(1)[unfolded fine_state_def]
  have e: "e_os ?env = os_fine" "e_Validate ?env = V_example" "e_MarshalAny ?env = first_marshal"
    "e_run_proxy ?env = (\<lambda>_. io_fine)" by (simp_all add: shim_fine_def)
  have id: "ct_ID fine_create = ''vm-2''" by (simp add: fine_create_def)
  have v: "V_example ''vm-2'' = None" by (simp add: V_example_def)
  have b: "CreateBundleLink os_fine V_example ''/run/default/vm-1'' ''vm-2'' x () = (None, ())" "CreateAddressLink os_fine V_example ''/run/default/vm-1'' ''vm-2'' () = (None, ())" for x
    by (simp_all add: CreateBundleLink_def CreateAddressLink_def BundleLink_def v createSymlink_def os_fine_def)
  have jail: "sd_jail d = fine_jailer" "dm_IsWritable (driveMount d)" using f by simp_all
  let ?h = "\<lparr>freeDrives = [d], usedDrives = Map.empty\<rparr>"
  have "\<exists>d'. Reserve os_fine machine_fine mounter_fine ?h ''vm-2'' ''/h'' p ''ext4'' [] () =
      (None, ?h\<lparr>freeDrives := [], usedDrives := [''vm-2'' \<mapsto> d']\<rparr>, ())" for p
    using jail by (intro exI[of _ "withMountConfig d ''/h'' p ''ext4'' [''rw'']"])
      (simp add: Reserve_def Let_def setReadWriteOptions_def PatchAndMount_def machine_fine_def mounter_fine_def noop_ExposeFileToJail_def)
  then obtain d' where rv: "Reserve os_fine machine_fine mounter_fine ?h ''vm-2'' ''/h'' (RootfsPath (VMBundleDir ''vm-2'')) ''ext4'' [] () =
      (None, ?h\<lparr>freeDrives := [], usedDrives := [''vm-2'' \<mapsto> d']\<rparr>, ())" by blast
  let ?s = "s\<lparr>containerStubHandler := Some (?h\<lparr>freeDrives := [], usedDrives := [''vm-2'' \<mapsto> d']\<rparr>)\<rparr>"
  have "shim_Create ?env s fine_create () = create_reserved ?env ?s fine_create ()"
    unfolding shim_Create_def e id
    using f assms(2) b rv by (simp add: waitVMReady_def fine_create_def vmm_fine_def Let_def)
  moreover obtain r' s' where c: "create_reserved ?env ?s fine_create () = (r', s', ())" by (metis prod_cases3 old.unit.exhaust)
  have "isOk r' = isOk r \<and> drives_of s' = {''vm-2''}"
  proof -
    let ?x = "\<lparr>JsonSpec = [], RuncOptions = None, StdinPort = 11000, StdoutPort = 11001, StderrPort = 11002\<rparr>"
    have x: "generateExtraData ?s [] None = Some (?x, with_ports ?s 3)"
      using f by (simp add: generateExtraData_def nextVSockPort_def minVsockIOPort_def with_ports_def)
    have ms: "first_marshal ?x = Inr (Some (''extra'', []))" by (simp add: first_marshal_def)
    obtain p where p: "FirecrackerVSockRelPath os_fine ''/run/default/vm-1'' () = (Inr p, ())" using fine_rel_paths by blast
    have np: "\<exists>io. newIOProxy ?env s1 sin sout serr ?x () = (Inr io, ())" if "s_jailer s1 = Some fine_jailer" for s1 sin sout serr
      using that p by (simp add: newIOProxy_def e noop_JailPath_def newNoopJailer_def)
    then obtain io where io: "newIOProxy ?env (with_ports ?s 3) [] [] [] ?x () = (Inr io, ())"
      using f by (fastforce simp: with_ports_def)
    have o: "OCIConfig_Bytes os_fine q () = (Inr [], ())" for q by (simp add: OCIConfig_Bytes_def os_fine_def)
    have ac: "agentClient (with_ports ?s 3) = Some agent" "s_taskManager (with_ports ?s 3) = NewTaskManager"
      using f by (simp_all add: with_ports_def)
    have ct: "isOk (fst (CreateTask NewTaskManager q agent io_fine ())) = isOk r"
      if "ct_ID q = ''vm-2''" "ct_Stdin q = []" "ct_Stdout q = []" "ct_Options q = Some (''extra'', [])" for q
      using assms(3)[OF that] by (cases r) (auto simp: CreateTask_def newProc_def NewTaskManager_def io_fine_def Let_def split: prod.splits)
    have fc: "ct_Options fine_create = None" "ct_Stdin fine_create = []" "ct_Stdout fine_create = []" "ct_Stderr fine_create = []"
      by (simp_all add: fine_create_def example_create_def)
    let ?q = "fine_create\<lparr>ct_Options := Some (''extra'', []), ct_Bundle := bundle_RootPath (VMBundleDir (ct_ID fine_create)), ct_Rootfs := []\<rparr>"
    obtain tr m w where t: "CreateTask NewTaskManager ?q agent io_fine () = (tr, m, w)" by (rule prod_cases3)
    have "isOk r' = isOk tr \<and> drives_of s' = drives_of (with_ports ?s 3)"
      using c unfolding create_reserved_def e o fc prod.case sum.case x option.case ms Let_def
      using io ac t by (cases tr) (auto simp: fc drives_of_def)
    with ct[of ?q] t show ?thesis by (simp add: drives_of_def with_ports_def id fc)
  qed
  moreover have "next_port ?s < 2 ^ 32" "tm_inv (s_taskManager ?s)" using f by (simp_all add: next_port_def)
  from create_reserved_effect[OF c this] obtain n m where "s' = with_tasks ?s (containerStubHandler ?s) n m" by blast
  then have "s' = with_tasks s (Some \<lparr>freeDrives = [], usedDrives = [''vm-2'' \<mapsto> d']\<rparr>) n m"
    by (simp add: with_tasks_def)
  ultimately show ?thesis using f c
    by (intro exI[of _ r'] exI[of _ s'] conjI) (simp_all add: drives_of_def, blast)
qed

lemma vm_wait_fine [simp]: "vm_Wait vmm_fine w = (None, w)"
  by (simp add: vmm_fine_def)

lemma fine_cleanup:
  assumes "s_jailer s = Some fine_jailer" "\<not> cleanupOnce s"
  shows "shim_cleanup (shim_fine agent) s () = (None, s\<lparr>cleanupOnce := True, cleanupErr := None\<rparr>, ())"
  using assms by (simp add: shim_cleanup_def cleanup_body_def Let_def shim_fine_def noop_Close_def newNoopJailer_def os_fine_def
      publishVMStop_def multi_error_or_nil_def)

end
