(* ===== verification/ShimStop.thy ===== *)
theory ShimStop
  imports ShimState
begin

text \<open>
  What \<open>shutdown\<close> of \<open>runtime/service.go\<close> does to the world outside the shim, as a list of events, and in
  which order. A list of events is played back on the operations that the events stand for, so
  that it is tied to the call by the world that the call leaves behind.
\<close>

section \<open>Events\<close>

text \<open>
  \<open>Looked b\<close>: \<open>machine.PID\<close> says that there is no process (\<open>b\<close>) or that there is one.
  \<open>Requested\<close>: the agent or the jailer has been asked to stop the VM, with that error.
  \<open>Slept\<close>: the loop has waited so long. \<open>Exited\<close>: \<open>machine.Wait\<close> has returned. \<open>Closed\<close>, \<open>StopPublished\<close>
  and \<open>Cancelled\<close> are the three parts of the cleanup.
\<close>

datatype stop_event =
    Looked bool
  | Requested shutdown_action "gerr option"
  | Slept int
  | Exited "gerr option"
  | Closed "gerr option"
  | StopPublished "gerr option"
  | Cancelled

text \<open>One event on the operation that it stands for: the world after it, unless the operation ends in another way.\<close>

definition expect :: "'e \<Rightarrow> 'e \<times> 'w \<Rightarrow> 'w option" where
  "expect e p = (if fst p = e then Some (snd p) else None)"

lemma expect_simps [simp]: "expect e (e', w) = (if e' = e then Some w else None)"
  by (simp add: expect_def)

fun play :: "('w, 'ip, 'b) shim_env \<Rightarrow> ('w, 'ip) service \<Rightarrow> 'w vmm \<Rightarrow> stop_event \<Rightarrow> 'w \<Rightarrow> 'w option" where
  "play env s m (Looked b) w = (case vm_PID m w of ((pid, err), w) \<Rightarrow> expect b (pid = 0 \<and> err \<noteq> None, w))"
| "play env s m (Requested (AskAgent i now) e) w =
     (case agentClient s of
        None \<Rightarrow> None
      | Some agent \<Rightarrow> (case svc_Call agent (ShutdownCall i now) w of (r, w) \<Rightarrow> expect e (case r of Inl err \<Rightarrow> Some err | Inr _ \<Rightarrow> None, w)))"
| "play env s m (Requested StopJailer e) w =
     (case s_jailer s of None \<Rightarrow> None | Some jail \<Rightarrow> expect e (jailer_Stop (e_os env) (e_runc env) jail w))"
| "play env s m (Slept d) w = Some (e_Sleep env d w)"
| "play env s m (Exited e) w = expect e (vm_Wait m w)"
| "play env s m (Closed e) w =
     (case s_jailer s of None \<Rightarrow> None | Some jail \<Rightarrow> expect e (jailer_Close (e_os env) (e_runc env) jail w))"
| "play env s m (StopPublished e) w = expect e (e_Publish env StopEventName (s_vmID s) w)"
| "play env s m Cancelled w = Some (e_shimCancel env w)"

fun playback :: "('w, 'ip, 'b) shim_env \<Rightarrow> ('w, 'ip) service \<Rightarrow> 'w vmm \<Rightarrow> stop_event list \<Rightarrow> 'w \<Rightarrow> 'w option" where
  "playback env s m [] w = Some w"
| "playback env s m (e # es) w = (case play env s m e w of None \<Rightarrow> None | Some w \<Rightarrow> playback env s m es w)"

lemma playback_append [simp]:
  "playback env s m (t @ u) w = (case playback env s m t w of None \<Rightarrow> None | Some w \<Rightarrow> playback env s m u w)"
  by (induction t arbitrary: w) (auto split: option.splits)

lemma playback_cong:
  assumes "agentClient s' = agentClient s" "s_jailer s' = s_jailer s" "s_vmID s' = s_vmID s"
  shows "playback env s' m t w = playback env s m t w"
proof (induction t arbitrary: w)
  case (Cons e t)
  have "play env s' m e w = play env s m e w" using assms by (cases "(env, s, m, e, w)" rule: play.cases) simp_all
  with Cons show ?case by (simp split: option.splits)
qed simp

section \<open>The loop\<close>

text \<open>
  The order of the requests. Before each, the loop looks for the process and ends when there is none. After a request that has
  succeeded it waits; one that has failed is followed by the next at once.
\<close>

inductive requests_made :: "(shutdown_action \<times> int) list \<Rightarrow> stop_event list \<Rightarrow> loop_end \<Rightarrow> bool" where
  all_made: "requests_made [] [] LoopDone"
| nothing_left: "requests_made ((a, d) # as) [Looked True] NothingToKill"
| accepted: "requests_made as t l \<Longrightarrow> requests_made ((a, d) # as) (Looked False # Requested a None # Slept d # t) l"
| failed: "requests_made as t l \<Longrightarrow> requests_made ((a, d) # as) (Looked False # Requested a (Some e) # t) l"
| dies: "requests_made ((a, d) # as) [Looked False] LoopPanicked"

inductive_cases requests_madeE [consumes 1, case_names nothing_left accepted failed dies]:
  "requests_made ((a, d) # as) t l"

inductive_simps requests_made_Nil [simp]: "requests_made [] t l"

lemma run_action_played:
  "run_action env s a w = (Some e, w') \<Longrightarrow> play env s m (Requested a e) w = Some w'"
  by (cases a) (auto split: option.splits prod.splits sum.splits)

lemma shutdownLoop_requests:
  assumes "shutdownLoop env s m as w = (l, w')"
  shows "\<exists>t. requests_made as t l \<and> playback env s m t w = Some w' \<and>
     (l = LoopPanicked \<longrightarrow> agentClient s = None \<or> s_jailer s = None)"
  using assms
proof (induction as arbitrary: w)
  case Nil
  then show ?case by simp
next
  case (Cons p as)
  obtain a d where p: "p = (a, d)" by fastforce
  obtain pid err w1 where look: "vm_PID m w = ((pid, err), w1)" by (metis prod.exhaust)
  show ?case
  proof (cases "pid = 0 \<and> err \<noteq> None")
    case True
    with Cons.prems look p show ?thesis by (intro exI[of _ "[Looked True]"]) (auto intro: nothing_left)
  next
    case False
    obtain x w2 where run: "run_action env s a w1 = (x, w2)" by fastforce
    show ?thesis
    proof (cases x)
      case None
      then have "(agentClient s = None \<or> s_jailer s = None) \<and> w2 = w1"
        using run by (cases a) (auto split: option.splits prod.splits sum.splits)
      with Cons.prems look p False run None show ?thesis by (intro exI[of _ "[Looked False]"]) (auto intro: dies)
    next
      case (Some e)
      let ?w = "if e = None then e_Sleep env d w2 else w2"
      have "shutdownLoop env s m as ?w = (l, w')"
        using Cons.prems look p False run Some by (auto split: option.splits)
      from Cons.IH[OF this] obtain t where t: "requests_made as t l" "playback env s m t ?w = Some w'"
        "l = LoopPanicked \<longrightarrow> agentClient s = None \<or> s_jailer s = None" by blast
      have "play env s m (Requested a e) w1 = Some w2" using run Some by (intro run_action_played) simp
      with t look False show ?thesis unfolding p
        by (cases e) (auto intro!: exI[of _ "Looked False # Requested a e # (if e = None then [Slept d] else []) @ t"]
          accepted failed simp del: play.simps(2,3))
    qed
  qed
qed

section \<open>The cleanup and the whole call\<close>

text \<open>The events of a cleanup, and its error. It runs once.\<close>

inductive cleaned :: "('w, 'ip) service \<Rightarrow> stop_event list \<Rightarrow> gerr option \<Rightarrow> bool" for s :: "('w, 'ip) service" where
  already: "cleanupOnce s \<Longrightarrow> cleaned s [] (cleanupErr s)"
| cleans: "\<not> cleanupOnce s \<Longrightarrow> cleaned s [Closed e1, StopPublished e2, Cancelled]
     (multi_error_or_nil (multi_append (multi_append [] e1) e2))"

lemma shim_cleanup_events:
  assumes "shim_cleanup env s w = (r, s', w')" "s_jailer s \<noteq> None"
  shows "\<exists>t. cleaned s t r \<and> playback env s m t w = Some w' \<and> cleanupOnce s'"
proof (cases "cleanupOnce s")
  case True
  with assms show ?thesis by (intro exI[of _ "[]"]) (auto simp: shim_cleanup_def intro: already)
next
  case False
  obtain j where j: "s_jailer s = Some j" using assms(2) by blast
  obtain e1 w1 where c: "jailer_Close (e_os env) (e_runc env) j w = (e1, w1)" by fastforce
  obtain e2 w2 where p: "e_Publish env StopEventName (s_vmID s) w1 = (e2, w2)" by fastforce
  from False j c p assms(1) have r: "r = multi_error_or_nil (multi_append (multi_append [] e1) e2)" "w' = e_shimCancel env w2" "cleanupOnce s'"
    by (auto simp: shim_cleanup_def cleanup_body_def publishVMStop_def Let_def)
  with False j c p cleans[of s e1 e2] show ?thesis
    by (intro exI[of _ "[Closed e1, StopPublished e2, Cancelled]"]) auto
qed

text \<open>
  What a call of \<open>shutdown\<close> does with a machine that has been made. \<open>VM_stopped\<close>: the agent is asked first and the jailer
  second, with the time of the caller and three seconds to wait; the machine has exited before the cleanup starts; and the answer
  reports the errors of both. \<open>k\<close> requests are over when the machine exits. Without an agent to ask the process dies of the
  request if there still is one to make.
\<close>

definition VM_stopped ::
    "nat \<Rightarrow> int \<Rightarrow> string \<Rightarrow> bool \<Rightarrow> ('w, 'ip) service \<Rightarrow> stop_event list \<Rightarrow> gerr option \<Rightarrow> bool" where
  "VM_stopped k timeout i now s t r \<longleftrightarrow>
     (let requests = [(AskAgent i now, timeout), (StopJailer, 3000000000)]
      in \<exists>before waited clean after l l' cleanErr. t = before @ [Exited waited] @ clean @ after \<and>
        requests_made (take k requests) before l \<and> l \<noteq> LoopPanicked \<and> cleaned s clean cleanErr \<and>
        (if l = LoopDone then requests_made (drop k requests) after l' else after = [] \<and> l' = l) \<and>
        (if l' = LoopPanicked then agentClient s = None \<and> r = Some nil_deref
         else r = None \<longleftrightarrow> multi_append (multi_append [] waited) cleanErr = []))"

lemma shim_shutdown_events:
  assumes "shim_shutdown env k s timeout i now w = (r, s', w')" "s_machine s = Some m" "s_jailer s \<noteq> None"
  shows "\<exists>t. playback env s m t w = Some w' \<and>
     (VM_stopped k timeout i now s t r \<and> cleanupOnce s' \<or>
      agentClient s = None \<and> 0 < k \<and> t = [Looked False] \<and> r = Some nil_deref \<and> s' = s)"
proof -
  have req: "shutdown_actions timeout i now = [(AskAgent i now, timeout), (StopJailer, 3000000000)]" (is "_ = ?reqs")
    by (simp add: shutdown_actions_def jailerStopTimeout_def time_Second_def time_Millisecond_def)
  obtain l w1 where loop: "shutdownLoop env s m (take k ?reqs) w = (l, w1)" by fastforce
  from shutdownLoop_requests[OF this] obtain t1 where t1: "requests_made (take k ?reqs) t1 l" "playback env s m t1 w = Some w1"
    "l = LoopPanicked \<longrightarrow> agentClient s = None" using assms(3) by blast
  show ?thesis
  proof (cases "l = LoopPanicked")
    case True
    have "r = Some nil_deref \<and> s' = s \<and> w' = w1" using assms(1,2) loop True by (simp add: shim_shutdown_def req)
    moreover have "0 < k \<and> t1 = [Looked False]"
      using t1 loop True assms(3) by (cases k) (auto elim!: requests_madeE split: option.splits prod.splits sum.splits)
    ultimately show ?thesis using t1 True by blast
  next
    case False
    obtain we w2 where wait: "vm_Wait m w1 = (we, w2)" by fastforce
    obtain ce s1 w3 where clean: "shim_cleanup env s w2 = (ce, s1, w3)" by (rule prod_cases3)
    from shim_cleanup_events[OF this assms(3)] obtain t2 where t2: "cleaned s t2 ce" "playback env s m t2 w2 = Some w3" "cleanupOnce s1"
      by blast
    from shim_cleanup_effect[OF clean] obtain b e where s1: "s1 = with_cleanup s b e" by blast
    have same: "agentClient s1 = agentClient s" "s_jailer s1 = s_jailer s" "s_vmID s1 = s_vmID s" unfolding s1
      by (simp_all add: with_cleanup_def)
    obtain l' w4 where rest: "(if l = LoopDone then shutdownLoop env s1 m (drop k ?reqs) w3 else (l, w3)) = (l', w4)" by fastforce
    have res: "s' = s1 \<and> w' = w4 \<and> (if l' = LoopPanicked then r = Some nil_deref
        else r = None \<longleftrightarrow> multi_append (multi_append [] we) ce = [])"
      using assms(1,2) loop False wait clean rest by (auto simp: shim_shutdown_def req Let_def split: if_splits)
    have "\<exists>t3. (if l = LoopDone then requests_made (drop k ?reqs) t3 l' else t3 = [] \<and> l' = l) \<and> playback env s m t3 w3 = Some w4 \<and>
        (l' = LoopPanicked \<longrightarrow> agentClient s = None)"
    proof (cases "l = LoopDone")
      case True
      then have "shutdownLoop env s1 m (drop k ?reqs) w3 = (l', w4)" using rest by simp
      from shutdownLoop_requests[OF this] show ?thesis
        using True same assms(3) by (auto simp: playback_cong[OF same])
    next
      case l: False
      with rest False show ?thesis by (intro exI[of _ "[]"]) auto
    qed
    then obtain t3 where t3: "if l = LoopDone then requests_made (drop k ?reqs) t3 l' else t3 = [] \<and> l' = l"
      "playback env s m t3 w3 = Some w4" "l' = LoopPanicked \<longrightarrow> agentClient s = None" by blast
    have "VM_stopped k timeout i now s (t1 @ [Exited we] @ t2 @ t3) r"
      unfolding VM_stopped_def Let_def using t1(1) False t2(1) t3(1,3) res by (intro exI conjI) (auto split: if_splits)
    moreover have "playback env s m (t1 @ [Exited we] @ t2 @ t3) w = Some w'" using t1(2) t2(2) t3(2) wait res by simp
    ultimately show ?thesis using res t2(3) by blast
  qed
qed

section \<open>\<open>Shutdown\<close>\<close>

lemma VM_stopped_tasks [simp]: "VM_stopped k timeout i now (s\<lparr>s_taskManager := m\<rparr>) t r = VM_stopped k timeout i now s t r"
proof -
  have "cleaned (s\<lparr>s_taskManager := m\<rparr>) = cleaned s" by (intro ext) (simp add: cleaned.simps)
  then show ?thesis by (simp add: VM_stopped_def)
qed

lemma shim_Shutdown_cases:
  assumes "shim_Shutdown env k s i now w = (r, s1, w1)" "tm_inv (s_taskManager s)"
  obtains (ignored) "\<not> now" "\<not> exitAfterAllTasksDeleted s \<or> tm_reg (s_taskManager s) \<noteq> {}" "r = None" "s1 = s" "w1 = w"
  | (stops) m where "now \<Longrightarrow> m = s_taskManager s"
      "\<not> now \<Longrightarrow> exitAfterAllTasksDeleted s \<and> tm_reg (s_taskManager s) = {} \<and> tm_reg m = {} \<and> isShutdown m"
      "shim_shutdown env k (s\<lparr>s_taskManager := m\<rparr>) defaultShutdownTimeout i now w = (r, s1, w1)"
proof -
  obtain b m where e: "ShutdownIfEmpty (s_taskManager s) = (b, m)" by fastforce
  have be: "b \<longleftrightarrow> tm_reg (s_taskManager s) = {}" "tm_reg m = tm_reg (s_taskManager s)" "b \<longrightarrow> isShutdown m"
      "\<not> b \<longrightarrow> m = s_taskManager s"
    using tm_reg_empty[OF assms(2)] tm.shut_reg[OF assms(2)] e by (auto simp: ShutdownIfEmpty_def split: if_splits)
  consider "now" | "\<not> now" "exitAfterAllTasksDeleted s" "b" | "\<not> now" "\<not> exitAfterAllTasksDeleted s \<or> \<not> b" by blast
  then show thesis
  proof cases
    case 1
    with assms(1) show thesis by (intro stops[of "s_taskManager s"]) (simp_all add: shim_Shutdown_def)
  next
    case 2
    with assms(1) e be show thesis by (intro stops[of m]) (simp_all add: shim_Shutdown_def)
  next
    case 3
    with assms(1) e be show thesis
      by (intro ignored) (auto simp: shim_Shutdown_def Let_def split: if_splits)
  qed
qed

text \<open>Every call that does not ignore the request, in any state of the shim.\<close>

lemma shim_Shutdown_events:
  assumes "shim_Shutdown env k s i now w = (r, s1, w1)" "shim_inv s" "now \<or> exitAfterAllTasksDeleted s \<and> tm_reg (s_taskManager s) = {}"
  shows "case s_machine s of
      None \<Rightarrow> now \<and> r = Some nil_deref \<and> s1 = s \<and> w1 = w
    | Some m \<Rightarrow> \<exists>t. playback env s m t w = Some w1 \<and>
        (VM_stopped k defaultShutdownTimeout i now s t r \<and> cleanupOnce s1 \<or>
         now \<and> agentClient s = None \<and> 0 < k \<and> t = [Looked False] \<and> r = Some nil_deref \<and> s1 = s)"
proof -
  have l: "linked s" and ti: "tm_inv (s_taskManager s)" using assms(2) by (simp_all add: shim_inv_def)
  from assms(1) ti show ?thesis
  proof (cases rule: shim_Shutdown_cases)
    case ignored
    with assms(3) show ?thesis by blast
  next
    case (stops tm)
    let ?s = "s\<lparr>s_taskManager := tm\<rparr>"
    have alone: "now \<and> ?s = s" if "agentClient s = None"
    proof -
      have "now" using that l stops(2) by (auto simp: linked_def)
      moreover have "?s = s" using stops(1)[OF calculation] by simp
      ultimately show ?thesis by blast
    qed
    show ?thesis
    proof (cases "s_machine s")
      case None
      then have "agentClient s = None" using l by (auto simp: linked_def)
      with alone stops(3) None show ?thesis by (simp add: shim_shutdown_def)
    next
      case (Some m)
      then have "s_machine ?s = Some m" "s_jailer ?s \<noteq> None" using l by (auto simp: linked_def)
      note ev = shim_shutdown_events[OF stops(3) this]
      have "playback env ?s m t w = playback env s m t w" for t by (rule playback_cong) simp_all
      with ev alone Some show ?thesis by auto
    qed
  qed
qed

text \<open>The calls on a shim that is not ready.\<close>

lemma shim_Shutdown_unready:
  assumes "shim_Shutdown env k s i now w = (r, s1, w1)" "shim_inv s" "tm_reg (s_taskManager s) = {}"
  shows "if \<not> now \<and> \<not> exitAfterAllTasksDeleted s then r = None \<and> s1 = s \<and> w1 = w
    else case (s_machine s, agentClient s) of
        (Some m, Some agent) \<Rightarrow> \<exists>t. playback env s m t w = Some w1 \<and>
          VM_stopped k defaultShutdownTimeout i now s t r \<and> cleanupOnce s1
      | (Some m, None) \<Rightarrow> now \<and> (0 < k \<and> play env s m (Looked False) w \<noteq> None \<longrightarrow> r = Some nil_deref \<and> s1 = s)
      | (None, _) \<Rightarrow> now \<and> r = Some nil_deref \<and> s1 = s \<and> w1 = w"
proof (cases "\<not> now \<and> \<not> exitAfterAllTasksDeleted s")
  case True
  with assms(1) show ?thesis by (simp add: shim_Shutdown_def)
next
  case False
  then have "now \<or> exitAfterAllTasksDeleted s \<and> tm_reg (s_taskManager s) = {}" using assms(3) by blast
  note ev = shim_Shutdown_events[OF assms(1,2) this]
  show ?thesis
  proof (cases "s_machine s")
    case None
    with ev False show ?thesis by simp
  next
    case (Some m)
    with ev obtain t where t: "playback env s m t w = Some w1"
      "VM_stopped k defaultShutdownTimeout i now s t r \<and> cleanupOnce s1 \<or>
       now \<and> agentClient s = None \<and> 0 < k \<and> t = [Looked False] \<and> r = Some nil_deref \<and> s1 = s" by auto
    show ?thesis
    proof (cases "agentClient s")
      case (Some agent)
      with t \<open>s_machine s = Some m\<close> False show ?thesis by auto
    next
      case None
      have "now" using None False assms(2) by (auto simp: shim_inv_def linked_def)
      moreover have "\<not> VM_stopped k defaultShutdownTimeout i now s t r" if "0 < k" "play env s m (Looked False) w \<noteq> None"
        using that t(1) None unfolding VM_stopped_def
        by (cases k) (auto elim!: requests_madeE split: option.splits prod.splits if_splits)
      ultimately show ?thesis using None Some t(2) False by auto
    qed
  qed
qed

end
