(* ===== verification/ShimProperties.thy ===== *)
theory ShimProperties
  imports ShimExample ShimStop
begin

text \<open>
  What the shim of \<open>runtime/service.go\<close> guarantees to containerd and to the control service over its whole
  life, under every sequence of calls and every behaviour of Firecracker, runc, the agent and
  the file system.
\<close>

definition reachable :: "('w, 'ip, 'b) shim_env \<Rightarrow> ('w, 'ip) service \<Rightarrow> bool" where
  "reachable env s \<longleftrightarrow> (\<exists>ns vmID dir cfg helper. (shim_step env)\<^sup>*\<^sup>* (initial_service ns vmID dir cfg helper) s)"

lemma reachable_inv: "reachable env s \<Longrightarrow> shim_inv s"
  unfolding reachable_def using shim_steps_inv initial_inv by blast

lemma reachable_steps: "reachable env s \<Longrightarrow> (shim_step env)\<^sup>*\<^sup>* s s' \<Longrightarrow> reachable env s'"
  unfolding reachable_def by (meson rtranclp_trans)

lemma fine_reachable:
  "\<exists>s d. reachable (shim_fine agent) s \<and> fine_state agent s d \<and> vmReady s \<and> vmStartOnce s"
proof -
  obtain s d resp where c: "shim_CreateVM (shim_fine agent) first_service first_request () = (Some (Inr resp), s, ())"
      "fine_state agent s d" "vmReady s" "vmStartOnce s"
    using fine_CreateVM by blast
  from shim_step.create_vm[OF c(1)] have "reachable (shim_fine agent) s"
    unfolding reachable_def first_service_def by (intro exI) (rule r_into_rtranclp)
  with c show ?thesis by blast
qed

section \<open>A ready shim is complete\<close>

definition not_ready :: gerr where
  "not_ready = StatusError DeadlineExceeded ''timed out waiting for VM start''"

text \<open>
  C1: The state of the shim is well formed in every reachable state. When \<open>vmReady\<close> is closed, everything
  that the calls dereference is set, so that \<open>GetVMInfo\<close> answers, and every task has a stub drive of its own: each task id
  holds a drive, no two ids hold the same one, and none of these drives is free as well. Before that there is no task, and
  \<open>GetVMInfo\<close> and the metadata calls end with \<open>DeadlineExceeded\<close>.
\<close>

theorem shim_state_complete:
  assumes "reachable env s"
  shows "if vmReady s
    then agentClient s \<noteq> None \<and> driveMountClient s \<noteq> None \<and> s_machine s \<noteq> None \<and> s_jailer s \<noteq> None \<and>
      (\<exists>h. containerStubHandler s = Some h \<and> tasks_of s \<subseteq> dom (usedDrives h) \<and> finite (dom (usedDrives h)) \<and>
        (\<forall>a b d e. usedDrives h a = Some d \<and> usedDrives h b = Some e \<and> driveID d = driveID e \<longrightarrow> a = b) \<and>
        (\<forall>a d. usedDrives h a = Some d \<longrightarrow> driveID d \<notin> driveID ` set (freeDrives h))) \<and>
      (\<exists>info. shim_GetVMInfo s = Inr info \<and> resp_VMID info = s_vmID s \<and> resp_SocketPath info = FirecrackerSockPath (s_shimDir s))
    else tm_reg (s_taskManager s) = {} \<and> shim_GetVMInfo s = Inl not_ready \<and> shim_GetVMMetadata s w = (Inl not_ready, w) \<and>
      shim_SetVMMetadata s d w = (Some not_ready, w) \<and> shim_UpdateVMMetadata s d w = (Some not_ready, w)"
proof -
  have i: "shim_inv s" using assms by (rule reachable_inv)
  show ?thesis
  proof (cases "vmReady s")
    case True
    with i obtain h cfg j where p: "containerStubHandler s = Some h" "finite_use h" "distinct_pool h" "machineConfig s = Some cfg" "s_jailer s = Some j"
        "agentClient s \<noteq> None" "driveMountClient s \<noteq> None" "s_machine s \<noteq> None"
      by (auto simp: shim_inv_def parts_set_def)
    moreover have "tasks_of s \<subseteq> dom (usedDrives h)" using i p(1) by (simp add: shim_inv_def drives_of_def)
    moreover have "finite (dom (usedDrives h))" using p(2) by (simp add: finite_use_def)
    moreover note own_drives[OF p(2,3)]
    ultimately show ?thesis
      using True by (simp add: shim_GetVMInfo_def waitVMReady_def vm_response_def)
  next
    case False
    with i show ?thesis
      by (simp add: shim_inv_def shim_GetVMInfo_def waitVMReady_def not_ready_def shim_GetVMMetadata_def
          shim_SetVMMetadata_def shim_UpdateVMMetadata_def)
  qed
qed

theorem shim_state_complete_witness:
  "\<exists>s info. reachable (shim_fine (svc_fine :: unit TaskService)) s \<and> vmReady s \<and> shim_GetVMInfo s = Inr info \<and> resp_VMID info = ''vm-1''"
proof -
  obtain s d where s: "reachable (shim_fine svc_fine) s" "fine_state svc_fine s d" "vmReady s"
    using fine_reachable by blast
  from shim_state_complete[OF s(1)] s show ?thesis by (auto simp: fine_state_def)
qed

section \<open>What never changes again\<close>

lemma shut_calls_fail:
  assumes "isShutdown m"
  shows "\<not> isOk (fst (CreateTask m q svc io w))" "fst (ExecProcess m xq svc io w) \<noteq> None"
  using assms by (simp_all add: CreateTask_def ExecProcess_def newProc_def)

lemma shut_task_ok: "CreateTask m q svc io w = (Inr p, m', w') \<Longrightarrow> \<not> isShutdown m"
  using shut_calls_fail(1)[of m q svc io w] by auto

lemma shut_exec_ok: "ExecProcess m xq svc io w = (None, m', w') \<Longrightarrow> \<not> isShutdown m"
  using shut_calls_fail(2)[of m xq svc io w] by auto

lemma shut_shim_fails:
  assumes "isShutdown (s_taskManager s)"
  shows "\<not> isOk (fst (shim_Create env s q w))" "fst (shim_Exec env s xq w) \<noteq> None"
proof -
  have c: "\<not> isOk r" if "create_reserved env s q w = (r, s', w')" "isShutdown (s_taskManager s)" for s s' :: "('a, 'b) service" and r w w'
  proof
    assume "isOk r"
    then obtain p where "r = Inr p" by (auto simp: isOk_iff)
    with that show False
      by (auto simp: create_reserved_def Let_def dest!: generateExtraData_tm shut_task_ok split: prod.splits sum.splits option.splits)
  qed
  obtain r s' w' where r: "shim_Create env s q w = (r, s', w')" by (rule prod_cases3)
  from this have "\<not> isOk r"
  proof (cases rule: shim_Create_cases)
    case (reserved h m mounter mnt w1 h1 w2)
    from c[OF reserved(7)] assms show ?thesis by simp
  qed simp
  with r show "\<not> isOk (fst (shim_Create env s q w))" by simp
  obtain rx sx wx where rx: "shim_Exec env s xq w = (rx, sx, wx)" by (rule prod_cases3)
  have "rx \<noteq> None"
  proof
    assume "rx = None"
    with rx assms show False
      by (auto simp: shim_Exec_def Let_def dest!: generateExtraData_tm shut_exec_ok split: prod.splits sum.splits option.splits)
  qed
  with rx show "fst (shim_Exec env s xq w) \<noteq> None" by simp
qed

text \<open>
  C2: The decisions of a shim are final. Once \<open>CreateVM\<close> has run, no later call changes whether the VM
  counts as ready, and in a ready shim the stub drives of the VM are neither lost nor
  duplicated by any sequence of calls. Once the cleanup has run, it never runs again, and
  each later call of it gets its first error without touching anything. Once the task manager
  has been shut down, no task and no exec is started any more.
\<close>

theorem shim_decisions_final:
  assumes "reachable env s" "(shim_step env)\<^sup>*\<^sup>* s s'"
  shows "(vmStartOnce s \<longrightarrow> vmStartOnce s' \<and> vmReady s' = vmReady s) \<and>
    (vmReady s \<longrightarrow> (\<exists>h h'. containerStubHandler s = Some h \<and> containerStubHandler s' = Some h' \<and> pool h' = pool h)) \<and>
    (cleanupOnce s \<longrightarrow> shim_cleanup env s' w = (cleanupErr s, s', w)) \<and>
    (isShutdown (s_taskManager s) \<longrightarrow> \<not> isOk (fst (shim_Create env s' q w)) \<and> fst (shim_Exec env s' xq w) \<noteq> None)"
proof -
  have i: "shim_inv s" using assms(1) by (rule reachable_inv)
  from shim_steps_inv[OF assms(2) i] have k: "kept s s'" by simp
  have "\<exists>h h'. containerStubHandler s = Some h \<and> containerStubHandler s' = Some h' \<and> pool h' = pool h" if r: "vmReady s"
  proof -
    from i r obtain h where h: "containerStubHandler s = Some h" "finite_use h" "vmStartOnce s"
      by (auto simp: shim_inv_def parts_set_def)
    with k show ?thesis by (auto simp: kept_def handler_kept_def)
  qed
  moreover have "cleanupOnce s \<longrightarrow> shim_cleanup env s' w = (cleanupErr s, s', w)"
    using k by (auto simp: kept_def shim_cleanup_def)
  ultimately show ?thesis using k shut_shim_fails[of s' env] unfolding kept_def by blast
qed

theorem shim_decisions_final_witness:
  "\<exists>s s'. reachable (shim_fine (svc_fine :: unit TaskService)) s \<and> cleanupOnce s \<and> isShutdown (s_taskManager s) \<and>
     (shim_step (shim_fine svc_fine))\<^sup>*\<^sup>* s s' \<and> shim_cleanup (shim_fine svc_fine) s' () = (cleanupErr s, s', ()) \<and>
     \<not> isOk (fst (shim_Create (shim_fine svc_fine) s' example_create ()))"
proof -
  let ?env = "shim_fine (svc_fine :: unit TaskService)"
  obtain s d where s: "reachable ?env s" "fine_state svc_fine s d" "vmReady s" using fine_reachable by blast
  obtain r s' w' where r: "shim_Shutdown ?env 0 s ''t'' False () = (r, s', w')" by (rule prod_cases3)
  have "ShutdownIfEmpty NewTaskManager = (True, NewTaskManager\<lparr>isShutdown := True\<rparr>)"
    by (simp add: ShutdownIfEmpty_def NewTaskManager_def)
  with r s(2) have c: "cleanupOnce s' \<and> isShutdown (s_taskManager s')"
    by (auto simp: shim_Shutdown_def shim_shutdown_def fine_state_def Let_def vmm_fine_def shim_cleanup_def split: prod.splits)
  have st: "(shim_step ?env)\<^sup>*\<^sup>* s s'" using shim_step.shutdown[OF r] by (rule r_into_rtranclp)
  have r': "reachable ?env s'" using s(1) st by (rule reachable_steps)
  have "shim_cleanup ?env s' () = (cleanupErr s', s', ()) \<and> \<not> isOk (fst (shim_Create ?env s' example_create ()))"
    using shim_decisions_final[OF r' rtranclp.rtrancl_refl, where w = "()" and q = example_create] c by blast
  with r' c show ?thesis by blast
qed

section \<open>A failed start\<close>




section \<open>Creating the VM comes to an end\<close>

text \<open>
  C10: \<open>CreateVM\<close> does not hang on a guest that does not answer: when the context that its timeout gives it ends, so does the
  dialling, and the call returns. It then either reports the VM, which is ready from then on, or an error:
  \<open>AlreadyExists\<close> without any effect for a second call, and otherwise a failure that leaves the shim not ready for
  ever. The timeout does not cover \<open>machine.Start\<close>, which gets the context of the shim: this call not coming back is the one
  way left in which \<open>CreateVM\<close> does not return.
\<close>

theorem CreateVM_returns:
  fixes env :: "('w, 'ip, 'b) shim_env"
  assumes "reachable env s"
    and "\<exists>err. Done err \<in> set (e_dial_sched env (request_timeout (TimeoutSeconds request) defaultCreateVMTimeout))"
  shows "case shim_CreateVM env s request w of
      (Some r, s', w') \<Rightarrow> vmStartOnce s' \<and>
        (if vmStartOnce s then s' = s \<and> w' = w \<and> r = Inl (StatusError AlreadyExists ''shim cannot create VM more than once'')
         else vmReady s' = isOk r)
    | (None, s', w') \<Rightarrow> \<not> vmStartOnce s \<and> \<not> vmReady s' \<and>
        (\<exists>m jail w1. s_machine s' = Some m \<and> vm_Start m jail w1 = (None, w'))"
proof (cases "vmStartOnce s")
  case True
  then show ?thesis by (simp add: shim_CreateVM_def)
next
  case False
  let ?sched = "e_dial_sched env (request_timeout (TimeoutSeconds request) defaultCreateVMTimeout)"
  have i: "\<not> vmReady s" using reachable_inv[OF assms(1)] False by (auto simp: shim_inv_def)
  obtain x s0 w0 where c: "createVM env s request ?sched w = (x, s0, w0)" by (rule prod_cases3)
  note f = createVM_frame[OF c]
  have nr: "\<not> vmReady s0" using frame_eqs[OF conjunct1[OF f]] i by simp
  from assms(2) obtain err where err: "Done err \<in> set ?sched" by blast
  have dial: "VSockDial net p port ?sched w2 \<noteq> (None, w3)" for net :: "'w net" and p port w2 w3
    unfolding VSockDial_def
    using retry_loop_returns[OF err, of "tryConnect net p port" "''non-temporary vsock dial failure''" w2] by (auto simp del: retry_loop.simps)
  have starts: "\<exists>m jail w1. s_machine s0 = Some m \<and> vm_Start m jail w1 = (None, w0)" if "x = None" using c
  proof (cases rule: createVM_stages)
    case (connect jail w1 cfg s1 w2 cfg' m path w3)
    from connect(2) dial that have "vm_Start m jail w3 = (None, w0)" "s_machine s0 = Some m"
      by (auto simp: start_and_connect_def Let_def split: prod.splits option.splits sum.splits)
    then show ?thesis by blast
  qed (use that in simp)
  show ?thesis
  proof (cases x)
    case None
    with c False nr starts show ?thesis by (simp add: shim_CreateVM_def Let_def)
  next
    case y: (Some y)
    show ?thesis
    proof (cases y)
      case (Some e)
      with y c False nr show ?thesis by (simp add: shim_CreateVM_def Let_def)
    next
      case None
      then have "isOk (vm_response (s0\<lparr>vmStartOnce := True, vmReady := True\<rparr>))"
        using f y by (auto simp: parts_set_def vm_response_def)
      with y c False None show ?thesis by (simp add: shim_CreateVM_def Let_def split: prod.splits)
    qed
  qed
qed

theorem CreateVM_returns_witness:
  "\<exists>r s'. shim_CreateVM (shim_fine (svc_fine :: unit TaskService)) first_service first_request () = (Some r, s', ()) \<and>
     vmReady s' = isOk r"
proof -
  let ?env = "shim_fine (svc_fine :: unit TaskService)"
  have "reachable ?env first_service" unfolding reachable_def first_service_def by (intro exI) (rule rtranclp.rtrancl_refl)
  moreover have "\<exists>err. Done err \<in> set (e_dial_sched ?env t)" for t by (auto simp: shim_fine_def)
  moreover have "\<not> vmStartOnce (first_service :: (unit, unit) service)" by (simp add: first_service_def initial_service_def)
  moreover obtain r s' where c: "shim_CreateVM ?env first_service first_request () = (Some (Inr r), s', ())"
    using fine_CreateVM by blast
  ultimately show ?thesis
    using CreateVM_returns[of ?env first_service first_request "()"] by auto
qed

section \<open>Shutting down\<close>

text \<open>
  C11: \<open>Shutdown\<close> stops the VM exactly when it is told to do so at once, or when the VM was made for its tasks
  and the last of them is gone; else it changes nothing. In the second case the decision and
  the end of all task creation are one step, so that no task can slip in: neither then nor
  after any further calls is a task or an exec created. Stopping the VM means what \<open>VM_stopped\<close> says: as long as there is a process, the agent is
  asked and then the jailer is told to stop it; when \<open>machine.Wait\<close> has returned, the jail is removed, the event is published and the
  shim's context is cancelled, unless that has happened before; and the answer is an error exactly when one of these failed. None of this waits for
  \<open>vmReady\<close>: it holds in every state with a machine and a client for the agent, and in every ready state there are both. Without a machine the call
  dies, and without a client it dies when it would ask the agent.
\<close>

theorem Shutdown_decides:
  assumes "reachable env s" "shim_Shutdown env k s i now w = (r, s1, w1)" "(shim_step env)\<^sup>*\<^sup>* s1 s2"
  shows "if \<not> now \<and> (\<not> exitAfterAllTasksDeleted s \<or> tm_reg (s_taskManager s) \<noteq> {})
    then r = None \<and> s1 = s \<and> w1 = w
    else (vmReady s \<longrightarrow> s_machine s \<noteq> None \<and> agentClient s \<noteq> None) \<and>
      (case s_machine s of
         None \<Rightarrow> now \<and> r = Some nil_deref \<and> s1 = s \<and> w1 = w
       | Some m \<Rightarrow> \<exists>t. playback env s m t w = Some w1 \<and>
           (VM_stopped k defaultShutdownTimeout i now s t r \<and> cleanupOnce s2 \<or>
            now \<and> agentClient s = None \<and> 0 < k \<and> t = [Looked False] \<and> r = Some nil_deref \<and> s1 = s)) \<and>
      (\<not> now \<longrightarrow> tm_reg (s_taskManager s1) = {} \<and> \<not> isOk (fst (shim_Create env s2 q w2)) \<and> fst (shim_Exec env s2 xq w2) \<noteq> None)"
proof -
  have i: "shim_inv s" using assms(1) by (rule reachable_inv)
  then have ti: "tm_inv (s_taskManager s)" by (simp add: shim_inv_def)
  from shim_step_inv[OF shim_step.shutdown[OF assms(2)] i] have i1: "shim_inv s1" by simp
  from shim_steps_inv[OF assms(3) i1] have k2: "kept s1 s2" by simp
  show ?thesis
  proof (cases "\<not> now \<and> (\<not> exitAfterAllTasksDeleted s \<or> tm_reg (s_taskManager s) \<noteq> {})")
    case True
    from assms(2) ti show ?thesis by (cases rule: shim_Shutdown_cases) (use True in auto)
  next
    case False
    have "vmReady s \<longrightarrow> s_machine s \<noteq> None \<and> agentClient s \<noteq> None" using i by (auto simp: shim_inv_def parts_set_def)
    moreover have "tm_reg (s_taskManager s1) = {} \<and> isShutdown (s_taskManager s2)" if "\<not> now"
      using assms(2) ti
    proof (cases rule: shim_Shutdown_cases)
      case (stops m)
      from shim_shutdown_effect[OF stops(3)] have "s_taskManager s1 = m" by auto
      with stops(2)[OF that] k2 show ?thesis by (auto simp: kept_def)
    qed (use False in auto)
    moreover have "now \<or> exitAfterAllTasksDeleted s \<and> tm_reg (s_taskManager s) = {}" using False by blast
    note ev = shim_Shutdown_events[OF assms(2) i this]
    have "case s_machine s of
         None \<Rightarrow> now \<and> r = Some nil_deref \<and> s1 = s \<and> w1 = w
       | Some m \<Rightarrow> \<exists>t. playback env s m t w = Some w1 \<and>
           (VM_stopped k defaultShutdownTimeout i now s t r \<and> cleanupOnce s2 \<or>
            now \<and> agentClient s = None \<and> 0 < k \<and> t = [Looked False] \<and> r = Some nil_deref \<and> s1 = s)"
    proof (cases "s_machine s")
      case (Some m)
      have "cleanupOnce s1 \<longrightarrow> cleanupOnce s2" using k2 by (simp add: kept_def)
      with ev Some show ?thesis by auto
    qed (use ev in simp)
    ultimately show ?thesis using False shut_shim_fails[of s2 env] by auto
  qed
qed

theorem Shutdown_decides_witness:
  "\<exists>s s1 t. reachable (shim_fine (svc_fine :: unit TaskService)) s \<and> exitAfterAllTasksDeleted s \<and>
     shim_Shutdown (shim_fine svc_fine) 2 s ''t'' False () = (None, s1, ()) \<and> cleanupOnce s1 \<and> s_machine s = Some vmm_fine \<and>
     playback (shim_fine svc_fine) s vmm_fine t () = Some () \<and> VM_stopped 2 defaultShutdownTimeout ''t'' False s t None \<and>
     \<not> isOk (fst (shim_Create (shim_fine svc_fine) s1 example_create ()))"
proof -
  let ?env = "shim_fine (svc_fine :: unit TaskService)"
  obtain s d where s: "reachable ?env s" "fine_state svc_fine s d" "vmReady s" using fine_reachable by blast
  have em: "ShutdownIfEmpty NewTaskManager = (True, NewTaskManager\<lparr>isShutdown := True\<rparr>)"
    by (simp add: ShutdownIfEmpty_def NewTaskManager_def)
  let ?s = "s\<lparr>s_taskManager := NewTaskManager\<lparr>isShutdown := True\<rparr>\<rparr>"
  have ac: "take 2 (shutdown_actions T i n) = shutdown_actions T i n" "drop 2 (shutdown_actions T i n) = []" for T i n
    by (simp_all add: shutdown_actions_def)
  obtain l where l: "shutdownLoop ?env ?s vmm_fine (shutdown_actions defaultShutdownTimeout ''t'' False) () = (l, ())"
    by (metis prod.exhaust old.unit.exhaust)
  from shutdownLoop_requests[OF this] s(2) have "l \<noteq> LoopPanicked" by (auto simp: fine_state_def)
  with l s(2) have "\<exists>s1. shim_Shutdown ?env 2 s ''t'' False () = (None, s1, ())"
    by (simp add: shim_Shutdown_def shim_shutdown_def fine_state_def Let_def em ac vm_wait_fine fine_cleanup)
  then obtain s1 where s1: "shim_Shutdown ?env 2 s ''t'' False () = (None, s1, ())" by blast
  have e: "tm_reg (s_taskManager s) = {}" "exitAfterAllTasksDeleted s" "s_machine s = Some vmm_fine" "agentClient s \<noteq> None"
    using s(2) by (simp_all add: fine_state_def)
  from Shutdown_decides[OF s(1) s1 rtranclp.rtrancl_refl, where q = example_create and ?w2.0 = "()"] e
  have "(\<exists>t. playback ?env s vmm_fine t () = Some () \<and> VM_stopped 2 defaultShutdownTimeout ''t'' False s t None \<and> cleanupOnce s1) \<and>
    \<not> isOk (fst (shim_Create ?env s1 example_create ()))" by auto
  with s s1 e show ?thesis by blast
qed

section \<open>Stub drives and tasks\<close>

text \<open>A stub drive that no task holds any more.\<close>

definition leaked :: "string \<Rightarrow> ('w, 'ip) service \<Rightarrow> bool" where
  "leaked cid s \<longleftrightarrow> vmReady s \<and> cid \<in> drives_of s \<and> (cid, []) \<notin> tm_reg (s_taskManager s)"

lemma leaked_step:
  fixes env :: "('w, 'ip, 'b) shim_env"
  assumes "shim_step env s s'" "shim_inv s" "leaked cid s"
  shows "leaked cid s'"
  using assms(1)
proof (cases rule: shim_stepE)
  case (create_vm request w r w')
  have "vmStartOnce s" using assms(2,3) by (simp add: shim_inv_def leaked_def)
  with create_vm have "s' = s" by (simp add: shim_CreateVM_def)
  with assms(3) show ?thesis by simp
next
  case (stop_vm k timeout w r w')
  have "vmReady s" using assms(3) by (simp add: leaked_def)
  with stop_vm obtain b e where "s' = with_cleanup s b e"
    using shim_shutdown_effect by (fastforce simp: shim_StopVM_def waitVMReady_def Let_def)
  with assms(3) show ?thesis by (simp add: leaked_def)
next
  case (shutdown k i now w r w')
  from shim_Shutdown_effect[OF this] obtain m b e where s': "s' = with_cleanup (s\<lparr>s_taskManager := m\<rparr>) b e"
      "m = s_taskManager s \<or> m = snd (ShutdownIfEmpty (s_taskManager s))" by blast
  have "tm_reg m = tm_reg (s_taskManager s)" using s'(2) assms(2) tm.shut_reg by (auto simp: shim_inv_def)
  with s'(1) assms(3) show ?thesis by (simp add: leaked_def drives_of_def)
next
  case (vm_exit w w')
  from monitorVMExit_effect[OF this] obtain b e where "s' = with_cleanup s b e" by blast
  with assms(3) show ?thesis by (simp add: leaked_def)
next
  case (create_task creq w rc w')
  have "next_port s < 2 ^ 32" "tm_inv (s_taskManager s)" using assms(2) by (simp_all add: shim_inv_def)
  from shim_Create_effect[OF create_task this] consider "s' = s"
    | h h1 n m mc mounter vmPath path w1 w2 where "containerStubHandler s = Some h"
        "Reserve (e_os env) mc mounter h (ct_ID creq) path vmPath ''ext4'' [] w1 = (None, h1, w2)"
        "s' = with_tasks s (Some h1) n m"
        "tm_reg m = tm_reg (s_taskManager s) \<or> tm_reg m = insert (ct_ID creq, []) (tm_reg (s_taskManager s))"
    by (metis (no_types, lifting))
  then show ?thesis
  proof cases
    case 2
    from Reserve_drives[OF 2(2)] 2 assms(3) show ?thesis by (auto simp: leaked_def drives_of_def)
  qed (use assms(3) in simp)
next
  case (delete_task io dreq w rd w')
  have "tm_inv (s_taskManager s)" using assms(2) by (simp add: shim_inv_def)
  from shim_Delete_effect[OF delete_task this] obtain h' m where
    e: "s' = with_tasks s h' (vsockIOPortCount s) m" "tm_inv m"
      "if isOk rd then (dl_ID dreq, dl_ExecID dreq) \<in> tm_reg (s_taskManager s) \<and>
         tm_reg m = tm_reg (s_taskManager s) - {(dl_ID dreq, dl_ExecID dreq)} else tm_reg m = tm_reg (s_taskManager s)"
    and h': "h' = containerStubHandler s \<or> isOk rd \<and> dl_ExecID dreq = [] \<and>
       (\<exists>h h1 (mc :: 'w machine) mounter rr w1 w2. containerStubHandler s = Some h \<and> h' = Some h1 \<and>
          Release mc mounter h (dl_ID dreq) w1 = (rr, h1, w2) \<and> (\<forall>resp. rd = Inr (resp, None) \<longrightarrow> rr = None))"
    by (elim exE conjE) (rule that; assumption)
  have t: "(cid, []) \<notin> tm_reg m" using e(3) assms(3) by (auto simp: leaked_def split: if_splits)
  from h' show ?thesis
  proof (elim disjE conjE exE)
    assume "h' = containerStubHandler s"
    with e(1) t assms(3) show ?thesis by (simp add: leaked_def drives_of_def)
  next
    fix h h1 and mc :: "'w machine" and mounter rr w1 w2
    assume r: "isOk rd" "dl_ExecID dreq = []" "containerStubHandler s = Some h" "h' = Some h1"
      "Release mc mounter h (dl_ID dreq) w1 = (rr, h1, w2)"
    have "dl_ID dreq \<noteq> cid" using e(3) r(1,2) assms(3) by (auto simp: leaked_def)
    with Release_drives(1)[OF r(5)] r(3,4) e(1) t assms(3) show ?thesis by (auto simp: leaked_def drives_of_def)
  qed
next
  case (exec_task xreq w rx w')
  have "next_port s < 2 ^ 32" "tm_inv (s_taskManager s)" using assms(2) by (simp_all add: shim_inv_def)
  from shim_Exec_effect[OF exec_task(1) this] obtain n m where
    e: "s' = with_tasks s (containerStubHandler s) n m"
      "tm_reg m = tm_reg (s_taskManager s) \<or> tm_reg m = insert (ex_ID xreq, ex_ExecID xreq) (tm_reg (s_taskManager s))"
    by blast
  with assms(3) exec_task(2) show ?thesis by (auto simp: leaked_def drives_of_def)
qed

lemma leaked_steps:
  assumes "(shim_step env)\<^sup>*\<^sup>* s s'" "shim_inv s" "leaked cid s"
  shows "leaked cid s'"
proof -
  have "shim_inv s' \<and> leaked cid s'" using assms
  proof (induction rule: rtranclp_induct)
    case (step y z)
    then show ?case using shim_step_inv[of env y z] leaked_step[of env y z cid] by blast
  qed simp
  then show ?thesis by simp
qed

text \<open>
  C13: A \<open>Create\<close> that fails after it has reserved a stub drive loses that drive for the life of the VM. The id of the container keeps
  holding the drive although there is no such task: after any further sequence of calls, every
  \<open>Create\<close> for that container fails, and so does every \<open>Delete\<close>, the only call that releases drives.
\<close>

theorem failed_Create_loses_drive:
  assumes "reachable env s" "shim_Create env s req w = (Inl e, s1, w1)" "drives_of s1 \<noteq> drives_of s"
    and "(shim_step env)\<^sup>*\<^sup>* s1 s2" "ct_ID q = ct_ID req" "dl_ID dreq = ct_ID req" "dl_ExecID dreq = []"
  shows "drives_of s1 = insert (ct_ID req) (drives_of s) \<and> ct_ID req \<in> drives_of s2 \<and> ct_ID req \<notin> tasks_of s2 \<and>
    \<not> isOk (fst (shim_Create env s2 q w2)) \<and> \<not> isOk (fst (shim_Delete env s2 io dreq w2))"
proof -
  have i: "shim_inv s" using assms(1) by (rule reachable_inv)
  then have p: "next_port s < 2 ^ 32" "tm_inv (s_taskManager s)" by (simp_all add: shim_inv_def)
  from shim_step_inv[OF shim_step.create_task[OF assms(2)] i] have i1: "shim_inv s1" by simp
  from shim_Create_effect[OF assms(2) p] assms(3) obtain h h1 n m mc mounter vmPath path w3 w4 where
    c: "vmReady s" "containerStubHandler s = Some h"
      "Reserve (e_os env) mc mounter h (ct_ID req) path vmPath ''ext4'' [] w3 = (None, h1, w4)"
      "s1 = with_tasks s (Some h1) n m" "tm_reg m = tm_reg (s_taskManager s)"
    by (metis (no_types, lifting) isOk_simps(2))
  note r = Reserve_drives[OF c(3)]
  have d: "drives_of s1 = insert (ct_ID req) (drives_of s)" "ct_ID req \<notin> drives_of s"
    using c r by (simp_all add: drives_of_def)
  have "(ct_ID req, []) \<notin> tm_reg m" using d(2) i c(5) by (auto simp: shim_inv_def tasks_of_def)
  then have "leaked (ct_ID req) s1" using c d(1) by (simp add: leaked_def)
  from leaked_steps[OF assms(4) i1 this] have l: "leaked (ct_ID req) s2" .
  from shim_steps_inv[OF assms(4) i1] have i2: "tm_inv (s_taskManager s2)" by (simp add: shim_inv_def)
  have "\<not> isOk (fst (shim_Create env s2 q w2))"
  proof -
    obtain rr s3 w5 where x: "shim_Create env s2 q w2 = (rr, s3, w5)" by (rule prod_cases3)
    from this have "\<not> isOk rr"
    proof (cases rule: shim_Create_cases)
      case (reserved h m mounter mnt w1 h1 w2)
      have "stub_takes (e_os env) (vm_iface m) mounter h (ct_ID q) h1" using reserved(6) unfolding stub_takes_def by blast
      then have "ct_ID q \<notin> dom (usedDrives h)" using stubs.refused_while_used by blast
      with reserved(2) l assms(5) show ?thesis by (simp add: leaked_def drives_of_def)
    qed simp
    with x show ?thesis by simp
  qed
  moreover have "\<not> isOk (fst (shim_Delete env s2 io dreq w2))"
  proof -
    obtain rr s3 w5 where x: "shim_Delete env s2 io dreq w2 = (rr, s3, w5)" by (rule prod_cases3)
    from shim_Delete_effect[OF x i2] l assms(6,7) show ?thesis
      unfolding x by (auto simp: leaked_def split: if_splits)
  qed
  ultimately show ?thesis using d(1) l by (simp add: leaked_def tasks_of_def)
qed

definition svc_refusing :: "unit TaskService" where
  "svc_refusing = svc_fine\<lparr>svc_Create := \<lambda>q w. (Inl EOF, w)\<rparr>"

theorem failed_Create_loses_drive_witness:
  "\<exists>s. reachable (shim_fine svc_refusing) s \<and> drives_of s = {''vm-2''} \<and> tasks_of s = {} \<and>
     \<not> isOk (fst (shim_Create (shim_fine svc_refusing) s fine_create ())) \<and>
     \<not> isOk (fst (shim_Delete (shim_fine svc_refusing) s NewNullIOProxy \<lparr>dl_ID = ''vm-2'', dl_ExecID = []\<rparr> ()))"
proof -
  let ?env = "shim_fine svc_refusing"
  obtain s d where s: "reachable ?env s" "fine_state svc_refusing s d" "vmReady s" using fine_reachable by blast
  have "svc_Create svc_refusing q () = (Inl EOF, ())" for q by (simp add: svc_refusing_def)
  from fine_Create[OF s(2,3) this] obtain e s1 where c: "shim_Create ?env s fine_create () = (Inl e, s1, ())"
      "drives_of s = {}" "drives_of s1 = {''vm-2''}"
    unfolding isOk_iff by (metis isOk_iff isOk_simps(2) obj_sumE)
  have "drives_of s1 \<noteq> drives_of s" using c by simp
  have id: "dl_ID \<lparr>dl_ID = ''vm-2'', dl_ExecID = []\<rparr> = ct_ID fine_create" "dl_ExecID \<lparr>dl_ID = ''vm-2'', dl_ExecID = []\<rparr> = []"
    by (simp_all add: fine_create_def)
  from failed_Create_loses_drive[OF s(1) c(1) \<open>drives_of s1 \<noteq> drives_of s\<close> rtranclp.rtrancl_refl refl id,
      where ?w2.0 = "()" and io = NewNullIOProxy]
  have r: "\<not> isOk (fst (shim_Create ?env s1 fine_create ())) \<and>
      \<not> isOk (fst (shim_Delete ?env s1 NewNullIOProxy \<lparr>dl_ID = ''vm-2'', dl_ExecID = []\<rparr> ()))"
    by blast
  have s1: "reachable ?env s1" using s(1) shim_step.create_task[OF c(1)] by (blast intro: reachable_steps)
  have "tm_reg (s_taskManager s) = {}" using s(2) by (simp add: fine_state_def)
  moreover have "next_port s < 2 ^ 32" "tm_inv (s_taskManager s)" using reachable_inv[OF s(1)] by (simp_all add: shim_inv_def)
  moreover note shim_Create_effect[OF c(1) calculation(2,3)]
  ultimately have "tm_reg (s_taskManager s1) = {}" by (elim disjE exE conjE) simp_all
  then have "tasks_of s1 = {}" by (simp add: tasks_of_def)
  with r s1 c(3) show ?thesis by blast
qed

lemma delete_released:
  fixes w :: 'w
  assumes "shim_Delete env s io req w = (Inr (resp, None), s', w')" "dl_ExecID req = []"
  shows "\<exists>h h1 (mc :: 'w machine) mounter w1 w2. containerStubHandler s = Some h \<and>
     Release mc mounter h (dl_ID req) w1 = (None, h1, w2) \<and> containerStubHandler s' = Some h1"
proof -
  obtain agent where a: "agentClient s = Some agent" using assms(1) by (auto simp: shim_Delete_def split: option.splits)
  obtain d m w1 where d: "DeleteProcess (s_taskManager s) req agent (e_run_proxy env io) w = (d, m, w1)" by (rule prod_cases3)
  let ?s = "s\<lparr>s_taskManager := m\<rparr>"
  obtain w2 where c: "delete_container env ?s (dl_ID req) w1 = (None, s', w2)"
    using assms a d by (cases d) (auto simp: shim_Delete_def Let_def split: prod.splits)
  then have "\<exists>h mc mounter. containerStubHandler ?s = Some h \<and> s_machine ?s = Some mc \<and> driveMountClient ?s = Some mounter"
    by (auto simp: delete_container_def split: option.splits)
  then obtain h mc mounter where p: "containerStubHandler ?s = Some h" "s_machine ?s = Some mc" "driveMountClient ?s = Some mounter"
    by blast
  obtain rr h1 w3 where rl: "Release (vm_iface mc) mounter h (dl_ID req) w1 = (rr, h1, w3)" by (rule prod_cases3)
  have "rr = None"
    using c p rl by (auto simp: delete_container_def Let_def multi_append_def multi_error_or_nil_def
        split: prod.splits sum.splits option.splits if_splits)
  moreover have "containerStubHandler s' = Some h1"
    using c p rl by (auto simp: delete_container_def Let_def split: prod.splits sum.splits option.splits)
  ultimately show ?thesis using p(1) rl by auto
qed

text \<open>
  C12: Deleting a task undoes its creation: after a \<open>Create\<close> and a later clean \<open>Delete\<close> of the same container, the
  shim has the tasks and the drives in use that it had before, and the drive is free again, behind the others.
\<close>

theorem Create_Delete_roundtrip:
  fixes w2 :: 'w
  assumes "reachable env s" "shim_Create env s req w = (Inr pid, s1, w1)"
    and "shim_Delete env s1 io \<lparr>dl_ID = ct_ID req, dl_ExecID = []\<rparr> w2 = (Inr (resp, None), s2, w3)"
  shows "\<exists>h h2 d rest. containerStubHandler s = Some h \<and> containerStubHandler s2 = Some h2 \<and>
     freeDrives h = d # rest \<and> map bare (freeDrives h2) = map bare (rest @ [d]) \<and> usedDrives h2 = usedDrives h \<and>
     tm_reg (s_taskManager s2) = tm_reg (s_taskManager s)"
proof -
  have i: "shim_inv s" using assms(1) by (rule reachable_inv)
  then have p: "next_port s < 2 ^ 32" "tm_inv (s_taskManager s)" by (simp_all add: shim_inv_def)
  from shim_Create_effect[OF assms(2) p] obtain h h1 n m mc mounter vmPath path w4 w5 where
    c: "containerStubHandler s = Some h" "Reserve (e_os env) mc mounter h (ct_ID req) path vmPath ''ext4'' [] w4 = (None, h1, w5)"
      "s1 = with_tasks s (Some h1) n m" "tm_inv m"
      "(ct_ID req, []) \<notin> tm_reg (s_taskManager s)" "tm_reg m = insert (ct_ID req, []) (tm_reg (s_taskManager s))"
    by (metis (no_types, lifting) isOk_simps(1))
  from delete_released[OF assms(3)] c(3) obtain h2 mc2 mounter2 w6 w7 where
    r: "Release mc2 mounter2 h1 (ct_ID req) (w6 :: 'w) = (None, h2, w7)" "containerStubHandler s2 = Some h2" by auto
  have "tm_inv (s_taskManager s1)" using c(3,4) by simp
  from shim_Delete_effect[OF assms(3) this] have t: "tm_reg (s_taskManager s2) = tm_reg (s_taskManager s)"
    using c(3,5,6) by auto
  from c(2) show ?thesis
  proof (cases rule: Reserve_cases)
    case (taken d rest opts)
    from r(1) show ?thesis
    proof (cases rule: Release_cases)
      case (given d2)
      with taken have "map bare (freeDrives h2) = map bare (rest @ [d])" "usedDrives h2 = usedDrives h"
        by auto
      with c(1) r(2) t taken(2) show ?thesis by blast
    qed simp
  qed simp
qed

theorem Create_Delete_roundtrip_witness:
  "\<exists>s pid s1 s2 d. reachable (shim_fine (svc_fine :: unit TaskService)) s \<and>
     shim_Create (shim_fine svc_fine) s fine_create () = (Inr pid, s1, ()) \<and>
     shim_Delete (shim_fine svc_fine) s1 NewNullIOProxy \<lparr>dl_ID = ''vm-2'', dl_ExecID = []\<rparr> () = (Inr ([], None), s2, ()) \<and>
     (\<exists>h h2. containerStubHandler s = Some h \<and> containerStubHandler s2 = Some h2 \<and> freeDrives h = [d] \<and>
       map bare (freeDrives h2) = [bare d] \<and> usedDrives h2 = usedDrives h)"
proof -
  let ?env = "shim_fine (svc_fine :: unit TaskService)"
  obtain s d where s: "reachable ?env s" "fine_state svc_fine s d" "vmReady s" using fine_reachable by blast
  have "svc_Create svc_fine q () = (Inr 1, ())" for q by (simp add: svc_fine_def)
  from fine_Create[OF s(2,3) this] obtain r s1 d1 n m where c0: "shim_Create ?env s fine_create () = (r, s1, ())"
      "isOk r = isOk (Inr 1 :: gerr + nat)"
      and s1: "s1 = with_tasks s (Some \<lparr>freeDrives = [], usedDrives = [''vm-2'' \<mapsto> d1]\<rparr>) n m"
    by (elim exE conjE) (rule that; assumption)
  then obtain pid where "shim_Create ?env s fine_create () = (Inr pid, s1, ())" by (auto simp: isOk_iff)
  note c = this s1
  have inv: "next_port s < 2 ^ 32" "tm_inv (s_taskManager s)" using reachable_inv[OF s(1)] by (simp_all add: shim_inv_def)
  have id: "ct_ID fine_create = ''vm-2''" by (simp add: fine_create_def)
  have "tm_inv (s_taskManager s1) \<and> (''vm-2'', []) \<in> tm_reg (s_taskManager s1)"
    using shim_Create_effect[OF c(1) inv] id by (elim disjE exE conjE) simp_all
  then have m: "tm_inv m \<and> (''vm-2'', []) \<in> tm_reg m" using s1 by simp
  then have "isOk (fst (deleteProc m ''vm-2'' []))" by (simp add: tm.del_ok)
  then obtain p m' where p: "deleteProc m ''vm-2'' [] = (Inr p, m')" by (auto simp: isOk_iff prod_eq_iff)
  let ?dr = "\<lparr>dl_ID = ''vm-2'', dl_ExecID = []\<rparr>"
  have dp: "DeleteProcess m ?dr svc_fine io_fine () = (Inr [], m', ())"
    using p by (simp add: DeleteProcess_def svc_fine_def io_fine_def)
  have b: "BundleLink V_example ''/run/default/vm-1'' ''vm-2'' = Inr (filepath_Join [RootPath ''/run/default/vm-1'', ''vm-2''])"
    by (simp add: BundleLink_def V_example_def)
  have rl: "\<exists>h2. Release machine_fine mounter_fine \<lparr>freeDrives = [], usedDrives = [''vm-2'' \<mapsto> d1]\<rparr> ''vm-2'' () = (None, h2, ())"
    by (simp add: Release_def machine_fine_def mounter_fine_def)
  have dc: "\<exists>s2. delete_container ?env (s1\<lparr>s_taskManager := m'\<rparr>) ''vm-2'' () = (None, s2, ())"
    using rl b c(2) s(2)
    by (auto simp: delete_container_def fine_state_def vmm_fine_def Let_def shim_fine_def os_fine_def multi_error_or_nil_def with_tasks_def)
  have ac: "agentClient s1 = Some svc_fine" "s_taskManager s1 = m" using c(2) s(2) by (simp_all add: fine_state_def)
  have "\<exists>s2. shim_Delete ?env s1 NewNullIOProxy ?dr () = (Inr ([], None), s2, ())"
    using dp dc ac by (auto simp: shim_Delete_def Let_def shim_fine_def)
  then obtain s2 where s2: "shim_Delete ?env s1 NewNullIOProxy ?dr () = (Inr ([], None), s2, ())" by blast
  from Create_Delete_roundtrip[OF s(1) c(1) s2[folded id]] obtain h d' rest h2 where r: "containerStubHandler s = Some h"
      "containerStubHandler s2 = Some h2"
      "freeDrives h = d' # rest" "map bare (freeDrives h2) = map bare (rest @ [d'])" "usedDrives h2 = usedDrives h"
    by blast
  with s(2) have "rest = []" by (auto simp: fine_state_def)
  then have "freeDrives h = [d']" "map bare (freeDrives h2) = [bare d']" using r(3,4) by simp_all
  with r(1,2,5) have ex: "\<exists>h h2. containerStubHandler s = Some h \<and> containerStubHandler s2 = Some h2 \<and> freeDrives h = [d'] \<and>
      map bare (freeDrives h2) = [bare d'] \<and> usedDrives h2 = usedDrives h" by simp
  show ?thesis
    by (rule exI[of _ s], rule exI[of _ pid], rule exI[of _ s1], rule exI[of _ s2], rule exI[of _ d'], intro conjI)
      (fact s(1) c(1) s2 ex)+
qed

end
