(* ===== verification/HostGuest.thy ===== *)
theory HostGuest
  imports ShimProperties AgentService
begin

text \<open>
  The shim on the host (\<open>runtime/service.go\<close>) and the task service in the VM (\<open>agent/service.go\<close>)
  together: what a \<open>Create\<close> that containerd sends to the one makes the other do.
\<close>

section \<open>Successful calls, taken apart\<close>

lemma create_reserved_ok:
  assumes "create_reserved env s req w = (Inr pid, s', w')"
  obtains json w1 x s1 opts host w2 agent m where
    "OCIConfig_Bytes (e_os env) (OCIConfig (ct_Bundle req)) w = (Inr json, w1)"
    "generateExtraData s json (ct_Options req) = Some (x, s1)" "e_MarshalAny env x = Inr opts"
    "newIOProxy env s1 (ct_Stdin req) (ct_Stdout req) (ct_Stderr req) x w1 = (Inr host, w2)" "agentClient s1 = Some agent"
    "CreateTask (s_taskManager s1) (req\<lparr>ct_Options := opts, ct_Bundle := VMBundleDir (ct_ID req), ct_Rootfs := []\<rparr>) agent
       (e_run_proxy env host) w2 = (Inr pid, m, w')" "s' = s1\<lparr>s_taskManager := m\<rparr>"
  using assms
  by (auto simp: create_reserved_def Let_def bundle_RootPath_def split: prod.splits sum.splits option.splits)

lemma agent_Create_ok:
  assumes "Create env ts req w = (Inr pid, ts', w')"
  obtains i x w1 guest q w2 where "TaskExecID (Validate env) (ct_ID req) [] = Inr i"
    "unmarshalExtraData env (ct_Options req) = Inr x"
    "create_proxy env i x (req\<lparr>ct_Options := RuncOptions x\<rparr>) w1 = (Inr (guest, q), w2)"
    "CreateTask (taskManager_of ts) q (runcService env) (run_proxy env guest) w2 = (Inr pid, taskManager_of ts', w')"
proof -
  obtain i where i: "TaskExecID (Validate env) (ct_ID req) [] = Inr i" using assms by (auto simp: Create_def split: sum.splits)
  with assms have b: "create_body env ts i req w = (Inr pid, ts', w')"
    by (auto simp: Create_def split: prod.splits sum.splits)
  then obtain x where x: "unmarshalExtraData env (ct_Options req) = Inr x" by (auto simp: create_body_def split: sum.splits)
  have a: "taskManager_of (addCleanup t j c) = taskManager_of t" for t j c by (simp add: addCleanup_def)
  from b[unfolded create_body_def x sum.case Let_def]
  show thesis
    by (auto simp: a split: prod.splits sum.splits option.splits if_splits intro!: that[OF i x])
qed

lemma CreateTask_calls:
  assumes "CreateTask m q svc io w = (Inr pid, m', w')"
  shows "\<exists>w1 w2. svc_Create svc q w1 = (Inr pid, w2)"
  using assms by (auto simp: CreateTask_def Let_def split: prod.splits sum.splits option.splits)

section \<open>Connected streams\<close>

text \<open>The two halves of a stream of the same process: the host dials the port on which the guest accepts.\<close>

fun stdin_meets :: "IOConnectorPair option \<Rightarrow> IOConnectorPair option \<Rightarrow> bool" where
  "stdin_meets None None = True"
| "stdin_meets (Some h) (Some g) =
     (case (WriteConnector h, ReadConnector g) of (VSockDialConn path p, VSockAcceptConn p') \<Rightarrow> p = p' | _ \<Rightarrow> False)"
| "stdin_meets _ _ = False"

fun output_meets :: "IOConnectorPair option \<Rightarrow> IOConnectorPair option \<Rightarrow> bool" where
  "output_meets None None = True"
| "output_meets (Some h) (Some g) =
     (case (ReadConnector h, WriteConnector g) of (VSockDialConn path p, VSockAcceptConn p') \<Rightarrow> p = p' | _ \<Rightarrow> False)"
| "output_meets _ _ = False"

fun connected :: "ioproxy \<Rightarrow> ioproxy \<Rightarrow> bool" where
  "connected NullIOProxy NullIOProxy = True"
| "connected (IOConnectorSet hi ho he) (IOConnectorSet gi go ge) = (stdin_meets hi gi \<and> output_meets ho go \<and> output_meets he ge)"
| "connected _ _ = False"

lemma proxies_connected:
  assumes "newIOProxy env s (ct_Stdin req) (ct_Stdout req) (ct_Stderr req) x w = (Inr host, w1)"
    and "create_proxy aenv i x req' w2 = (Inr (guest, q), w3)" and "e_url_rest_ok env = url_rest_ok aenv"
    and "ct_Stdin req' = ct_Stdin req" "ct_Stdout req' = ct_Stdout req" "ct_Stderr req' = ct_Stderr req"
  shows "connected host guest"
proof (cases "IsAgentOnlyIO (url_rest_ok aenv) (ct_Stdout req)")
  case True
  with assms show ?thesis
    by (auto simp: newIOProxy_def create_proxy_def NewNullIOProxy_def split: option.splits prod.splits sum.splits)
next
  case False
  with assms show ?thesis
    by (auto simp: newIOProxy_def create_proxy_def NewIOConnectorProxy_def create_io_def stdin_pair_def stdout_pair_def
        stderr_pair_def split: option.splits prod.splits sum.splits)
qed

text \<open>What the agent hands on to runc: everything but the paths of the streams.\<close>

lemma create_proxy_request:
  assumes "create_proxy aenv i x req w = (Inr (guest, q), w')"
  shows "\<exists>sin sout serr. q = req\<lparr>ct_Stdin := sin, ct_Stdout := sout, ct_Stderr := serr\<rparr>"
proof -
  have "q = req\<lparr>ct_Stdin := ct_Stdin q, ct_Stdout := ct_Stdout q, ct_Stderr := ct_Stderr q\<rparr>"
    using assms by (auto simp: create_proxy_def create_io_def split: if_splits prod.splits sum.splits)
  then show ?thesis by blast
qed

section \<open>The two services together\<close>

text \<open>
  The client that the shim has of an agent: a call of \<open>Create\<close> is a call of the agent's task service on the agent's own
  state, which \<open>get\<close> and \<open>put\<close> find in the world.
\<close>

definition serves ::
    "'w TaskService \<Rightarrow> 'w agent_env \<Rightarrow> ('w \<Rightarrow> TaskService_agent) \<Rightarrow> (TaskService_agent \<Rightarrow> 'w \<Rightarrow> 'w) \<Rightarrow> bool" where
  "serves agent aenv get put \<longleftrightarrow>
     (\<forall>q w. svc_Create agent q w = (case Create aenv (get w) q w of (r, ts, w') \<Rightarrow> (r, put ts w')))"

text \<open>
  C3: A task that containerd creates through the shim runs in the VM as it was meant, given that protobuf decodes what it encoded and that
  both sides parse URLs alike. When the shim's \<open>Create\<close> succeeds, the task manager on the host and the one in the VM
  have each started a process with an IO proxy, and the two proxies are connected: they have the same streams, and each stream is dialled on exactly the
  vsock port where the guest accepts it. What runc is asked to create has the id, the terminal flag and the options of the original request, the VM's
  bundle directory instead of the host's, and no rootfs mounts.
\<close>

theorem Create_connects_streams:
  assumes "shim_Create env s req w = (Inr pid, s', w')"
    and "agentClient s = Some agent" "serves agent aenv get put"
    and "\<forall>x a. e_MarshalAny env x = Inr a \<longrightarrow> UnmarshalAny aenv a = Inr x" "e_url_rest_ok env = url_rest_ok aenv"
  shows "\<exists>host guest q q' (ts :: TaskService_agent) (ts' :: TaskService_agent) w1 w2 w3.
    CreateTask (s_taskManager s) q agent (e_run_proxy env host) w1 = (Inr pid, s_taskManager s', w') \<and>
    CreateTask (taskManager_of ts) q' (runcService aenv) (run_proxy aenv guest) w2 = (Inr pid, taskManager_of ts', w3) \<and>
    connected host guest \<and>
    ct_ID q' = ct_ID req \<and> ct_Terminal q' = ct_Terminal req \<and> ct_Options q' = ct_Options req \<and>
    ct_Bundle q' = VMBundleDir (ct_ID req) \<and> ct_Rootfs q' = []"
  using assms(1)
proof (cases rule: shim_Create_cases)
  case (reserved h m mounter mnt w1 h1 w2)
  let ?s = "s\<lparr>containerStubHandler := Some h1\<rparr>"
  from create_reserved_ok[OF reserved(7)] obtain json w3 x s1 opts host w4 agent' m' where
    c: "generateExtraData ?s json (ct_Options req) = Some (x, s1)" "e_MarshalAny env x = Inr opts"
      "newIOProxy env s1 (ct_Stdin req) (ct_Stdout req) (ct_Stderr req) x w3 = (Inr host, w4)" "agentClient s1 = Some agent'"
      "CreateTask (s_taskManager s1) (req\<lparr>ct_Options := opts, ct_Bundle := VMBundleDir (ct_ID req), ct_Rootfs := []\<rparr>) agent'
         (e_run_proxy env host) w4 = (Inr pid, m', w')" "s' = s1\<lparr>s_taskManager := m'\<rparr>"
    by metis
  let ?q = "req\<lparr>ct_Options := opts, ct_Bundle := VMBundleDir (ct_ID req), ct_Rootfs := []\<rparr>"
  have x: "agentClient s1 = agentClient s" "s_taskManager s1 = s_taskManager s" "RuncOptions x = ct_Options req"
    using c(1) by (auto simp: generateExtraData_def nextVSockPort_def Let_def split: option.splits if_splits)
  with c(4) assms(2) have ag: "agent' = agent" by simp
  from CreateTask_calls[OF c(5)[unfolded ag]] obtain w5 w6 where "svc_Create agent ?q w5 = (Inr pid, w6)" by blast
  with assms(3) obtain ts' w7 where "Create aenv (get w5) ?q w5 = (Inr pid, ts', w7)"
    by (auto simp: serves_def split: prod.splits)
  then obtain i y w8 guest q' w9 where g: "unmarshalExtraData aenv (ct_Options ?q) = Inr y"
      "create_proxy aenv i y (?q\<lparr>ct_Options := RuncOptions y\<rparr>) w8 = (Inr (guest, q'), w9)"
      "CreateTask (taskManager_of (get w5)) q' (runcService aenv) (run_proxy aenv guest) w9 = (Inr pid, taskManager_of ts', w7)"
    by (rule agent_Create_ok)
  have "y = x" using g(1) assms(4) c(2) by (auto simp: unmarshalExtraData_def)
  with g(2) have gp: "create_proxy aenv i x (?q\<lparr>ct_Options := RuncOptions x\<rparr>) w8 = (Inr (guest, q'), w9)" by simp
  from create_proxy_request[OF gp] obtain sin sout serr where
    q': "q' = ?q\<lparr>ct_Options := RuncOptions x, ct_Stdin := sin, ct_Stdout := sout, ct_Stderr := serr\<rparr>" by auto
  show ?thesis
  proof (intro exI conjI)
    show "connected host guest" by (rule proxies_connected[OF c(3) gp assms(5)]) simp_all
    show "CreateTask (s_taskManager s) ?q agent (e_run_proxy env host) w4 = (Inr pid, s_taskManager s', w')"
      using c(5,6) ag x(2) by simp
    show "CreateTask (taskManager_of (get w5)) q' (runcService aenv) (run_proxy aenv guest) w9 = (Inr pid, taskManager_of ts', w7)"
      by (rule g(3))
  qed (use q' x(3) in simp_all)
qed simp

definition fine_guest :: "unit agent_env" where
  "fine_guest = agent_fine\<lparr>UnmarshalAny := first_unmarshal,
     Validate := (\<lambda>s. if s = ''vm-2'' then None else Some EOF)\<rparr>"

definition fine_agent :: "unit TaskService" where
  "fine_agent = svc_fine\<lparr>svc_Create := (\<lambda>q w. case Create fine_guest NewTaskService q w of (r, ts, w') \<Rightarrow> (r, w'))\<rparr>"

lemma fine_agent_Create:
  assumes "ct_ID q = ''vm-2''" "ct_Options q = Some (''extra'', [])"
  shows "svc_Create fine_agent q () = (Inr 1, ())"
proof -
  have g: "env_os fine_guest = os_fine" "UnmarshalAny fine_guest = first_unmarshal" "runcService fine_guest = svc_fine"
    "run_proxy fine_guest = (\<lambda>p. io_fine)" "Validate fine_guest ''vm-2'' = None"
    by (simp_all add: fine_guest_def agent_fine_def)
  obtain i where i: "TaskExecID (Validate fine_guest) ''vm-2'' [] = Inr i" by (simp add: TaskExecID_def g)
  obtain x where x: "unmarshalExtraData fine_guest (Some (''extra'', [])) = Inr x"
    by (simp add: unmarshalExtraData_def g first_unmarshal_def)
  have st: "\<exists>st. os_Stat os_fine p () = (Inr st, ()) \<and> fi_isDir st" for p by (simp add: os_fine_def)
  have wr: "OCIConfig_Write os_fine p c () = (None, ())" for p c by (simp add: OCIConfig_Write_def os_fine_def)
  have cp: "\<exists>io q'. create_proxy fine_guest i x r () = (Inr (io, q'), ())" for r
    by (simp add: create_proxy_def fine_guest_def agent_fine_def create_io_def)
  have ct: "\<exists>m. CreateTask NewTaskManager r svc_fine io_fine () = (Inr 1, m, ())" for r
    by (simp add: CreateTask_def newProc_def NewTaskManager_def svc_fine_def io_fine_def Let_def)
  have tm: "taskManager_of (addCleanup t j c) = taskManager_of t" "taskManager_of NewTaskService = NewTaskManager" for t j c
    by (simp_all add: addCleanup_def NewTaskService_def)
  obtain s1 where s1: "os_Stat os_fine (RootfsPath (ct_Bundle q)) () = (Inr s1, ())" "fi_isDir s1" using st by blast
  obtain io q' where io: "create_proxy fine_guest i x (q\<lparr>ct_Options := RuncOptions x\<rparr>) () = (Inr (io, q'), ())" using cp by blast
  obtain m where m: "CreateTask NewTaskManager q' svc_fine io_fine () = (Inr 1, m, ())" using ct by blast
  have "\<exists>ts. create_body fine_guest NewTaskService i q () = (Inr 1, ts, ())"
    unfolding create_body_def assms x sum.case Let_def g s1(1) prod.case
    by (simp add: g s1 wr io tm m del: One_nat_def)
  then obtain ts where b: "create_body fine_guest NewTaskService i q () = (Inr 1, ts, ())" by blast
  show ?thesis by (simp add: fine_agent_def Create_def assms(1) i b)
qed

theorem Create_connects_streams_witness:
  "\<exists>s pid s' q' (ts :: TaskService_agent) (ts' :: TaskService_agent). reachable (shim_fine fine_agent) s \<and>
     shim_Create (shim_fine fine_agent) s fine_create () = (Inr pid, s', ()) \<and>
     (\<exists>guest. CreateTask (taskManager_of ts) q' svc_fine (run_proxy fine_guest guest) () = (Inr pid, taskManager_of ts', ())) \<and>
     ct_ID q' = ''vm-2'' \<and> ct_Bundle q' = VMBundleDir ''vm-2''"
proof -
  let ?env = "shim_fine fine_agent"
  obtain s d where s: "reachable ?env s" "fine_state fine_agent s d" "vmReady s" using fine_reachable by blast
  have "\<exists>r' s'. shim_Create ?env s fine_create () = (r', s', ()) \<and> isOk r' = isOk (Inr 1 :: gerr + nat) \<and>
     drives_of s = {} \<and> drives_of s' = {''vm-2''} \<and>
     (\<exists>d n m. s' = with_tasks s (Some \<lparr>freeDrives = [], usedDrives = [''vm-2'' \<mapsto> d]\<rparr>) n m)"
    by (rule fine_Create[OF s(2,3)]) (rule fine_agent_Create)
  then obtain r s1 where c0: "shim_Create ?env s fine_create () = (r, s1, ())" "isOk r = isOk (Inr 1 :: gerr + nat)"
    by (elim exE conjE) (rule that; assumption)
  then obtain pid where c: "shim_Create ?env s fine_create () = (Inr pid, s1, ())" by (auto simp: isOk_iff)
  have ac: "agentClient s = Some fine_agent" using s(2) by (simp add: fine_state_def)
  have sv: "serves fine_agent fine_guest (\<lambda>_. NewTaskService) (\<lambda>ts w. w)"
    by (auto simp: serves_def fine_agent_def split: prod.splits)
  have m: "\<forall>x a. e_MarshalAny ?env x = Inr a \<longrightarrow> UnmarshalAny fine_guest a = Inr x"
    using first_marshal_roundtrip by (simp add: shim_fine_def fine_guest_def)
  have u: "e_url_rest_ok ?env = url_rest_ok fine_guest" by (simp add: shim_fine_def fine_guest_def agent_fine_def)
  have id: "ct_ID fine_create = ''vm-2''" by (simp add: fine_create_def)
  have rs: "runcService fine_guest = svc_fine" by (simp add: fine_guest_def agent_fine_def)
  from Create_connects_streams[OF c ac sv m u] s(1) c show ?thesis unfolding id rs
    by (elim exE conjE) (intro exI conjI, assumption+, auto)
qed

end
