(* ===== verification/ShimConfig.thy ===== *)
theory ShimConfig
  imports ShimProperties
begin

text \<open>
  What the shim asks Firecracker for: the machine configuration that \<open>buildVMConfiguration\<close> makes of a request and of the
  defaults, and the request that \<open>StartShim\<close> makes of a bundle.
\<close>

section \<open>Everything but the drives\<close>

lemma container_stubs_frame:
  assumes "container_stubs os sdk jail is cfg stubs w = (r, cfg', w')"
  shows "cfg' = cfg\<lparr>fc_Drives := fc_Drives cfg'\<rparr>"
  using assms
proof (induction "is" arbitrary: cfg stubs w)
  case (Cons i "is")
  then show ?case by (fastforce split: prod.splits sum.splits)
qed simp

lemma drive_mount_stubs_frame:
  assumes "drive_mount_stubs os sdk jail dms cfg stubs w = (r, cfg', w')"
  shows "cfg' = cfg\<lparr>fc_Drives := fc_Drives cfg'\<rparr>"
  using assms
proof (induction dms arbitrary: cfg stubs w)
  case (Cons x dms)
  then show ?case by (cases x) (fastforce split: prod.splits sum.splits)
qed simp

lemma network_configs_all:
  "network_configs env vmID nis acc = Inr ncs \<longleftrightarrow>
     (\<exists>new. ncs = acc @ new \<and>
        list_all2 (\<lambda>ni nc. networkConfigFromProto (e_tb env) (e_ParseCIDR env) (e_ParseIP env) ni vmID = Inr nc) nis new)"
proof (induction nis arbitrary: acc)
  case (Cons ni nis)
  show ?case
  proof (cases "networkConfigFromProto (e_tb env) (e_ParseCIDR env) (e_ParseIP env) ni vmID")
    case (Inl e)
    then show ?thesis by (auto simp: list_all2_Cons1)
  next
    case (Inr nc)
    then show ?thesis by (auto simp: Cons list_all2_Cons1)
  qed
qed auto

lemma relative_mount_iff:
  "relative_mount dms = None \<longleftrightarrow>
     (\<forall>dm \<in> set dms. strings_HasPrefix (dm_HostPath dm) ''/'' \<and> strings_HasPrefix (dm_VMPath dm) ''/'')"
  by (induction dms) auto

section \<open>The machine configuration\<close>

text \<open>
  C14: The machine that the shim asks for is what the request says, completed by the runtime configuration. Kernel image and arguments are the
  request's, or else the configured ones; the drives are the root drive, then one
  stub drive per container, at least one, then one per requested drive mount, all with distinct ids that differ from the root drive's, and the handler
  starts with all container stubs free; there is one vsock device, in the jail; the network interfaces are the request's, or else the
  default ones, converted in order. Drive mounts are accepted only by absolute paths on both sides.
\<close>

theorem buildVMConfiguration_content:
  assumes "buildVMConfiguration env s req w = (Inr cfg, s', w')"
    and "s_jailer s = Some jail" "RootPath (JailPath jail) = abs_path rs" "\<forall>c \<in> set rs. good_comp c"
  shows "\<exists>h ids vsock. containerStubHandler s' = Some h \<and> usedDrives h = Map.empty \<and>
    int (length (freeDrives h)) = max 1 (sint (ContainerCount req)) \<and>
    map DriveID (fc_Drives cfg) = map DriveID (buildRootDrive env s req) @ ids \<and>
    ids = map driveID (freeDrives h) @ map driveID (driveMountStubs s') \<and> distinct ids \<and> ''root_drive'' \<notin> set ids \<and>
    list_all2 (\<lambda>sd dm. dm_HostPath (driveMount sd) = dm_HostPath dm \<and> dm_VMPath (driveMount sd) = dm_VMPath dm)
      (driveMountStubs s') (DriveMounts req) \<and>
    (\<forall>dm \<in> set (DriveMounts req). strings_HasPrefix (dm_HostPath dm) ''/'' \<and> strings_HasPrefix (dm_VMPath dm) ''/'') \<and>
    fc_KernelImagePath cfg = (if KernelImagePath req \<noteq> [] then KernelImagePath req else cfg_KernelImagePath (s_config s)) \<and>
    fc_KernelArgs cfg = (if KernelArgs req \<noteq> [] then KernelArgs req else cfg_KernelArgs (s_config s)) \<and>
    fc_VMID cfg = s_vmID s \<and> fc_VsockDevices cfg = [(vsock, ''agent_api'')] \<and>
    fc_NetNS cfg = (case JailerConfig req of None \<Rightarrow> [] | Some jc \<Rightarrow> rj_NetNS jc) \<and>
    fc_MachineCfg cfg = machineConfigurationFromProto (s_config s) (MachineCfg req) \<and>
    list_all2 (\<lambda>ni nc. networkConfigFromProto (e_tb env) (e_ParseCIDR env) (e_ParseIP env) ni (s_vmID s) = Inr nc)
      (case NetworkInterfaces req of None \<Rightarrow> DefaultNetworkInterfaces (s_config s) | Some nis \<Rightarrow> nis) (fc_NetworkInterfaces cfg)"
proof -
  have rm: "relative_mount (DriveMounts req) = None"
    using assms(1) by (auto simp: buildVMConfiguration_def split: option.splits)
  obtain r1 w1 where p1: "FirecrackerSockRelPath (e_os env) (s_shimDir s) w = (Inr r1, w1)"
    using assms(1) rm by (auto simp: buildVMConfiguration_def split: prod.splits sum.splits)
  obtain vs w2 where p2: "FirecrackerVSockRelPath (e_os env) (JailPath jail) w1 = (Inr vs, w2)"
    using assms(1,2) rm p1 by (auto simp: buildVMConfiguration_def split: prod.splits sum.splits)
  let ?b = "base_config env s req r1 vs"
  note red = assms(1)[unfolded buildVMConfiguration_def rm option.case p1 prod.case sum.case assms(2) p2]
  obtain h cfg1 w3 where c1: "CreateContainerStubs (e_os env) (e_tb env) ?b jail (container_count req) w2 = (Inr h, cfg1, w3)"
    using red by (auto simp: Let_def split: prod.splits sum.splits)
  let ?s1 = "s\<lparr>containerStubHandler := Some h\<rparr>"
  obtain stubs cfg2 w4 where c2: "CreateDriveMountStubs (e_os env) (e_tb env) cfg1 jail (DriveMounts req) w3 = (Inr stubs, cfg2, w4)"
    using red by (auto simp: c1 Let_def split: prod.splits sum.splits)
  let ?nis = "case NetworkInterfaces req of None \<Rightarrow> DefaultNetworkInterfaces (s_config s) | Some nis \<Rightarrow> nis"
  obtain ncs where n: "network_configs env (s_vmID s) ?nis [] = Inr ncs"
      and cfg: "cfg = cfg2\<lparr>fc_NetworkInterfaces := ncs\<rparr>" and s': "s' = ?s1\<lparr>driveMountStubs := stubs\<rparr>"
    using red by (cases "NetworkInterfaces req") (auto simp: c1 c2 Let_def split: prod.splits sum.splits)
  from stub_ids_facts[OF c1 c2 assms(3,4)] have ids:
    "map DriveID (fc_Drives cfg2) = map DriveID (fc_Drives ?b) @ map driveID (freeDrives h) @ map driveID stubs"
    "distinct (map driveID (freeDrives h) @ map driveID stubs)" "length (freeDrives h) = nat (container_count req)"
    "''root_drive'' \<notin> set (map driveID (freeDrives h) @ map driveID stubs)"
    by auto
  from c1 have h: "usedDrives h = Map.empty" by (auto simp: CreateContainerStubs_def split: prod.splits sum.splits)
  have f1: "cfg1 = ?b\<lparr>fc_Drives := fc_Drives cfg1\<rparr>"
    using c1 container_stubs_frame by (fastforce simp: CreateContainerStubs_def split: prod.splits sum.splits)
  have f2: "cfg2 = cfg1\<lparr>fc_Drives := fc_Drives cfg2\<rparr>"
    using drive_mount_stubs_frame[OF c2[unfolded CreateDriveMountStubs_def]] .
  have f: "cfg2 = ?b\<lparr>fc_Drives := fc_Drives cfg2\<rparr>" by (subst f2, subst f1) simp
  have mounts: "list_all2 (\<lambda>sd dm. dm_HostPath (driveMount sd) = dm_HostPath dm \<and> dm_VMPath (driveMount sd) = dm_VMPath dm)
      stubs (DriveMounts req)"
  proof -
    from drive_mount_stubs_ok[OF c2[unfolded CreateDriveMountStubs_def] assms(3,4)] have
      "list_all2 (\<lambda>sd (i, dm). dm_HostPath (driveMount sd) = dm_HostPath dm \<and> dm_VMPath (driveMount sd) = dm_VMPath dm)
         stubs (enumerate 0 (DriveMounts req))"
      by (auto elim!: list_all2_mono)
    then show ?thesis by (auto simp: list_all2_conv_all_nth nth_enumerate_eq)
  qed
  have cnt: "int (length (freeDrives h)) = max 1 (sint (ContainerCount req))"
    using ids(3) by (simp add: container_count_def)
  have base: "fc_KernelImagePath cfg2 = fc_KernelImagePath ?b" "fc_KernelArgs cfg2 = fc_KernelArgs ?b" "fc_VMID cfg2 = fc_VMID ?b"
    "fc_VsockDevices cfg2 = fc_VsockDevices ?b" "fc_NetNS cfg2 = fc_NetNS ?b" "fc_MachineCfg cfg2 = fc_MachineCfg ?b"
    by (subst f, simp)+
  from n[unfolded network_configs_all] have nets:
    "list_all2 (\<lambda>ni nc. networkConfigFromProto (e_tb env) (e_ParseCIDR env) (e_ParseIP env) ni (s_vmID s) = Inr nc) ?nis ncs"
    by simp
  have rmi: "\<forall>dm \<in> set (DriveMounts req). strings_HasPrefix (dm_HostPath dm) ''/'' \<and> strings_HasPrefix (dm_VMPath dm) ''/''"
    using rm by (simp add: relative_mount_iff)
  show ?thesis
    by (rule exI[of _ h], rule exI[of _ "map driveID (freeDrives h) @ map driveID stubs"], rule exI[of _ vs], intro conjI)
      (use ids h mounts cnt base nets rmi in \<open>simp_all add: cfg s' base_config_def\<close>)
qed

theorem buildVMConfiguration_content_witness:
  "\<exists>cfg d h. buildVMConfiguration (shim_fine (svc_fine :: unit TaskService)) (first_service\<lparr>s_jailer := Some fine_jailer\<rparr>) first_request () =
       (Inr cfg, first_service\<lparr>s_jailer := Some fine_jailer, containerStubHandler := Some h, driveMountStubs := []\<rparr>, ()) \<and>
     freeDrives h = [d] \<and> fc_VMID cfg = ''vm-1'' \<and> fc_KernelImagePath cfg = ''k'' \<and>
     map DriveID (fc_Drives cfg) = [''root_drive'', driveID d] \<and> distinct (map DriveID (fc_Drives cfg))"
proof -
  let ?env = "shim_fine (svc_fine :: unit TaskService)"
  let ?s = "first_service\<lparr>s_jailer := Some fine_jailer\<rparr> :: (unit, unit) service"
  note f = first_service_def initial_service_def
  have s: "s_shimDir ?s = ''/run/default/vm-1''" "s_jailer ?s = Some fine_jailer" "s_config ?s = plain_shim_config" "s_vmID ?s = ''vm-1''"
    by (simp_all add: f)
  obtain cfg d h where b: "buildVMConfiguration ?env ?s first_request () =
      (Inr cfg, ?s\<lparr>containerStubHandler := Some h, driveMountStubs := []\<rparr>, ())" and h: "h = \<lparr>freeDrives = [d], usedDrives = Map.empty\<rparr>"
    using fine_build[OF s(1-3), of svc_fine] by blast
  have root: "RootPath (JailPath fine_jailer) = abs_path [''run'', ''default'', ''vm-1'']" "\<forall>c \<in> set [''run'', ''default'', ''vm-1'']. good_comp c"
    by (simp_all add: RootPath_def noop_JailPath_def newNoopJailer_def abs_path_def good_comp_def)
  have r: "map DriveID (buildRootDrive ?env ?s first_request) = [''root_drive'']"
    by (simp add: buildRootDrive_def shim_fine_def)
  have k: "KernelImagePath first_request = []" "cfg_KernelImagePath plain_shim_config = ''k''"
    by (simp_all add: first_request_def start_request_def plain_shim_config_def example_config_def)
  have u: "CHR ''_'' \<notin> set base32_alphabet" by (simp add: base32_alphabet_def)
  from buildVMConfiguration_content[OF b s(2) root] h r k s(3,4)
  have c: "fc_VMID cfg = ''vm-1''" "fc_KernelImagePath cfg = ''k''" "map DriveID (fc_Drives cfg) = [''root_drive'', driveID d]"
    "driveID d \<noteq> ''root_drive''" by auto
  have "freeDrives h = [d]" "distinct (map DriveID (fc_Drives cfg))" using c h by simp_all
  with b c show ?thesis by (intro exI conjI) assumption+
qed

section \<open>Starting a shim from a bundle\<close>

text \<open>
  \<open>StartShim\<close> asks for the VM that the bundle names, and takes one that already runs. When it gives an address, then it is the
  shim's for the VM of the annotation, or for a fresh id when there is none; the last call it made was \<open>CreateVM\<close> for that VM, and
  it either succeeded or was refused with \<open>AlreadyExists\<close>. Only a VM made for a bundle without the annotation is asked to go away with its last
  task and to have a drive for one container.
\<close>

theorem StartShim_sends:
  assumes "StartShim os decode OpenLogFifo NewV4 NewClient CreateVM sockaddr ns ttrpc s w = (Inr addr, s', w')"
  shows "\<exists>cwd named fresh req err w0 w1 w2 w3.
    os_Getwd os w0 = (Inr cwd, w1) \<and> fst (OCIConfig_VMID os decode (OCIConfig cwd) w1) = Inr named \<and>
    (if named = [] then fst (NewV4 w2) = Inr fresh \<and> req = start_request fresh True 1 else req = start_request named False 0) \<and>
    s' = s\<lparr>s_vmID := VMID req\<rparr> \<and> CreateVM req w3 = (err, w') \<and>
    (err = None \<or> (\<exists>msg. err = Some (StatusError AlreadyExists msg))) \<and> SocketAddress sockaddr ns (VMID req) = Inr addr"
proof -
  obtain w0 where w0: "OpenLogFifo w = (None, w0)" using assms by (auto simp: StartShim_def split: prod.splits option.splits)
  obtain cwd w1 where w1: "os_Getwd os w0 = (Inr cwd, w1)"
    using assms w0 by (auto simp: StartShim_def split: prod.splits sum.splits)
  obtain named w2 where w2: "OCIConfig_VMID os decode (OCIConfig cwd) w1 = (Inr named, w2)"
    using assms w0 w1 by (auto simp: StartShim_def split: prod.splits sum.splits)
  note red = assms[unfolded StartShim_def w0 prod.case option.case w1 sum.case w2]
  let ?vm = "if named = [] then (case NewV4 w2 of
                (Inl err, w) \<Rightarrow> (Inl (Wrap err ''failed to generate UUID for VMID'' []), w)
              | (Inr uuid, w) \<Rightarrow> (Inr (uuid, 1 :: int, True), w))
            else (Inr (named, 0, False), w2)"
  obtain p w3 where p: "?vm = (p, w3)" by fastforce
  obtain vm n x where "p = Inr (vm, n, x)"
  proof (cases p)
    case (Inl e)
    with red[unfolded p] show ?thesis by simp
  next
    case (Inr q)
    with that show ?thesis by (cases q) simp
  qed
  with p have w3: "?vm = (Inr (vm, n, x), w3)" by simp
  have id: "if named = [] then fst (NewV4 w2) = Inr vm \<and> n = 1 \<and> x else vm = named \<and> n = 0 \<and> \<not> x"
    using w3 by (auto split: if_splits prod.splits sum.splits)
  note red = red[unfolded w3 prod.case sum.case Let_def]
  obtain w4 where w4: "NewClient ttrpc w3 = (None, w4)" using red by (auto split: prod.splits option.splits)
  obtain err w5 where w5: "CreateVM (start_request vm x n) w4 = (err, w5)" by fastforce
  have e: "(err = None \<or> (\<exists>msg. err = Some (StatusError AlreadyExists msg))) \<and> SocketAddress sockaddr ns vm = Inr addr \<and>
      s' = s\<lparr>s_vmID := vm\<rparr> \<and> w5 = w'"
    using red by (auto simp: w4 w5 split: option.splits gerr.splits grpc_code.splits)
  have v: "VMID (start_request vm x n) = vm" by (simp add: start_request_def)
  show ?thesis
  proof (intro exI conjI)
    show "os_Getwd os w0 = (Inr cwd, w1)" by (rule w1)
    show "fst (OCIConfig_VMID os decode (OCIConfig cwd) w1) = Inr named" by (simp add: w2)
    show "if named = [] then fst (NewV4 w2) = Inr vm \<and> start_request vm x n = start_request vm True 1
        else start_request vm x n = start_request named False 0" using id by (simp split: if_splits)
    show "CreateVM (start_request vm x n) w4 = (err, w')" using w5 e by simp
  qed (use e v in simp_all)
qed

theorem StartShim_sends_witness:
  "\<exists>s' w'. StartShim os_fine (\<lambda>_. Inr Map.empty) (\<lambda>w. (None, w)) (\<lambda>w. (Inr ''u'', w)) (\<lambda>a w. (None, w))
       (\<lambda>req w. (Some (StatusError AlreadyExists []), w @ [req])) (\<lambda>ns i. Inr (''/s/'' @ i)) ''default'' ''/t''
       (first_service :: (CreateVMRequest list, unit) service) [] = (Inr ''/s/u'', s', w') \<and>
     s_vmID s' = ''u'' \<and> w' = [start_request ''u'' True 1]"
proof -
  let ?c = "\<lambda>req (w :: CreateVMRequest list). (Some (StatusError AlreadyExists []), w @ [req])"
  have e: "StartShim os_fine (\<lambda>_. Inr Map.empty) (\<lambda>w. (None, w)) (\<lambda>w. (Inr ''u'', w)) (\<lambda>a w. (None, w)) ?c
      (\<lambda>ns i. Inr (''/s/'' @ i)) ''default'' ''/t'' first_service [] =
      (Inr ''/s/u'', first_service\<lparr>s_vmID := ''u''\<rparr>, [start_request ''u'' True 1])"
    by (simp add: StartShim_def os_fine_def OCIConfig_VMID_def OCIConfig_File_def SocketAddress_def)
  from StartShim_sends[OF e] e show ?thesis by auto
qed

end
