(* ===== verification/Control.thy ===== *)
theory Control
  imports HostService
begin

text \<open>
  \<open>firecracker-control/local.go\<close>, \<open>service.go\<close> and \<open>client/client.go\<close>, with the waiting loops of \<open>internal/psutil.go\<close>: the
  containerd plugin that starts one shim process per VM, passes the calls about a VM to its shim and
  waits for the shim's end. Sockets, processes, the clients of a shim and the process table are the fields of
  \<open>ctl_env\<close>. The functions that a call has deferred are a list of data, run in the
  reverse order when the call returns.
\<close>

section \<open>Waiting for processes\<close>

text \<open>
  The tickers of \<open>psutil.go\<close>: one entry of the schedule per tick, \<open>Done\<close> when the context is over by then. \<open>None\<close>
  is still waiting.
\<close>

fun WaitForPidToExit ::
    "(int \<Rightarrow> 'w \<Rightarrow> (gerr + bool) \<times> 'w) \<Rightarrow> select list \<Rightarrow> int \<Rightarrow> 'w \<Rightarrow> gerr option option \<times> 'w" where
  "WaitForPidToExit PidExists [] pid w = (None, w)"
| "WaitForPidToExit PidExists (Done err # ticks) pid w = (Some (Some err), w)"
| "WaitForPidToExit PidExists (Tick # ticks) pid w =
     (case PidExists pid w of
        (Inl err, w) \<Rightarrow> (Some (Some err), w)
      | (Inr pidExists, w) \<Rightarrow> if \<not> pidExists then (Some None, w) else WaitForPidToExit PidExists ticks pid w)"

fun matching :: "('p \<Rightarrow> 'w \<Rightarrow> (gerr + bool) \<times> 'w) \<Rightarrow> 'p list \<Rightarrow> 'p list \<Rightarrow> 'w \<Rightarrow> (gerr + 'p list) \<times> 'w" where
  "matching matcher [] matches w = (Inr matches, w)"
| "matching matcher (p # ps) matches w =
     (case matcher p w of
        (Inl err, w) \<Rightarrow> (Inl err, w)
      | (Inr isMatch, w) \<Rightarrow> matching matcher ps (if isMatch then matches @ [p] else matches) w)"

fun WaitForProcessToExist ::
    "('w \<Rightarrow> (gerr + 'p list) \<times> 'w) \<Rightarrow> ('p \<Rightarrow> 'w \<Rightarrow> (gerr + bool) \<times> 'w) \<Rightarrow> select list \<Rightarrow> 'w \<Rightarrow> (gerr + 'p list) option \<times> 'w" where
  "WaitForProcessToExist Processes matcher [] w = (None, w)"
| "WaitForProcessToExist Processes matcher (Done err # ticks) w = (Some (Inl err), w)"
| "WaitForProcessToExist Processes matcher (Tick # ticks) w =
     (case Processes w of
        (Inl err, w) \<Rightarrow> (Some (Inl err), w)
      | (Inr processes, w) \<Rightarrow>
          (case matching matcher processes [] w of
             (Inl err, w) \<Rightarrow> (Some (Inl err), w)
           | (Inr matches, w) \<Rightarrow>
               if 0 < length matches then (Some (Inr matches), w) else WaitForProcessToExist Processes matcher ticks w))"

section \<open>The plugin's state and its surroundings\<close>

record local =
  containerdAddress :: string
  l_config :: Config
  processes :: "string \<rightharpoonup> 32 word"

record shim_cmd =
  sc_Name :: string
  sc_Args :: "string list"
  sc_Dir :: string
  sc_ExtraFiles :: "string list"
  sc_Env :: "string list"
  sc_Setpgid :: bool

text \<open>The ttrpc client of a shim. \<open>StopVM\<close> gets the VM's id and the timeout in seconds.\<close>

record 'w shim_client =
  cl_Close :: "'w \<Rightarrow> 'w"
  cl_CreateVM :: "CreateVMRequest \<Rightarrow> 'w \<Rightarrow> (gerr + CreateVMResponse) \<times> 'w"
  cl_StopVM :: "string \<Rightarrow> 32 word \<Rightarrow> 'w \<Rightarrow> gerr option \<times> 'w"
  cl_GetVMInfo :: "string \<Rightarrow> 'w \<Rightarrow> (gerr + CreateVMResponse) \<times> 'w"
  cl_SetVMMetadata :: "string \<Rightarrow> string \<Rightarrow> 'w \<Rightarrow> gerr option \<times> 'w"
  cl_UpdateVMMetadata :: "string \<Rightarrow> string \<Rightarrow> 'w \<Rightarrow> gerr option \<times> 'w"
  cl_GetVMMetadata :: "string \<Rightarrow> 'w \<Rightarrow> (gerr + string) \<times> 'w"

text \<open>
  \<open>c_namespace\<close> and \<open>c_SocketAddress\<close> are what a request's context gives. A socket is named by its address, the file of
  a socket too. \<open>c_error_text\<close> is the text of an error, \<open>c_ticks\<close> what the request's context lets the
  wait for a shim see.
\<close>

record 'w ctl_env =
  c_os :: "'w os"
  c_Validate :: "string \<Rightarrow> gerr option"
  c_namespace :: "gerr + string"
  c_SocketAddress :: "string \<Rightarrow> string \<Rightarrow> gerr + string"
  c_NewSocket :: "string \<Rightarrow> 'w \<Rightarrow> gerr option \<times> 'w"
  c_CloseSocket :: "string \<Rightarrow> 'w \<Rightarrow> 'w"
  c_File :: "string \<Rightarrow> 'w \<Rightarrow> gerr option \<times> 'w"
  c_CloseFile :: "string \<Rightarrow> 'w \<Rightarrow> gerr option \<times> 'w"
  c_Environ :: "string list"
  c_Start :: "shim_cmd \<Rightarrow> 'w \<Rightarrow> (gerr + int) \<times> 'w"
  c_Kill :: "int \<Rightarrow> 'w \<Rightarrow> 'w"
  c_Getpid :: int
  c_GetOOMScoreAdj :: "int \<Rightarrow> 'w \<Rightarrow> (gerr + int) \<times> 'w"
  c_SetOOMScore :: "int \<Rightarrow> int \<Rightarrow> 'w \<Rightarrow> gerr option \<times> 'w"
  c_NewClient :: "string \<Rightarrow> 'w \<Rightarrow> (gerr + 'w shim_client) \<times> 'w"
  c_PidExists :: "int \<Rightarrow> 'w \<Rightarrow> (gerr + bool) \<times> 'w"
  c_ticks :: "select list"
  c_error_text :: "gerr \<Rightarrow> string"

definition newLocal ::
    "'w os \<Rightarrow> (string \<Rightarrow> string) \<Rightarrow> (string \<Rightarrow> Config \<times> string list \<Rightarrow> gerr + Config \<times> string list) \<Rightarrow> string \<Rightarrow>
     string \<Rightarrow> string \<Rightarrow> 'w \<Rightarrow> (gerr + local) \<times> 'w" where
  "newLocal os getenv Unmarshal t2 Root Address w =
     (case os_MkdirAll os Root 488 w of
        (mkErr, w) \<Rightarrow>
          if mkErr \<noteq> None \<and> \<not> os_IsExist (the mkErr)
          then (Inl (Wrap (the mkErr) ''failed to create root directory: %s'' [Root]), w)
          else
            (case LoadConfig os getenv Unmarshal t2 [] w of
               (Inl err, w) \<Rightarrow> (Inl (Wrap err ''failed to load config'' []), w)
             | (Inr (cfg, helper), w) \<Rightarrow>
                 (Inr \<lparr>containerdAddress = Address, l_config = cfg, processes = Map.empty\<rparr>, w)))"

section \<open>Starting a shim process\<close>

definition ShimBinaryName :: string where "ShimBinaryName = ''containerd-shim-aws-firecracker''"

definition ttrpcAddressEnv :: string where "ttrpcAddressEnv = ''TTRPC_ADDRESS''"

text \<open>\<open>strings.Contains\<close>.\<close>

fun strings_Contains :: "string \<Rightarrow> string \<Rightarrow> bool" where
  "strings_Contains [] t = (t = [])"
| "strings_Contains (c # cs) t = (strings_HasPrefix (c # cs) t \<or> strings_Contains cs t)"

definition isEADDRINUSE :: "(gerr \<Rightarrow> string) \<Rightarrow> gerr option \<Rightarrow> bool" where
  "isEADDRINUSE text err = (case err of None \<Rightarrow> False | Some e \<Rightarrow> strings_Contains (text e) ''address already in use'')"

definition setShimOOMScore :: "'w ctl_env \<Rightarrow> int \<Rightarrow> 'w \<Rightarrow> gerr option \<times> 'w" where
  "setShimOOMScore env shimPid w =
     (case c_GetOOMScoreAdj env (c_Getpid env) w of
        (Inl err, w) \<Rightarrow> (Some (Wrap err ''failed to get OOM score for containerd'' []), w)
      | (Inr score, w) \<Rightarrow>
          (let shimScore = score + 1 in
           case c_SetOOMScore env shimPid shimScore w of
             (Some err, w) \<Rightarrow> (Some (Wrap err ''failed to set OOM score on shim'' []), w)
           | (None, w) \<Rightarrow> (None, w)))"

text \<open>The command, once the directory and the files of the two sockets are there.\<close>

definition shim_command :: "'w ctl_env \<Rightarrow> string \<Rightarrow> string \<Rightarrow> string \<Rightarrow> string \<Rightarrow> string \<Rightarrow> string \<Rightarrow> shim_cmd" where
  "shim_command env ns vmID address dir shimSocketFile fcSocketFile =
     (let ExtraFiles = [shimSocketFile, fcSocketFile];
          fcSocketFDNum = 2 + length ExtraFiles;
          ttrpc = address @ ''.ttrpc''
      in \<lparr>sc_Name = ShimBinaryName, sc_Args = [''-namespace'', ns, ''-address'', address], sc_Dir = RootPath dir,
          sc_ExtraFiles = ExtraFiles,
          sc_Env = c_Environ env @
            [ttrpcAddressEnv @ ''='' @ ttrpc, VMIDEnvVarKey @ ''='' @ vmID,
             FCSocketFDEnvKey @ ''='' @ itoa (int fcSocketFDNum)],
          sc_Setpgid = True\<rparr>)"

text \<open>\<open>newShim\<close> gives the pid. The goroutine that waits for the process is \<open>shim_reaper\<close>.\<close>

definition newShim ::
    "'w ctl_env \<Rightarrow> local \<Rightarrow> string \<Rightarrow> string \<Rightarrow> string \<Rightarrow> string \<Rightarrow> string \<Rightarrow> 'w \<Rightarrow> (gerr + int) \<times> 'w" where
  "newShim env s ns vmID address shimSocket fcSocket w =
     (case ShimDir (c_os env) (c_Validate env) (ShimBaseDir (l_config s)) ns vmID w of
        (Inl err, w) \<Rightarrow> (Inl (Wrap err ''failed to create shim dir'' []), w)
      | (Inr dir, w) \<Rightarrow>
     (case c_File env shimSocket w of
        (Some err, w) \<Rightarrow> (Inl (Wrap err ''failed to get shim socket fd'' []), w)
      | (None, w) \<Rightarrow>
     (case c_File env fcSocket w of
        (Some err, w) \<Rightarrow> (Inl (Wrap err ''failed to get shim fccontrol socket fd'' []), w)
      | (None, w) \<Rightarrow>
     (case c_Start env (shim_command env ns vmID address dir shimSocket fcSocket) w of
        (Inl err, w) \<Rightarrow> (Inl (Wrap err ''failed to start shim child process'' []), w)
      | (Inr pid, w) \<Rightarrow>
          (case setShimOOMScore env pid w of
             (Some err, w) \<Rightarrow> (Inl err, w)
           | (None, w) \<Rightarrow> (Inr pid, w))))))"

text \<open>What that goroutine does after the process has ended; its errors are only logged.\<close>

definition shim_reaper :: "'w ctl_env \<Rightarrow> string \<Rightarrow> string \<Rightarrow> string \<Rightarrow> 'w \<Rightarrow> 'w" where
  "shim_reaper env shimSocketFile fcSocketFile dir w =
     (let (_, w) = c_CloseFile env shimSocketFile w;
          (_, w) = c_CloseFile env fcSocketFile w;
          (_, w) = os_RemoveAll (c_os env) (RootPath dir) w
      in w)"

section \<open>Creating a VM\<close>

definition addShim :: "local \<Rightarrow> string \<Rightarrow> int \<Rightarrow> local" where
  "addShim s address pid = s\<lparr>processes := (processes s)(address \<mapsto> word_of_int pid)\<rparr>"

definition client_New :: "'w ctl_env \<Rightarrow> string \<Rightarrow> 'w \<Rightarrow> (gerr + 'w shim_client) \<times> 'w" where
  "client_New env ttrpcAddress w =
     (case c_NewClient env ttrpcAddress w of
        (Inl err, w) \<Rightarrow> (Inl (Wrap err ''failed to create ttrpc client'' []), w)
      | (Inr c, w) \<Rightarrow> (Inr c, w))"

definition request_ns :: "'w ctl_env \<Rightarrow> string" where
  "request_ns env = (case c_namespace env of Inl _ \<Rightarrow> [] | Inr ns \<Rightarrow> ns)"

definition shimFirecrackerClient :: "'w ctl_env \<Rightarrow> string \<Rightarrow> 'w \<Rightarrow> (gerr + 'w shim_client) \<times> 'w" where
  "shimFirecrackerClient env vmID w =
     (case c_Validate env vmID of
        Some err \<Rightarrow> (Inl (Wrap err ''invalid id'' []), w)
      | None \<Rightarrow>
          (case FCControlSocketAddress (c_SocketAddress env) (request_ns env) vmID of
             Inl err \<Rightarrow> (Inl (Wrap err ''failed to get shim's fccontrol socket address'' []), w)
           | Inr socketAddr \<Rightarrow> client_New env (CHR 0x00 # socketAddr) w))"

text \<open>The deferred functions; two of them act only when the call fails.\<close>

datatype 'w deferred =
    CloseSocket string
  | RemoveShimDir string
  | KillShim int
  | CloseClient "'w shim_client"

fun run_deferred :: "'w ctl_env \<Rightarrow> bool \<Rightarrow> 'w deferred \<Rightarrow> 'w \<Rightarrow> 'w" where
  "run_deferred env failed (CloseSocket address) w = c_CloseSocket env address w"
| "run_deferred env failed (RemoveShimDir path) w = (if failed then snd (os_RemoveAll (c_os env) path w) else w)"
| "run_deferred env failed (KillShim pid) w = (if failed then c_Kill env pid w else w)"
| "run_deferred env failed (CloseClient c) w = cl_Close c w"

text \<open>The list has the function that was deferred last in front.\<close>

fun run_defers :: "'w ctl_env \<Rightarrow> bool \<Rightarrow> 'w deferred list \<Rightarrow> 'w \<Rightarrow> 'w" where
  "run_defers env failed [] w = w"
| "run_defers env failed (d # ds) w = run_defers env failed ds (run_deferred env failed d w)"

text \<open>
  The body of \<open>CreateVM\<close> from its end: with both sockets and the directory, the shim is started and the request is passed to it. A body returns
  also what has been deferred.
\<close>

definition create_with_shim ::
    "'w ctl_env \<Rightarrow> local \<Rightarrow> CreateVMRequest \<Rightarrow> string \<Rightarrow> string \<Rightarrow> string \<Rightarrow> 'w deferred list \<Rightarrow> 'w \<Rightarrow>
     (gerr + CreateVMResponse) \<times> 'w deferred list \<times> local \<times> 'w" where
  "create_with_shim env s req ns shimSocketAddress fcSocketAddress ds w =
     (let vmid = VMID req in
      case newShim env s ns vmid (containerdAddress s) shimSocketAddress fcSocketAddress w of
        (Inl err, w) \<Rightarrow> (Inl err, ds, s, w)
      | (Inr pid, w) \<Rightarrow>
     (let ds = KillShim pid # ds in
      case shimFirecrackerClient env vmid w of
        (Inl err, w) \<Rightarrow> (Inl (Wrap err ''failed to create firecracker shim client'' []), ds, s, w)
      | (Inr client, w) \<Rightarrow>
     (let ds = CloseClient client # ds in
      case cl_CreateVM client req w of
        (Inl err, w) \<Rightarrow> (Inl err, ds, s, w)
      | (Inr resp, w) \<Rightarrow> (Inr resp, ds, addShim s shimSocketAddress pid, w))))"

text \<open>Once the VM's directory is there.\<close>

definition create_in_dir ::
    "'w ctl_env \<Rightarrow> local \<Rightarrow> CreateVMRequest \<Rightarrow> string \<Rightarrow> string \<Rightarrow> 'w deferred list \<Rightarrow> 'w \<Rightarrow>
     (gerr + CreateVMResponse) \<times> 'w deferred list \<times> local \<times> 'w" where
  "create_in_dir env s req ns shimSocketAddress ds w =
     (case FCControlSocketAddress (c_SocketAddress env) ns (VMID req) of
        Inl err \<Rightarrow> (Inl (Wrap err ''failed to obtain shim socket address'' []), ds, s, w)
      | Inr fcSocketAddress \<Rightarrow>
     (case c_NewSocket env fcSocketAddress w of
        (Some err, w) \<Rightarrow> (Inl (Wrap err ''failed to open fccontrol socket at address %q'' [fcSocketAddress]), ds, s, w)
      | (None, w) \<Rightarrow>
          create_with_shim env s req ns shimSocketAddress fcSocketAddress (CloseSocket fcSocketAddress # ds) w))"

text \<open>Once the shim's socket is open.\<close>

definition create_with_socket ::
    "'w ctl_env \<Rightarrow> local \<Rightarrow> CreateVMRequest \<Rightarrow> string \<Rightarrow> string \<Rightarrow> 'w deferred list \<Rightarrow> 'w \<Rightarrow>
     (gerr + CreateVMResponse) \<times> 'w deferred list \<times> local \<times> 'w" where
  "create_with_socket env s req ns shimSocketAddress ds w =
     (case os_Mkdir (c_os env) (ShimBaseDir (l_config s)) 448 w of
        (mkErr, w) \<Rightarrow>
          if mkErr \<noteq> None \<and> \<not> os_IsExist (the mkErr)
          then (Inl (Wrap (the mkErr) ''failed to make shim base directory: %s'' [ShimBaseDir (l_config s)]), ds, s, w)
          else
     (case ShimDir (c_os env) (c_Validate env) (ShimBaseDir (l_config s)) ns (VMID req) w of
        (Inl err, w) \<Rightarrow> (Inl (Wrap err ''failed to build shim path'' []), ds, s, w)
      | (Inr dir, w) \<Rightarrow>
     (case dir_Mkdir (c_os env) dir w of
        (Some err, w) \<Rightarrow> (Inl (Wrap err ''failed to create VM dir %q'' [RootPath dir]), ds, s, w)
      | (None, w) \<Rightarrow> create_in_dir env s req ns shimSocketAddress (RemoveShimDir (RootPath dir) # ds) w)))"

definition create_body_ctl ::
    "'w ctl_env \<Rightarrow> local \<Rightarrow> CreateVMRequest \<Rightarrow> 'w \<Rightarrow> (gerr + CreateVMResponse) \<times> 'w deferred list \<times> local \<times> 'w" where
  "create_body_ctl env s req w =
     (let vmid = VMID req in
      case c_Validate env vmid of
        Some err \<Rightarrow> (Inl err, [], s, w)
      | None \<Rightarrow>
     (case c_namespace env of
        Inl err \<Rightarrow> (Inl (Wrap err ''error retrieving namespace of request'' []), [], s, w)
      | Inr ns \<Rightarrow>
     (case SocketAddress (c_SocketAddress env) ns vmid of
        Inl err \<Rightarrow> (Inl (Wrap err ''failed to obtain shim socket address'' []), [], s, w)
      | Inr shimSocketAddress \<Rightarrow>
     (case c_NewSocket env shimSocketAddress w of
        (sockErr, w) \<Rightarrow>
          if isEADDRINUSE (c_error_text env) sockErr
          then (Inl (StatusError AlreadyExists ''VM with ID %q already exists (socket: %q)''), [], s, w)
          else if sockErr \<noteq> None
          then (Inl (Wrap (the sockErr) ''failed to open shim socket at address %q'' [shimSocketAddress]), [], s, w)
          else create_with_socket env s req ns shimSocketAddress [CloseSocket shimSocketAddress] w))))"

definition local_CreateVM ::
    "'w ctl_env \<Rightarrow> local \<Rightarrow> CreateVMRequest \<Rightarrow> 'w \<Rightarrow> (gerr + CreateVMResponse) \<times> local \<times> 'w" where
  "local_CreateVM env s req w =
     (case create_body_ctl env s req w of (r, ds, s, w) \<Rightarrow> (r, s, run_defers env (\<not> isOk r) ds w))"

section \<open>Stopping a VM\<close>

text \<open>The outer \<open>None\<close> is still waiting, with the lock held.\<close>

definition waitForShimToExit ::
    "'w ctl_env \<Rightarrow> local \<Rightarrow> string \<Rightarrow> 'w \<Rightarrow> gerr option option \<times> local \<times> 'w" where
  "waitForShimToExit env s vmID w =
     (case SocketAddress (c_SocketAddress env) (request_ns env) vmID of
        Inl err \<Rightarrow> (Some (Some err), s, w)
      | Inr socketAddr \<Rightarrow>
          (case processes s socketAddr of
             None \<Rightarrow> (Some (Some (Errorf ''failed to find a shim process for %q'' [socketAddr])), s, w)
           | Some pid \<Rightarrow>
               (case WaitForPidToExit (c_PidExists env) (c_ticks env) (sint pid) w of
                  (None, w) \<Rightarrow> (None, s, w)
                | (Some err, w) \<Rightarrow> (Some err, s\<lparr>processes := (processes s)(socketAddr := None)\<rparr>, w))))"

definition local_StopVM ::
    "'w ctl_env \<Rightarrow> local \<Rightarrow> string \<Rightarrow> 32 word \<Rightarrow> 'w \<Rightarrow> gerr option option \<times> local \<times> 'w" where
  "local_StopVM env s vmID timeout w =
     (case shimFirecrackerClient env vmID w of
        (Inl err, w) \<Rightarrow> (Some (Some err), s, w)
      | (Inr client, w) \<Rightarrow>
          (let (shimErr, w) = cl_StopVM client vmID timeout w in
           case waitForShimToExit env s vmID w of
             (None, s, w) \<Rightarrow> (None, s, w)
           | (Some waitErr, s, w) \<Rightarrow>
               (Some (if waitErr = None then shimErr
                      else multi_error_or_nil (multi_append (multi_append [] shimErr) waitErr)), s, cl_Close client w)))"

section \<open>Calls passed on\<close>

definition with_client ::
    "'w ctl_env \<Rightarrow> string \<Rightarrow> string \<Rightarrow> ('w shim_client \<Rightarrow> 'w \<Rightarrow> (gerr + 'a) \<times> 'w) \<Rightarrow> 'w \<Rightarrow> (gerr + 'a) \<times> 'w" where
  "with_client env vmID msg call w =
     (case shimFirecrackerClient env vmID w of
        (Inl err, w) \<Rightarrow> (Inl err, w)
      | (Inr client, w) \<Rightarrow>
          (case call client w of
             (Inl err, w) \<Rightarrow> (Inl (Wrap err msg []), cl_Close client w)
           | (Inr resp, w) \<Rightarrow> (Inr resp, cl_Close client w)))"

text \<open>A response that is empty.\<close>

definition empty_resp :: "('w \<Rightarrow> gerr option \<times> 'w) \<Rightarrow> 'w \<Rightarrow> (gerr + unit) \<times> 'w" where
  "empty_resp f w = (case f w of (None, w) \<Rightarrow> (Inr (), w) | (Some err, w) \<Rightarrow> (Inl err, w))"

definition local_GetVMInfo :: "'w ctl_env \<Rightarrow> string \<Rightarrow> 'w \<Rightarrow> (gerr + CreateVMResponse) \<times> 'w" where
  "local_GetVMInfo env vmID w =
     with_client env vmID ''shim client failed to get vm info'' (\<lambda>c. cl_GetVMInfo c vmID) w"

definition local_SetVMMetadata :: "'w ctl_env \<Rightarrow> string \<Rightarrow> string \<Rightarrow> 'w \<Rightarrow> (gerr + unit) \<times> 'w" where
  "local_SetVMMetadata env vmID metadata w =
     with_client env vmID ''shim client failed to set vm metadata'' (\<lambda>c. empty_resp (cl_SetVMMetadata c vmID metadata)) w"

definition local_UpdateVMMetadata :: "'w ctl_env \<Rightarrow> string \<Rightarrow> string \<Rightarrow> 'w \<Rightarrow> (gerr + unit) \<times> 'w" where
  "local_UpdateVMMetadata env vmID metadata w =
     with_client env vmID ''shim client failed to update vm metadata'' (\<lambda>c. empty_resp (cl_UpdateVMMetadata c vmID metadata)) w"

definition local_GetVMMetadata :: "'w ctl_env \<Rightarrow> string \<Rightarrow> 'w \<Rightarrow> (gerr + string) \<times> 'w" where
  "local_GetVMMetadata env vmID w =
     with_client env vmID ''shim client failed to get vm metadata'' (\<lambda>c. cl_GetVMMetadata c vmID) w"

section \<open>The plugin's service\<close>

text \<open>\<open>service.go\<close> logs and calls the local plugin.\<close>

definition fcservice_CreateVM ::
    "'w ctl_env \<Rightarrow> local \<Rightarrow> CreateVMRequest \<Rightarrow> 'w \<Rightarrow> (gerr + CreateVMResponse) \<times> local \<times> 'w" where
  "fcservice_CreateVM env s req w = local_CreateVM env s req w"

definition fcservice_StopVM ::
    "'w ctl_env \<Rightarrow> local \<Rightarrow> string \<Rightarrow> 32 word \<Rightarrow> 'w \<Rightarrow> gerr option option \<times> local \<times> 'w" where
  "fcservice_StopVM env s vmID timeout w = local_StopVM env s vmID timeout w"

definition fcservice_GetVMInfo :: "'w ctl_env \<Rightarrow> string \<Rightarrow> 'w \<Rightarrow> (gerr + CreateVMResponse) \<times> 'w" where
  "fcservice_GetVMInfo env vmID w = local_GetVMInfo env vmID w"

definition fcservice_SetVMMetadata :: "'w ctl_env \<Rightarrow> string \<Rightarrow> string \<Rightarrow> 'w \<Rightarrow> (gerr + unit) \<times> 'w" where
  "fcservice_SetVMMetadata env vmID metadata w = local_SetVMMetadata env vmID metadata w"

definition fcservice_UpdateVMMetadata :: "'w ctl_env \<Rightarrow> string \<Rightarrow> string \<Rightarrow> 'w \<Rightarrow> (gerr + unit) \<times> 'w" where
  "fcservice_UpdateVMMetadata env vmID metadata w = local_UpdateVMMetadata env vmID metadata w"

definition fcservice_GetVMMetadata :: "'w ctl_env \<Rightarrow> string \<Rightarrow> 'w \<Rightarrow> (gerr + string) \<times> 'w" where
  "fcservice_GetVMMetadata env vmID w = local_GetVMMetadata env vmID w"

end
