(* ===== verification/ControlProperties.thy ===== *)
theory ControlProperties
  imports Control ShimProperties
begin

text \<open>
  What the control plugin of \<open>firecracker-control\<close> guarantees: the resources that a call holds when it returns, the table
  of shim processes, and how it works together with the shim.
\<close>

section \<open>Resources\<close>

text \<open>
  A run of the plugin that notes what it acquires and what it releases. \<open>FileOf\<close> is the file of a socket, a second descriptor for it that
  is passed to the shim.
\<close>

datatype res = Sock string | FileOf string | Dir string | Proc int | Client

datatype ctl_ev = Acquired res | Released res

definition held :: "ctl_ev list \<Rightarrow> res set" where
  "held t = foldl (\<lambda>S e. case e of Acquired r \<Rightarrow> insert r S | Released r \<Rightarrow> S - {r}) {} t"

lemma held_simps [simp]:
  "held [] = {}" "held (t @ [Acquired r]) = insert r (held t)" "held (t @ [Released r]) = held t - {r}"
  by (simp_all add: held_def)

text \<open>The files of sockets, and the rest.\<close>

definition files :: "ctl_ev list \<Rightarrow> string set" where
  "files t = {a. FileOf a \<in> held t}"

definition rest_held :: "ctl_ev list \<Rightarrow> res set" where
  "rest_held t = held t - range FileOf"

lemma held_parts: "held t = rest_held t \<union> FileOf ` files t"
  by (auto simp: rest_held_def files_def)

lemma no_file [simp]:
  "Sock p \<notin> range FileOf" "Dir p \<notin> range FileOf" "Proc pid \<notin> range FileOf" "Client \<notin> range FileOf"
  by auto

lemma rest_simps [simp]:
  "rest_held [] = {}" "r \<notin> range FileOf \<Longrightarrow> rest_held (t @ [Acquired r]) = insert r (rest_held t)"
  "rest_held (t @ [Acquired (FileOf a)]) = rest_held t" "rest_held (t @ [Released r]) = rest_held t - {r}"
  "files [] = {}" "r \<notin> range FileOf \<Longrightarrow> files (t @ [Acquired r]) = files t"
  "files (t @ [Acquired (FileOf a)]) = insert a (files t)" "r \<notin> range FileOf \<Longrightarrow> files (t @ [Released r]) = files t"
  by (auto simp: rest_held_def files_def)

definition noting :: "('w \<Rightarrow> 'a \<times> 'w) \<Rightarrow> ('a \<Rightarrow> ctl_ev list) \<Rightarrow> 'w \<times> ctl_ev list \<Rightarrow> 'a \<times> 'w \<times> ctl_ev list" where
  "noting f ev s = (case f (fst s) of (r, w) \<Rightarrow> (r, (w, snd s @ ev r)))"

definition unnoted :: "('w \<Rightarrow> 'a \<times> 'w) \<Rightarrow> 'w \<times> ctl_ev list \<Rightarrow> 'a \<times> 'w \<times> ctl_ev list" where
  "unnoted f = noting f (\<lambda>_. [])"

definition on_ok :: "res \<Rightarrow> gerr option \<Rightarrow> ctl_ev list" where
  "on_ok r e = (if e = None then [Acquired r] else [])"

definition noting_os :: "'w os \<Rightarrow> ('w \<times> ctl_ev list) os" where
  "noting_os os =
     \<lparr>os_Mkdir = (\<lambda>p m. unnoted (os_Mkdir os p m)), os_MkdirAll = (\<lambda>p m. noting (os_MkdirAll os p m) (on_ok (Dir p))),
      os_Chown = (\<lambda>p u g. unnoted (os_Chown os p u g)), os_Chmod = (\<lambda>p m. unnoted (os_Chmod os p m)),
      os_Symlink = (\<lambda>a b. unnoted (os_Symlink os a b)), os_Link = (\<lambda>a b. unnoted (os_Link os a b)),
      os_Remove = (\<lambda>p. unnoted (os_Remove os p)), os_RemoveAll = (\<lambda>p. noting (os_RemoveAll os p) (\<lambda>_. [Released (Dir p)])),
      os_Stat = (\<lambda>p. unnoted (os_Stat os p)), os_Getwd = unnoted (os_Getwd os),
      os_ReadFile = (\<lambda>p. unnoted (os_ReadFile os p)), os_WriteFile = (\<lambda>p c m. unnoted (os_WriteFile os p c m)),
      os_ReadDir = (\<lambda>p. unnoted (os_ReadDir os p)), os_CreateExcl = (\<lambda>p m. unnoted (os_CreateExcl os p m)),
      os_WriteString = (\<lambda>p c. unnoted (os_WriteString os p c)), os_FStatSize = (\<lambda>p. unnoted (os_FStatSize os p)),
      os_Truncate = (\<lambda>p n. unnoted (os_Truncate os p n)), os_Open = (\<lambda>p. unnoted (os_Open os p)),
      os_Close = (\<lambda>p. unnoted (os_Close os p)), os_EvalSymlinks = (\<lambda>p. unnoted (os_EvalSymlinks os p)),
      os_MknodBlk = (\<lambda>p d. unnoted (os_MknodBlk os p d)), os_CpSparse = (\<lambda>a b. unnoted (os_CpSparse os a b)),
      os_Signal = (\<lambda>p sg. unnoted (os_Signal os p sg))\<rparr>"

definition noting_client :: "'w shim_client \<Rightarrow> ('w \<times> ctl_ev list) shim_client" where
  "noting_client c =
     \<lparr>cl_Close = (\<lambda>s. (cl_Close c (fst s), snd s @ [Released Client])),
      cl_CreateVM = (\<lambda>r. unnoted (cl_CreateVM c r)), cl_StopVM = (\<lambda>i n. unnoted (cl_StopVM c i n)),
      cl_GetVMInfo = (\<lambda>i. unnoted (cl_GetVMInfo c i)), cl_SetVMMetadata = (\<lambda>i m. unnoted (cl_SetVMMetadata c i m)),
      cl_UpdateVMMetadata = (\<lambda>i m. unnoted (cl_UpdateVMMetadata c i m)), cl_GetVMMetadata = (\<lambda>i. unnoted (cl_GetVMMetadata c i))\<rparr>"

definition noting_ctl :: "'w ctl_env \<Rightarrow> ('w \<times> ctl_ev list) ctl_env" where
  "noting_ctl env =
     \<lparr>c_os = noting_os (c_os env), c_Validate = c_Validate env, c_namespace = c_namespace env,
      c_SocketAddress = c_SocketAddress env,
      c_NewSocket = (\<lambda>a. noting (c_NewSocket env a) (on_ok (Sock a))),
      c_CloseSocket = (\<lambda>a s. (c_CloseSocket env a (fst s), snd s @ [Released (Sock a)])),
      c_File = (\<lambda>a. noting (c_File env a) (on_ok (FileOf a))), c_CloseFile = (\<lambda>a. noting (c_CloseFile env a) (\<lambda>_. [Released (FileOf a)])),
      c_Environ = c_Environ env,
      c_Start = (\<lambda>cmd. noting (c_Start env cmd) (\<lambda>r. case r of Inl _ \<Rightarrow> [] | Inr pid \<Rightarrow> [Acquired (Proc pid)])),
      c_Kill = (\<lambda>pid s. (c_Kill env pid (fst s), snd s @ [Released (Proc pid)])),
      c_Getpid = c_Getpid env, c_GetOOMScoreAdj = (\<lambda>p. unnoted (c_GetOOMScoreAdj env p)),
      c_SetOOMScore = (\<lambda>p n. unnoted (c_SetOOMScore env p n)),
      c_NewClient = (\<lambda>a s. case c_NewClient env a (fst s) of
          (Inl err, w) \<Rightarrow> (Inl err, (w, snd s))
        | (Inr c, w) \<Rightarrow> (Inr (noting_client c), (w, snd s @ [Acquired Client]))),
      c_PidExists = (\<lambda>p. unnoted (c_PidExists env p)), c_ticks = c_ticks env, c_error_text = c_error_text env\<rparr>"

text \<open>The steps that matter to \<open>CreateVM\<close>, on noted runs.\<close>

lemma unnoted_eq: "unnoted f (w, t) = (r, (w', t')) \<longleftrightarrow> f w = (r, w') \<and> t' = t"
  by (auto simp: unnoted_def noting_def split: prod.splits)

lemma noting_eq: "noting f ev (w, t) = (r, (w', t')) \<longleftrightarrow> f w = (r, w') \<and> t' = t @ ev r"
  by (auto simp: noting_def split: prod.splits)

lemma noted_ShimDir:
  "ShimDir (c_os (noting_ctl env)) (c_Validate (noting_ctl env)) b ns i (w, t) = (r, (w', t')) \<Longrightarrow> t' = t"
  by (auto simp: ShimDir_def shimDir_def noting_ctl_def noting_os_def unnoted_eq split: option.splits prod.splits sum.splits)

definition oom_error :: "gerr \<Rightarrow> bool" where
  "oom_error e \<longleftrightarrow> (\<exists>e0. e = Wrap e0 ''failed to get OOM score for containerd'' [] \<or> e = Wrap e0 ''failed to set OOM score on shim'' [])"

lemma noted_setShimOOMScore:
  "setShimOOMScore (noting_ctl env) pid (w, t) = (r, (w', t')) \<Longrightarrow> t' = t \<and> (\<forall>e. r = Some e \<longrightarrow> oom_error e)"
  by (auto simp: setShimOOMScore_def noting_ctl_def unnoted_eq oom_error_def split: prod.splits sum.splits option.splits)

text \<open>How a start of the shim extends the trace: \<open>e\<close> is the error, if there is one.\<close>

definition started :: "string \<Rightarrow> string \<Rightarrow> gerr + int \<Rightarrow> ctl_ev list \<Rightarrow> bool" where
  "started a fc r t \<longleftrightarrow>
     (case r of
        Inr pid \<Rightarrow> t = [Acquired (FileOf a), Acquired (FileOf fc), Acquired (Proc pid)]
      | Inl e \<Rightarrow> t = [] \<or> t = [Acquired (FileOf a)] \<or> t = [Acquired (FileOf a), Acquired (FileOf fc)] \<or>
          (\<exists>pid. t = [Acquired (FileOf a), Acquired (FileOf fc), Acquired (Proc pid)] \<and> oom_error e))"

lemma noted_newShim:
  assumes "newShim (noting_ctl env) s ns i addr a b (w, t) = (r, (w', t'))"
  shows "\<exists>ts. t' = t @ ts \<and> started a b r ts"
proof -
  let ?env = "noting_ctl env"
  obtain d w1 t1 where d: "ShimDir (c_os ?env) (c_Validate ?env) (ShimBaseDir (l_config s)) ns i (w, t) = (d, (w1, t1))"
    by (metis prod_cases3)
  note t1 = noted_ShimDir[OF d]
  show ?thesis
  proof (cases d)
    case (Inl e)
    with assms d t1 show ?thesis by (auto simp: newShim_def started_def)
  next
    case (Inr dir)
    obtain f1 w2 t2 where f1: "c_File ?env a (w1, t1) = (f1, (w2, t2))" by (metis prod_cases3)
    then have t2: "t2 = t1 @ on_ok (FileOf a) f1" by (auto simp: noting_ctl_def noting_eq)
    show ?thesis
    proof (cases f1)
      case (Some e)
      with assms d t1 t2 f1 Inr show ?thesis by (auto simp: newShim_def started_def on_ok_def)
    next
      case f1n: None
      obtain f2 w3 t3 where f2: "c_File ?env b (w2, t2) = (f2, (w3, t3))" by (metis prod_cases3)
      then have t3: "t3 = t2 @ on_ok (FileOf b) f2" by (auto simp: noting_ctl_def noting_eq)
      show ?thesis
      proof (cases f2)
        case (Some e)
        with assms d t1 t2 t3 f1 f1n f2 Inr show ?thesis by (auto simp: newShim_def started_def on_ok_def)
      next
        case f2n: None
        obtain p w4 t4 where p: "c_Start ?env (shim_command ?env ns i addr dir a b) (w3, t3) = (p, (w4, t4))" by (metis prod_cases3)
        then have t4: "t4 = t3 @ (case p of Inl _ \<Rightarrow> [] | Inr pid \<Rightarrow> [Acquired (Proc pid)])"
          by (auto simp: noting_ctl_def noting_eq)
        note ts = t1 t2 t3 t4 f1n f2n on_ok_def
        show ?thesis
        proof (cases p)
          case (Inl e)
          with assms d ts f1 f2 p Inr show ?thesis by (auto simp: newShim_def started_def)
        next
          case pid: (Inr pid)
          obtain o1 w5 t5 where o1: "setShimOOMScore ?env pid (w4, t4) = (o1, (w5, t5))" by (metis prod_cases3)
          note t5 = noted_setShimOOMScore[OF o1]
          have "r = (case o1 of None \<Rightarrow> Inr pid | Some e \<Rightarrow> Inl e) \<and> t' = t5"
            using assms d f1 f1n f2 f2n p pid o1 Inr by (cases o1) (auto simp: newShim_def)
          with ts t5 pid show ?thesis by (cases o1) (auto simp: started_def)
        qed
      qed
    qed
  qed
qed

text \<open>The same facts for a state that is not taken apart.\<close>

lemma noted_calls:
  "c_NewSocket (noting_ctl env) a x = (r, y) \<Longrightarrow> snd y = snd x @ on_ok (Sock a) r"
  "os_Mkdir (c_os (noting_ctl env)) p m x = (r, y) \<Longrightarrow> snd y = snd x"
  "dir_Mkdir (c_os (noting_ctl env)) d x = (r, y) \<Longrightarrow> snd y = snd x @ on_ok (Dir (RootPath d)) r"
  "cl_CreateVM (noting_client c) q x = (rc, y) \<Longrightarrow> snd y = snd x"
  "ShimDir (c_os (noting_ctl env)) (c_Validate (noting_ctl env)) b ns i x = (rs, y) \<Longrightarrow> snd y = snd x"
  using noted_ShimDir[of env b ns i "fst x" "snd x" rs "fst y" "snd y"]
  by (auto simp: noting_ctl_def noting_os_def dir_Mkdir_def noting_client_def unnoted_def noting_def split: prod.splits)

lemma rest_files:
  "rest_held (t @ [Acquired (FileOf a), Acquired (FileOf fc), Acquired (Proc pid)]) = insert (Proc pid) (rest_held t)"
  "files (t @ [Acquired (FileOf a), Acquired (FileOf fc), Acquired (Proc pid)]) = {a, fc} \<union> files t"
  "rest_held (t @ [Acquired (FileOf a), Acquired (FileOf fc)]) = rest_held t"
  "files (t @ [Acquired (FileOf a), Acquired (FileOf fc)]) = {a, fc} \<union> files t"
  by (auto simp: rest_held_def files_def held_def)

lemma rest_started:
  "started a fc (Inr pid) ts \<Longrightarrow> rest_held (t @ ts) = insert (Proc pid) (rest_held t) \<and> files (t @ ts) = {a, fc} \<union> files t"
  "started a fc (Inl e) ts \<Longrightarrow>
     (rest_held (t @ ts) = rest_held t \<or> (\<exists>pid. rest_held (t @ ts) = insert (Proc pid) (rest_held t) \<and> oom_error e)) \<and>
     files (t @ ts) \<subseteq> {a, fc} \<union> files t"
  unfolding started_def sum.case by (auto simp: rest_files)

lemma noted_shim:
  assumes "newShim (noting_ctl env) s ns i addr a b x = (r, y)"
  shows "\<exists>ts. snd y = snd x @ ts \<and> started a b r ts"
  using noted_newShim[of env s ns i addr a b "fst x" "snd x" r "fst y" "snd y"] assms by simp

lemma noted_client:
  "shimFirecrackerClient (noting_ctl env) i x = (Inr c, y) \<Longrightarrow> \<exists>c0. c = noting_client c0 \<and> snd y = snd x @ [Acquired Client]"
  "shimFirecrackerClient (noting_ctl env) i x = (Inl e, y) \<Longrightarrow> snd y = snd x"
  by (auto simp: shimFirecrackerClient_def client_New_def noting_ctl_def split: option.splits sum.splits prod.splits)

text \<open>What a deferred function gives back.\<close>

fun gives :: "bool \<Rightarrow> 'w deferred \<Rightarrow> res set" where
  "gives failed (CloseSocket a) = {Sock a}"
| "gives failed (RemoveShimDir p) = (if failed then {Dir p} else {})"
| "gives failed (KillShim pid) = (if failed then {Proc pid} else {})"
| "gives failed (CloseClient c) = {Client}"

definition noted_deferred :: "('w \<times> ctl_ev list) deferred \<Rightarrow> bool" where
  "noted_deferred d \<longleftrightarrow> (\<forall>c. d = CloseClient c \<longrightarrow> (\<exists>c0. c = noting_client c0))"

lemma noted_defers:
  assumes "\<forall>d \<in> set ds. noted_deferred d"
  shows "rest_held (snd (run_defers (noting_ctl env) failed ds x)) = rest_held (snd x) - \<Union> (gives failed ` set ds) \<and>
    files (snd (run_defers (noting_ctl env) failed ds x)) = files (snd x)"
  using assms
proof (induction ds arbitrary: x)
  case (Cons d ds)
  have "rest_held (snd (run_deferred (noting_ctl env) failed d x)) = rest_held (snd x) - gives failed d \<and>
      files (snd (run_deferred (noting_ctl env) failed d x)) = files (snd x)"
    using Cons.prems by (cases d)
      (auto simp: noted_deferred_def noting_ctl_def noting_os_def noting_client_def noting_def split: prod.splits)
  with Cons show ?case by auto
qed simp

lemma noted_deferred_simps [simp]:
  "noted_deferred (CloseSocket a)" "noted_deferred (RemoveShimDir p)" "noted_deferred (KillShim pid)"
  "noted_deferred (CloseClient (noting_client c))"
  by (auto simp: noted_deferred_def)

text \<open>
  A part of the body on a run that so far holds what its deferred functions give back when the call fails: it keeps it that way,
  except for the process that was started before setting its OOM score failed.
\<close>

definition all_given :: "('w \<times> ctl_ev list) deferred list \<Rightarrow> res set \<Rightarrow> bool" where
  "all_given ds S \<longleftrightarrow> (\<forall>d \<in> set ds. noted_deferred d) \<and> S = \<Union> (gives True ` set ds)"

lemma all_given_Cons: "all_given ds S \<Longrightarrow> noted_deferred d \<Longrightarrow> gives True d = {r} \<Longrightarrow> all_given (d # ds) (insert r S)"
  by (auto simp: all_given_def)

definition body_ok ::
    "local \<Rightarrow> string \<Rightarrow> string set \<Rightarrow> (gerr + CreateVMResponse) \<times> ('w \<times> ctl_ev list) deferred list \<times> local \<times> 'w \<times> ctl_ev list \<Rightarrow> bool" where
  "body_ok s a F b \<longleftrightarrow>
     (case b of (r, ds, s', y) \<Rightarrow>
        files (snd y) \<subseteq> F \<and>
        (case r of
           Inr resp \<Rightarrow> all_given ds (rest_held (snd y)) \<and> files (snd y) = F \<and>
             (\<exists>c pid fc dir a'. ds = [CloseClient c, KillShim pid, CloseSocket fc, RemoveShimDir dir, CloseSocket a'] \<and> s' = addShim s a pid)
         | Inl e \<Rightarrow> s' = s \<and> (\<forall>d \<in> set ds. noted_deferred d) \<and> (all_given ds (rest_held (snd y)) \<or>
             (\<exists>pid. rest_held (snd y) = insert (Proc pid) (\<Union> (gives True ` set ds)) \<and> oom_error e))))"

lemma body_ok_early: "all_given ds (rest_held (snd y)) \<Longrightarrow> files (snd y) \<subseteq> F \<Longrightarrow> body_ok s a F (Inl e, ds, s, y)"
  by (auto simp: body_ok_def all_given_def)

lemma noted_with_shim:
  assumes "all_given ds (rest_held (snd x))" "ds = [CloseSocket fc, RemoveShimDir dir, CloseSocket a]" "files (snd x) = {}"
  shows "body_ok s a {a, fc} (create_with_shim (noting_ctl env) s req ns a fc ds x)"
proof -
  let ?env = "noting_ctl env"
  obtain p x1 where p: "newShim ?env s ns (VMID req) (containerdAddress s) a fc x = (p, x1)" by (rule prod.exhaust)
  obtain ts where ts: "snd x1 = snd x @ ts" "started a fc p ts" using noted_shim[OF p] by blast
  show ?thesis
  proof (cases p)
    case (Inl e)
    with p rest_started(2)[OF ts(2)[unfolded Inl], of "snd x"] ts(1) assms(1,3) show ?thesis
      by (auto simp: create_with_shim_def body_ok_def all_given_def)
  next
    case (Inr pid)
    note st = rest_started(1)[OF ts(2)[unfolded Inr], of "snd x", folded ts(1)]
    have h1: "all_given (KillShim pid # ds) (rest_held (snd x1))" "files (snd x1) = {a, fc}"
      using st assms(1,3) all_given_Cons[of ds _ "KillShim pid" "Proc pid"] by simp_all
    obtain c x2 where c: "shimFirecrackerClient ?env (VMID req) x1 = (c, x2)" by (rule prod.exhaust)
    show ?thesis
    proof (cases c)
      case (Inl e)
      have "snd x2 = snd x1" by (rule noted_client(2)[OF c[unfolded Inl]])
      with p Inr c Inl h1 show ?thesis by (simp add: create_with_shim_def body_ok_early)
    next
      case cl: (Inr cl)
      from noted_client(1)[OF c[unfolded cl]] obtain c0 where c0: "cl = noting_client c0" "snd x2 = snd x1 @ [Acquired Client]" by blast
      obtain r x3 where r: "cl_CreateVM cl req x2 = (r, x3)" by (rule prod.exhaust)
      have "snd x3 = snd x2" using noted_calls(4)[OF r[unfolded c0(1)]] .
      then have h3: "all_given (CloseClient cl # KillShim pid # ds) (rest_held (snd x3))" "files (snd x3) = {a, fc}"
        using h1 c0 all_given_Cons[of "KillShim pid # ds" _ "CloseClient cl" Client] by auto
      have "create_with_shim ?env s req ns a fc ds x =
          (case r of Inl e \<Rightarrow> (Inl e, CloseClient cl # KillShim pid # ds, s, x3)
           | Inr resp \<Rightarrow> (Inr resp, CloseClient cl # KillShim pid # ds, addShim s a pid, x3))"
        using p Inr c cl r by (cases r) (simp_all add: create_with_shim_def)
      with h3 assms(2) show ?thesis by (cases r) (auto simp: body_ok_def all_given_def)
    qed
  qed
qed

text \<open>The addresses whose sockets get a second descriptor.\<close>

definition file_addrs :: "'w ctl_env \<Rightarrow> string \<Rightarrow> string \<Rightarrow> string \<Rightarrow> string set" where
  "file_addrs env ns vmid a =
     insert a (case FCControlSocketAddress (c_SocketAddress env) ns vmid of Inl _ \<Rightarrow> {} | Inr fc \<Rightarrow> {fc})"

lemma noted_in_dir:
  assumes "all_given ds (rest_held (snd x))" "ds = [RemoveShimDir dir, CloseSocket a]" "files (snd x) = {}"
  shows "body_ok s a (file_addrs env ns (VMID req) a) (create_in_dir (noting_ctl env) s req ns a ds x)"
proof -
  let ?env = "noting_ctl env"
  have sa: "c_SocketAddress ?env = c_SocketAddress env" by (simp add: noting_ctl_def)
  show ?thesis
  proof (cases "FCControlSocketAddress (c_SocketAddress env) ns (VMID req)")
    case (Inl e)
    with body_ok_early[OF assms(1)] assms(3) show ?thesis by (simp add: create_in_dir_def sa)
  next
    case (Inr fc)
    obtain r x1 where r: "c_NewSocket ?env fc x = (r, x1)" by (rule prod.exhaust)
    have n: "snd x1 = snd x @ on_ok (Sock fc) r" by (rule noted_calls(1)[OF r])
    show ?thesis
    proof (cases r)
      case (Some e)
      have "all_given ds (rest_held (snd x1))" "files (snd x1) = {}" using n Some assms(1,3) by (simp_all add: on_ok_def)
      with body_ok_early[of ds x1] Inr r Some show ?thesis by (simp add: create_in_dir_def sa)
    next
      case None
      then have "all_given (CloseSocket fc # ds) (rest_held (snd x1))" "files (snd x1) = {}"
        using n assms(1,3) all_given_Cons[of ds _ "CloseSocket fc" "Sock fc"] by (simp_all add: on_ok_def)
      from noted_with_shim[OF this(1) _ this(2), of fc dir a] Inr r None assms(2) show ?thesis
        by (simp add: create_in_dir_def sa file_addrs_def)
    qed
  qed
qed

lemma noted_with_socket:
  assumes "all_given ds (rest_held (snd x))" "ds = [CloseSocket a]" "files (snd x) = {}"
  shows "body_ok s a (file_addrs env ns (VMID req) a) (create_with_socket (noting_ctl env) s req ns a ds x)"
proof -
  let ?env = "noting_ctl env"
  have early: "body_ok s a F (Inl e, ds, s, y)" if "snd y = snd x" for e y F
    using assms(1,3) that by (intro body_ok_early) simp_all
  obtain m x1 where m: "os_Mkdir (c_os ?env) (ShimBaseDir (l_config s)) 448 x = (m, x1)" by (rule prod.exhaust)
  have h1: "snd x1 = snd x" by (rule noted_calls(2)[OF m])
  show ?thesis
  proof (cases "m \<noteq> None \<and> \<not> os_IsExist (the m)")
    case True
    with m early[of x1] h1 show ?thesis by (simp add: create_with_socket_def)
  next
    case False
    obtain d x2 where d: "ShimDir (c_os ?env) (c_Validate ?env) (ShimBaseDir (l_config s)) ns (VMID req) x1 = (d, x2)" by (rule prod.exhaust)
    have h2: "snd x2 = snd x" using noted_calls(5)[OF d] h1 by simp
    note red = create_with_socket_def[of ?env s req ns a ds x] m False d
    show ?thesis
    proof (cases d)
      case (Inl e)
      with red early[of x2] h2 show ?thesis by (auto split: if_splits)
    next
      case (Inr dir)
      obtain r x3 where r: "dir_Mkdir (c_os ?env) dir x2 = (r, x3)" by (rule prod.exhaust)
      show ?thesis
      proof (cases r)
        case (Some e)
        with noted_calls(3)[OF r] early[of x3] h2 red Inr r show ?thesis by (auto simp: on_ok_def split: if_splits)
      next
        case None
        then have h: "all_given (RemoveShimDir (RootPath dir) # ds) (rest_held (snd x3))" "files (snd x3) = {}"
          using noted_calls(3)[OF r] h2 assms(1,3) all_given_Cons[of ds _ "RemoveShimDir (RootPath dir)" "Dir (RootPath dir)"]
          by (simp_all add: on_ok_def)
        have "create_with_socket ?env s req ns a ds x = create_in_dir ?env s req ns a (RemoveShimDir (RootPath dir) # ds) x3"
          using red Inr r None by (auto split: if_splits)
        with noted_in_dir[OF h(1) _ h(2), of "RootPath dir" a] assms(2) show ?thesis by simp
      qed
    qed
  qed
qed

lemma noted_body:
  assumes "snd x = []"
  shows "(\<exists>ns a. c_namespace env = Inr ns \<and> SocketAddress (c_SocketAddress env) ns (VMID req) = Inr a \<and>
       body_ok s a (file_addrs env ns (VMID req) a) (create_body_ctl (noting_ctl env) s req x)) \<or>
     (\<exists>err. create_body_ctl (noting_ctl env) s req x = (Inl err, [], s, x))"
proof -
  let ?env = "noting_ctl env"
  have e: "c_Validate ?env = c_Validate env" "c_namespace ?env = c_namespace env" "c_SocketAddress ?env = c_SocketAddress env"
    "c_error_text ?env = c_error_text env" by (simp_all add: noting_ctl_def)
  show ?thesis
  proof (cases "c_Validate env (VMID req) = None \<and> isOk (c_namespace env) \<and>
      isOk (SocketAddress (c_SocketAddress env) (case c_namespace env of Inr ns \<Rightarrow> ns | Inl _ \<Rightarrow> []) (VMID req))")
    case False
    then have "\<exists>err. create_body_ctl ?env s req x = (Inl err, [], s, x)"
      by (auto simp: create_body_ctl_def e isOk_def Let_def split: option.splits sum.splits)
    then show ?thesis ..
  next
    case True
    then obtain ns a where v: "c_Validate env (VMID req) = None" "c_namespace env = Inr ns"
        "SocketAddress (c_SocketAddress env) ns (VMID req) = Inr a"
      by (auto simp: isOk_iff)
    obtain r x1 where r: "c_NewSocket ?env a x = (r, x1)" by (rule prod.exhaust)
    have "body_ok s a (file_addrs env ns (VMID req) a) (create_body_ctl ?env s req x)"
    proof (cases r)
      case (Some err)
      with noted_calls(1)[OF r] assms have "all_given [] (rest_held (snd x1))" "files (snd x1) = {}"
        by (simp_all add: on_ok_def all_given_def)
      then have "body_ok s a F (Inl err2, [], s, x1)" for err2 F using body_ok_early[of "[]" x1] by simp
      with v r Some show ?thesis by (simp add: create_body_ctl_def e)
    next
      case None
      with noted_calls(1)[OF r] assms rest_simps(2,6)[of "Sock a" "[]"]
      have "all_given [CloseSocket a] (rest_held (snd x1))" "files (snd x1) = {}"
        by (simp_all add: on_ok_def all_given_def)
      from noted_with_socket[OF this(1) refl this(2)] v r None show ?thesis
        by (simp add: create_body_ctl_def e isEADDRINUSE_def)
    qed
    with v show ?thesis by blast
  qed
qed

text \<open>
  C5: What \<open>CreateVM\<close> of the plugin still holds when it returns. Neither of the two sockets nor a client, whatever happened. When it
  succeeds, exactly the VM's directory, the shim process and the descriptors it has inherited stay (\<open>shim_reaper\<close> closes these at the process's end), and
  the process is registered under the VM's shim address, next to the older entries. When it fails, nothing is registered and
  nothing stays, with two exceptions: a shim that was started although its OOM score could not be set is neither killed nor
  remembered; and the second descriptors of the sockets are never closed by the call itself.
  (A resource counts as given back once that was attempted: the errors of the deferred functions are only logged.)
\<close>

theorem local_CreateVM_resources:
  assumes "local_CreateVM (noting_ctl env) s req (w, []) = (r, s', (w', t))"
  shows "case r of
      Inr resp \<Rightarrow> \<exists>dir pid ns a fc. c_namespace env = Inr ns \<and> SocketAddress (c_SocketAddress env) ns (VMID req) = Inr a \<and>
        FCControlSocketAddress (c_SocketAddress env) ns (VMID req) = Inr fc \<and>
        held t = {Dir dir, Proc pid, FileOf a, FileOf fc} \<and> s' = s\<lparr>processes := (processes s)(a := Some (word_of_int pid))\<rparr>
    | Inl e \<Rightarrow> s' = s \<and> held t - range FileOf \<in> {{}} \<union> {{Proc pid} | pid. oom_error e} \<and>
        (held t \<subseteq> range Proc \<or> (\<exists>ns a. c_namespace env = Inr ns \<and> SocketAddress (c_SocketAddress env) ns (VMID req) = Inr a \<and>
          held t \<subseteq> range Proc \<union> FileOf ` file_addrs env ns (VMID req) a))"
proof -
  let ?env = "noting_ctl env"
  obtain r' ds s1 y where b: "create_body_ctl ?env s req (w, []) = (r', ds, s1, y)" by (metis prod_cases4)
  have out: "r = r'" "s' = s1" "t = snd (run_defers ?env (\<not> isOk r') ds y)"
    using assms b by (auto simp: local_CreateVM_def)
  from noted_body[of "(w, [])" env req s] have "(\<exists>ns a. c_namespace env = Inr ns \<and> SocketAddress (c_SocketAddress env) ns (VMID req) = Inr a \<and>
       body_ok s a (file_addrs env ns (VMID req) a) (r', ds, s1, y)) \<or> (\<exists>err. (r', ds, s1, y) = (Inl err, [], s, (w, [])))"
    unfolding b by simp
  then show ?thesis
  proof
    assume "\<exists>err. (r', ds, s1, y) = (Inl err, [], s, (w, []))"
    with out show ?thesis by auto
  next
    assume "\<exists>ns a. c_namespace env = Inr ns \<and> SocketAddress (c_SocketAddress env) ns (VMID req) = Inr a \<and>
       body_ok s a (file_addrs env ns (VMID req) a) (r', ds, s1, y)"
    then obtain ns a where ns: "c_namespace env = Inr ns" "SocketAddress (c_SocketAddress env) ns (VMID req) = Inr a"
        and body: "body_ok s a (file_addrs env ns (VMID req) a) (r', ds, s1, y)" by (elim exE conjE) (rule that)
    have nd: "\<forall>d \<in> set ds. noted_deferred d" using body by (auto simp: body_ok_def all_given_def split: sum.splits)
    have t: "rest_held t = rest_held (snd y) - \<Union> (gives (\<not> isOk r') ` set ds)" "files t = files (snd y)"
      unfolding out(3) using noted_defers[OF nd, of env "\<not> isOk r'" y] by blast+
    show ?thesis
    proof (cases r')
      case (Inl e)
      with body have s1: "s1 = s" and "rest_held (snd y) = \<Union> (gives True ` set ds) \<or>
          (\<exists>pid. rest_held (snd y) = insert (Proc pid) (\<Union> (gives True ` set ds)) \<and> oom_error e)"
        by (auto simp: body_ok_def all_given_def)
      with t(1) Inl have "rest_held t = {} \<or> (\<exists>pid. rest_held t = {Proc pid} \<and> oom_error e)" by auto
      then have rest: "rest_held t \<in> {{}} \<union> {{Proc pid} | pid. oom_error e}" "rest_held t \<subseteq> range Proc" by auto
      have "files t \<subseteq> file_addrs env ns (VMID req) a" using body t(2) by (simp add: body_ok_def)
      then have "held t \<subseteq> range Proc \<union> FileOf ` file_addrs env ns (VMID req) a" unfolding held_parts[of t] using rest(2) by blast
      moreover have "held t - range FileOf \<in> {{}} \<union> {{Proc pid} | pid. oom_error e}" using rest(1) by (simp only: rest_held_def)
      ultimately show ?thesis unfolding out(1,2) Inl s1 sum.case using ns by blast
    next
      case (Inr resp)
      with body obtain c pid fc dir a' where ds: "ds = [CloseClient c, KillShim pid, CloseSocket fc, RemoveShimDir dir, CloseSocket a']"
          and g: "rest_held (snd y) = \<Union> (gives True ` set ds)" "files (snd y) = file_addrs env ns (VMID req) a"
          and s1: "s1 = addShim s a pid"
        by (auto simp: body_ok_def all_given_def)
      have rest: "rest_held t = {Dir dir, Proc pid}" using t(1) g(1) Inr unfolding ds by auto
      obtain fc' where fc': "FCControlSocketAddress (c_SocketAddress env) ns (VMID req) = Inr fc'"
        using ns(2) by (simp add: FCControlSocketAddress_def)
      have "files t = {a, fc'}" using t(2) g(2) fc' by (simp add: file_addrs_def)
      then have "held t = {Dir dir, Proc pid, FileOf a, FileOf fc'}" unfolding held_parts[of t] rest by blast
      moreover have "s' = s\<lparr>processes := (processes s)(a := Some (word_of_int pid))\<rparr>" using out(2) s1 by (simp add: addShim_def)
      ultimately show ?thesis using ns fc' unfolding out(1) Inr sum.case by blast
    qed
  qed
qed

text \<open>A plugin and a world in which everything works; a shim answers with \<open>answer\<close>.\<close>

definition vm1_response :: CreateVMResponse where
  "vm1_response = \<lparr>resp_VMID = ''vm-1'', resp_SocketPath = [], resp_LogFifoPath = [], resp_MetricsFifoPath = [], resp_CgroupPath = []\<rparr>"

definition client_fine :: "'w shim_client" where
  "client_fine =
     \<lparr>cl_Close = (\<lambda>w. w), cl_CreateVM = (\<lambda>r w. (Inr vm1_response, w)), cl_StopVM = (\<lambda>i n w. (None, w)),
      cl_GetVMInfo = (\<lambda>i w. (Inr vm1_response, w)), cl_SetVMMetadata = (\<lambda>i m w. (None, w)),
      cl_UpdateVMMetadata = (\<lambda>i m w. (None, w)), cl_GetVMMetadata = (\<lambda>i w. (Inr [], w))\<rparr>"

definition ctl_fine :: "'w ctl_env" where
  "ctl_fine =
     \<lparr>c_os = os_fine, c_Validate = V_example, c_namespace = Inr ''default'', c_SocketAddress = (\<lambda>ns i. Inr (''/s/'' @ i)),
      c_NewSocket = (\<lambda>a w. (None, w)), c_CloseSocket = (\<lambda>a w. w), c_File = (\<lambda>a w. (None, w)), c_CloseFile = (\<lambda>a w. (None, w)),
      c_Environ = [], c_Start = (\<lambda>cmd w. (Inr 7, w)), c_Kill = (\<lambda>pid w. w), c_Getpid = 1,
      c_GetOOMScoreAdj = (\<lambda>p w. (Inr 0, w)), c_SetOOMScore = (\<lambda>p n w. (None, w)),
      c_NewClient = (\<lambda>a w. (Inr client_fine, w)), c_PidExists = (\<lambda>p w. (Inr False, w)), c_ticks = [Tick],
      c_error_text = (\<lambda>e. case e of ExtError m \<Rightarrow> m | _ \<Rightarrow> [])\<rparr>"

definition fresh_local :: local where
  "fresh_local = \<lparr>containerdAddress = ''/c'', l_config = plain_shim_config, processes = Map.empty\<rparr>"

lemma fine_parts:
  "c_Validate ctl_fine ''vm-1'' = None" "c_namespace ctl_fine = Inr ''default''" "VMID first_request = ''vm-1''"
  "SocketAddress (c_SocketAddress ctl_fine) ''default'' ''vm-1'' = Inr ''/s/vm-1''"
  by (simp_all add: ctl_fine_def V_example_def first_request_def start_request_def SocketAddress_def)

lemma fine_newShim: "newShim ctl_fine fresh_local ''default'' ''vm-1'' c a b w = (Inr 7, w)"
proof -
  have "\<exists>d. ShimDir (c_os ctl_fine) (c_Validate ctl_fine) (ShimBaseDir (l_config fresh_local)) ''default'' ''vm-1'' w = (Inr d, w)"
    using fine_shim_dir[of w] by (simp add: ctl_fine_def fresh_local_def plain_shim_config_def)
  then obtain d where "ShimDir (c_os ctl_fine) (c_Validate ctl_fine) (ShimBaseDir (l_config fresh_local)) ''default'' ''vm-1'' w = (Inr d, w)"
    by (rule exE)
  then show ?thesis unfolding newShim_def by (simp add: ctl_fine_def setShimOOMScore_def Let_def)
qed

text \<open>Both the plugin's surroundings and their noted version answer every call well.\<close>

definition works :: "'w ctl_env \<Rightarrow> bool" where
  "works env \<longleftrightarrow>
     c_Validate env ''vm-1'' = None \<and> c_namespace env = Inr ''default'' \<and>
     SocketAddress (c_SocketAddress env) ''default'' ''vm-1'' = Inr ''/s/vm-1'' \<and>
     (\<forall>a w. fst (c_NewSocket env a w) = None) \<and> (\<forall>p m w. fst (os_Mkdir (c_os env) p m w) = None) \<and>
     (\<forall>w. isOk (fst (ShimDir (c_os env) (c_Validate env) (ShimBaseDir (l_config fresh_local)) ''default'' ''vm-1'' w))) \<and>
     (\<forall>d w. fst (dir_Mkdir (c_os env) d w) = None) \<and> (\<forall>a w. fst (c_File env a w) = None) \<and>
     (\<forall>cmd w. fst (c_Start env cmd w) = Inr 7) \<and> (\<forall>w. fst (setShimOOMScore env 7 w) = None) \<and>
     (\<forall>a w. \<exists>c w'. c_NewClient env a w = (Inr c, w') \<and> (\<forall>r w. fst (cl_CreateVM c r w) = Inr vm1_response))"

lemma fst_eq: "fst p = a \<longleftrightarrow> (\<exists>w. p = (a, w))"
  by (cases p) simp

lemma works_calls:
  assumes "works env"
  shows "\<exists>w'. c_NewSocket env a w = (None, w')" "\<exists>w'. os_Mkdir (c_os env) p m w = (None, w')"
    "\<exists>d w'. ShimDir (c_os env) (c_Validate env) (ShimBaseDir (l_config fresh_local)) ''default'' ''vm-1'' w = (Inr d, w')"
    "\<exists>w'. dir_Mkdir (c_os env) d w = (None, w')" "\<exists>w'. c_File env a w = (None, w')" "\<exists>w'. c_Start env cmd w = (Inr 7, w')"
    "\<exists>w'. setShimOOMScore env 7 w = (None, w')"
  using assms by (simp_all only: works_def fst_eq isOk_iff)

lemma works_newShim:
  assumes "works env"
  shows "\<exists>w'. newShim env fresh_local ''default'' ''vm-1'' c a b w = (Inr 7, w')"
proof -
  obtain d w1 where d: "ShimDir (c_os env) (c_Validate env) (ShimBaseDir (l_config fresh_local)) ''default'' ''vm-1'' w = (Inr d, w1)"
    using works_calls(3)[OF assms, of w] by (elim exE) (rule that)
  obtain w2 where f1: "c_File env a w1 = (None, w2)" by (rule exE[OF works_calls(5)[OF assms]])
  obtain w3 where f2: "c_File env b w2 = (None, w3)" by (rule exE[OF works_calls(5)[OF assms]])
  let ?cmd = "shim_command env ''default'' ''vm-1'' c d a b"
  obtain w4 where st: "c_Start env ?cmd w3 = (Inr 7, w4)" by (rule exE[OF works_calls(6)[OF assms]])
  obtain w5 where oom: "setShimOOMScore env 7 w4 = (None, w5)"
    by (rule exE[OF works_calls(7)[OF assms]])
  show ?thesis by (simp only: newShim_def d f1 f2 st oom prod.case sum.case option.case) (rule exI, rule refl)
qed

lemma works_CreateVM:
  assumes "works env"
  shows "\<exists>s' w'. local_CreateVM env fresh_local first_request w = (Inr vm1_response, s', w')"
proof -
  have facts: "c_Validate env ''vm-1'' = None" "c_namespace env = Inr ''default''"
    "SocketAddress (c_SocketAddress env) ''default'' ''vm-1'' = Inr ''/s/vm-1''"
    using assms by (simp_all add: works_def)
  obtain fc where fc: "FCControlSocketAddress (c_SocketAddress env) ''default'' ''vm-1'' = Inr fc"
    by (rule that[of "filepath_Join [''/s/vm-1'', ''fccontrol'']"]) (simp only: FCControlSocketAddress_def facts sum.case)
  obtain w1 where s1: "c_NewSocket env ''/s/vm-1'' w = (None, w1)"
    by (rule exE[OF works_calls(1)[OF assms]])
  let ?base = "ShimBaseDir (l_config fresh_local)"
  obtain w2 where m: "os_Mkdir (c_os env) ?base 448 w1 = (None, w2)"
    by (rule exE[OF works_calls(2)[OF assms]])
  obtain d w3 where d: "ShimDir (c_os env) (c_Validate env) ?base ''default'' ''vm-1'' w2 = (Inr d, w3)"
    using works_calls(3)[OF assms, of w2] by (elim exE) (rule that)
  obtain w4 where md: "dir_Mkdir (c_os env) d w3 = (None, w4)"
    by (rule exE[OF works_calls(4)[OF assms]])
  obtain w5 where s2: "c_NewSocket env fc w4 = (None, w5)"
    by (rule exE[OF works_calls(1)[OF assms]])
  obtain w6 where sh: "newShim env fresh_local ''default'' ''vm-1'' (containerdAddress fresh_local) ''/s/vm-1'' fc w5 = (Inr 7, w6)"
    using works_newShim[OF assms] by blast
  obtain c w7 where c: "c_NewClient env (CHR 0x00 # fc) w6 = (Inr c, w7)" and cr: "\<And>r w. fst (cl_CreateVM c r w) = Inr vm1_response"
    using assms unfolding works_def by blast
  obtain w8 where r: "cl_CreateVM c first_request w7 = (Inr vm1_response, w8)"
    using cr[of first_request w7, unfolded fst_eq] by (elim exE) (rule that; assumption)
  have cl: "shimFirecrackerClient env ''vm-1'' w6 = (Inr c, w7)"
    by (simp only: shimFirecrackerClient_def request_ns_def client_New_def facts fc c option.case sum.case prod.case)
  have "\<exists>ds s' w'. create_body_ctl env fresh_local first_request w = (Inr vm1_response, ds, s', w')"
    by (simp add: create_body_ctl_def create_with_socket_def create_in_dir_def create_with_shim_def Let_def isEADDRINUSE_def fine_parts
      facts fc s1 m d md s2 sh cl r)
  then obtain ds s' w' where "create_body_ctl env fresh_local first_request w = (Inr vm1_response, ds, s', w')" by (elim exE) (rule that; assumption)
  then show ?thesis by (simp add: local_CreateVM_def)
qed

lemma fst_noting [simp]: "fst (noting f ev x) = fst (f (fst x))" "fst (unnoted f x) = fst (f (fst x))"
  by (simp_all add: noting_def unnoted_def split: prod.splits)

lemma noting_works: "works (noting_ctl (ctl_fine :: unit ctl_env))"
proof -
  let ?fine = "ctl_fine :: unit ctl_env" and ?base = "ShimBaseDir (l_config fresh_local)"
  let ?env = "noting_ctl ?fine"
  have v: "c_Validate ?env ''vm-1'' = None" "c_namespace ?env = Inr ''default''"
    "SocketAddress (c_SocketAddress ?env) ''default'' ''vm-1'' = Inr ''/s/vm-1''"
    using fine_parts by (simp_all add: noting_ctl_def)
  have os: "fst (c_NewSocket ?env a x) = None" "fst (os_Mkdir (c_os ?env) p m x) = None" "fst (dir_Mkdir (c_os ?env) d x) = None"
    "fst (c_File ?env a x) = None" "fst (c_Start ?env cmd x) = Inr 7" for a x p m d cmd
    by (simp_all add: noting_ctl_def noting_os_def dir_Mkdir_def) (simp_all add: ctl_fine_def os_fine_def)
  have dir: "isOk (fst (ShimDir (c_os ?env) (c_Validate ?env) ?base ''default'' ''vm-1'' x))" for x
    by (simp add: ShimDir_def shimDir_def noting_ctl_def noting_os_def unnoted_def noting_def ctl_fine_def V_example_def os_fine_def
      fresh_local_def plain_shim_config_def)
  have "c_GetOOMScoreAdj ?env p x = (Inr 0, x)" "c_SetOOMScore ?env p n x = (None, x)" for p n x
    by (cases x; simp add: noting_ctl_def unnoted_def noting_def ctl_fine_def)+
  then have oom: "fst (setShimOOMScore ?env 7 x) = None" for x by (simp add: setShimOOMScore_def)
  have "c_NewClient ?env a x = (Inr (noting_client client_fine), (fst x, snd x @ [Acquired Client]))" for a x
    by (simp add: noting_ctl_def ctl_fine_def)
  moreover have "fst (cl_CreateVM (noting_client client_fine) r y) = Inr vm1_response" for r y
    by (simp add: noting_client_def client_fine_def)
  ultimately have "\<exists>c x'. c_NewClient ?env a x = (Inr c, x') \<and> (\<forall>r y. fst (cl_CreateVM c r y) = Inr vm1_response)" for a x
    by blast
  with v os dir oom show ?thesis unfolding works_def by simp
qed

theorem local_CreateVM_resources_witness:
  "\<exists>s' w' t dir pid fc. local_CreateVM (noting_ctl ctl_fine) fresh_local first_request ((), []) = (Inr vm1_response, s', (w', t)) \<and>
    held t = {Dir dir, Proc pid, FileOf ''/s/vm-1'', FileOf fc} \<and>
    s' = fresh_local\<lparr>processes := [''/s/vm-1'' \<mapsto> word_of_int pid]\<rparr>"
proof -
  obtain s' x where r: "local_CreateVM (noting_ctl ctl_fine) fresh_local first_request ((), []) = (Inr vm1_response, s', x)"
    using works_CreateVM[OF noting_works, of "((), [])"] by (elim exE) (rule that; assumption)
  obtain w' t where x: "x = (w', t)" by (rule prod.exhaust)
  note fp = fine_parts
  have "\<exists>dir pid ns a fc. c_namespace (ctl_fine :: unit ctl_env) = Inr ns \<and>
      SocketAddress (c_SocketAddress (ctl_fine :: unit ctl_env)) ns (VMID first_request) = Inr a \<and>
      FCControlSocketAddress (c_SocketAddress (ctl_fine :: unit ctl_env)) ns (VMID first_request) = Inr fc \<and>
      held t = {Dir dir, Proc pid, FileOf a, FileOf fc} \<and>
      s' = fresh_local\<lparr>processes := (processes fresh_local)(a := Some (word_of_int pid))\<rparr>"
    using local_CreateVM_resources[OF r[unfolded x]] by (simp only: sum.case)
  then obtain dir pid ns a fc where h: "Inr ''default'' = (Inr ns :: gerr + string)"
      "SocketAddress (c_SocketAddress (ctl_fine :: unit ctl_env)) ns ''vm-1'' = Inr a" "held t = {Dir dir, Proc pid, FileOf a, FileOf fc}"
      "s' = fresh_local\<lparr>processes := (processes fresh_local)(a := Some (word_of_int pid))\<rparr>"
    unfolding fp by (elim exE conjE) (rule that; assumption)
  have ns: "ns = ''default''" using h(1) by (rule sum.inject(2)[THEN iffD1, symmetric])
  have a: "a = ''/s/vm-1''" using h(2) unfolding ns fp(4) by (rule sum.inject(2)[THEN iffD1, symmetric])
  then have "s' = fresh_local\<lparr>processes := [''/s/vm-1'' \<mapsto> word_of_int pid]\<rparr>" using h(4) by (simp add: fresh_local_def)
  with r[unfolded x] h(3)[unfolded a] show ?thesis by blast
qed

text \<open>
  Who closes the second descriptors: the goroutine that waits for the process. When the process could not be started there is none, and nothing but the garbage collector closes
  them; until then the addresses stay in use.
\<close>

lemma shim_reaper_closes:
  "held (snd (shim_reaper (noting_ctl env) a fc dir x)) = held (snd x) - {FileOf a, FileOf fc, Dir (RootPath dir)}"
proof -
  have c: "\<exists>e y. c_CloseFile (noting_ctl env) p x = (e, y) \<and> held (snd y) = held (snd x) - {FileOf p}" for p x
    by (simp add: noting_ctl_def noting_def split: prod.splits)
  have d: "\<exists>e y. os_RemoveAll (c_os (noting_ctl env)) p x = (e, y) \<and> held (snd y) = held (snd x) - {Dir p}" for p x
    by (simp add: noting_ctl_def noting_os_def noting_def split: prod.splits)
  obtain e1 x1 where 1: "c_CloseFile (noting_ctl env) a x = (e1, x1)" "held (snd x1) = held (snd x) - {FileOf a}" using c by blast
  obtain e2 x2 where 2: "c_CloseFile (noting_ctl env) fc x1 = (e2, x2)" "held (snd x2) = held (snd x1) - {FileOf fc}" using c by blast
  obtain e3 x3 where 3: "os_RemoveAll (c_os (noting_ctl env)) (RootPath dir) x2 = (e3, x3)" "held (snd x3) = held (snd x2) - {Dir (RootPath dir)}"
    using d by blast
  show ?thesis using 1(2) 2(2) 3(2) by (auto simp: shim_reaper_def 1(1) 2(1) 3(1))
qed

lemma failed_Start_keeps_files:
  assumes "newShim (noting_ctl env) s ns i addr a fc x = (Inl (Wrap err ''failed to start shim child process'' []), y)"
  shows "FileOf a \<in> held (snd y) \<and> FileOf fc \<in> held (snd y)"
proof -
  obtain dir x1 where d: "ShimDir (c_os (noting_ctl env)) (c_Validate (noting_ctl env)) (ShimBaseDir (l_config s)) ns i x = (Inr dir, x1)"
    using assms by (auto simp: newShim_def split: prod.splits sum.splits)
  obtain x2 where f1: "c_File (noting_ctl env) a x1 = (None, x2)"
    using assms d by (auto simp: newShim_def split: prod.splits option.splits)
  obtain x3 where f2: "c_File (noting_ctl env) fc x2 = (None, x3)"
    using assms d f1 by (auto simp: newShim_def split: prod.splits option.splits)
  obtain p x4 where p: "c_Start (noting_ctl env) (shim_command (noting_ctl env) ns i addr dir a fc) x3 = (p, x4)" by (rule prod.exhaust)
  have "\<exists>e. p = Inl e"
  proof (cases p)
    case (Inr pid)
    then show ?thesis
      using assms d f1 f2 p noted_setShimOOMScore[of env pid "fst x4" "snd x4"]
      by (auto simp: newShim_def oom_error_def split: prod.splits option.splits)
  qed simp
  then have "y = x4" "snd x4 = snd x3"
    using assms d f1 f2 p by (auto simp: newShim_def noting_ctl_def noting_def split: prod.splits)
  moreover have n: "snd q' = snd q @ [Acquired (FileOf b)]" if "c_File (noting_ctl env) b q = (None, q')" for b q q'
    using that by (auto simp: noting_ctl_def noting_def on_ok_def split: prod.splits)
  ultimately show ?thesis using n[OF f1] n[OF f2] held_simps(2)[of "snd x2"] by simp
qed

section \<open>Stopping a VM\<close>

lemma WaitForPidToExit_gone:
  "WaitForPidToExit PE ticks pid w = (Some None, w') \<Longrightarrow> \<exists>w1. PE pid w1 = (Inr False, w')"
proof (induction ticks arbitrary: w)
  case (Cons x ticks)
  then show ?case by (cases x) (auto split: prod.splits sum.splits if_splits)
qed simp

lemma WaitForPidToExit_error:
  "WaitForPidToExit PE ticks pid w = (Some (Some err), w') \<Longrightarrow> Done err \<in> set ticks \<or> (\<exists>w1. PE pid w1 = (Inl err, w'))"
proof (induction ticks arbitrary: w)
  case (Cons x ticks)
  then show ?case by (cases x) (auto split: prod.splits sum.splits if_splits)
qed simp

text \<open>
  An error that is an empty collection of errors would be lost when \<open>StopVM\<close> joins two errors; neither the context nor the query for a process
  has such an error.
\<close>

definition proper_errors :: "'w ctl_env \<Rightarrow> bool" where
  "proper_errors env \<longleftrightarrow> Done (MultiError []) \<notin> set (c_ticks env) \<and> (\<forall>pid w. fst (c_PidExists env pid w) \<noteq> Inl (MultiError []))"

lemma WaitForPidToExit_proper:
  assumes "proper_errors env" "WaitForPidToExit (c_PidExists env) (c_ticks env) pid w = (Some (Some err), w')"
  shows "err \<noteq> MultiError []"
proof -
  from WaitForPidToExit_error[OF assms(2)] show ?thesis
  proof
    assume "Done err \<in> set (c_ticks env)"
    with assms(1) show ?thesis by (auto simp: proper_errors_def)
  next
    assume "\<exists>w1. c_PidExists env pid w1 = (Inl err, w')"
    then obtain w1 where "c_PidExists env pid w1 = (Inl err, w')" by (rule exE)
    then have "fst (c_PidExists env pid w1) = Inl err" by simp
    with assms(1) show ?thesis unfolding proper_errors_def by metis
  qed
qed

lemma multi_flatten_nonempty: "e \<noteq> MultiError [] \<Longrightarrow> multi_flatten e \<noteq> []"
  by (cases e) auto

text \<open>The effect of waiting for a shim, and of \<open>StopVM\<close>, on the table.\<close>

definition taken_off :: "'w ctl_env \<Rightarrow> string \<Rightarrow> local \<Rightarrow> gerr option \<Rightarrow> local \<Rightarrow> bool" where
  "taken_off env a s e s' \<longleftrightarrow>
     (s' = s \<or> s' = s\<lparr>processes := (processes s)(a := None)\<rparr>) \<and>
     (e = None \<longrightarrow> (\<exists>pid w1 w2. processes s a = Some pid \<and> c_PidExists env (sint pid) w1 = (Inr False, w2)) \<and>
        s' = s\<lparr>processes := (processes s)(a := None)\<rparr>) \<and>
     (processes s a = None \<longrightarrow> e \<noteq> None \<and> s' = s)"

lemma wait_taken_off:
  assumes "proper_errors env" "waitForShimToExit env s vmID w = (Some e, s', w')"
    "SocketAddress (c_SocketAddress env) (request_ns env) vmID = Inr a"
  shows "taken_off env a s e s' \<and> e \<noteq> Some (MultiError [])"
proof (cases "processes s a")
  case None
  with assms show ?thesis by (auto simp: waitForShimToExit_def taken_off_def)
next
  case (Some pid)
  obtain r w1 where r: "WaitForPidToExit (c_PidExists env) (c_ticks env) (sint pid) w = (r, w1)" by (rule prod.exhaust)
  from assms(2,3) Some r have e: "r = Some e" "s' = s\<lparr>processes := (processes s)(a := None)\<rparr>"
    by (auto simp: waitForShimToExit_def split: option.splits)
  show ?thesis
  proof (cases e)
    case None
    from WaitForPidToExit_gone[OF r[unfolded e(1) None]] Some e None show ?thesis by (auto simp: taken_off_def)
  next
    case (Some err)
    from WaitForPidToExit_proper[OF assms(1) r[unfolded e(1) Some]] Some e \<open>processes s a = Some pid\<close> show ?thesis
      by (simp add: taken_off_def)
  qed
qed

lemma stop_taken_off:
  assumes "proper_errors env" "local_StopVM env s vmID n w = (Some e, s', w')"
    "SocketAddress (c_SocketAddress env) (request_ns env) vmID = Inr a"
  shows "if e = None then taken_off env a s None s' else \<exists>e1. taken_off env a s e1 s' \<or> s' = s"
proof -
  obtain c w1 where c: "shimFirecrackerClient env vmID w = (c, w1)" by (rule prod.exhaust)
  show ?thesis
  proof (cases c)
    case (Inl err)
    with assms(2) c show ?thesis by (auto simp: local_StopVM_def)
  next
    case (Inr cl)
    obtain sh w2 where sh: "cl_StopVM cl vmID n w1 = (sh, w2)" by (rule prod.exhaust)
    obtain q s2 w3 where q: "waitForShimToExit env s vmID w2 = (q, s2, w3)" by (rule prod_cases3)
    from assms(2) c Inr sh q obtain e1 where e1: "q = Some e1" "s' = s2"
        "e = (if e1 = None then sh else multi_error_or_nil (multi_append (multi_append [] sh) e1))"
      by (auto simp: local_StopVM_def split: option.splits)
    note t = wait_taken_off[OF assms(1) q[unfolded e1(1)] assms(3)]
    have "e \<noteq> None" if "e1 \<noteq> None"
      using that t e1(3) multi_flatten_nonempty[of "the e1"] by (auto simp: multi_error_or_nil_def multi_append_def)
    with t e1(2) show ?thesis by (cases e1) auto
  qed
qed

text \<open>
  C15: \<open>StopVM\<close> reports success only when the VM's shim process was registered and the process table showed that it is
  gone. Its entry is then removed, and no call touches another entry. So of the calls to stop a VM only one can succeed: with the
  entry gone, every later call fails and changes nothing.
\<close>

theorem local_StopVM_once:
  assumes "proper_errors env" and "local_StopVM env s vmID timeout w = (Some r, s', w')"
    and "SocketAddress (c_SocketAddress env) (request_ns env) vmID = Inr a"
  shows "(s' = s \<or> s' = s\<lparr>processes := (processes s)(a := None)\<rparr>) \<and>
    (r = None \<longrightarrow> (\<exists>pid w1 w2. processes s a = Some pid \<and> c_PidExists env (sint pid) w1 = (Inr False, w2)) \<and>
       s' = s\<lparr>processes := (processes s)(a := None)\<rparr> \<and>
       (\<forall>timeout2 w3 r2 s3 w4. local_StopVM env s' vmID timeout2 w3 = (Some r2, s3, w4) \<longrightarrow> r2 \<noteq> None \<and> s3 = s'))"
proof -
  have later: "r2 \<noteq> None \<and> s3 = s'"
    if "s' = s\<lparr>processes := (processes s)(a := None)\<rparr>" "local_StopVM env s' vmID n v = (Some r2, s3, v1)" for n v r2 s3 v1
    using stop_taken_off[OF assms(1) that(2) assms(3)] that(1) by (auto simp: taken_off_def split: if_splits)
  show ?thesis
  proof (cases r)
    case None
    with stop_taken_off[OF assms] have t: "taken_off env a s None s'" by simp
    then have s': "s' = s\<lparr>processes := (processes s)(a := None)\<rparr>" by (simp add: taken_off_def)
    with t later[OF s'] None show ?thesis unfolding taken_off_def by blast
  next
    case (Some e)
    with stop_taken_off[OF assms] show ?thesis by (auto simp: taken_off_def)
  qed
qed

definition running_local :: local where
  "running_local = fresh_local\<lparr>processes := [''/s/vm-1'' \<mapsto> 7]\<rparr>"

lemma fine_fccontrol: "\<exists>a. FCControlSocketAddress (c_SocketAddress ctl_fine) ''default'' ''vm-1'' = Inr a"
  by (simp only: FCControlSocketAddress_def fine_parts sum.case) blast

lemma fine_client:
  fixes w :: 'w
  shows "shimFirecrackerClient ctl_fine ''vm-1'' w = (Inr client_fine, w)"
proof -
  obtain a where a: "FCControlSocketAddress (c_SocketAddress (ctl_fine :: 'w ctl_env)) ''default'' ''vm-1'' = Inr a"
    by (rule exE[OF fine_fccontrol])
  have n: "c_NewClient ctl_fine b w = (Inr client_fine, w)" for b by (simp add: ctl_fine_def)
  show ?thesis by (simp only: shimFirecrackerClient_def request_ns_def client_New_def fine_parts a n option.case sum.case prod.case)
qed

lemma fine_wait:
  fixes w :: 'w
  shows "waitForShimToExit ctl_fine running_local ''vm-1'' w = (Some None, fresh_local, w)"
proof -
  have "WaitForPidToExit (c_PidExists ctl_fine) (c_ticks (ctl_fine :: 'w ctl_env)) pid w = (Some None, w)" for pid by (simp add: ctl_fine_def)
  then show ?thesis
    by (simp add: waitForShimToExit_def request_ns_def fine_parts running_local_def fresh_local_def fun_upd_def)
      (auto simp: fun_eq_iff)
qed

lemma fine_StopVM: "local_StopVM ctl_fine running_local ''vm-1'' n w = (Some None, fresh_local, w)"
  by (simp add: local_StopVM_def fine_client fine_wait) (simp add: client_fine_def)

theorem local_StopVM_once_witness:
  "\<exists>s' w'. local_StopVM ctl_fine running_local ''vm-1'' 5 () = (Some None, s', w') \<and>
    s' = running_local\<lparr>processes := (processes running_local)(''/s/vm-1'' := None)\<rparr> \<and>
    (\<forall>timeout2 w3 r2 s3 w4. local_StopVM (ctl_fine :: unit ctl_env) s' ''vm-1'' timeout2 w3 = (Some r2, s3, w4) \<longrightarrow> r2 \<noteq> None \<and> s3 = s')"
proof -
  have p: "proper_errors (ctl_fine :: unit ctl_env)" by (simp add: proper_errors_def ctl_fine_def)
  have a: "SocketAddress (c_SocketAddress (ctl_fine :: unit ctl_env)) (request_ns (ctl_fine :: unit ctl_env)) ''vm-1'' = Inr ''/s/vm-1''"
    by (simp add: request_ns_def fine_parts)
  note later = local_StopVM_once[OF p fine_StopVM[of 5 "()"] a, THEN conjunct2, THEN mp, OF refl, THEN conjunct2]
  show ?thesis by (rule exI[of _ fresh_local], rule exI[of _ "()"], rule conjI, rule fine_StopVM, rule later)
qed

end
