(* ===== verification/ControlConcurrency.thy ===== *)
theory ControlConcurrency
  imports ControlProperties
begin

text \<open>
  Calls of \<open>CreateVM\<close> that run at the same time. The plugin takes no lock around a call: what keeps two calls for the same VM apart is the
  address of the VM's shim, which the kernel gives to one socket at a time. A concurrent run is an interleaving of the noted
  events of the calls, of the ends of the processes that they start, and of what the goroutines do that wait for these processes.
\<close>

section \<open>What a call acquires, and in which order\<close>

text \<open>
  A second descriptor for a socket is made only while the socket itself is held. A process is started at most once, and only while the call holds
  the second descriptor for \<open>a\<close>, the address of the VM's shim. The call itself closes no second descriptor.
\<close>

definition unstarted :: "ctl_ev list \<Rightarrow> bool" where
  "unstarted t \<longleftrightarrow> (\<forall>pid. Acquired (Proc pid) \<notin> set t)"

definition allowed :: "string \<Rightarrow> ctl_ev list \<Rightarrow> ctl_ev \<Rightarrow> bool" where
  "allowed a p e \<longleftrightarrow>
     (case e of
        Acquired (FileOf b) \<Rightarrow> Sock b \<in> held p
      | Acquired (Proc pid) \<Rightarrow> FileOf a \<in> held p \<and> unstarted p
      | Released (FileOf b) \<Rightarrow> False
      | _ \<Rightarrow> True)"

definition guarded :: "string \<Rightarrow> ctl_ev list \<Rightarrow> bool" where
  "guarded a t \<longleftrightarrow> (\<forall>p e q. t = p @ e # q \<longrightarrow> allowed a p e)"

lemma guarded_Nil [simp]: "guarded a []"
  by (simp add: guarded_def)

lemma guarded_snoc: "guarded a (t @ [e]) \<longleftrightarrow> guarded a t \<and> allowed a t e"
proof
  assume g: "guarded a (t @ [e])"
  have "allowed a p x" if "t = p @ x # q" for p x q
    using g that unfolding guarded_def by (metis append.assoc append_Cons)
  moreover have "allowed a t e" using g unfolding guarded_def by blast
  ultimately show "guarded a t \<and> allowed a t e" unfolding guarded_def by blast
next
  assume g: "guarded a t \<and> allowed a t e"
  show "guarded a (t @ [e])"
    unfolding guarded_def
  proof (intro allI impI)
    fix p x q
    assume "t @ [e] = p @ x # q"
    then show "allowed a p x" using g by (cases q rule: rev_cases) (auto simp: guarded_def)
  qed
qed

lemma unstarted_simps [simp]:
  "unstarted []" "unstarted (t @ [Acquired (Sock b)]) = unstarted t" "unstarted (t @ [Acquired (Dir d)]) = unstarted t"
  "unstarted (t @ [Acquired (FileOf b)]) = unstarted t" "unstarted (t @ [Released r]) = unstarted t"
  by (simp_all add: unstarted_def)

lemma guarded_simps [simp]:
  "r \<notin> range FileOf \<Longrightarrow> guarded a (t @ [Released r]) = guarded a t" "guarded a (t @ [Acquired (Sock b)]) = guarded a t"
  "guarded a (t @ [Acquired (Dir d)]) = guarded a t" "guarded a (t @ [Acquired Client]) = guarded a t"
  "guarded a (t @ [Acquired (Proc pid)]) = (guarded a t \<and> FileOf a \<in> held t \<and> unstarted t)"
  "guarded a (t @ [Acquired (FileOf b)]) = (guarded a t \<and> Sock b \<in> held t)"
  by (auto simp: guarded_snoc allowed_def split: res.splits)

lemma guarded_started:
  assumes "guarded a t" "Sock a \<in> held t" "Sock fc \<in> held t" "unstarted t" "started a fc r ts"
  shows "guarded a (t @ ts)"
proof -
  have "t @ [Acquired (FileOf a), Acquired (FileOf fc)] = (t @ [Acquired (FileOf a)]) @ [Acquired (FileOf fc)]"
    "t @ [Acquired (FileOf a), Acquired (FileOf fc), Acquired (Proc pid)] =
       ((t @ [Acquired (FileOf a)]) @ [Acquired (FileOf fc)]) @ [Acquired (Proc pid)]" for pid by simp_all
  then have "guarded a (t @ [Acquired (FileOf a), Acquired (FileOf fc)])"
    "guarded a (t @ [Acquired (FileOf a), Acquired (FileOf fc), Acquired (Proc pid)])" for pid
    using assms(1-4) by (simp_all only: guarded_simps held_simps unstarted_simps insert_iff simp_thms)
  with assms show ?thesis by (cases r) (auto simp: started_def)
qed

definition trace_of :: "'r \<times> 'd \<times> 's \<times> 'w \<times> ctl_ev list \<Rightarrow> ctl_ev list" where
  "trace_of b = snd (snd (snd (snd b)))"

lemma trace_of_simps [simp]: "trace_of (r, ds, s, y) = snd y"
  by (simp add: trace_of_def)

lemma guarded_with_shim:
  assumes "guarded a (snd x)" "Sock a \<in> held (snd x)" "Sock fc \<in> held (snd x)" "unstarted (snd x)"
  shows "guarded a (trace_of (create_with_shim (noting_ctl env) s req ns a fc ds x))"
proof -
  let ?env = "noting_ctl env"
  obtain p x1 where p: "newShim ?env s ns (VMID req) (containerdAddress s) a fc x = (p, x1)" by (rule prod.exhaust)
  obtain ts where "snd x1 = snd x @ ts" "started a fc p ts" using noted_shim[OF p] by blast
  with guarded_started[OF assms] have g1: "guarded a (snd x1)" by simp
  show ?thesis
  proof (cases p)
    case (Inl e)
    with p g1 show ?thesis by (simp add: create_with_shim_def)
  next
    case (Inr pid)
    obtain c x2 where c: "shimFirecrackerClient ?env (VMID req) x1 = (c, x2)" by (rule prod.exhaust)
    show ?thesis
    proof (cases c)
      case (Inl e)
      with p Inr c noted_client(2)[OF c[unfolded Inl]] g1 show ?thesis by (simp add: create_with_shim_def)
    next
      case cl: (Inr cl)
      from noted_client(1)[OF c[unfolded cl]] obtain c0 where c0: "cl = noting_client c0" "snd x2 = snd x1 @ [Acquired Client]" by blast
      obtain r x3 where r: "cl_CreateVM cl req x2 = (r, x3)" by (rule prod.exhaust)
      have "guarded a (snd x3)" using noted_calls(4)[OF r[unfolded c0(1)]] c0(2) g1 by simp
      with p Inr c cl r show ?thesis by (cases r) (simp_all add: create_with_shim_def)
    qed
  qed
qed

lemma guarded_in_dir:
  assumes "guarded a (snd x)" "Sock a \<in> held (snd x)" "unstarted (snd x)"
  shows "guarded a (trace_of (create_in_dir (noting_ctl env) s req ns a ds x))"
proof -
  let ?env = "noting_ctl env"
  show ?thesis
  proof (cases "FCControlSocketAddress (c_SocketAddress ?env) ns (VMID req)")
    case (Inl e)
    with assms show ?thesis by (simp add: create_in_dir_def)
  next
    case (Inr fc)
    obtain r x1 where r: "c_NewSocket ?env fc x = (r, x1)" by (rule prod.exhaust)
    note n = noted_calls(1)[OF r]
    show ?thesis
    proof (cases r)
      case (Some e)
      with n Inr r assms show ?thesis by (simp add: create_in_dir_def on_ok_def)
    next
      case None
      then have "guarded a (snd x1)" "Sock a \<in> held (snd x1)" "Sock fc \<in> held (snd x1)" "unstarted (snd x1)" using n assms by (simp_all add: on_ok_def)
      from guarded_with_shim[OF this] Inr r None show ?thesis by (simp add: create_in_dir_def)
    qed
  qed
qed

lemma guarded_with_socket:
  assumes "guarded a (snd x)" "Sock a \<in> held (snd x)" "unstarted (snd x)"
  shows "guarded a (trace_of (create_with_socket (noting_ctl env) s req ns a ds x))"
proof -
  let ?env = "noting_ctl env"
  obtain m x1 where m: "os_Mkdir (c_os ?env) (ShimBaseDir (l_config s)) 448 x = (m, x1)" by (rule prod.exhaust)
  obtain d x2 where d: "ShimDir (c_os ?env) (c_Validate ?env) (ShimBaseDir (l_config s)) ns (VMID req) x1 = (d, x2)" by (rule prod.exhaust)
  have h: "snd x1 = snd x" "snd x2 = snd x" using noted_calls(2)[OF m] noted_calls(5)[OF d] by simp_all
  note red = create_with_socket_def[of ?env s req ns a ds x] m d
  show ?thesis
  proof (cases "m \<noteq> None \<and> \<not> os_IsExist (the m) \<or> \<not> isOk d")
    case True
    with red h assms show ?thesis by (cases d) (auto split: if_splits)
  next
    case False
    then obtain dir where dir: "d = Inr dir" by (auto simp: isOk_iff)
    obtain r x3 where r: "dir_Mkdir (c_os ?env) dir x2 = (r, x3)" by (rule prod.exhaust)
    have e: "create_with_socket ?env s req ns a ds x =
        (case r of None \<Rightarrow> create_in_dir ?env s req ns a (RemoveShimDir (RootPath dir) # ds) x3
         | Some err \<Rightarrow> (Inl (Wrap err ''failed to create VM dir %q'' [RootPath dir]), ds, s, x3))"
      using red False dir r by (cases r) (auto split: if_splits)
    have "guarded a (snd x3)" "Sock a \<in> held (snd x3)" "unstarted (snd x3)" using noted_calls(3)[OF r] h assms by (cases r; simp add: on_ok_def)+
    with guarded_in_dir[OF this] show ?thesis unfolding e by (cases r) simp_all
  qed
qed

lemma guarded_defers:
  assumes "\<forall>d \<in> set ds. noted_deferred d" "guarded a (snd x)"
  shows "guarded a (snd (run_defers (noting_ctl env) failed ds x))"
  using assms
proof (induction ds arbitrary: x)
  case (Cons d ds)
  have "guarded a (snd (run_deferred (noting_ctl env) failed d x))"
    using Cons.prems by (cases d)
      (auto simp: noted_deferred_def noting_ctl_def noting_os_def noting_client_def noting_def split: prod.splits)
  with Cons show ?case by simp
qed simp

lemma guarded_body:
  assumes "SocketAddress (c_SocketAddress env) (request_ns env) (VMID req) = Inr a"
  shows "guarded a (trace_of (create_body_ctl (noting_ctl env) s req (w, [])))"
proof -
  let ?env = "noting_ctl env"
  have e: "c_Validate ?env = c_Validate env" "c_namespace ?env = c_namespace env" "c_SocketAddress ?env = c_SocketAddress env"
    "c_error_text ?env = c_error_text env" by (simp_all add: noting_ctl_def)
  show ?thesis
  proof (cases "c_Validate env (VMID req) = None \<and> isOk (c_namespace env)")
    case False
    then show ?thesis
      by (auto simp: create_body_ctl_def e isOk_def Let_def split: option.splits sum.splits)
  next
    case True
    then obtain ns where v: "c_Validate env (VMID req) = None" "c_namespace env = Inr ns"
        "SocketAddress (c_SocketAddress env) ns (VMID req) = Inr a"
      using assms by (auto simp: isOk_iff request_ns_def)
    obtain r x1 where r: "c_NewSocket ?env a (w, []) = (r, x1)" by (rule prod.exhaust)
    note n = noted_calls(1)[OF r]
    show ?thesis
    proof (cases r)
      case (Some err)
      with n v r show ?thesis by (simp add: create_body_ctl_def e on_ok_def)
    next
      case None
      then have "guarded a (snd x1)" "Sock a \<in> held (snd x1)" "unstarted (snd x1)"
        using n guarded_simps(2)[of a "[]"] held_simps(2)[of "[]"] unstarted_simps(2)[of "[]"] by (simp_all add: on_ok_def)
      from guarded_with_socket[OF this] v r None show ?thesis by (simp add: create_body_ctl_def e isEADDRINUSE_def)
    qed
  qed
qed

lemma CreateVM_guarded:
  assumes "local_CreateVM (noting_ctl env) s req (w, []) = (r, s', (w', t))"
    and "SocketAddress (c_SocketAddress env) (request_ns env) (VMID req) = Inr a"
  shows "guarded a t"
proof -
  obtain r' ds s1 y where b: "create_body_ctl (noting_ctl env) s req (w, []) = (r', ds, s1, y)" by (metis prod_cases4)
  have t: "t = snd (run_defers (noting_ctl env) (\<not> isOk r') ds y)" using assms(1) b by (auto simp: local_CreateVM_def)
  have ok: "\<forall>d \<in> set ds. noted_deferred d" if "body_ok s a F (r', ds, s1, y)" for a F
    using that by (cases r') (auto simp: body_ok_def all_given_def)
  have "\<forall>d \<in> set ds. noted_deferred d"
    using noted_body[of "(w, [])" env req s, unfolded b, OF snd_conv] by (elim disjE exE conjE) (use ok in blast, simp)
  moreover have "guarded a (snd y)" using guarded_body[OF assms(2), of s w] unfolding b by simp
  ultimately show ?thesis unfolding t by (rule guarded_defers)
qed

section \<open>Concurrent calls\<close>

text \<open>
  The events of a concurrent run, each with the number of its call: what the call itself does; the end of a process that it has started,
  which may come at any time; and what the goroutine does that waits for this end: it closes the second
  descriptors and removes the directory.
\<close>

datatype run_ev = Did ctl_ev | Ended int | Closes string | Removes string

definition own :: "nat \<Rightarrow> (nat \<times> run_ev) list \<Rightarrow> ctl_ev list" where
  "own i g = concat (map (\<lambda>(j, e). case e of Did e \<Rightarrow> if j = i then [e] else [] | _ \<Rightarrow> []) g)"

text \<open>What happens to the resources of a call.\<close>

definition events_of :: "nat \<Rightarrow> (nat \<times> run_ev) list \<Rightarrow> ctl_ev list" where
  "events_of i g = concat (map (\<lambda>(j, e). if j = i then
     (case e of Did e \<Rightarrow> [e] | Ended pid \<Rightarrow> [] | Closes a \<Rightarrow> [Released (FileOf a)] | Removes d \<Rightarrow> [Released (Dir d)]) else []) g)"

text \<open>
  Every call of a run has come some way through a \<open>CreateVM\<close> for the VM whose shim has the address \<open>a\<close>; each call may get its own answers
  from its surroundings.
\<close>

definition CreateVM_trace :: "string \<Rightarrow> ctl_ev list \<Rightarrow> bool" where
  "CreateVM_trace a t \<longleftrightarrow> (\<exists>(env :: unit ctl_env) s req r s'. local_CreateVM (noting_ctl env) s req ((), []) = (r, s', ((), t)) \<and>
     SocketAddress (c_SocketAddress env) (request_ns env) (VMID req) = Inr a)"

text \<open>
  A process ends after it has been started. The goroutine of a call acts when the call's process has ended. A call that has no process
  has no such goroutine; its descriptors are left to the garbage collector.
\<close>

definition reapers_wait :: "(nat \<times> run_ev) list \<Rightarrow> bool" where
  "reapers_wait g \<longleftrightarrow>
     (\<forall>p i pid q. g = p @ (i, Ended pid) # q \<longrightarrow> Acquired (Proc pid) \<in> set (own i p)) \<and>
     (\<forall>p i a q. g = p @ (i, Closes a) # q \<longrightarrow> (\<exists>pid. (i, Ended pid) \<in> set p) \<or> unstarted (own i g)) \<and>
     (\<forall>p i d q. g = p @ (i, Removes d) # q \<longrightarrow> (\<exists>pid. (i, Ended pid) \<in> set p))"

definition concurrent_CreateVM :: "(nat \<Rightarrow> string) \<Rightarrow> (nat \<times> run_ev) list \<Rightarrow> bool" where
  "concurrent_CreateVM addr g \<longleftrightarrow>
     (\<forall>i. own i g \<noteq> [] \<longrightarrow> (\<exists>t. CreateVM_trace (addr i) t \<and> prefix (own i g) t)) \<and> reapers_wait g"

text \<open>The kernel gives an address to a socket only when no descriptor for it is left.\<close>

definition kernel_exclusive :: "(nat \<times> run_ev) list \<Rightarrow> bool" where
  "kernel_exclusive g \<longleftrightarrow>
     (\<forall>p i a q. g = p @ (i, Did (Acquired (Sock a))) # q \<longrightarrow> (\<forall>j. Sock a \<notin> held (events_of j p) \<and> FileOf a \<notin> held (events_of j p)))"

definition holds :: "nat \<Rightarrow> string \<Rightarrow> (nat \<times> run_ev) list \<Rightarrow> bool" where
  "holds i a g \<longleftrightarrow> Sock a \<in> held (events_of i g) \<or> FileOf a \<in> held (events_of i g)"

text \<open>The call has started a shim that has not ended.\<close>

definition shim_runs :: "nat \<Rightarrow> (nat \<times> run_ev) list \<Rightarrow> bool" where
  "shim_runs i g \<longleftrightarrow> (\<exists>pid. Acquired (Proc pid) \<in> set (own i g) \<and> (i, Ended pid) \<notin> set g)"

lemma own_simps [simp]:
  "own i [] = []" "own i (g @ [(j, Did e)]) = (if i = j then own i g @ [e] else own i g)"
  "own i (g @ [(j, Ended pid)]) = own i g" "own i (g @ [(j, Closes a)]) = own i g" "own i (g @ [(j, Removes d)]) = own i g"
  by (simp_all add: own_def)

lemma events_of_simps [simp]:
  "events_of i [] = []" "events_of i (g @ [(j, Did e)]) = (if i = j then events_of i g @ [e] else events_of i g)"
  "events_of i (g @ [(j, Ended pid)]) = events_of i g"
  "events_of i (g @ [(j, Closes a)]) = (if i = j then events_of i g @ [Released (FileOf a)] else events_of i g)"
  "events_of i (g @ [(j, Removes d)]) = (if i = j then events_of i g @ [Released (Dir d)] else events_of i g)"
  by (simp_all add: events_of_def)

lemma Sock_own: "Sock a \<in> held (own i g) \<longleftrightarrow> Sock a \<in> held (events_of i g)"
proof (induction g rule: rev_induct)
  case (snoc x g)
  obtain j e where x: "x = (j, e)" by fastforce
  show ?case
  proof (cases e)
    case (Did c)
    then show ?thesis using snoc x by (cases c) auto
  qed (use snoc x in auto)
qed simp

lemma FileOf_own:
  assumes "\<forall>b. (i, Closes b) \<notin> set g"
  shows "FileOf a \<in> held (own i g) \<longleftrightarrow> FileOf a \<in> held (events_of i g)"
  using assms
proof (induction g rule: rev_induct)
  case (snoc x g)
  obtain j e where x: "x = (j, e)" by fastforce
  show ?case
  proof (cases e)
    case (Did c)
    then show ?thesis using snoc x by (cases c) auto
  qed (use snoc x in auto)
qed simp

lemma guarded_prefix: "guarded a (s @ t) \<Longrightarrow> guarded a s"
  unfolding guarded_def by (metis append.assoc append_Cons)

lemma concurrent_guarded: "concurrent_CreateVM addr g \<Longrightarrow> guarded (addr i) (own i g)"
proof (cases "own i g = []")
  case False
  assume "concurrent_CreateVM addr g"
  with False obtain t where t: "CreateVM_trace (addr i) t" "prefix (own i g) t" unfolding concurrent_CreateVM_def by blast
  from t(1) have "guarded (addr i) t" unfolding CreateVM_trace_def by (elim exE conjE) (rule CreateVM_guarded)
  with t(2) show ?thesis by (auto simp: prefix_def intro: guarded_prefix)
qed simp

lemma one_start: "guarded a t \<Longrightarrow> Acquired (Proc p) \<in> set t \<Longrightarrow> Acquired (Proc q) \<in> set t \<Longrightarrow> p = q"
proof (induction t rule: rev_induct)
  case (snoc e t)
  then show ?case by (auto simp: guarded_snoc allowed_def unstarted_def split: ctl_ev.splits res.splits)
qed simp

lemma own_mono: "set (own i g) \<subseteq> set (own i (g @ h))"
  by (auto simp: own_def)

lemma own_prefix: "prefix (own i g) (own i (g @ h))"
  by (simp add: own_def)

lemma reapers_waitD:
  assumes "reapers_wait g"
  shows "g = p @ (i, Ended pid) # q \<Longrightarrow> Acquired (Proc pid) \<in> set (own i p)"
    and "g = p @ (i, Closes a) # q \<Longrightarrow> (\<exists>pid. (i, Ended pid) \<in> set p) \<or> unstarted (own i g)"
    and "g = p @ (i, Removes d) # q \<Longrightarrow> (\<exists>pid. (i, Ended pid) \<in> set p)"
proof -
  note r = assms[unfolded reapers_wait_def]
  note r1 = conjunct1[OF r] and r2 = conjunct1[OF conjunct2[OF r]] and r3 = conjunct2[OF conjunct2[OF r]]
  show "g = p @ (i, Ended pid) # q \<Longrightarrow> Acquired (Proc pid) \<in> set (own i p)"
    by (rule r1[THEN spec, THEN spec, THEN spec, THEN spec, THEN mp])
  show "g = p @ (i, Closes a) # q \<Longrightarrow> (\<exists>pid. (i, Ended pid) \<in> set p) \<or> unstarted (own i g)"
    by (rule r2[THEN spec, THEN spec, THEN spec, THEN spec, THEN mp])
  show "g = p @ (i, Removes d) # q \<Longrightarrow> (\<exists>pid. (i, Ended pid) \<in> set p)"
    by (rule r3[THEN spec, THEN spec, THEN spec, THEN spec, THEN mp])
qed

lemma reapers_butlast:
  assumes "reapers_wait (g @ [x])"
  shows "reapers_wait g"
  unfolding reapers_wait_def
proof (intro conjI allI impI)
  note r = reapers_waitD[OF assms]
  fix p i q
  show "Acquired (Proc pid) \<in> set (own i p)" if "g = p @ (i, Ended pid) # q" for pid
    using r(1)[of p i pid "q @ [x]"] that by simp
  show "(\<exists>pid. (i, Ended pid) \<in> set p) \<or> unstarted (own i g)" if "g = p @ (i, Closes a) # q" for a
    using r(2)[of p i a "q @ [x]"] own_mono[of i g "[x]"] that by (auto simp: unstarted_def)
  show "\<exists>pid. (i, Ended pid) \<in> set p" if "g = p @ (i, Removes d) # q" for d
    using r(3)[of p i d "q @ [x]"] that by simp
qed

lemma concurrent_butlast: "concurrent_CreateVM addr (g @ [x]) \<Longrightarrow> concurrent_CreateVM addr g"
  unfolding concurrent_CreateVM_def
proof (intro conjI allI impI; elim conjE)
  fix i
  assume "own i g \<noteq> []" and all: "\<forall>i. own i (g @ [x]) \<noteq> [] \<longrightarrow> (\<exists>t. CreateVM_trace (addr i) t \<and> prefix (own i (g @ [x])) t)"
  then have "own i (g @ [x]) \<noteq> []" using own_prefix[of i g "[x]"] by auto
  with all obtain t where "CreateVM_trace (addr i) t" "prefix (own i (g @ [x])) t" by blast
  then show "\<exists>t. CreateVM_trace (addr i) t \<and> prefix (own i g) t"
    using own_prefix[of i g "[x]"] prefix_order.trans by blast
qed (rule reapers_butlast)

lemma kernel_butlast: "kernel_exclusive (g @ [x]) \<Longrightarrow> kernel_exclusive g"
  unfolding kernel_exclusive_def by (metis append.assoc append_Cons)

lemma holds_step:
  assumes "holds i a (g @ [(j, e)])"
  shows "holds i a g \<or> (i = j \<and> (e = Did (Acquired (Sock a)) \<or> e = Did (Acquired (FileOf a))))"
proof (cases e)
  case (Did c)
  with assms show ?thesis by (cases c) (auto simp: holds_def split: if_splits)
qed (use assms in \<open>auto simp: holds_def split: if_splits\<close>)

text \<open>The goroutine of a call acts only on a call whose process has ended or that never starts one.\<close>

lemma Closes_after:
  assumes "reapers_wait g" "(i, Closes b) \<in> set g"
  shows "(\<exists>pid. (i, Ended pid) \<in> set g \<and> Acquired (Proc pid) \<in> set (own i g)) \<or> unstarted (own i g)"
proof -
  obtain p q where g: "g = p @ (i, Closes b) # q" using assms(2) by (meson split_list)
  from reapers_waitD(2)[OF assms(1) this] consider pid where "(i, Ended pid) \<in> set p" | "unstarted (own i g)" by blast
  then show ?thesis
  proof cases
    case (1 pid)
    then obtain p1 p2 where p: "p = p1 @ (i, Ended pid) # p2" by (meson split_list)
    then have "Acquired (Proc pid) \<in> set (own i p1)"
      using reapers_waitD(1)[OF assms(1), of p1 i pid "p2 @ (i, Closes b) # q"] g by simp
    then have "Acquired (Proc pid) \<in> set (own i g)" unfolding g p append.assoc by (rule subsetD[OF own_mono])
    with 1 g show ?thesis by auto
  qed simp
qed

text \<open>As long as the shim runs, its call keeps the descriptor.\<close>

lemma running_holds:
  assumes "concurrent_CreateVM addr g" "shim_runs i g"
  shows "FileOf (addr i) \<in> held (events_of i g)"
proof -
  have gd: "guarded (addr i) (own i g)" and rw: "reapers_wait g"
    using concurrent_guarded[OF assms(1)] assms(1) by (simp_all add: concurrent_CreateVM_def)
  obtain pid where pid: "Acquired (Proc pid) \<in> set (own i g)" "(i, Ended pid) \<notin> set g" using assms(2) by (auto simp: shim_runs_def)
  have "(i, Closes b) \<notin> set g" for b
  proof
    assume "(i, Closes b) \<in> set g"
    from Closes_after[OF rw this] pid(1) obtain q where "(i, Ended q) \<in> set g" "Acquired (Proc q) \<in> set (own i g)"
      by (auto simp: unstarted_def)
    with one_start[OF gd pid(1)] pid(2) show False by blast
  qed
  moreover have "FileOf (addr i) \<in> held t" if "guarded (addr i) t" "Acquired (Proc pid) \<in> set t" for t
    using that
  proof (induction t rule: rev_induct)
    case (snoc e t)
    then show ?case by (cases e) (auto simp: guarded_snoc allowed_def split: res.splits)
  qed simp
  ultimately show ?thesis using FileOf_own gd pid(1) by blast
qed

lemma holds_excludes:
  assumes "concurrent_CreateVM addr g" "kernel_exclusive g" "holds i a g" "holds j a g"
  shows "i = j"
  using assms
proof (induction g arbitrary: i j rule: rev_induct)
  case Nil
  then show ?case by (simp add: holds_def)
next
  case (snoc x g)
  obtain k e where x: "x = (k, e)" by (rule prod.exhaust)
  note conc = snoc.prems(1)[unfolded x] and ker = snoc.prems(2)[unfolded x]
  have ih: "u = v" if "holds u a g" "holds v a g" for u v
    using snoc.IH[OF concurrent_butlast[OF conc] kernel_butlast[OF ker] that] .
  have new: "\<not> holds u a g" if "e = Did (Acquired (Sock a))" for u
    using ker that unfolding kernel_exclusive_def holds_def by blast
  have second: "holds k a g" if "e = Did (Acquired (FileOf a))"
    using concurrent_guarded[OF conc, of k] that by (simp add: holds_def guarded_snoc allowed_def Sock_own)
  from holds_step[OF snoc.prems(3)[unfolded x]] holds_step[OF snoc.prems(4)[unfolded x]] show ?case
    using ih new second by metis
qed

text \<open>
  C4: However many \<open>CreateVM\<close> calls run at once, and however their steps interleave: at no time do two of them hold a descriptor for the
  same address, and at no time do two shims run that were started for one VM. A call starts its shim only with a second
  descriptor for the address of the VM's shim, and this descriptor stays open until the process has ended, also when
  the call fails later or its shim dies. All that is asked of the kernel is that it gives an address to a
  socket only when no descriptor for it is left.
\<close>

theorem CreateVM_excludes:
  assumes "concurrent_CreateVM addr g" "kernel_exclusive g"
  shows "(holds i a g \<and> holds j a g \<longrightarrow> i = j) \<and> (shim_runs i g \<longrightarrow> holds i (addr i) g) \<and>
    (shim_runs i g \<and> shim_runs j g \<and> addr i = addr j \<longrightarrow> i = j)"
proof -
  have runs: "shim_runs u g \<longrightarrow> holds u (addr u) g" for u using running_holds[OF assms(1)] by (auto simp: holds_def)
  with holds_excludes[OF assms] show ?thesis by metis
qed

section \<open>A shim that ends, and its successor\<close>

abbreviation (input) vm1_addr :: string where "vm1_addr \<equiv> ''/s/vm-1''"

abbreviation (input) vm1_fc :: string where "vm1_fc \<equiv> ''/s/vm-1/fccontrol''"

text \<open>The trace of a call that succeeds.\<close>

definition full_trace :: "string \<Rightarrow> ctl_ev list" where
  "full_trace d =
     [Acquired (Sock vm1_addr), Acquired (Dir d), Acquired (Sock vm1_fc), Acquired (FileOf vm1_addr), Acquired (FileOf vm1_fc),
      Acquired (Proc 7), Acquired Client, Released Client, Released (Sock vm1_fc), Released (Sock vm1_addr)]"

lemma vm1_fc: "FCControlSocketAddress (c_SocketAddress ctl_fine) ''default'' ''vm-1'' = Inr vm1_fc"
proof -
  have "filepath_Join [vm1_addr, ''fccontrol''] = vm1_fc" by code_simp
  then show ?thesis by (simp add: FCControlSocketAddress_def fine_parts)
qed

lemma full_trace: "\<exists>d. CreateVM_trace vm1_addr (full_trace d)"
proof -
  let ?fine = "ctl_fine :: unit ctl_env"
  let ?env = "noting_ctl ?fine"
  have e: "c_Validate ?env = V_example" "c_namespace ?env = Inr ''default''" "c_SocketAddress ?env = c_SocketAddress ?fine"
    "SocketAddress (c_SocketAddress ?fine) ''default'' ''vm-1'' = Inr vm1_addr"
    by (simp_all add: noting_ctl_def ctl_fine_def SocketAddress_def)
  have v: "V_example ''vm-1'' = None" by (simp add: V_example_def)
  have s: "c_NewSocket ?env a x = (None, (fst x, snd x @ [Acquired (Sock a)]))" "os_Mkdir (c_os ?env) p m x = (None, x)"
    "dir_Mkdir (c_os ?env) dd x = (None, (fst x, snd x @ [Acquired (Dir (RootPath dd))]))"
    "c_NewClient ?env a x = (Inr (noting_client client_fine), (fst x, snd x @ [Acquired Client]))"
    "cl_CreateVM (noting_client client_fine) q x = (Inr vm1_response, x)"
    "cl_Close (noting_client client_fine) x = (fst x, snd x @ [Released Client])"
    "c_CloseSocket ?env a x = ((), snd x @ [Released (Sock a)])" for a p m dd q and x :: "unit \<times> ctl_ev list"
    by (simp_all add: noting_ctl_def noting_os_def noting_client_def noting_def unnoted_def on_ok_def ctl_fine_def os_fine_def
        client_fine_def dir_Mkdir_def prod_eq_iff)
  let ?x1 = "((), [Acquired (Sock vm1_addr)])" and ?base = "ShimBaseDir (l_config fresh_local)"
  obtain d y where "ShimDir (c_os ?env) (c_Validate ?env) ?base ''default'' ''vm-1'' ?x1 = (Inr d, y)"
    using works_calls(3)[OF noting_works, of ?x1] by (elim exE) (rule that)
  with noted_calls(5)[OF this] have d: "ShimDir (c_os ?env) (c_Validate ?env) ?base ''default'' ''vm-1'' ?x1 = (Inr d, ?x1)"
    by (cases y) simp
  let ?x2 = "((), [Acquired (Sock vm1_addr), Acquired (Dir (RootPath d)), Acquired (Sock vm1_fc)])"
  obtain y where n: "newShim ?env fresh_local ''default'' ''vm-1'' (containerdAddress fresh_local) vm1_addr vm1_fc ?x2 = (Inr 7, y)"
    using works_newShim[OF noting_works] by blast
  obtain ts where ts: "snd y = snd ?x2 @ ts" "started vm1_addr vm1_fc (Inr 7) ts" using noted_shim[OF n] by blast
  then have y: "y = ((), snd ?x2 @ [Acquired (FileOf vm1_addr), Acquired (FileOf vm1_fc), Acquired (Proc 7)])"
    by (cases y) (simp add: started_def)
  have ns: "request_ns ?env = ''default''" by (simp add: request_ns_def e)
  have id: "VMID first_request = ''vm-1''" by (simp add: first_request_def start_request_def)
  have cl: "shimFirecrackerClient ?env ''vm-1'' x = (Inr (noting_client client_fine), (fst x, snd x @ [Acquired Client]))" for x
    by (simp add: shimFirecrackerClient_def ns e v vm1_fc client_New_def s)
  have sh: "create_with_shim ?env fresh_local first_request ''default'' vm1_addr vm1_fc ds ?x2 =
      (Inr vm1_response, CloseClient (noting_client client_fine) # KillShim 7 # ds, addShim fresh_local vm1_addr 7,
       ((), snd y @ [Acquired Client]))" for ds
    by (simp add: create_with_shim_def Let_def id n y cl s)
  have "create_body_ctl ?env fresh_local first_request ((), []) =
      (Inr vm1_response, [CloseClient (noting_client client_fine), KillShim 7, CloseSocket vm1_fc, RemoveShimDir (RootPath d),
         CloseSocket vm1_addr], addShim fresh_local vm1_addr 7, ((), snd y @ [Acquired Client]))"
    by (simp add: create_body_ctl_def create_with_socket_def create_in_dir_def isEADDRINUSE_def Let_def id e v s d vm1_fc sh
        d[unfolded e])
  then have "local_CreateVM ?env fresh_local first_request ((), []) =
      (Inr vm1_response, addShim fresh_local vm1_addr 7, ((), full_trace (RootPath d)))"
    by (simp add: local_CreateVM_def s y full_trace_def)
  moreover have "SocketAddress (c_SocketAddress ?fine) (request_ns ?fine) (VMID first_request) = Inr vm1_addr"
    by (simp add: request_ns_def id fine_parts)
  ultimately show ?thesis unfolding CreateVM_trace_def by blast
qed

text \<open>A condition on each event of a run and what came before it, on a given run.\<close>

fun each_after :: "('e list \<Rightarrow> 'e \<Rightarrow> bool) \<Rightarrow> 'e list \<Rightarrow> 'e list \<Rightarrow> bool" where
  "each_after P p [] = True"
| "each_after P p (x # q) = (P p x \<and> each_after P (p @ [x]) q)"

lemma each_afterD: "each_after P p l \<Longrightarrow> l = q @ x # r \<Longrightarrow> P (p @ q) x"
proof (induction q arbitrary: p l)
  case (Cons y q)
  then show ?case using Cons.IH[of "p @ [y]" "q @ x # r"] by simp
qed simp

text \<open>The first shim runs and ends; the second call runs after the addresses have been given back, up to the start of its shim.\<close>

definition two_calls :: "string \<Rightarrow> string \<Rightarrow> (nat \<times> run_ev) list" where
  "two_calls d d' =
     map (\<lambda>e. (0, Did e)) (full_trace d) @ [(0, Ended 7), (0, Closes vm1_addr), (0, Closes vm1_fc), (0, Removes d)] @
     map (\<lambda>e. (1, Did e)) (take 6 (full_trace d'))"

lemma two_calls_own: "own i (two_calls d d') = (if i = 0 then full_trace d else if i = 1 then take 6 (full_trace d') else [])"
  by (simp add: two_calls_def own_def full_trace_def)

lemma two_calls_reapers: "reapers_wait (two_calls d d')"
proof -
  have c: "each_after (\<lambda>p (i, e). case e of Ended pid \<Rightarrow> Acquired (Proc pid) \<in> set (own i p)
      | Closes a \<Rightarrow> (i, Ended 7) \<in> set p | Removes d \<Rightarrow> (i, Ended 7) \<in> set p | _ \<Rightarrow> True) [] (two_calls d d')"
    by (simp add: two_calls_def full_trace_def own_def)
  show ?thesis
    unfolding reapers_wait_def using each_afterD[OF c] by fastforce
qed

lemma two_calls_kernel: "kernel_exclusive (two_calls d d')"
proof -
  have c: "each_after (\<lambda>p (i, e). case e of Did (Acquired (Sock a)) \<Rightarrow>
      \<forall>j \<in> {0, 1}. Sock a \<notin> held (events_of j p) \<and> FileOf a \<notin> held (events_of j p) | _ \<Rightarrow> True) [] (two_calls d d')"
    by (simp add: two_calls_def full_trace_def events_of_def held_def)
  have calls: "fst x \<in> {0, 1}" if "x \<in> set (two_calls d d')" for x using that by (auto simp: two_calls_def)
  have other: "events_of j p = []" if "two_calls d d' = p @ q" "j \<notin> {0, 1}" for j p q
  proof -
    have "(k, e) \<in> set p \<Longrightarrow> k \<noteq> j" for k e using calls[of "(k, e)"] that by auto
    then show ?thesis unfolding events_of_def by (auto simp: concat_eq_Nil_conv)
  qed
  show ?thesis
    unfolding kernel_exclusive_def
  proof (intro allI impI)
    fix p i a q j
    assume g: "two_calls d d' = p @ (i, Did (Acquired (Sock a))) # q"
    from each_afterD[OF c this] have "\<forall>j \<in> {0, 1}. Sock a \<notin> held (events_of j p) \<and> FileOf a \<notin> held (events_of j p)" by simp
    moreover have "held (events_of j p) = {}" if "j \<notin> {0, 1}" using other[OF g that] by simp
    ultimately show "Sock a \<notin> held (events_of j p) \<and> FileOf a \<notin> held (events_of j p)" by blast
  qed
qed

theorem CreateVM_excludes_witness:
  "\<exists>g d d'. g = two_calls d d' \<and> {i. shim_runs i (take 6 g)} = {0} \<and> {i. shim_runs i g} = {1} \<and> {i. holds i vm1_addr g} = {1}"
proof -
  obtain d where d: "CreateVM_trace vm1_addr (full_trace d)" using full_trace by blast
  let ?g = "two_calls d d"
  have "concurrent_CreateVM (\<lambda>_. vm1_addr) ?g"
    unfolding concurrent_CreateVM_def two_calls_own using d two_calls_reapers[of d d] take_is_prefix[of 6 "full_trace d"] by auto
  note t = CreateVM_excludes[OF this two_calls_kernel]
  have "shim_runs 1 ?g"
    unfolding shim_runs_def by (intro exI[of _ 7]) (simp add: two_calls_own, simp add: two_calls_def full_trace_def)
  then have "{i. shim_runs i ?g} = {1}" "holds 1 vm1_addr ?g" using t by blast+
  moreover from this t have "{i. holds i vm1_addr ?g} = {1}" by blast
  moreover have "{i. shim_runs i (take 6 ?g)} = {0}"
    by (auto simp: shim_runs_def two_calls_def full_trace_def own_def split: if_splits)
  ultimately show ?thesis by blast
qed

end
