(* ===== verification/ShimProcess.thy ===== *)
theory ShimProcess
  imports ControlProperties ShimConfig
begin

text \<open>
  The control plugin of \<open>Control\<close> and the shim of \<open>HostService\<close> together: what the process that the plugin starts finds in its
  environment, and a second container that joins a running VM.
\<close>

section \<open>The environment of the shim process\<close>

text \<open>
  \<open>os.Getenv\<close> in a process that \<open>exec.Cmd\<close> started: of the entries for a key the last one counts, an absent key
  has the empty value.
\<close>

definition env_lookup :: "string list \<Rightarrow> string \<Rightarrow> string" where
  "env_lookup ents key =
     (case find (\<lambda>e. strings_HasPrefix e (key @ ''='')) (rev ents) of None \<Rightarrow> [] | Some e \<Rightarrow> drop (length key + 1) e)"

lemma env_lookup_last: "env_lookup (ents @ [key @ ''='' @ v]) key = v"
  by (simp add: env_lookup_def strings_HasPrefix_def)

lemma env_lookup_other: "\<not> strings_HasPrefix e (key @ ''='') \<Longrightarrow> env_lookup (ents @ [e]) key = env_lookup ents key"
  by (simp add: env_lookup_def)

lemma env_lookup_FD: "env_lookup (sc_Env (shim_command env ns vmID addr dir a b)) FCSocketFDEnvKey = ''4''"
proof -
  have "itoa (int 4) = ''4''" by (simp add: itoa_def utoa.simps digit_char_def) (simp add: char_of_def bit_0)
  then show ?thesis
    using env_lookup_last[of "c_Environ env @ [ttrpcAddressEnv @ ''='' @ addr @ ''.ttrpc'', VMIDEnvVarKey @ ''='' @ vmID]" FCSocketFDEnvKey "''4''"]
    by (simp add: shim_command_def Let_def)
qed

lemma env_lookup_VMID: "env_lookup (sc_Env (shim_command env ns vmID addr dir a b)) VMIDEnvVarKey = vmID"
proof -
  let ?t = "ttrpcAddressEnv @ ''='' @ addr @ ''.ttrpc''" and ?v = "VMIDEnvVarKey @ ''='' @ vmID"
  let ?f = "FCSocketFDEnvKey @ ''='' @ itoa (int (2 + length [a, b]))"
  have "sc_Env (shim_command env ns vmID addr dir a b) = ((c_Environ env @ [?t]) @ [?v]) @ [?f]"
    by (simp add: shim_command_def Let_def)
  moreover have "\<not> strings_HasPrefix ?f (VMIDEnvVarKey @ ''='')"
    by (simp add: strings_HasPrefix_def VMIDEnvVarKey_def FCSocketFDEnvKey_def)
  ultimately show ?thesis using env_lookup_other env_lookup_last by metis
qed

lemma Atoi_4: "strconv_Atoi ''4'' = Inr 4"
  by (simp add: strconv_Atoi_def atou_def is_digit_def char_digit_def)

text \<open>
  C16: The process that the plugin starts for a VM works on that VM. It runs in the VM's directory, and whatever the plugin's own environment holds,
  the shim's \<open>NewService\<close> finds the id of the VM there and the number of a descriptor. This is the
  descriptor under which the process has inherited the second socket, the one for control requests (the first three are standard input,
  output and error); a service that starts has listened on it, and its directory is the VM's directory of its own
  configuration and namespace.
\<close>

theorem shim_process_agrees:
  assumes "newShim env s ns vmID addr shimSocket fcSocket w = (Inr pid, w')" "vmID \<noteq> []"
  shows "\<exists>dir cmd w1 w2 w3. ShimDir (c_os env) (c_Validate env) (ShimBaseDir (l_config s)) ns vmID w = (Inr dir, w1) \<and>
    c_Start env cmd w2 = (Inr pid, w3) \<and> sc_Dir cmd = RootPath dir \<and> sc_ExtraFiles cmd ! 0 = shimSocket \<and>
    (\<forall>os Validate Unmarshal t2 NewServer FileListener debug x (svc :: ('x, 'ip) service) x'.
       NewService os Validate (env_lookup (sc_Env cmd)) Unmarshal t2 NewServer FileListener debug (Some ns) x = (Inr svc, x') \<longrightarrow>
       s_vmID svc = vmID \<and> s_shimNamespace svc = Some ns \<and>
       (\<exists>x1 x2 fd x3. ShimDir os Validate (ShimBaseDir (s_config svc)) ns vmID x1 = (Inr (s_shimDir svc), x2) \<and>
          FileListener fd x3 = (None, x') \<and> 3 \<le> fd \<and> sc_ExtraFiles cmd ! nat (fd - 3) = fcSocket))"
proof -
  obtain dir w1 where d: "ShimDir (c_os env) (c_Validate env) (ShimBaseDir (l_config s)) ns vmID w = (Inr dir, w1)"
    using assms(1) by (auto simp: newShim_def split: prod.splits sum.splits)
  let ?cmd = "shim_command env ns vmID addr dir shimSocket fcSocket"
  obtain w2 w3 where st: "c_Start env ?cmd w2 = (Inr pid, w3)"
    using assms(1) d by (auto simp: newShim_def split: prod.splits sum.splits option.splits)
  have files: "sc_Dir ?cmd = RootPath dir" "sc_ExtraFiles ?cmd ! 0 = shimSocket" "sc_ExtraFiles ?cmd ! nat (4 - 3) = fcSocket"
    by (simp_all add: shim_command_def Let_def)
  have "s_vmID svc = vmID \<and> s_shimNamespace svc = Some ns \<and>
       (\<exists>x1 x2 fd x3. ShimDir os Validate (ShimBaseDir (s_config svc)) ns vmID x1 = (Inr (s_shimDir svc), x2) \<and>
          FileListener fd x3 = (None, x') \<and> 3 \<le> fd \<and> sc_ExtraFiles ?cmd ! nat (fd - 3) = fcSocket)"
    if n: "NewService os Validate (env_lookup (sc_Env ?cmd)) Unmarshal t2 NewServer FileListener debug (Some ns) x = (Inr svc, x')"
    for os Validate Unmarshal t2 NewServer FileListener debug x and svc :: "('x, 'ip) service" and x'
  proof -
    let ?env = "env_lookup (sc_Env ?cmd)"
    obtain cfg helper y where l: "LoadConfig os ?env Unmarshal t2 [] x = (Inr (cfg, helper), y)"
      using n by (auto simp: NewService_def split: prod.splits sum.splits)
    obtain dbg where o: "debug = Some dbg" using n l by (auto simp: NewService_def split: option.splits)
    obtain d2 y2 where sd: "ShimDir os Validate (ShimBaseDir cfg) ns vmID y = (Inr d2, y2)"
      using n l o assms(2) by (auto simp: NewService_def env_lookup_VMID split: prod.splits sum.splits)
    obtain b where sv: "serveFCControl ?env NewServer FileListener y2 = (Inr b, x')"
        and svc: "svc = initial_service (Some ns) vmID d2 cfg (helper\<lparr>ShimDebug := dbg\<rparr>)"
      using n l o sd assms(2) by (auto simp: NewService_def env_lookup_VMID Let_def split: prod.splits sum.splits)
    obtain x3 where "FileListener 4 x3 = (None, x')"
      using sv by (auto simp: serveFCControl_def env_lookup_FD Atoi_4 split: prod.splits option.splits)
    with files(3) have "FileListener 4 x3 = (None, x') \<and> 3 \<le> (4 :: int) \<and> sc_ExtraFiles ?cmd ! nat (4 - 3) = fcSocket" by simp
    with sd show ?thesis unfolding svc initial_service_def by (simp only: service.simps simp_thms) blast
  qed
  with d st files(1,2) show ?thesis by blast
qed

theorem shim_process_agrees_witness:
  "\<exists>dir cmd w1 w2 w3. ShimDir os_fine V_example ''/run'' ''default'' ''vm-1'' () = (Inr dir, w1) \<and>
    c_Start (ctl_fine :: unit ctl_env) cmd w2 = (Inr 7, w3) \<and> sc_Dir cmd = RootPath dir \<and> sc_ExtraFiles cmd ! 0 = ''/s/vm-1'' \<and>
    (\<forall>NewServer debug (svc :: (int list, unit) service) x'.
       NewService os_fine V_example (env_lookup (sc_Env cmd)) (\<lambda>_. Inr) [] NewServer (\<lambda>fd x. (None, x @ [fd])) debug (Some ''default'') [] =
         (Inr svc, x') \<longrightarrow> s_vmID svc = ''vm-1'')"
proof -
  have n: "newShim ctl_fine fresh_local ''default'' ''vm-1'' ''/c'' ''/s/vm-1'' ''/s/vm-1/fc'' () = (Inr 7, ())"
    by (rule fine_newShim)
  have e: "c_os (ctl_fine :: unit ctl_env) = os_fine" "c_Validate (ctl_fine :: unit ctl_env) = V_example"
    "ShimBaseDir (l_config fresh_local) = ''/run''"
    by (simp_all add: ctl_fine_def fresh_local_def plain_shim_config_def)
  have "''vm-1'' \<noteq> []" by simp
  note h = shim_process_agrees[where 'x = "int list" and 'ip = unit, OF n this, unfolded e]
  show ?thesis
    by (rule exE[OF h], elim exE conjE, (rule exI)+, intro conjI, assumption+) (intro allI impI, drule spec, drule spec, drule spec,
      drule spec, drule spec, drule spec, drule spec, drule spec, drule spec, drule spec, drule (1) mp, erule conjunct1)
qed

section \<open>Joining a running VM\<close>

text \<open>The call from the starting shim to the plugin, in a world that holds the plugin's state.\<close>

definition call_CreateVM :: "'w ctl_env \<Rightarrow> CreateVMRequest \<Rightarrow> local \<times> 'w \<Rightarrow> gerr option \<times> local \<times> 'w" where
  "call_CreateVM env req x =
     (case local_CreateVM env (fst x) req (snd x) of
        (Inl err, y) \<Rightarrow> (Some err, y)
      | (Inr resp, y) \<Rightarrow> (None, y))"

lemma CreateVM_in_use:
  assumes "c_Validate env (VMID req) = None" "c_namespace env = Inr ns" "SocketAddress (c_SocketAddress env) ns (VMID req) = Inr a"
    "c_NewSocket env a w = (Some e, w')" "isEADDRINUSE (c_error_text env) (Some e)"
  shows "\<exists>msg. local_CreateVM env s req w = (Inl (StatusError AlreadyExists msg), s, w')"
  using assms by (simp add: local_CreateVM_def create_body_ctl_def Let_def)

text \<open>
  C17: Containers whose bundles name the same VM share its shim. While a shim listens on the VM's address, a second \<open>StartShim\<close> for that
  VM, asked through the plugin, gives this address; the plugin's table of processes is as before, and nothing
  is started, created or removed: the attempt to open the socket is the last thing that happens.
\<close>

theorem StartShim_joins_running_VM:
  assumes "OpenLogFifo x = (None, x0)" "os_Getwd os x0 = (Inr cwd, x1)"
    and "OCIConfig_VMID os decode (OCIConfig cwd) x1 = (Inr vmID, x2)" "vmID \<noteq> []"
    and "NewClient ttrpc x2 = (None, (c, w))"
    and "c_Validate env vmID = None" "c_namespace env = Inr ns" "SocketAddress (c_SocketAddress env) ns vmID = Inr a"
    and "c_NewSocket env a w = (Some e, w')" "isEADDRINUSE (c_error_text env) (Some e)"
  shows "StartShim os decode OpenLogFifo NewV4 NewClient (call_CreateVM env) (c_SocketAddress env) ns ttrpc s x =
    (Inr a, s\<lparr>s_vmID := vmID\<rparr>, (c, w'))"
proof -
  have v: "VMID (start_request vmID False 0) = vmID" by (simp add: start_request_def)
  obtain msg where "local_CreateVM env c (start_request vmID False 0) w = (Inl (StatusError AlreadyExists msg), c, w')"
    using CreateVM_in_use[of env "start_request vmID False 0" ns a w e w' c] assms(6-10) unfolding v by blast
  then have "call_CreateVM env (start_request vmID False 0) (c, w) = (Some (StatusError AlreadyExists msg), (c, w'))"
    by (simp add: call_CreateVM_def)
  with assms show ?thesis by (simp add: StartShim_def)
qed

definition busy_ctl :: "'w ctl_env" where
  "busy_ctl = ctl_fine\<lparr>c_NewSocket := (\<lambda>a w. (Some (ExtError ''address already in use''), w))\<rparr>"

theorem StartShim_joins_running_VM_witness:
  "\<exists>s'. StartShim os_fine (\<lambda>_. Inr [VMIDAnnotationKey \<mapsto> ''vm-1'']) (\<lambda>x. (None, x)) (\<lambda>x. (Inr ''u'', x)) (\<lambda>t x. (None, x))
      (call_CreateVM (busy_ctl :: unit ctl_env)) (c_SocketAddress (busy_ctl :: unit ctl_env)) ''default'' ''/t''
      (first_service :: (local \<times> unit, unit) service) (running_local, ()) = (Inr ''/s/vm-1'', s', (running_local, ()))"
proof -
  have o: "OCIConfig_VMID os_fine (\<lambda>_. Inr [VMIDAnnotationKey \<mapsto> ''vm-1'']) (OCIConfig d) x = (Inr ''vm-1'', x)" for d and x :: "local \<times> unit"
    by (simp add: OCIConfig_VMID_def OCIConfig_File_def os_fine_def)
  have g: "\<exists>cwd. os_Getwd os_fine x = (Inr cwd, x)" for x :: "local \<times> unit" by (simp add: os_fine_def)
  have b: "c_Validate (busy_ctl :: unit ctl_env) = V_example" "c_namespace (busy_ctl :: unit ctl_env) = Inr ''default''"
    "SocketAddress (c_SocketAddress (busy_ctl :: unit ctl_env)) ''default'' ''vm-1'' = Inr ''/s/vm-1''"
    "c_NewSocket busy_ctl p () = (Some (ExtError ''address already in use''), ())" for p
    by (simp_all add: busy_ctl_def ctl_fine_def SocketAddress_def)
  have u: "isEADDRINUSE (c_error_text (busy_ctl :: unit ctl_env)) (Some (ExtError ''address already in use''))"
    by (simp add: busy_ctl_def ctl_fine_def isEADDRINUSE_def strings_HasPrefix_def)
  have v: "V_example ''vm-1'' = None" by (simp add: V_example_def)
  obtain cwd where cwd: "os_Getwd os_fine (running_local, ()) = (Inr cwd, (running_local, ()))" by (rule exE[OF g])
  show ?thesis
    by (rule exI, rule StartShim_joins_running_VM[OF _ cwd o _ _ _ _ _ b(4) u]) (use b v in simp_all)
qed

end
