(* ===== verification/PluginShim.thy ===== *)
theory PluginShim
  imports ShimProcess
begin

text \<open>
  The control plugin and its shims as one system: the world of the plugin holds a shim per control socket, starting a process makes
  one by \<open>NewService\<close>, and the plugin's clients call the shim behind the address they were made for.
\<close>

type_synonym ('w, 'ip) shims = "string \<rightharpoonup> ('w, 'ip) service"

definition apart :: "('w \<Rightarrow> 'a \<times> 'w) \<Rightarrow> 'm \<times> 'w \<Rightarrow> 'a \<times> 'm \<times> 'w" where
  "apart f x = (case f (snd x) of (r, w) \<Rightarrow> (r, (fst x, w)))"

lemma apart_eq: "apart f x = (r, y) \<longleftrightarrow> (\<exists>w. f (snd x) = (r, w) \<and> y = (fst x, w))"
  by (auto simp: apart_def split: prod.splits)

definition apart_os :: "'w os \<Rightarrow> ('m \<times> 'w) os" where
  "apart_os os =
     \<lparr>os_Mkdir = (\<lambda>p m. apart (os_Mkdir os p m)), os_MkdirAll = (\<lambda>p m. apart (os_MkdirAll os p m)),
      os_Chown = (\<lambda>p u g. apart (os_Chown os p u g)), os_Chmod = (\<lambda>p m. apart (os_Chmod os p m)),
      os_Symlink = (\<lambda>a b. apart (os_Symlink os a b)), os_Link = (\<lambda>a b. apart (os_Link os a b)),
      os_Remove = (\<lambda>p. apart (os_Remove os p)), os_RemoveAll = (\<lambda>p. apart (os_RemoveAll os p)),
      os_Stat = (\<lambda>p. apart (os_Stat os p)), os_Getwd = apart (os_Getwd os),
      os_ReadFile = (\<lambda>p. apart (os_ReadFile os p)), os_WriteFile = (\<lambda>p c m. apart (os_WriteFile os p c m)),
      os_ReadDir = (\<lambda>p. apart (os_ReadDir os p)), os_CreateExcl = (\<lambda>p m. apart (os_CreateExcl os p m)),
      os_WriteString = (\<lambda>p c. apart (os_WriteString os p c)), os_FStatSize = (\<lambda>p. apart (os_FStatSize os p)),
      os_Truncate = (\<lambda>p n. apart (os_Truncate os p n)), os_Open = (\<lambda>p. apart (os_Open os p)),
      os_Close = (\<lambda>p. apart (os_Close os p)), os_EvalSymlinks = (\<lambda>p. apart (os_EvalSymlinks os p)),
      os_MknodBlk = (\<lambda>p d. apart (os_MknodBlk os p d)), os_CpSparse = (\<lambda>a b. apart (os_CpSparse os a b)),
      os_Signal = (\<lambda>p sg. apart (os_Signal os p sg))\<rparr>"

text \<open>A call to a shim. Nobody answers at an address without a shim, and a client does not wait longer than its context.\<close>

definition at_shim ::
    "string \<Rightarrow> (('w, 'ip) service \<Rightarrow> 'w \<Rightarrow> 'a \<times> ('w, 'ip) service \<times> 'w) \<Rightarrow> 'a \<Rightarrow> ('w, 'ip) shims \<times> 'w \<Rightarrow> 'a \<times> ('w, 'ip) shims \<times> 'w" where
  "at_shim a f nobody x =
     (case fst x a of
        None \<Rightarrow> (nobody, x)
      | Some s \<Rightarrow> (case f s (snd x) of (r, s, w) \<Rightarrow> (r, ((fst x)(a \<mapsto> s), w))))"

definition answered :: "'a option \<times> 's \<times> 'w \<Rightarrow> 'a \<Rightarrow> 'a \<times> 's \<times> 'w" where
  "answered q late = (case q of (None, s, w) \<Rightarrow> (late, s, w) | (Some r, s, w) \<Rightarrow> (r, s, w))"

definition shim_closed :: gerr where "shim_closed = ExtError ''ttrpc: closed''"

definition client_of :: "('w, 'ip, 'b) shim_env \<Rightarrow> nat \<Rightarrow> string \<Rightarrow> (('w, 'ip) shims \<times> 'w) shim_client" where
  "client_of senv k a =
     \<lparr>cl_Close = (\<lambda>x. x),
      cl_CreateVM = (\<lambda>req. at_shim a (\<lambda>s w. answered (shim_CreateVM senv s req w) (Inl ContextDeadlineExceeded)) (Inl shim_closed)),
      cl_StopVM = (\<lambda>i n. at_shim a (\<lambda>s w. shim_StopVM senv k s n w) (Some shim_closed)),
      cl_GetVMInfo = (\<lambda>i. at_shim a (\<lambda>s w. (shim_GetVMInfo s, s, w)) (Inl shim_closed)),
      cl_SetVMMetadata = (\<lambda>i m. at_shim a (\<lambda>s w. case shim_SetVMMetadata s m w of (r, w) \<Rightarrow> (r, s, w)) (Some shim_closed)),
      cl_UpdateVMMetadata = (\<lambda>i m. at_shim a (\<lambda>s w. case shim_UpdateVMMetadata s m w of (r, w) \<Rightarrow> (r, s, w)) (Some shim_closed)),
      cl_GetVMMetadata = (\<lambda>i. at_shim a (\<lambda>s w. case shim_GetVMMetadata s w of (r, w) \<Rightarrow> (r, s, w)) (Inl shim_closed))\<rparr>"

text \<open>
  What the new process does: \<open>NewService\<close> in its environment, with the namespace of its arguments, serving on the inherited file that its descriptor
  number stands for. A process whose \<open>NewService\<close> fails has been started all the same.
\<close>

definition inherited :: "shim_cmd \<Rightarrow> string" where
  "inherited cmd =
     (case strconv_Atoi (env_lookup (sc_Env cmd) FCSocketFDEnvKey) of
        Inl _ \<Rightarrow> []
      | Inr fd \<Rightarrow> sc_ExtraFiles cmd ! nat (fd - 3))"

definition spawn ::
    "'w ctl_env \<Rightarrow> (string \<Rightarrow> Config \<times> string list \<Rightarrow> gerr + Config \<times> string list) \<Rightarrow> bool \<Rightarrow> shim_cmd \<Rightarrow>
     ('w, 'ip) shims \<times> 'w \<Rightarrow> (gerr + int) \<times> ('w, 'ip) shims \<times> 'w" where
  "spawn env Unmarshal debug cmd x =
     (case c_Start env cmd (snd x) of
        (Inl err, w) \<Rightarrow> (Inl err, (fst x, w))
      | (Inr pid, w) \<Rightarrow>
          (case NewService (c_os env) (c_Validate env) (env_lookup (sc_Env cmd)) Unmarshal [] (\<lambda>w. (None, w)) (\<lambda>fd w. (None, w))
                  (Some debug) (Some (sc_Args cmd ! 1)) w of
             (Inl err, w) \<Rightarrow> (Inr pid, (fst x, w))
           | (Inr svc, w) \<Rightarrow> (Inr pid, ((fst x)(inherited cmd \<mapsto> svc), w))))"

definition composed ::
    "'w ctl_env \<Rightarrow> ('w, 'ip, 'b) shim_env \<Rightarrow> nat \<Rightarrow> (string \<Rightarrow> Config \<times> string list \<Rightarrow> gerr + Config \<times> string list) \<Rightarrow> bool \<Rightarrow>
     (('w, 'ip) shims \<times> 'w) ctl_env" where
  "composed env senv k Unmarshal debug =
     \<lparr>c_os = apart_os (c_os env), c_Validate = c_Validate env, c_namespace = c_namespace env,
      c_SocketAddress = c_SocketAddress env, c_NewSocket = (\<lambda>a. apart (c_NewSocket env a)),
      c_CloseSocket = (\<lambda>a x. (fst x, c_CloseSocket env a (snd x))), c_File = (\<lambda>a. apart (c_File env a)),
      c_CloseFile = (\<lambda>a. apart (c_CloseFile env a)), c_Environ = c_Environ env, c_Start = spawn env Unmarshal debug,
      c_Kill = (\<lambda>pid x. (fst x, c_Kill env pid (snd x))), c_Getpid = c_Getpid env,
      c_GetOOMScoreAdj = (\<lambda>p. apart (c_GetOOMScoreAdj env p)), c_SetOOMScore = (\<lambda>p n. apart (c_SetOOMScore env p n)),
      c_NewClient = (\<lambda>a x. (Inr (client_of senv k (drop 1 a)), x)),
      c_PidExists = (\<lambda>p. apart (c_PidExists env p)), c_ticks = c_ticks env, c_error_text = c_error_text env\<rparr>"

section \<open>A successful \<open>CreateVM\<close>, step by step\<close>

lemma with_shim_success:
  assumes "create_with_shim env s req ns a fc ds w = (Inr resp, ds', s', w')"
  shows "\<exists>pid x c y. newShim env s ns (VMID req) (containerdAddress s) a fc w = (Inr pid, x) \<and>
    shimFirecrackerClient env (VMID req) x = (Inr c, y) \<and> cl_CreateVM c req y = (Inr resp, w') \<and>
    ds' = CloseClient c # KillShim pid # ds \<and> s' = addShim s a pid"
  using assms by (auto simp: create_with_shim_def Let_def split: prod.splits sum.splits)

lemma in_dir_success:
  assumes "create_in_dir env s req ns a ds w = (Inr resp, ds', s', w')"
  shows "\<exists>fc x. FCControlSocketAddress (c_SocketAddress env) ns (VMID req) = Inr fc \<and> c_NewSocket env fc w = (None, x) \<and>
    create_with_shim env s req ns a fc (CloseSocket fc # ds) x = (Inr resp, ds', s', w')"
  using assms by (auto simp: create_in_dir_def split: prod.splits sum.splits option.splits)

lemma with_socket_success:
  assumes "create_with_socket env s req ns a ds w = (Inr resp, ds', s', w')"
  shows "\<exists>m x dir y z. os_Mkdir (c_os env) (ShimBaseDir (l_config s)) 448 w = (m, x) \<and>
    ShimDir (c_os env) (c_Validate env) (ShimBaseDir (l_config s)) ns (VMID req) x = (Inr dir, y) \<and>
    dir_Mkdir (c_os env) dir y = (None, z) \<and>
    create_in_dir env s req ns a (RemoveShimDir (RootPath dir) # ds) z = (Inr resp, ds', s', w')"
  using assms by (auto simp: create_with_socket_def split: prod.splits sum.splits option.splits if_splits)

lemma body_success:
  assumes "create_body_ctl env s req w = (Inr resp, ds', s', w')"
  shows "\<exists>ns a x. c_Validate env (VMID req) = None \<and> c_namespace env = Inr ns \<and>
    SocketAddress (c_SocketAddress env) ns (VMID req) = Inr a \<and> c_NewSocket env a w = (None, x) \<and>
    create_with_socket env s req ns a [CloseSocket a] x = (Inr resp, ds', s', w')"
  using assms by (auto simp: create_body_ctl_def Let_def split: prod.splits sum.splits option.splits if_splits)

section \<open>What the calls of the plugin do to the shims\<close>

lemma composed_fields [simp]:
  "c_Validate (composed env senv k U dbg) = c_Validate env" "c_namespace (composed env senv k U dbg) = c_namespace env"
  "c_SocketAddress (composed env senv k U dbg) = c_SocketAddress env" "c_Start (composed env senv k U dbg) = spawn env U dbg"
  "c_NewClient (composed env senv k U dbg) a x = (Inr (client_of senv k (drop 1 a)), x)"
  "c_os (composed env senv k U dbg) = apart_os (c_os env)"
  by (simp_all add: composed_def)

lemma composed_apart:
  "c_NewSocket (composed env senv k U dbg) a x = (r, y) \<Longrightarrow> fst y = fst x"
  "c_File (composed env senv k U dbg) a x = (r, y) \<Longrightarrow> fst y = fst x"
  "os_Mkdir (apart_os os) p m x = (r, y) \<Longrightarrow> fst y = fst x"
  "dir_Mkdir (apart_os os) d x = (r, y) \<Longrightarrow> fst y = fst x"
  "ShimDir (apart_os os) V b ns i x = (rd, y) \<Longrightarrow> fst y = fst x"
  "setShimOOMScore (composed env senv k U dbg) pid x = (r, y) \<Longrightarrow> fst y = fst x"
  by (auto simp: composed_def apart_os_def dir_Mkdir_def ShimDir_def shimDir_def setShimOOMScore_def apart_eq
    split: option.splits prod.splits sum.splits)

lemma defers_apart:
  "\<forall>d \<in> set ds. \<forall>c. d = CloseClient c \<longrightarrow> (\<exists>a. c = client_of senv k a) \<Longrightarrow>
    fst (run_defers (composed env senv k U dbg) failed ds x) = fst x"
proof (induction ds arbitrary: x)
  case (Cons d ds)
  have "fst (run_deferred (composed env senv k U dbg) failed d x) = fst x"
    using Cons.prems by (cases d) (auto simp: composed_def apart_os_def apart_def client_of_def split: prod.splits)
  with Cons show ?case by simp
qed simp

text \<open>A process that was started is a new shim of the VM, on the control socket that it was given, or none.\<close>

lemma spawn_shim:
  assumes "spawn env U dbg (shim_command env2 ns i addr dir a fc) x = (Inr pid, y)"
  shows "fst y = fst x \<or> (\<exists>svc. fst y = (fst x)(fc \<mapsto> svc) \<and> s_vmID svc = i \<and> \<not> vmStartOnce svc)"
proof -
  have cmd: "inherited (shim_command env2 ns i addr dir a fc) = fc"
    by (simp add: inherited_def env_lookup_FD Atoi_4) (simp add: shim_command_def Let_def)
  show ?thesis
    using assms by (auto simp: spawn_def cmd env_lookup_VMID NewService_def initial_service_def Let_def
      split: prod.splits sum.splits)
qed

lemma newShim_shim:
  assumes "newShim (composed env senv k U dbg) s ns i addr a fc x = (Inr pid, y)"
  shows "fst y = fst x \<or> (\<exists>svc. fst y = (fst x)(fc \<mapsto> svc) \<and> s_vmID svc = i \<and> \<not> vmStartOnce svc)"
proof -
  let ?env = "composed env senv k U dbg"
  obtain dir x1 where d: "ShimDir (c_os ?env) (c_Validate ?env) (ShimBaseDir (l_config s)) ns i x = (Inr dir, x1)"
    using assms by (auto simp: newShim_def split: prod.splits sum.splits)
  obtain x2 where f1: "c_File ?env a x1 = (None, x2)"
    using assms d by (auto simp: newShim_def split: prod.splits option.splits)
  obtain x3 where f2: "c_File ?env fc x2 = (None, x3)"
    using assms d f1 by (auto simp: newShim_def split: prod.splits option.splits)
  obtain x4 where st: "c_Start ?env (shim_command ?env ns i addr dir a fc) x3 = (Inr pid, x4)"
      and o: "setShimOOMScore ?env pid x4 = (None, y)"
    using assms d f1 f2 by (auto simp: newShim_def split: prod.splits sum.splits option.splits)
  have "fst x3 = fst x" using composed_apart(5)[OF d[unfolded composed_fields]] composed_apart(2)[OF f1] composed_apart(2)[OF f2] by simp
  moreover have "fst y = fst x4" by (rule composed_apart(6)[OF o])
  ultimately show ?thesis using spawn_shim[OF st[unfolded composed_fields]] by simp
qed

text \<open>
  What the plugin relies on in a shim: once it has answered \<open>CreateVM\<close> well it is ready and keeps giving that answer, and its answers
  name its VM.
\<close>

locale vm_service =
  fixes create :: "'s \<Rightarrow> CreateVMRequest \<Rightarrow> 'w \<Rightarrow> (gerr + CreateVMResponse) option \<times> 's \<times> 'w"
    and info :: "'s \<Rightarrow> gerr + CreateVMResponse"
    and ready :: "'s \<Rightarrow> bool"
    and vm :: "'s \<Rightarrow> string"
  assumes create_ready: "create s req w = (Some (Inr resp), s', w') \<Longrightarrow> ready s' \<and> vm s' = vm s"
    and create_info: "create s req w = (Some (Inr resp), s', w') \<Longrightarrow> info s' = Inr resp"
    and info_vm: "info s = Inr resp \<Longrightarrow> resp_VMID resp = vm s"
begin

lemma created:
  assumes "answered (create s req w) (Inl late) = (Inr resp, s', w')"
  shows "ready s' \<and> vm s' = vm s \<and> info s' = Inr resp \<and> resp_VMID resp = vm s"
proof -
  have c: "create s req w = (Some (Inr resp), s', w')"
    using assms by (auto simp: answered_def split: prod.splits option.splits)
  from create_ready[OF c] create_info[OF c] info_vm[of s' resp] show ?thesis by simp
qed

end

interpretation shim: vm_service "shim_CreateVM senv" shim_GetVMInfo vmReady s_vmID
  for senv :: "('w, 'ip, 'b) shim_env"
proof
  fix svc svc' :: "('w, 'ip) service" and req w resp w'
  assume a: "shim_CreateVM senv svc req w = (Some (Inr resp), svc', w')"
  have n: "\<not> vmStartOnce svc" using a by (auto simp: shim_CreateVM_def Let_def)
  let ?sched = "e_dial_sched senv (request_timeout (TimeoutSeconds req) defaultCreateVMTimeout)"
  obtain r s1 w1 where c: "createVM senv svc req ?sched w = (r, s1, w1)" by (rule prod_cases3)
  have r: "svc' = s1\<lparr>vmStartOnce := True, vmReady := True\<rparr>" "vm_response svc' = Inr resp"
    using a n c by (auto simp: shim_CreateVM_def Let_def split: option.splits prod.splits)
  from createVM_frame[OF c] have "s_vmID s1 = s_vmID svc" by (simp add: frame_def)
  with r show "vmReady svc' \<and> s_vmID svc' = s_vmID svc" "shim_GetVMInfo svc' = Inr resp"
    by (simp_all add: shim_GetVMInfo_def waitVMReady_def)
next
  fix svc :: "('w, 'ip) service" and resp
  assume "shim_GetVMInfo svc = Inr resp"
  then show "resp_VMID resp = s_vmID svc"
    by (auto simp: shim_GetVMInfo_def vm_response_def split: option.splits)
qed

lemma asked_client:
  assumes "shimFirecrackerClient (composed env senv k U dbg) i x = (Inr c, y)"
    "FCControlSocketAddress (c_SocketAddress env) (request_ns env) i = Inr fc"
  shows "c = client_of senv k fc \<and> y = x"
  using assms by (auto simp: shimFirecrackerClient_def request_ns_def client_New_def split: option.splits)

text \<open>The whole run of a successful \<open>CreateVM\<close>, seen from the shims.\<close>

lemma CreateVM_run:
  assumes "local_CreateVM (composed env senv k U dbg) s req x = (Inr resp, s', y)"
  obtains ns a fc x1 x2 pid ds z where "c_namespace env = Inr ns" "c_Validate env (VMID req) = None"
    "SocketAddress (c_SocketAddress env) ns (VMID req) = Inr a"
    "FCControlSocketAddress (c_SocketAddress env) ns (VMID req) = Inr fc" "fst x1 = fst x"
    "newShim (composed env senv k U dbg) s ns (VMID req) (containerdAddress s) a fc x1 = (Inr pid, x2)"
    "cl_CreateVM (client_of senv k fc) req x2 = (Inr resp, z)" "fst y = fst z" "s' = addShim s a pid"
proof -
  let ?env = "composed env senv k U dbg"
  obtain r ds s1 z where b: "create_body_ctl ?env s req x = (r, ds, s1, z)" by (rule prod_cases4)
  have o: "r = Inr resp" "s1 = s'" "y = run_defers ?env (\<not> isOk r) ds z"
    using assms b by (auto simp: local_CreateVM_def)
  from body_success[OF b[unfolded o(1,2)]] obtain ns a x1 where h1: "c_Validate env (VMID req) = None" "c_namespace env = Inr ns"
      "SocketAddress (c_SocketAddress env) ns (VMID req) = Inr a" "c_NewSocket ?env a x = (None, x1)"
      "create_with_socket ?env s req ns a [CloseSocket a] x1 = (Inr resp, ds, s', z)"
    unfolding composed_fields by (elim exE conjE) (rule that; assumption)
  from with_socket_success[OF h1(5)] obtain m x2 dir x3 x4 where h2: "os_Mkdir (apart_os (c_os env)) (ShimBaseDir (l_config s)) 448 x1 = (m, x2)"
      "ShimDir (apart_os (c_os env)) (c_Validate env) (ShimBaseDir (l_config s)) ns (VMID req) x2 = (Inr dir, x3)"
      "dir_Mkdir (apart_os (c_os env)) dir x3 = (None, x4)"
      "create_in_dir ?env s req ns a (RemoveShimDir (RootPath dir) # [CloseSocket a]) x4 = (Inr resp, ds, s', z)"
    unfolding composed_fields by (elim exE conjE) (rule that; assumption)
  from in_dir_success[OF h2(4)] obtain fc x5 where h3: "FCControlSocketAddress (c_SocketAddress env) ns (VMID req) = Inr fc"
      "c_NewSocket ?env fc x4 = (None, x5)"
      "create_with_shim ?env s req ns a fc (CloseSocket fc # RemoveShimDir (RootPath dir) # [CloseSocket a]) x5 = (Inr resp, ds, s', z)"
    unfolding composed_fields by (elim exE conjE) (rule that; assumption)
  from with_shim_success[OF h3(3)] obtain pid x6 c x7 where h4: "newShim ?env s ns (VMID req) (containerdAddress s) a fc x5 = (Inr pid, x6)"
      "shimFirecrackerClient ?env (VMID req) x6 = (Inr c, x7)" "cl_CreateVM c req x7 = (Inr resp, z)"
      "ds = CloseClient c # KillShim pid # CloseSocket fc # RemoveShimDir (RootPath dir) # [CloseSocket a]" "s' = addShim s a pid"
    by (elim exE conjE) (rule that; assumption)
  have c: "c = client_of senv k fc" "x7 = x6" using asked_client[OF h4(2)] h1(2) h3(1) by (simp_all add: request_ns_def)
  have "fst x5 = fst x"
    using composed_apart(1)[OF h1(4)] composed_apart(3)[OF h2(1)] composed_apart(5)[OF h2(2)] composed_apart(4)[OF h2(3)]
      composed_apart(1)[OF h3(2)] by simp
  moreover have "fst y = fst z" unfolding o(3) by (rule defers_apart) (auto simp: h4(4) c)
  ultimately show ?thesis using that[OF h1(2,1,3) h3(1) _ h4(1) h4(3)[unfolded c]] h4(5) by blast
qed

text \<open>
  C6: A VM that the plugin has created is there: when \<open>CreateVM\<close> succeeds on a free control socket, then exactly one shim has been added to the
  system, at the VM's control address; it is ready and its VM has the requested id. From then on the plugin's \<open>GetVMInfo\<close> for the VM asks
  this shim and gives the answer that \<open>CreateVM\<close> gave, and no shim of another VM has been touched.
\<close>

theorem CreateVM_then_GetVMInfo:
  fixes x :: "('w, 'ip) shims \<times> 'w"
  assumes "local_CreateVM (composed env senv k U dbg) s req x = (Inr resp, s', y)"
    and "\<And>fc. FCControlSocketAddress (c_SocketAddress env) (request_ns env) (VMID req) = Inr fc \<Longrightarrow> fst x fc = None"
  shows "\<exists>fc svc. FCControlSocketAddress (c_SocketAddress env) (request_ns env) (VMID req) = Inr fc \<and>
    fst y = (fst x)(fc \<mapsto> svc) \<and> vmReady svc \<and> s_vmID svc = VMID req \<and> resp_VMID resp = VMID req \<and>
    (\<forall>z. fst z fc = Some svc \<longrightarrow> local_GetVMInfo (composed env senv k U dbg) (VMID req) z = (Inr resp, z))"
proof -
  let ?env = "composed env senv k U dbg"
  from assms(1) obtain ns a fc x1 x2 pid z where r: "c_namespace env = Inr ns" "c_Validate env (VMID req) = None"
      "FCControlSocketAddress (c_SocketAddress env) ns (VMID req) = Inr fc" "fst x1 = fst x"
      "newShim ?env s ns (VMID req) (containerdAddress s) a fc x1 = (Inr pid, x2)"
      "cl_CreateVM (client_of senv k fc) req x2 = (Inr resp, z)" "fst y = fst z"
    by (rule CreateVM_run)
  have fc: "FCControlSocketAddress (c_SocketAddress env) (request_ns env) (VMID req) = Inr fc" using r(1,3) by (simp add: request_ns_def)
  have free: "fst x1 fc = None" using assms(2)[OF fc] r(4) by simp
  obtain svc0 where m: "fst x2 fc = Some svc0" using r(6) by (cases "fst x2 fc") (auto simp: client_of_def at_shim_def)
  with newShim_shim[OF r(5)] free have m2: "fst x2 = (fst x)(fc \<mapsto> svc0)" "s_vmID svc0 = VMID req" using r(4) by auto
  let ?late = "Inl ContextDeadlineExceeded :: gerr + CreateVMResponse"
  obtain q svc w where q: "answered (shim_CreateVM senv svc0 req (snd x2)) ?late = (q, svc, w)" by (rule prod_cases3)
  have q2: "q = Inr resp" "fst z = (fst x)(fc \<mapsto> svc)"
    using r(6) m m2(1) q by (auto simp: client_of_def at_shim_def)
  note ans = shim.created[OF q[unfolded q2(1)]]
  have "local_GetVMInfo ?env (VMID req) v = (Inr resp, v)" if "fst v fc = Some svc" for v
  proof -
    have "shimFirecrackerClient ?env (VMID req) v = (Inr (client_of senv k fc), v)"
      using r(2) fc by (simp add: shimFirecrackerClient_def request_ns_def client_New_def)
    moreover have "cl_GetVMInfo (client_of senv k fc) (VMID req) v = (Inr resp, v)"
      using that ans by (cases v) (simp add: client_of_def at_shim_def fun_upd_idem)
    ultimately show ?thesis by (simp add: local_GetVMInfo_def with_client_def) (simp add: client_of_def)
  qed
  with fc q2(2) r(7) ans m2(2) show ?thesis by auto
qed

section \<open>A run of the whole system\<close>

text \<open>Everything works; the file of the runtime configuration holds \<open>plain_shim_config\<close>.\<close>

definition fine_system :: "((unit, unit) shims \<times> unit) ctl_env" where
  "fine_system = composed ctl_fine (shim_fine svc_fine) 0 (\<lambda>_ _. Inr (plain_shim_config, [])) False"

lemma fine_system_steps:
  "c_NewSocket fine_system a x = (None, x)" "c_File fine_system a x = (None, x)"
  "os_Mkdir (c_os fine_system) p m x = (None, x)" "dir_Mkdir (c_os fine_system) d x = (None, x)"
  "setShimOOMScore fine_system pid x = (None, x)"
  "ShimDir (c_os fine_system) (c_Validate fine_system) (ShimBaseDir (l_config fresh_local)) ''default'' ''vm-1'' x =
     (Inr (filepath_Join [''/run'', ''default'', ''vm-1'']), x)"
  by (simp_all add: fine_system_def composed_def ctl_fine_def apart_os_def apart_def os_fine_def dir_Mkdir_def setShimOOMScore_def
    ShimDir_def shimDir_def V_example_def fresh_local_def plain_shim_config_def prod_eq_iff)

lemma fine_run_dir: "filepath_Join [''/run'', ''default'', ''vm-1''] = ''/run/default/vm-1''"
  by (simp add: path_simps)

lemma fine_NewService:
  fixes cmd :: shim_cmd
  assumes "env_lookup (sc_Env cmd) VMIDEnvVarKey = ''vm-1''" "env_lookup (sc_Env cmd) FCSocketFDEnvKey = ''4''"
  shows "NewService os_fine V_example (env_lookup (sc_Env cmd)) (\<lambda>_ _. Inr (plain_shim_config, [])) [] (\<lambda>w. (None, w)) (\<lambda>fd w. (None, w))
    (Some False) (Some ''default'') () = (Inr first_service, ())"
proof -
  have l: "LoadConfig os_fine g (\<lambda>_ _. Inr (plain_shim_config, [])) [] [] () = (Inr (plain_shim_config, zero_Helper []), ())" for g
    by (simp add: LoadConfig_def os_fine_def Let_def New_def)
  have d: "ShimDir os_fine V_example (ShimBaseDir plain_shim_config) ''default'' ''vm-1'' () = (Inr ''/run/default/vm-1'', ())"
    by (simp add: ShimDir_def shimDir_def V_example_def os_fine_def plain_shim_config_def fine_run_dir)
  have h: "(zero_Helper [])\<lparr>ShimDebug := False\<rparr> = zero_Helper []" by (simp add: zero_Helper_def)
  show ?thesis using assms
    by (simp add: NewService_def l d h serveFCControl_def Atoi_4 first_service_def Let_def)
qed

lemma fine_spawn:
  "spawn ctl_fine (\<lambda>_ _. Inr (plain_shim_config, [])) False (shim_command env ''default'' ''vm-1'' addr dir a fc) x =
     (Inr 7, ((fst x)(fc \<mapsto> first_service), ()))"
proof -
  let ?cmd = "shim_command env ''default'' ''vm-1'' addr dir a fc"
  have cmd: "inherited ?cmd = fc" "sc_Args ?cmd ! 1 = ''default''"
    by (simp add: inherited_def env_lookup_FD Atoi_4, simp add: shim_command_def Let_def) (simp add: shim_command_def Let_def)
  have st: "c_Start ctl_fine ?cmd (snd x) = (Inr 7, ())" "c_os ctl_fine = os_fine" "c_Validate ctl_fine = V_example"
    by (simp_all add: ctl_fine_def)
  show ?thesis
    unfolding spawn_def st prod.case sum.case cmd fine_NewService[OF env_lookup_VMID env_lookup_FD] ..
qed

lemma fine_system_newShim:
  "newShim fine_system fresh_local ''default'' ''vm-1'' addr a fc x = (Inr 7, ((fst x)(fc \<mapsto> first_service), ()))"
proof -
  have "c_Start fine_system = spawn ctl_fine (\<lambda>_ _. Inr (plain_shim_config, [])) False" by (simp add: fine_system_def)
  then show ?thesis
    by (simp only: newShim_def fine_system_steps fine_spawn prod.case sum.case option.case)
qed

lemma fine_system_CreateVM:
  "\<exists>resp fc svc d. FCControlSocketAddress (c_SocketAddress fine_system) ''default'' ''vm-1'' = Inr fc \<and> fine_state svc_fine svc d \<and> vmReady svc \<and>
     local_CreateVM fine_system fresh_local first_request (Map.empty, ()) = (Inr resp, addShim fresh_local ''/s/vm-1'' 7, ([fc \<mapsto> svc], ()))"
proof -
  obtain svc d resp where c: "shim_CreateVM (shim_fine svc_fine) first_service first_request () = (Some (Inr resp), svc, ())"
      "fine_state svc_fine svc d" "vmReady svc"
    using fine_CreateVM[of svc_fine] by (elim exE conjE) (rule that; assumption)
  obtain fc where fc: "FCControlSocketAddress (c_SocketAddress fine_system) ''default'' ''vm-1'' = Inr fc"
  proof -
    have "c_SocketAddress fine_system = c_SocketAddress (ctl_fine :: unit ctl_env)" by (simp add: fine_system_def)
    then show ?thesis using that by (simp only:) (rule exE[OF fine_fccontrol])
  qed
  have facts: "c_Validate fine_system ''vm-1'' = None" "c_namespace fine_system = Inr ''default''"
    "SocketAddress (c_SocketAddress fine_system) ''default'' ''vm-1'' = Inr ''/s/vm-1''" "VMID first_request = ''vm-1''"
    using fine_parts by (simp_all add: fine_system_def)
  have cl: "shimFirecrackerClient fine_system ''vm-1'' x = (Inr (client_of (shim_fine svc_fine) 0 fc), x)" for x
    by (simp add: shimFirecrackerClient_def request_ns_def client_New_def facts fc) (simp add: fine_system_def)
  have call: "cl_CreateVM (client_of (shim_fine svc_fine) 0 fc) first_request (Map.empty(fc \<mapsto> first_service), ()) =
      (Inr resp, ([fc \<mapsto> svc], ()))"
    by (simp add: client_of_def at_shim_def c(1) answered_def)
  let ?empty = "(Map.empty, ()) :: (unit, unit) shims \<times> unit"
  have shim: "create_with_shim fine_system fresh_local first_request ''default'' ''/s/vm-1'' fc ds ?empty =
      (Inr resp, CloseClient (client_of (shim_fine svc_fine) 0 fc) # KillShim 7 # ds, addShim fresh_local ''/s/vm-1'' 7, ([fc \<mapsto> svc], ()))" for ds
    by (simp only: create_with_shim_def Let_def facts fine_system_newShim prod.case sum.case cl call fst_conv)
  let ?s = "addShim fresh_local ''/s/vm-1'' 7" and ?y = "([fc \<mapsto> svc], ())"
  let ?ds = "\<lambda>r. CloseClient (client_of (shim_fine svc_fine) 0 fc) # KillShim 7 # CloseSocket fc # RemoveShimDir r # [CloseSocket ''/s/vm-1'']"
  have dir: "create_in_dir fine_system fresh_local first_request ''default'' ''/s/vm-1'' (RemoveShimDir r # [CloseSocket ''/s/vm-1'']) ?empty = (Inr resp, ?ds r, ?s, ?y)" for r
    by (simp only: create_in_dir_def facts fc fine_system_steps shim prod.case sum.case option.case)
  have sock: "\<exists>r. create_with_socket fine_system fresh_local first_request ''default'' ''/s/vm-1'' [CloseSocket ''/s/vm-1''] ?empty = (Inr resp, ?ds r, ?s, ?y)"
    by (simp only: create_with_socket_def facts fine_system_steps dir prod.case sum.case option.case simp_thms if_False) blast
  have "\<exists>r. create_body_ctl fine_system fresh_local first_request ?empty = (Inr resp, ?ds r, ?s, ?y)"
    using sock by (simp only: create_body_ctl_def Let_def facts fine_system_steps prod.case sum.case option.case isEADDRINUSE_def
      simp_thms if_False)
  then obtain r where body: "create_body_ctl fine_system fresh_local first_request ?empty = (Inr resp, ?ds r, ?s, ?y)"
    by (elim exE) (rule that)
  have "c_CloseSocket fine_system a ?y = ?y" for a by (simp add: fine_system_def composed_def ctl_fine_def)
  then have "run_defers fine_system (\<not> isOk (Inr resp)) (?ds r) ?y = ?y"
    by (simp add: client_of_def)
  then have "local_CreateVM fine_system fresh_local first_request ?empty = (Inr resp, ?s, ?y)"
    by (simp only: local_CreateVM_def body prod.case)
  with fc c(2,3) show ?thesis by blast
qed

theorem CreateVM_then_GetVMInfo_witness:
  "\<exists>resp s' y fc svc. local_CreateVM fine_system fresh_local first_request (Map.empty, ()) = (Inr resp, s', y) \<and>
    fst y = [fc \<mapsto> svc] \<and> vmReady svc \<and> resp_VMID resp = ''vm-1'' \<and> fst (local_GetVMInfo fine_system ''vm-1'' y) = Inr resp"
proof -
  obtain resp s' y where r: "local_CreateVM fine_system fresh_local first_request (Map.empty, ()) = (Inr resp, s', y)"
    by (rule exE[OF fine_system_CreateVM], elim exE conjE) (rule that; assumption)
  have id: "VMID first_request = ''vm-1''" by (simp add: first_request_def start_request_def)
  have "\<exists>fc svc. FCControlSocketAddress (c_SocketAddress (ctl_fine :: unit ctl_env)) (request_ns (ctl_fine :: unit ctl_env)) (VMID first_request) = Inr fc \<and>
      fst y = (fst (Map.empty, ()))(fc \<mapsto> svc) \<and> vmReady svc \<and> s_vmID svc = VMID first_request \<and> resp_VMID resp = VMID first_request \<and>
      (\<forall>z. fst z fc = Some svc \<longrightarrow> local_GetVMInfo fine_system (VMID first_request) z = (Inr resp, z))"
    using CreateVM_then_GetVMInfo[OF r[unfolded fine_system_def]] unfolding fine_system_def[symmetric] by (simp only: fst_conv)
  then obtain fc svc where h: "fst y = [fc \<mapsto> svc]" "vmReady svc" "resp_VMID resp = ''vm-1''"
      "\<forall>z. fst z fc = Some svc \<longrightarrow> local_GetVMInfo fine_system ''vm-1'' z = (Inr resp, z)"
    unfolding id fst_conv by (elim exE conjE) (rule that; assumption)
  have "fst y fc = Some svc" unfolding h(1) by simp
  then have "local_GetVMInfo fine_system ''vm-1'' y = (Inr resp, y)" by (rule h(4)[THEN spec, THEN mp])
  then have "fst (local_GetVMInfo fine_system ''vm-1'' y) = Inr resp" by (simp only: fst_conv)
  with r h(1-3) show ?thesis by blast
qed

end
