(* ===== verification/PluginStop.thy ===== *)
theory PluginStop
  imports PluginShim
begin

text \<open>
  Stopping a VM through plugin and shim together: what a successful \<open>StopVM\<close> of the plugin says about the shim of the VM, and that it
  takes back what \<open>CreateVM\<close> did.
\<close>

section \<open>Stopping one shim\<close>

text \<open>A multierror without errors is an error in Go; no code makes one, but an error from outside is an arbitrary value.\<close>

definition proper_shim :: "('w, 'ip) service \<Rightarrow> bool" where
  "proper_shim svc \<longleftrightarrow> cleanupErr svc \<noteq> Some (MultiError []) \<and> (\<forall>m v. s_machine svc = Some m \<longrightarrow> fst (vm_Wait m v) \<noteq> Some (MultiError []))"

text \<open>What a stopped shim has behind it: its machine has ended without an error and its cleanup has run without one.\<close>

definition stopped_shim :: "('w, 'ip) service \<Rightarrow> ('w, 'ip) service \<Rightarrow> bool" where
  "stopped_shim svc svc' \<longleftrightarrow>
     vmReady svc \<and> (\<exists>m v v'. s_machine svc = Some m \<and> vm_Wait m v = (None, v')) \<and> svc' = with_cleanup svc True None"

lemma multi_append_none:
  "multi_append m e = [] \<Longrightarrow> e \<noteq> Some (MultiError []) \<Longrightarrow> m = [] \<and> e = None"
  by (cases e; cases "the e") (auto simp: multi_append_def)

lemma cleanup_body_proper: "fst (cleanup_body env svc jail w) \<noteq> Some (MultiError [])"
  by (auto simp: cleanup_body_def Let_def multi_error_or_nil_def split: prod.splits)

lemma shim_cleanup_none:
  assumes "shim_cleanup env svc w = (None, svc', w')"
  shows "svc' = with_cleanup svc True None"
proof (cases "cleanupOnce svc")
  case True
  with assms have "svc' = svc" "cleanupErr svc = None" by (auto simp: shim_cleanup_def)
  with True show ?thesis by (simp add: with_cleanup_def)
next
  case False
  with assms show ?thesis by (auto simp: shim_cleanup_def with_cleanup_def Let_def split: option.splits prod.splits)
qed

lemma shim_cleanup_proper:
  assumes "shim_cleanup env svc w = (e, svc', w')" "proper_shim svc"
  shows "e \<noteq> Some (MultiError [])"
proof -
  have "err \<noteq> Some (MultiError [])" if "cleanup_body env svc jail w = (err, v)" for jail err v
    using cleanup_body_proper[of env svc jail w] that by simp
  with assms show ?thesis
    by (auto simp: shim_cleanup_def proper_shim_def nil_deref_def Let_def split: if_splits option.splits prod.splits)
qed

lemma shim_StopVM_stops:
  assumes "shim_StopVM env k svc n w = (None, svc', w')" "proper_shim svc"
  shows "stopped_shim svc svc'"
proof -
  have r: "vmReady svc" using assms(1) by (auto simp: shim_StopVM_def waitVMReady_def Let_def split: if_splits)
  with assms(1) have s: "shim_shutdown env k svc (request_timeout n defaultStopVMTimeout) [] True w = (None, svc', w')"
    by (simp add: shim_StopVM_def waitVMReady_def)
  then obtain m where m: "s_machine svc = Some m" by (cases "s_machine svc") (simp_all add: shim_shutdown_def)
  obtain g w1 where l: "shutdownLoop env svc m (take k (shutdown_actions (request_timeout n defaultStopVMTimeout) [] True)) w = (g, w1)"
    by (rule prod.exhaust)
  obtain we w2 where we: "vm_Wait m w1 = (we, w2)" by (rule prod.exhaust)
  obtain ce svc1 w3 where ce: "shim_cleanup env svc w2 = (ce, svc1, w3)" by (rule prod_cases3)
  have "multi_append (multi_append [] we) ce = []" "svc' = svc1"
    using s m l we ce by (auto simp: shim_shutdown_def Let_def split: prod.splits if_splits)
  moreover have "we \<noteq> Some (MultiError [])" using assms(2) m we by (auto simp: proper_shim_def dest: spec[of _ w1])
  moreover note shim_cleanup_proper[OF ce assms(2)]
  ultimately have "we = None" "ce = None" "svc' = svc1" by (auto dest!: multi_append_none)
  with r m we ce show ?thesis by (auto simp: stopped_shim_def shim_cleanup_none)
qed

section \<open>Stopping through the plugin\<close>

lemma WaitForPidToExit_apart:
  assumes "WaitForPidToExit (c_PidExists (composed env senv k U dbg)) ticks pid x = (r, y)"
  shows "fst y = fst x"
  using assms
proof (induction "c_PidExists (composed env senv k U dbg)" ticks pid x rule: WaitForPidToExit.induct)
  case (3 ticks pid x)
  then show ?case by (auto simp: composed_def apart_eq split: prod.splits sum.splits if_splits)
qed simp_all

lemma waitForShim_apart:
  assumes "waitForShimToExit (composed env senv k U dbg) s i x = (r, s', y)"
  shows "fst y = fst x"
  using assms by (auto simp: waitForShimToExit_def dest!: WaitForPidToExit_apart split: sum.splits option.splits prod.splits)

text \<open>A successful \<open>StopVM\<close> of the plugin: its shim has stopped, and no other shim was touched.\<close>

lemma StopVM_run:
  assumes "local_StopVM (composed env senv k U dbg) s i n x = (Some None, s', y)"
    and "proper_errors (composed env senv k U dbg)" "\<forall>a svc. fst x a = Some svc \<longrightarrow> proper_shim svc"
    and "FCControlSocketAddress (c_SocketAddress env) (request_ns env) i = Inr fc"
    and "SocketAddress (c_SocketAddress env) (request_ns env) i = Inr a"
  shows "(\<exists>svc svc'. fst x fc = Some svc \<and> stopped_shim svc svc' \<and> fst y = (fst x)(fc \<mapsto> svc')) \<and>
     (\<exists>pid. processes s a = Some pid) \<and> s' = s\<lparr>processes := (processes s)(a := None)\<rparr>"
proof -
  let ?env = "composed env senv k U dbg"
  have ns: "SocketAddress (c_SocketAddress ?env) (request_ns ?env) i = Inr a" using assms(5) by (simp add: request_ns_def)
  obtain c x0 where c: "shimFirecrackerClient ?env i x = (Inr c, x0)"
    using assms(1) by (auto simp: local_StopVM_def split: sum.splits prod.splits)
  note ac = asked_client[OF c assms(4)]
  obtain e1 x1 where st: "cl_StopVM (client_of senv k fc) i n x = (e1, x1)" by (rule prod.exhaust)
  obtain w2 s2 x2 where wt: "waitForShimToExit ?env s i x1 = (w2, s2, x2)" by (rule prod_cases3)
  obtain we where we: "w2 = Some we" "s' = s2" "y = x2"
      "(if we = None then e1 else multi_error_or_nil (multi_append (multi_append [] e1) we)) = None"
    using assms(1) c ac st wt by (cases w2) (auto simp: local_StopVM_def client_of_def)
  note t = wait_taken_off[OF assms(2) wt[unfolded we(1)] ns]
  have wn: "we = None"
    using we(4) t by (auto split: if_splits dest!: multi_append_none)
  with we(4) have e1: "e1 = None" by simp
  obtain svc where svc: "fst x fc = Some svc"
    using st e1 by (cases "fst x fc") (auto simp: client_of_def at_shim_def shim_closed_def)
  obtain svc' v where sh: "shim_StopVM senv k svc n (snd x) = (None, svc', v)" "x1 = ((fst x)(fc \<mapsto> svc'), v)"
    using st e1 svc by (auto simp: client_of_def at_shim_def split: prod.splits)
  have "stopped_shim svc svc'" using shim_StopVM_stops[OF sh(1)] assms(3) svc by blast
  moreover have "fst y = (fst x)(fc \<mapsto> svc')" using waitForShim_apart[OF wt] we(3) sh(2) by simp
  ultimately show ?thesis using svc t wn we(2) by (auto simp: taken_off_def)
qed

text \<open>
  C8: \<open>StopVM\<close> takes back \<open>CreateVM\<close>: after a \<open>CreateVM\<close> on a free address and whatever has happened to the shims since, a \<open>StopVM\<close> that succeeds leaves the
  plugin's table as it was before the VM was created. The call has reached the shim at the VM's control address, which was ready; its machine has ended without an error, its cleanup
  has run without one, and nothing else of it and no shim of another VM has changed.
\<close>

theorem Create_Stop_roundtrip:
  assumes "local_CreateVM (composed env senv k U dbg) s req x = (Inr resp, s1, y)"
    and "SocketAddress (c_SocketAddress env) (request_ns env) (VMID req) = Inr a" "processes s a = None"
    and "local_StopVM (composed env senv k U dbg) s1 (VMID req) n z = (Some None, s2, z')"
    and "proper_errors (composed env senv k U dbg)" "\<forall>b svc. fst z b = Some svc \<longrightarrow> proper_shim svc"
  shows "s2 = s \<and>
    (\<exists>fc svc svc'. FCControlSocketAddress (c_SocketAddress env) (request_ns env) (VMID req) = Inr fc \<and>
       fst z fc = Some svc \<and> stopped_shim svc svc' \<and> fst z' = (fst z)(fc \<mapsto> svc'))"
proof -
  from assms(1) obtain ns a1 fc pid where r: "c_namespace env = Inr ns" "SocketAddress (c_SocketAddress env) ns (VMID req) = Inr a1"
      "FCControlSocketAddress (c_SocketAddress env) ns (VMID req) = Inr fc" "s1 = addShim s a1 pid"
    by (rule CreateVM_run)
  have ns: "request_ns env = ns" using r(1) by (simp add: request_ns_def)
  note stop = StopVM_run[OF assms(4,5,6) r(3)[folded ns] assms(2)]
  have "a1 = a" using r(2) assms(2) ns by simp
  then have "s2 = s" using stop r(4) assms(3) by (simp add: addShim_def fun_upd_idem)
  with stop r(3) ns show ?thesis by blast
qed

lemma fine_stop:
  assumes "fine_state svc_fine svc d" "vmReady svc"
  shows "\<exists>svc'. shim_StopVM (shim_fine svc_fine) 0 svc n () = (None, svc', ())"
proof -
  let ?env = "shim_fine (svc_fine :: unit TaskService)" and ?svc = "svc\<lparr>cleanupOnce := True, cleanupErr := None\<rparr>"
    and ?T = "request_timeout n defaultStopVMTimeout"
  obtain l where l: "shutdownLoop ?env ?svc vmm_fine (shutdown_actions ?T [] True) () = (l, ())"
    by (metis prod.exhaust old.unit.exhaust)
  from shutdownLoop_requests[OF this] assms(1) have "l \<noteq> LoopPanicked" by (auto simp: fine_state_def)
  moreover have "shim_cleanup ?env svc () = (None, ?svc, ())" using assms(1) by (intro fine_cleanup) (simp_all add: fine_state_def)
  ultimately show ?thesis using l assms by (simp add: shim_StopVM_def waitVMReady_def shim_shutdown_def fine_state_def Let_def)
qed

lemma fine_system_StopVM:
  assumes "FCControlSocketAddress (c_SocketAddress fine_system) ''default'' ''vm-1'' = Inr fc" "fine_state svc_fine svc d" "vmReady svc"
  shows "\<exists>s2 z. local_StopVM fine_system (addShim fresh_local ''/s/vm-1'' 7) ''vm-1'' 5 ([fc \<mapsto> svc], ()) = (Some None, s2, z)"
proof -
  let ?s = "addShim fresh_local ''/s/vm-1'' 7"
  have facts: "c_Validate fine_system ''vm-1'' = None" "c_namespace fine_system = Inr ''default''"
    "SocketAddress (c_SocketAddress fine_system) ''default'' ''vm-1'' = Inr ''/s/vm-1''"
    using fine_parts by (simp_all add: fine_system_def)
  have ns: "request_ns fine_system = ''default''" by (simp add: request_ns_def facts)
  have cl: "shimFirecrackerClient fine_system ''vm-1'' x = (Inr (client_of (shim_fine svc_fine) 0 fc), x)" for x
    by (simp add: shimFirecrackerClient_def request_ns_def client_New_def facts assms(1)) (simp add: fine_system_def)
  obtain svc' where st: "shim_StopVM (shim_fine svc_fine) 0 svc 5 () = (None, svc', ())" using fine_stop[OF assms(2,3)] by (rule exE)
  have call: "cl_StopVM (client_of (shim_fine svc_fine) 0 fc) ''vm-1'' 5 ([fc \<mapsto> svc], ()) = (None, ([fc \<mapsto> svc'], ()))"
    by (simp add: client_of_def at_shim_def st)
  have "c_ticks fine_system = [Tick]" "c_PidExists fine_system p x = (Inr False, x)" for p x
    by (simp_all add: fine_system_def composed_def ctl_fine_def apart_def prod_eq_iff)
  then have "\<exists>s2. waitForShimToExit fine_system ?s ''vm-1'' x = (Some None, s2, x)" for x
    by (simp add: waitForShimToExit_def ns facts addShim_def fresh_local_def)
  then obtain s2 where wt: "waitForShimToExit fine_system ?s ''vm-1'' ([fc \<mapsto> svc'], ()) = (Some None, s2, ([fc \<mapsto> svc'], ()))" by (rule exE)
  have "local_StopVM fine_system ?s ''vm-1'' 5 ([fc \<mapsto> svc], ()) = (Some None, s2, ([fc \<mapsto> svc'], ()))"
    by (simp only: local_StopVM_def cl call wt Let_def prod.case sum.case option.case simp_thms if_True) (simp add: client_of_def)
  then show ?thesis by blast
qed

theorem Create_Stop_roundtrip_witness:
  "\<exists>resp s1 y z. local_CreateVM fine_system fresh_local first_request (Map.empty, ()) = (Inr resp, s1, y) \<and> s1 \<noteq> fresh_local \<and>
     local_StopVM fine_system s1 ''vm-1'' 5 y = (Some None, fresh_local, z) \<and>
     (\<exists>fc svc svc'. fst y fc = Some svc \<and> stopped_shim svc svc' \<and> fst z = (fst y)(fc \<mapsto> svc'))"
proof -
  let ?s1 = "addShim fresh_local ''/s/vm-1'' 7"
  obtain resp fc svc d where c: "FCControlSocketAddress (c_SocketAddress fine_system) ''default'' ''vm-1'' = Inr fc" "fine_state svc_fine svc d"
      "vmReady svc" "local_CreateVM fine_system fresh_local first_request (Map.empty, ()) = (Inr resp, ?s1, ([fc \<mapsto> svc], ()))"
    by (rule exE[OF fine_system_CreateVM], elim exE conjE) (rule that; assumption)
  obtain s2 z where st: "local_StopVM fine_system ?s1 ''vm-1'' 5 ([fc \<mapsto> svc], ()) = (Some None, s2, z)"
    by (rule exE[OF fine_system_StopVM[OF c(1-3)]], elim exE) (rule that)
  have id: "VMID first_request = ''vm-1''" by (simp add: first_request_def start_request_def)
  have a: "SocketAddress (c_SocketAddress (ctl_fine :: unit ctl_env)) (request_ns (ctl_fine :: unit ctl_env)) (VMID first_request) = Inr ''/s/vm-1''"
    by (simp only: request_ns_def fine_parts sum.case id)
  have free: "processes fresh_local ''/s/vm-1'' = None" by (simp add: fresh_local_def)
  have pe: "proper_errors fine_system"
    by (simp add: proper_errors_def fine_system_def composed_def ctl_fine_def apart_def)
  have ps: "\<forall>b v. fst ([fc \<mapsto> svc], ()) b = Some v \<longrightarrow> proper_shim v"
    using c(2) by (auto simp: proper_shim_def fine_state_def vmm_fine_def)
  have st2: "local_StopVM fine_system ?s1 (VMID first_request) 5 ([fc \<mapsto> svc], ()) = (Some None, s2, z)" unfolding id by (rule st)
  note t = Create_Stop_roundtrip[OF c(4)[unfolded fine_system_def] a free st2[unfolded fine_system_def] pe[unfolded fine_system_def] ps]
  have "?s1 \<noteq> fresh_local" by (simp add: addShim_def fresh_local_def)
  moreover note c(4) st[unfolded conjunct1[OF t]]
  moreover have "\<exists>fc' v v'. fst ([fc \<mapsto> svc], ()) fc' = Some v \<and> stopped_shim v v' \<and> fst z = (fst ([fc \<mapsto> svc], ()))(fc' \<mapsto> v')"
    using t by blast
  ultimately show ?thesis by blast
qed

end
