(* ===== verification/CpuSampling.thy ===== *)
theory CpuSampling
  imports Prelude
begin

text \<open>
  The sampling of CPU times in \<open>internal/psutil.go\<close>. The sampling goroutine is a function of what each tick of its ticker
  brings: the end of the context, or the answer of \<open>cpu.Times\<close> and whether the receiver waits on the unbuffered channel at that moment. The floating point numbers are a
  type variable with their two operations as parameters, as nothing but their use is stated.
\<close>

section \<open>Sampling\<close>

record 'f TimesStat =
  ts_User :: 'f
  ts_System :: 'f
  ts_Idle :: 'f
  ts_Nice :: 'f
  ts_Iowait :: 'f
  ts_Irq :: 'f
  ts_Softirq :: 'f
  ts_Steal :: 'f
  ts_Guest :: 'f
  ts_GuestNice :: 'f

record 'f cpuTimesSample =
  TimesStat_of :: "'f TimesStat option"
  Index :: int
  Err :: "gerr option"

datatype 'f sample_tick =
    ContextDone
  | CpuTimes "gerr + 'f TimesStat list" bool

text \<open>The samples that are received, and whether the channel is closed at the end of the ticks. A sample that nobody waits for is skipped, an error is not.\<close>

fun sampleCPUTimes :: "int \<Rightarrow> 'f sample_tick list \<Rightarrow> 'f cpuTimesSample list \<times> bool" where
  "sampleCPUTimes index [] = ([], False)"
| "sampleCPUTimes index (ContextDone # ticks) = ([], True)"
| "sampleCPUTimes index (CpuTimes (Inl err) waiting # ticks) =
     ([\<lparr>TimesStat_of = None, Index = index + 1, Err = Some err\<rparr>], True)"
| "sampleCPUTimes index (CpuTimes (Inr curTimesList) waiting # ticks) =
     (let index = index + 1 in
      if length curTimesList \<noteq> 1
      then ([\<lparr>TimesStat_of = None, Index = index,
              Err = Some (Errorf ''unexpected number of cpu times in sample %d'' [itoa (int (length curTimesList))])\<rparr>], True)
      else (case sampleCPUTimes index ticks of
              (samples, closed) \<Rightarrow>
                (if waiting then \<lparr>TimesStat_of = Some (hd curTimesList), Index = index, Err = None\<rparr> # samples else samples, closed)))"

definition average ::
    "('f \<Rightarrow> 'f \<Rightarrow> 'f) \<Rightarrow> ('f \<Rightarrow> nat \<Rightarrow> 'f) \<Rightarrow> nat \<Rightarrow> 'f TimesStat \<Rightarrow> 'f TimesStat \<Rightarrow> 'f TimesStat" where
  "average minus_f div_f sampleCount first last_one =
     (let avg = (\<lambda>a b. div_f (minus_f b a) sampleCount) in
      \<lparr>ts_User = avg (ts_User first) (ts_User last_one), ts_System = avg (ts_System first) (ts_System last_one),
       ts_Idle = avg (ts_Idle first) (ts_Idle last_one), ts_Nice = avg (ts_Nice first) (ts_Nice last_one),
       ts_Iowait = avg (ts_Iowait first) (ts_Iowait last_one), ts_Irq = avg (ts_Irq first) (ts_Irq last_one),
       ts_Softirq = avg (ts_Softirq first) (ts_Softirq last_one), ts_Steal = avg (ts_Steal first) (ts_Steal last_one),
       ts_Guest = avg (ts_Guest first) (ts_Guest last_one), ts_GuestNice = avg (ts_GuestNice first) (ts_GuestNice last_one)\<rparr>)"

text \<open>The loop over the channel: the last sample and the number of samples after the first, when the channel is closed without an error.\<close>

fun receive_samples ::
    "bool \<Rightarrow> 'f cpuTimesSample list \<Rightarrow> 'f cpuTimesSample option \<Rightarrow> nat \<Rightarrow> (gerr + 'f cpuTimesSample option \<times> nat) option" where
  "receive_samples closed [] lastSample sampleCount = (if closed then Some (Inr (lastSample, sampleCount)) else None)"
| "receive_samples closed (s # samples) lastSample sampleCount =
     (case Err s of
        Some err \<Rightarrow> Some (Inl err)
      | None \<Rightarrow> receive_samples closed samples (Some s) (sampleCount + 1))"

text \<open>\<open>None\<close> is a call that still waits. A nil \<open>TimesStat\<close> would be dereferenced.\<close>

definition AverageCPUDeltas ::
    "('f \<Rightarrow> 'f \<Rightarrow> 'f) \<Rightarrow> ('f \<Rightarrow> nat \<Rightarrow> 'f) \<Rightarrow> 'f sample_tick list \<Rightarrow> (gerr + 'f TimesStat) option" where
  "AverageCPUDeltas minus_f div_f ticks =
     (case sampleCPUTimes 0 ticks of
        ([], closed) \<Rightarrow> if closed then Some (Inl (Errorf ''sample channel closed before first data point'' [])) else None
      | (firstSample # samples, closed) \<Rightarrow>
          (case Err firstSample of
             Some err \<Rightarrow> Some (Inl err)
           | None \<Rightarrow>
               (case receive_samples closed samples None 0 of
                  None \<Rightarrow> None
                | Some (Inl err) \<Rightarrow> Some (Inl err)
                | Some (Inr (None, n)) \<Rightarrow> Some (Inl (Errorf ''only got one data point, cannot calculate average'' []))
                | Some (Inr (Some lastSample, n)) \<Rightarrow>
                    Some (case (TimesStat_of firstSample, TimesStat_of lastSample) of
                            (Some a, Some b) \<Rightarrow> Inr (average minus_f div_f n a b)
                          | _ \<Rightarrow> Inl (Panic ''nil pointer dereference'')))))"

section \<open>What is averaged\<close>

text \<open>The good answers that were received, each with the number of its tick.\<close>

fun received :: "int \<Rightarrow> 'f sample_tick list \<Rightarrow> (int \<times> 'f TimesStat) list" where
  "received index [] = []"
| "received index (CpuTimes (Inr [t]) waiting # ticks) =
     (if waiting then (index + 1, t) # received (index + 1) ticks else received (index + 1) ticks)"
| "received index (_ # ticks) = []"

definition good_tick :: "'f sample_tick \<Rightarrow> bool" where
  "good_tick tick \<longleftrightarrow> (\<exists>t waiting. tick = CpuTimes (Inr [t]) waiting)"

lemma good_tick_CpuTimes [simp]: "good_tick (CpuTimes (Inr [t]) waiting)"
  by (simp add: good_tick_def)

definition sample_of :: "int \<times> 'f TimesStat \<Rightarrow> 'f cpuTimesSample" where
  "sample_of it = \<lparr>TimesStat_of = Some (snd it), Index = fst it, Err = None\<rparr>"

lemma sample_of_Err [simp]: "Err (sample_of it) = None" "TimesStat_of (sample_of it) = Some (snd it)"
  by (simp_all add: sample_of_def)

lemma good_samples:
  "\<forall>tick \<in> set ticks. good_tick tick \<Longrightarrow>
    sampleCPUTimes index (ticks @ [ContextDone]) = (map sample_of (received index ticks), True)"
  by (induction ticks arbitrary: index) (auto simp: good_tick_def sample_of_def Let_def)

lemma receive_good:
  "receive_samples True (map sample_of its) last_one n =
     Some (Inr (if its = [] then last_one else Some (sample_of (last its)), n + length its))"
  by (induction its arbitrary: last_one n) auto

text \<open>The ticks that samples were taken at are in order, so that there are at least as many ticks as samples between two of them.\<close>

lemma received_spread:
  "received index ticks = (i, t) # its \<Longrightarrow> index < i \<and> i + int (length its) \<le> fst (last ((i, t) # its))"
proof (induction ticks arbitrary: index i t its)
  case (Cons tick ticks)
  show ?case
  proof (cases "\<exists>u. tick = CpuTimes (Inr [u]) True")
    case True
    with Cons.prems have i: "i = index + 1" "received (index + 1) ticks = its" by auto
    show ?thesis
    proof (cases its)
      case (Cons jt its')
      obtain j u where jt: "jt = (j, u)" by (rule prod.exhaust)
      with Cons i Cons.IH[of "index + 1" j u its'] show ?thesis by auto
    qed (use i in simp)
  next
    case False
    with Cons.prems obtain u where "tick = CpuTimes (Inr [u]) False"
      by (cases "(index, tick # ticks)" rule: received.cases) (auto split: if_splits)
    with Cons.prems Cons.IH[of "index + 1" i t its] show ?thesis by auto
  qed
qed simp

text \<open>
  While the answers of the system are good, \<open>AverageCPUDeltas\<close> gives the difference of the last and the first sample that were received, in every
  field, divided by the number of samples received after the first, which is at most the number of sampling intervals between the two; with fewer than two samples it reports an
  error. A bad answer ends the sampling, and its error is the result.
\<close>

theorem AverageCPUDeltas_average:
  assumes "\<forall>tick \<in> set ticks. good_tick tick"
  shows "AverageCPUDeltas minus_f div_f (ticks @ [ContextDone]) =
      Some (case received 0 ticks of
          [] \<Rightarrow> Inl (Errorf ''sample channel closed before first data point'' [])
        | (i, t) # its \<Rightarrow>
            if its = [] then Inl (Errorf ''only got one data point, cannot calculate average'' [])
            else Inr (average minus_f div_f (length its) t (snd (last its)))) \<and>
    (\<forall>i t its. received 0 ticks = (i, t) # its \<longrightarrow> int (length its) \<le> fst (last ((i, t) # its)) - i) \<and>
    AverageCPUDeltas minus_f div_f (ticks @ [CpuTimes (Inl err) waiting]) = Some (Inl err)"
proof (intro conjI allI impI)
  show "AverageCPUDeltas minus_f div_f (ticks @ [ContextDone]) =
      Some (case received 0 ticks of
          [] \<Rightarrow> Inl (Errorf ''sample channel closed before first data point'' [])
        | (i, t) # its \<Rightarrow>
            if its = [] then Inl (Errorf ''only got one data point, cannot calculate average'' [])
            else Inr (average minus_f div_f (length its) t (snd (last its))))"
    by (auto simp: AverageCPUDeltas_def good_samples[OF assms] receive_good split: list.splits)
  show "int (length its) \<le> fst (last ((i, t) # its)) - i" if "received 0 ticks = (i, t) # its" for i t its
    using received_spread[OF that] by simp
  have f: "sampleCPUTimes index (ticks @ [CpuTimes (Inl err) waiting]) =
      (map sample_of (received index ticks) @ [\<lparr>TimesStat_of = None, Index = index + int (length ticks) + 1, Err = Some err\<rparr>], True)" for index
    using assms by (induction ticks arbitrary: index) (auto simp: good_tick_def sample_of_def Let_def)
  have g: "receive_samples True (map sample_of its @ [s]) l n = Some (Inl err)" if "Err s = Some err" for its s l n
    using that by (induction its arbitrary: l n) auto
  show "AverageCPUDeltas minus_f div_f (ticks @ [CpuTimes (Inl err) waiting]) = Some (Inl err)"
    by (cases "received 0 ticks") (simp_all add: AverageCPUDeltas_def f g)
qed

definition flat_times :: "int \<Rightarrow> int TimesStat" where
  "flat_times x =
     \<lparr>ts_User = x, ts_System = x, ts_Idle = x, ts_Nice = x, ts_Iowait = x, ts_Irq = x, ts_Softirq = x, ts_Steal = x, ts_Guest = x, ts_GuestNice = x\<rparr>"

text \<open>Three ticks at which nobody waits are not counted: the average over the five intervals is 2, the result 5.\<close>

definition skipping_ticks :: "int sample_tick list" where
  "skipping_ticks = map (\<lambda>(x, waiting). CpuTimes (Inr [flat_times x]) waiting)
     [(0, True), (2, False), (4, False), (6, True), (8, False), (10, True)]"

lemma skipped_intervals_not_counted:
  "AverageCPUDeltas (-) (\<lambda>x n. x div int n) (skipping_ticks @ [ContextDone]) = Some (Inr (flat_times 5)) \<and>
     map fst (received 0 skipping_ticks) = [1, 4, 6]"
  by (simp add: skipping_ticks_def AverageCPUDeltas_def average_def flat_times_def Let_def)

theorem AverageCPUDeltas_average_witness:
  "(\<forall>tick \<in> set skipping_ticks. good_tick tick) \<and>
     AverageCPUDeltas (-) (\<lambda>x n. x div int n) (skipping_ticks @ [ContextDone]) = Some (Inr (flat_times 5)) \<and>
     AverageCPUDeltas (-) (\<lambda>x n. x div int n) (skipping_ticks @ [CpuTimes (Inl EOF) True]) = Some (Inl EOF)"
proof -
  have g: "\<forall>tick \<in> set skipping_ticks. good_tick tick" by (simp add: skipping_ticks_def)
  have r: "received 0 skipping_ticks = [(1, flat_times 0), (4, flat_times 6), (6, flat_times 10)]"
    by (simp add: skipping_ticks_def)
  from AverageCPUDeltas_average[OF g, where minus_f = "(-)" and div_f = "\<lambda>x n. x div int n" and err = EOF and waiting = True] g show ?thesis
    unfolding r by (simp add: average_def flat_times_def Let_def)
qed

end
