(* ===== verification/MountInfo.thy ===== *)
theory MountInfo
  imports World GoPath
begin

text \<open>
  \<open>internal/fsutil.go\<close>: parsing \<open>/proc/mounts\<close> with \<open>fmt.Sscanf\<close>, and the file system images of the tests. \<open>Sscanf\<close> is modelled for the
  two verbs and the single spaces of the one format that is used, on lines of valid UTF-8.
\<close>

section \<open>The package fmt\<close>

definition starts_newline :: "string \<Rightarrow> bool" where
  "starts_newline s \<longleftrightarrow> (\<exists>t. s = CHR 0x0A # t)"

lemma starts_newline_simps [simp]: "\<not> starts_newline []" "starts_newline (c # s) \<longleftrightarrow> c = CHR 0x0A"
  by (auto simp: starts_newline_def)

definition begins_space :: "string \<Rightarrow> bool" where
  "begins_space s \<longleftrightarrow> drop_seq space_seqs s \<noteq> None"

text \<open>Spaces are skipped up to a newline or something else.\<close>

function skip_blanks :: "string \<Rightarrow> string" where
  "skip_blanks s =
     (if s = [] \<or> hd s = CHR 0x0A then s
      else (case drop_seq space_seqs s of None \<Rightarrow> s | Some t \<Rightarrow> skip_blanks t))"
  by pat_completeness auto
termination
  by (relation "measure length") (auto dest: drop_seq_shorter)

declare skip_blanks.simps [simp del]

definition SkipSpace :: "string \<Rightarrow> gerr + string" where
  "SkipSpace s =
     (let t = skip_blanks s in if t \<noteq> [] \<and> hd t = CHR 0x0A then Inl (Errorf ''unexpected newline'' []) else Inr t)"

definition UnexpectedEOF :: gerr where "UnexpectedEOF = ExtError ''unexpected EOF''"

fun scan_token :: "string \<Rightarrow> string \<times> string" where
  "scan_token [] = ([], [])"
| "scan_token (c # cs) =
     (if begins_space (c # cs) then ([], c # cs) else (case scan_token cs of (t, r) \<Rightarrow> (c # t, r)))"

text \<open>The verbs \<open>%s\<close> and \<open>%d\<close>; an \<open>int\<close> has 64 bits.\<close>

definition scan_string :: "string \<Rightarrow> gerr + string \<times> string" where
  "scan_string s =
     (case SkipSpace s of
        Inl err \<Rightarrow> Inl err
      | Inr t \<Rightarrow> if t = [] then Inl UnexpectedEOF else Inr (scan_token t))"

definition scan_int :: "string \<Rightarrow> gerr + int \<times> string" where
  "scan_int s =
     (case SkipSpace s of
        Inl err \<Rightarrow> Inl err
      | Inr t \<Rightarrow>
          if t = [] then Inl UnexpectedEOF
          else
            (let neg = (hd t = CHR ''-'');
                 t = (if hd t = CHR ''-'' \<or> hd t = CHR ''+'' then tl t else t);
                 ds = takeWhile is_digit t;
                 v = (if neg then - int (atou ds) else int (atou ds)) in
             if t = [] then Inl UnexpectedEOF
             else if ds = [] then Inl (Errorf ''expected integer'' [])
             else if v < - (2 ^ 63) \<or> 2 ^ 63 \<le> v then Inl (Errorf ''integer overflow on token '' [ds])
             else Inr (v, dropWhile is_digit t)))"

text \<open>A space of the format stands for one or more spaces of the input, or for its end.\<close>

definition format_space :: "string \<Rightarrow> gerr + string" where
  "format_space s =
     (if s = [] then Inr s
      else if hd s = CHR 0x0A then Inl (Errorf ''newline in input does not match format'' [])
      else if \<not> begins_space s then Inl (Errorf ''expected space in input to match format'' [])
      else Inr (skip_blanks s))"

definition then_scan :: "gerr + 'a \<times> string \<Rightarrow> (string \<Rightarrow> gerr + 'b \<times> string) \<Rightarrow> gerr + ('a \<times> 'b) \<times> string" where
  "then_scan r scan =
     (case r of
        Inl err \<Rightarrow> Inl err
      | Inr (a, s) \<Rightarrow>
          (case format_space s of
             Inl err \<Rightarrow> Inl err
           | Inr s \<Rightarrow> (case scan s of Inl err \<Rightarrow> Inl err | Inr (b, s) \<Rightarrow> Inr ((a, b), s))))"

text \<open>\<open>fmt.Sscanf\<close> with the format \<open>"%s %s %s %s %d %d"\<close>; what is left of the line is not looked at.\<close>

definition Sscanf_mount :: "string \<Rightarrow> gerr + (((((string \<times> string) \<times> string) \<times> string) \<times> int) \<times> int) \<times> string" where
  "Sscanf_mount line =
     then_scan (then_scan (then_scan (then_scan (then_scan (scan_string line) scan_string) scan_string) scan_string) scan_int) scan_int"

section \<open>Mount tables\<close>

record MountInfo =
  mi_SourcePath :: string
  mi_DestPath :: string
  mi_Type :: string
  mi_Options :: "string list"

fun parse_mounts :: "string list \<Rightarrow> MountInfo list \<Rightarrow> gerr + MountInfo list" where
  "parse_mounts [] mountInfos = Inr mountInfos"
| "parse_mounts (line # lines) mountInfos =
     (if line = [] then parse_mounts lines mountInfos
      else (case Sscanf_mount line of
              Inl err \<Rightarrow> Inl (Wrap err ''failed to parse /proc/mount line %q'' [line])
            | Inr ((((((source, dest), fstype), optionsStr), dumpFreq), passno), rest) \<Rightarrow>
                parse_mounts lines
                  (mountInfos @ [\<lparr>mi_SourcePath = source, mi_DestPath = dest, mi_Type = fstype,
                                  mi_Options = strings_Split (CHR '','') optionsStr\<rparr>])))"

definition ParseProcMountLines :: "string list \<Rightarrow> gerr + MountInfo list" where
  "ParseProcMountLines lines = parse_mounts lines []"

section \<open>File system images\<close>

record FSImgFile =
  Subpath :: string
  Contents :: string

text \<open>A test goes on with a value or ends in a failure.\<close>

datatype 'a tested = Passed 'a | FailedNow string

record 'w img_env =
  img_os :: "'w os"
  img_TempDir :: "'w \<Rightarrow> (gerr + string) \<times> 'w"
  img_TempFile :: "'w \<Rightarrow> (gerr + string) \<times> 'w"
  img_mkfs :: "string list \<Rightarrow> 'w \<Rightarrow> gerr option \<times> 'w"

fun write_files :: "'w img_env \<Rightarrow> string \<Rightarrow> FSImgFile list \<Rightarrow> 'w \<Rightarrow> unit tested \<times> 'w" where
  "write_files env tempdir [] w = (Passed (), w)"
| "write_files env tempdir (testFile # testFiles) w =
     (let destPath = filepath_Join [tempdir, Subpath testFile] in
      case os_MkdirAll (img_os env) (filepath_Dir destPath) 488 w of
        (Some err, w) \<Rightarrow> (FailedNow ''failed to mkdir for contents of ext img file'', w)
      | (None, w) \<Rightarrow>
          (case os_WriteFile (img_os env) destPath (Contents testFile) 488 w of
             (Some err, w) \<Rightarrow> (FailedNow ''failed to write file for contents of ext img'', w)
           | (None, w) \<Rightarrow> write_files env tempdir testFiles w))"

definition createTestExtImg :: "'w img_env \<Rightarrow> string \<Rightarrow> FSImgFile list \<Rightarrow> 'w \<Rightarrow> string tested \<times> 'w" where
  "createTestExtImg env extName testFiles w =
     (case img_TempDir env w of
        (Inl err, w) \<Rightarrow> (FailedNow ''failed to create temp dir for ext img'', w)
      | (Inr tempdir, w) \<Rightarrow>
          (case write_files env tempdir testFiles w of
             (FailedNow msg, w) \<Rightarrow> (FailedNow msg, w)
           | (Passed _, w) \<Rightarrow>
               (case img_TempFile env w of
                  (Inl err, w) \<Rightarrow> (FailedNow ''failed to obtain temp file for ext img'', w)
                | (Inr imgFile, w) \<Rightarrow>
                    (case img_mkfs env [''mkfs.'' @ extName, ''-d'', tempdir, imgFile, ''65536''] w of
                       (Some err, w) \<Rightarrow> (FailedNow ''failed to create ext img, command output'', w)
                     | (None, w) \<Rightarrow> (Passed imgFile, w)))))"

definition CreateFSImg :: "'w img_env \<Rightarrow> string \<Rightarrow> FSImgFile list \<Rightarrow> 'w \<Rightarrow> string tested \<times> 'w" where
  "CreateFSImg env fsType testFiles w =
     (if fsType = ''ext3'' \<or> fsType = ''ext4'' then createTestExtImg env fsType testFiles w
      else (FailedNow ''unsupported fs type %q'', w))"

section \<open>Reading back a mount table\<close>

definition word :: "string \<Rightarrow> bool" where
  "word w \<longleftrightarrow> w \<noteq> [] \<and> (\<forall>c \<in> set w. graphic c)"

definition ends_word :: "string \<Rightarrow> bool" where
  "ends_word s \<longleftrightarrow> s = [] \<or> hd s = CHR '' ''"

lemma graphic_not_space: "graphic c \<Longrightarrow> drop_seq space_seqs (c # s) = None" "graphic c \<Longrightarrow> c \<noteq> CHR 0x0A"
  by (rule drop_seq_graphic[OF space_seqs_not_graphic(1)]) (auto simp: graphic_def)

lemma blank_is_space: "drop_seq space_seqs (CHR '' '' # s) = Some s"
proof -
  have "CHR '' '' = (char_of (n::nat) :: char) \<longleftrightarrow> n mod 256 = 32" for n
    by (simp add: char_of_eq_iff eq_commute[of "CHR '' ''"] take_bit_eq_mod)
  then show ?thesis by (simp add: space_seqs_def)
qed

lemma skip_blanks_graphic: "graphic c \<Longrightarrow> skip_blanks (c # s) = c # s"
  by (subst skip_blanks.simps) (simp add: graphic_not_space)

lemma skip_blanks_blank: "skip_blanks (CHR '' '' # s) = skip_blanks s"
  by (subst skip_blanks.simps) (simp add: blank_is_space)

lemma SkipSpace_graphic: "graphic c \<Longrightarrow> SkipSpace (c # s) = Inr (c # s)"
  by (simp add: SkipSpace_def skip_blanks_graphic graphic_not_space(2))

lemma scan_token_word:
  "\<forall>c \<in> set w. graphic c \<Longrightarrow> ends_word s \<Longrightarrow> scan_token (w @ s) = (w, s)"
proof (induction w)
  case Nil
  then show ?case by (cases s) (simp_all add: ends_word_def begins_space_def blank_is_space)
next
  case (Cons c w)
  then show ?case by (simp add: begins_space_def graphic_not_space)
qed

lemma scan_string_word:
  assumes "word w" "ends_word s"
  shows "scan_string (w @ s) = Inr (w, s)"
proof -
  from assms(1) obtain c v where w: "w = c # v" "graphic c" by (cases w) (auto simp: word_def)
  with scan_token_word[of w s] assms show ?thesis
    by (simp add: scan_string_def SkipSpace_graphic word_def del: scan_token.simps)
qed

lemma format_space_blank: "graphic c \<Longrightarrow> format_space (CHR '' '' # c # s) = Inr (c # s)"
  by (simp add: format_space_def begins_space_def blank_is_space skip_blanks_blank skip_blanks_graphic)

lemma then_scan_ok:
  assumes "r = Inr (a, CHR '' '' # t)" "t \<noteq> []" "graphic (hd t)" "scan t = Inr (b, s)"
  shows "then_scan r scan = Inr ((a, b), s)"
  using assms by (cases t) (simp_all add: then_scan_def format_space_blank)

lemma digit_graphic: "is_digit c \<Longrightarrow> graphic c"
  by (simp add: is_digit_def graphic_def)

lemma itoa_head: "\<exists>c t. itoa i = c # t \<and> graphic c"
proof (cases "i < 0")
  case True
  then show ?thesis by (simp add: itoa_def graphic_def)
next
  case False
  obtain c t where "utoa (nat i) = c # t" by (cases "utoa (nat i)") auto
  moreover have "is_digit c" using calculation utoa_digits[of c "nat i"] by simp
  ultimately show ?thesis using False by (simp add: itoa_def digit_graphic)
qed

lemma scan_int_itoa:
  assumes "- (2 ^ 63) \<le> i" "i < 2 ^ 63" "ends_word s"
  shows "scan_int (itoa i @ s) = Inr (i, s)"
proof -
  have d: "takeWhile is_digit (utoa n @ s) = utoa n" "dropWhile is_digit (utoa n @ s) = s" for n
  proof -
    have all: "\<forall>c \<in> set (utoa n). is_digit c" using utoa_digits by blast
    have "takeWhile is_digit s = []" "dropWhile is_digit s = s"
      using assms(3) by (cases s; simp add: ends_word_def is_digit_def; fail)+
    with all show "takeWhile is_digit (utoa n @ s) = utoa n" "dropWhile is_digit (utoa n @ s) = s"
      by (simp_all add: takeWhile_append2 dropWhile_append2)
  qed
  show ?thesis
  proof (cases "i < 0")
    case True
    have "SkipSpace (itoa i @ s) = Inr (itoa i @ s)"
      using True by (simp add: itoa_def SkipSpace_graphic graphic_def)
    with True d assms show ?thesis by (simp add: scan_int_def itoa_def Let_def)
  next
    case False
    obtain c t where u: "utoa (nat i) = c # t" by (cases "utoa (nat i)") auto
    then have c: "is_digit c" using utoa_digits[of c "nat i"] by simp
    then have "c \<noteq> CHR ''-''" "c \<noteq> CHR ''+''" by (auto simp: is_digit_def)
    moreover have "SkipSpace (itoa i @ s) = Inr (itoa i @ s)"
      using False u c by (simp add: itoa_def SkipSpace_graphic digit_graphic)
    ultimately show ?thesis
      using False u d[of "nat i"] assms atou_utoa[of "nat i"] by (simp add: scan_int_def itoa_def Let_def)
  qed
qed

text \<open>A line of a mount table, as \<open>fstab(5)\<close> describes it.\<close>

definition mount_line :: "MountInfo \<Rightarrow> int \<Rightarrow> int \<Rightarrow> string" where
  "mount_line m freq pass =
     mi_SourcePath m @ '' '' @ mi_DestPath m @ '' '' @ mi_Type m @ '' '' @ strings_Join (CHR '','') (mi_Options m) @ '' '' @
     itoa freq @ '' '' @ itoa pass"

definition int64 :: "int \<Rightarrow> bool" where "int64 i \<longleftrightarrow> - (2 ^ 63) \<le> i \<and> i < 2 ^ 63"

definition mount_ok :: "MountInfo \<Rightarrow> bool" where
  "mount_ok m \<longleftrightarrow> word (mi_SourcePath m) \<and> word (mi_DestPath m) \<and> word (mi_Type m) \<and>
     mi_Options m \<noteq> [] \<and> word (strings_Join (CHR '','') (mi_Options m)) \<and> (\<forall>opt \<in> set (mi_Options m). CHR '','' \<notin> set opt)"

lemma word_head: "word w \<Longrightarrow> w @ s \<noteq> [] \<and> graphic (hd (w @ s))"
  by (cases w) (auto simp: word_def)

lemma Sscanf_mount_line:
  assumes "mount_ok m" "int64 freq" "int64 pass"
  shows "Sscanf_mount (mount_line m freq pass) =
     Inr ((((((mi_SourcePath m, mi_DestPath m), mi_Type m), strings_Join (CHR '','') (mi_Options m)), freq), pass), [])"
proof -
  let ?opts = "strings_Join (CHR '','') (mi_Options m)" and ?b = "CHR '' ''"
  have ok: "word (mi_SourcePath m)" "word (mi_DestPath m)" "word (mi_Type m)" "word ?opts"
    using assms(1) by (simp_all add: mount_ok_def)
  have i: "itoa j @ s \<noteq> [] \<and> graphic (hd (itoa j @ s))" for j s using itoa_head[of j] by auto
  have e: "ends_word (?b # s)" "ends_word []" for s by (simp_all add: ends_word_def)
  define r5 where "r5 = itoa pass"
  define r4 where "r4 = itoa freq @ ?b # r5"
  define r3 where "r3 = ?opts @ ?b # r4"
  define r2 where "r2 = mi_Type m @ ?b # r3"
  define r1 where "r1 = mi_DestPath m @ ?b # r2"
  have line: "mount_line m freq pass = mi_SourcePath m @ ?b # r1"
    by (simp add: mount_line_def r1_def r2_def r3_def r4_def r5_def)
  have s0: "scan_string (mount_line m freq pass) = Inr (mi_SourcePath m, ?b # r1)"
    unfolding line by (rule scan_string_word[OF ok(1) e(1)])
  have s1: "scan_string r1 = Inr (mi_DestPath m, ?b # r2)" unfolding r1_def by (rule scan_string_word[OF ok(2) e(1)])
  have s2: "scan_string r2 = Inr (mi_Type m, ?b # r3)" unfolding r2_def by (rule scan_string_word[OF ok(3) e(1)])
  have s3: "scan_string r3 = Inr (?opts, ?b # r4)" unfolding r3_def by (rule scan_string_word[OF ok(4) e(1)])
  have s4: "scan_int r4 = Inr (freq, ?b # r5)" unfolding r4_def using assms(2) by (intro scan_int_itoa e(1)) (simp_all add: int64_def)
  have s5: "scan_int r5 = Inr (pass, [])" unfolding r5_def using assms(3) scan_int_itoa[OF _ _ e(2), of pass] by (simp add: int64_def)
  have h: "r1 \<noteq> [] \<and> graphic (hd r1)" "r2 \<noteq> [] \<and> graphic (hd r2)" "r3 \<noteq> [] \<and> graphic (hd r3)"
      "r4 \<noteq> [] \<and> graphic (hd r4)" "r5 \<noteq> [] \<and> graphic (hd r5)"
    unfolding r1_def r2_def r3_def r4_def r5_def
    by (rule word_head[OF ok(2)], rule word_head[OF ok(3)], rule word_head[OF ok(4)], rule i, rule i[of pass "[]", unfolded append_Nil2])
  note q1 = then_scan_ok[where scan = scan_string, OF s0 conjunct1[OF h(1)] conjunct2[OF h(1)] s1]
  note q2 = then_scan_ok[where scan = scan_string, OF q1 conjunct1[OF h(2)] conjunct2[OF h(2)] s2]
  note q3 = then_scan_ok[where scan = scan_string, OF q2 conjunct1[OF h(3)] conjunct2[OF h(3)] s3]
  note q4 = then_scan_ok[where scan = scan_int, OF q3 conjunct1[OF h(4)] conjunct2[OF h(4)] s4]
  show ?thesis unfolding Sscanf_mount_def by (rule then_scan_ok[where scan = scan_int, OF q4 conjunct1[OF h(5)] conjunct2[OF h(5)] s5])
qed

lemma parse_mounts_lines:
  assumes "\<forall>(m, freq, pass) \<in> set es. mount_ok m \<and> int64 freq \<and> int64 pass"
    and "filter (\<lambda>l. l \<noteq> []) lines = map (\<lambda>(m, freq, pass). mount_line m freq pass) es"
  shows "parse_mounts lines ms = Inr (ms @ map fst es)"
  using assms
proof (induction lines arbitrary: es ms)
  case (Cons line lines)
  show ?case
  proof (cases "line = []")
    case True
    with Cons show ?thesis by simp
  next
    case False
    with Cons.prems(2) obtain m freq pass es' where es: "es = (m, freq, pass) # es'" "line = mount_line m freq pass"
        "filter (\<lambda>l. l \<noteq> []) lines = map (\<lambda>(m, freq, pass). mount_line m freq pass) es'"
      by (cases es) auto
    with Cons.prems(1) have ok: "mount_ok m" "int64 freq" "int64 pass" by auto
    have eta: "\<lparr>mi_SourcePath = mi_SourcePath m, mi_DestPath = mi_DestPath m, mi_Type = mi_Type m, mi_Options = mi_Options m\<rparr> = m"
      by simp
    have "strings_Split (CHR '','') (strings_Join (CHR '','') (mi_Options m)) = mi_Options m"
      using ok(1) by (intro strings_Split_Join) (auto simp: mount_ok_def)
    then have "parse_mounts (line # lines) ms = parse_mounts lines (ms @ [m])"
      using False by (simp add: es(2) Sscanf_mount_line[OF ok] eta)
    then show ?thesis using Cons.IH[of es' "ms @ [m]"] Cons.prems(1) es(1,3) by simp
  qed
qed simp

text \<open>A table with a bad line is refused as a whole, with that line in the error.\<close>

lemma parse_mounts_bad:
  assumes "\<forall>(m, freq, pass) \<in> set es. mount_ok m \<and> int64 freq \<and> int64 pass"
    and "bad \<noteq> []" "Sscanf_mount bad = Inl err"
  shows "parse_mounts (map (\<lambda>(m, freq, pass). mount_line m freq pass) es @ bad # rest) ms =
     Inl (Wrap err ''failed to parse /proc/mount line %q'' [bad])"
  using assms(1)
proof (induction es arbitrary: ms)
  case (Cons e es)
  obtain m freq pass where e: "e = (m, freq, pass)" by (rule prod_cases3)
  with Cons.prems have ok: "mount_ok m" "int64 freq" "int64 pass" by auto
  have "mount_line m freq pass \<noteq> []" by (simp add: mount_line_def)
  with Cons e show ?case by (simp add: Sscanf_mount_line[OF ok])
qed (simp add: assms)

text \<open>
  \<open>ParseProcMountLines\<close> reads back every mount table: of lines with four words, comma-separated options and two 64-bit numbers, with
  empty lines anywhere between them, it gives the mounts in order with their options split up; the first line that does not have this form makes the whole
  call fail with that line in the error.
\<close>

theorem ParseProcMountLines_reads_back:
  assumes "\<forall>(m, freq, pass) \<in> set es. mount_ok m \<and> int64 freq \<and> int64 pass"
    and "filter (\<lambda>l. l \<noteq> []) lines = map (\<lambda>(m, freq, pass). mount_line m freq pass) es"
  shows "ParseProcMountLines lines = Inr (map fst es) \<and>
     (\<forall>bad err rest. bad \<noteq> [] \<and> Sscanf_mount bad = Inl err \<longrightarrow>
        ParseProcMountLines (map (\<lambda>(m, freq, pass). mount_line m freq pass) es @ bad # rest) =
          Inl (Wrap err ''failed to parse /proc/mount line %q'' [bad]))"
  using parse_mounts_lines[OF assms] parse_mounts_bad[OF assms(1)] by (simp add: ParseProcMountLines_def)

definition proc_mount :: MountInfo where
  "proc_mount = \<lparr>mi_SourcePath = ''proc'', mi_DestPath = ''/proc'', mi_Type = ''proc'', mi_Options = [''rw'', ''nosuid'']\<rparr>"

theorem ParseProcMountLines_reads_back_witness:
  "ParseProcMountLines [''proc /proc proc rw,nosuid 0 0'', []] = Inr [proc_mount] \<and>
     ParseProcMountLines [''proc /proc proc rw,nosuid 0 0'', ''proc''] = Inl (Wrap UnexpectedEOF ''failed to parse /proc/mount line %q'' [''proc''])"
proof -
  have g: "graphic c" if "c \<in> set ''proc/rw,nosuid''" for c using that by (auto simp: graphic_def)
  have ok: "mount_ok proc_mount" by (auto simp: mount_ok_def proc_mount_def word_def intro: g)
  have z: "itoa 0 = ''0''" by (simp add: itoa_def utoa.simps[of 0] digit_char_def char_of_eq_iff)
  have line: "mount_line proc_mount 0 0 = ''proc /proc proc rw,nosuid 0 0''" by (simp add: mount_line_def proc_mount_def z)
  have all: "\<forall>(m, freq, pass) \<in> set [(proc_mount, 0, 0)]. mount_ok m \<and> int64 freq \<and> int64 pass" by (simp add: ok int64_def)
  have w: "word ''proc''" by (auto simp: word_def intro: g)
  have "Sscanf_mount ''proc'' = Inl UnexpectedEOF"
    using scan_string_word[OF w, of "[]"]
    by (simp add: Sscanf_mount_def then_scan_def format_space_def scan_string_def SkipSpace_def ends_word_def skip_blanks.simps)
  with ParseProcMountLines_reads_back[OF all, of "[''proc /proc proc rw,nosuid 0 0'', []]"] line show ?thesis by simp
qed

section \<open>Images\<close>

text \<open>An image is made only when every file is in place, and an unknown type touches nothing.\<close>

lemma CreateFSImg_complete:
  assumes "CreateFSImg env fsType testFiles w = (Passed imgFile, w')"
  shows "\<exists>tempdir w1 w2 w3. (fsType = ''ext3'' \<or> fsType = ''ext4'') \<and> img_TempDir env w = (Inr tempdir, w1) \<and>
     write_files env tempdir testFiles w1 = (Passed (), w2) \<and> img_TempFile env w2 = (Inr imgFile, w3) \<and>
     img_mkfs env [''mkfs.'' @ fsType, ''-d'', tempdir, imgFile, ''65536''] w3 = (None, w')"
  using assms
  by (auto simp: CreateFSImg_def createTestExtImg_def split: if_splits prod.splits sum.splits option.splits tested.splits)

end
