(* ===== verification/ExampleClient.thy ===== *)
theory ExampleClient
  imports FcTypes
begin

text \<open>
  \<open>examples/taskworkflow.go\<close>: the documented client of the system, which pulls an image, creates a VM, runs a container in it and undoes all of it with
  deferred calls. containerd and the control service are parameters. As in the plugin, what has been deferred is a list of data that is run
  when the function returns; the function that stops the VM reads and writes the named result.
\<close>

section \<open>The workflow\<close>

record 'w workflow_env =
  wf_NewClient :: "'w \<Rightarrow> gerr option \<times> 'w"
  wf_CloseClient :: "'w \<Rightarrow> 'w"
  wf_Pull :: "string \<Rightarrow> 'w \<Rightarrow> gerr option \<times> 'w"
  wf_NewFcClient :: "'w \<Rightarrow> gerr option \<times> 'w"
  wf_CloseFcClient :: "'w \<Rightarrow> 'w"
  wf_CreateVM :: "CreateVMRequest \<Rightarrow> 'w \<Rightarrow> gerr option \<times> 'w"
  wf_StopVM :: "string \<Rightarrow> 'w \<Rightarrow> gerr option \<times> 'w"
  wf_NewContainer :: "string \<Rightarrow> string \<Rightarrow> 'w \<Rightarrow> gerr option \<times> 'w"
  wf_DeleteContainer :: "'w \<Rightarrow> 'w"
  wf_NewTask :: "'w \<Rightarrow> gerr option \<times> 'w"
  wf_DeleteTask :: "'w \<Rightarrow> 'w"
  wf_Wait :: "'w \<Rightarrow> gerr option \<times> 'w"
  wf_Start :: "'w \<Rightarrow> gerr option \<times> 'w"
  wf_Sleep :: "int \<Rightarrow> 'w \<Rightarrow> 'w"
  wf_ParseCIDR :: "string \<Rightarrow> gerr + string"
  wf_HttpGet :: "string \<Rightarrow> 'w \<Rightarrow> gerr option \<times> 'w"
  wf_ReadAll :: "'w \<Rightarrow> gerr option \<times> 'w"
  wf_CloseBody :: "'w \<Rightarrow> 'w"
  wf_Kill :: "'w \<Rightarrow> gerr option \<times> 'w"
  wf_ExitStatus :: "'w \<Rightarrow> gerr option \<times> 'w"

definition getResponse :: "'w workflow_env \<Rightarrow> string \<Rightarrow> 'w \<Rightarrow> gerr option \<times> 'w" where
  "getResponse env containerIP w =
     (case wf_HttpGet env (''http://'' @ containerIP @ ''/'') w of
        (Some err, w) \<Rightarrow> (Some (Wrap err ''Unable to get response from %s'' [containerIP]), w)
      | (None, w) \<Rightarrow>
          (case wf_ReadAll env w of
             (Some err, w) \<Rightarrow> (Some (Wrap err ''Unable to read response body from %s'' [containerIP]), wf_CloseBody env w)
           | (None, w) \<Rightarrow> (None, wf_CloseBody env w)))"

datatype workflow_defer = DeferCloseClient | DeferCloseFcClient | DeferStopVM | DeferDeleteContainer | DeferDeleteTask

fun run_workflow_defer :: "'w workflow_env \<Rightarrow> workflow_defer \<Rightarrow> gerr option \<times> 'w \<Rightarrow> gerr option \<times> 'w" where
  "run_workflow_defer env DeferCloseClient (err, w) = (err, wf_CloseClient env w)"
| "run_workflow_defer env DeferCloseFcClient (err, w) = (err, wf_CloseFcClient env w)"
| "run_workflow_defer env DeferStopVM (err, w) =
     (case wf_StopVM env ''fc-example'' w of (stopErr, w) \<Rightarrow> (if err = None then stopErr else err, w))"
| "run_workflow_defer env DeferDeleteContainer (err, w) = (err, wf_DeleteContainer env w)"
| "run_workflow_defer env DeferDeleteTask (err, w) = (err, wf_DeleteTask env w)"

definition example_request :: "string \<Rightarrow> string \<Rightarrow> CreateVMRequest" where
  "example_request containerCIDR gateway =
     \<lparr>VMID = ''fc-example'',
      MachineCfg = Some \<lparr>mc_CPUTemplate = [], mc_HtEnabled = False, mc_MemSizeMib = 2048, mc_VcpuCount = 2\<rparr>,
      KernelImagePath = [], KernelArgs = [], RootDrive = None, DriveMounts = [],
      NetworkInterfaces =
        (if containerCIDR \<noteq> []
         then Some [\<lparr>AllowMMDS = False, InRateLimiter = None, OutRateLimiter = None, CNIConfig = None,
                     StaticConfig = Some \<lparr>sn_MacAddress = ''AA:FC:00:00:00:01'', sn_HostDevName = ''tap0'',
                       sn_IPConfig = Some \<lparr>PrimaryAddr = containerCIDR, GatewayAddr = gateway, Nameservers = []\<rparr>\<rparr>\<rparr>]
         else None),
      ContainerCount = 0, ExitAfterAllTasksDeleted = False, JailerConfig = None, TimeoutSeconds = 0\<rparr>"

text \<open>The end of the body: the task is killed, and its exit status is awaited.\<close>

definition kill_task :: "'w workflow_env \<Rightarrow> gerr option \<Rightarrow> 'w \<Rightarrow> gerr option \<times> 'w" where
  "kill_task env httpGetErr w =
     (case wf_Kill env w of
        (Some err, w) \<Rightarrow> (Some (Wrap err ''killing task'' []), w)
      | (None, w) \<Rightarrow>
          (case wf_ExitStatus env w of
             (Some err, w) \<Rightarrow> (Some (Wrap err ''getting task's exit code'' []), w)
           | (None, w) \<Rightarrow> (httpGetErr, w)))"

text \<open>The body, from its end: with the task, with the container, with the VM, from the start. It returns also what has been deferred, the last in front.\<close>

definition run_task :: "'w workflow_env \<Rightarrow> string \<Rightarrow> 'w \<Rightarrow> gerr option \<times> 'w" where
  "run_task env containerCIDR w =
     (case wf_Wait env w of
        (Some err, w) \<Rightarrow> (Some (Wrap err ''waiting for task'' []), w)
      | (None, w) \<Rightarrow>
     (case wf_Start env w of
        (Some err, w) \<Rightarrow> (Some (Wrap err ''starting task'' []), w)
      | (None, w) \<Rightarrow>
     (let w = wf_Sleep env 3000000000 w in
      if containerCIDR \<noteq> []
      then (case wf_ParseCIDR env containerCIDR of
              Inl err \<Rightarrow> (Some (Wrap err ''failed parsing CIDR %q'' [containerCIDR]), w)
            | Inr ip \<Rightarrow> (case getResponse env ip w of (httpGetErr, w) \<Rightarrow> kill_task env httpGetErr w))
      else kill_task env None w)))"

definition workflow_with_vm ::
    "'w workflow_env \<Rightarrow> string \<Rightarrow> string \<Rightarrow> workflow_defer list \<Rightarrow> 'w \<Rightarrow> gerr option \<times> workflow_defer list \<times> 'w" where
  "workflow_with_vm env containerCIDR snapshotter ds w =
     (case wf_NewContainer env snapshotter ''fc-example'' w of
        (Some err, w) \<Rightarrow> (Some err, ds, w)
      | (None, w) \<Rightarrow>
          (let ds = DeferDeleteContainer # ds in
           case wf_NewTask env w of
             (Some err, w) \<Rightarrow> (Some (Wrap err ''creating task'' []), ds, w)
           | (None, w) \<Rightarrow> (case run_task env containerCIDR w of (r, w) \<Rightarrow> (r, DeferDeleteTask # ds, w))))"

definition workflow_body ::
    "'w workflow_env \<Rightarrow> string \<Rightarrow> string \<Rightarrow> string \<Rightarrow> 'w \<Rightarrow> gerr option \<times> workflow_defer list \<times> 'w" where
  "workflow_body env containerCIDR gateway snapshotter w =
     (case wf_NewClient env w of
        (Some err, w) \<Rightarrow> (Some (Wrap err ''creating client'' []), [], w)
      | (None, w) \<Rightarrow>
     (let ds = [DeferCloseClient] in
      case wf_Pull env snapshotter w of
        (Some err, w) \<Rightarrow> (Some (Wrap err ''creating container'' []), ds, w)
      | (None, w) \<Rightarrow>
     (case wf_NewFcClient env w of
        (Some err, w) \<Rightarrow> (Some err, ds, w)
      | (None, w) \<Rightarrow>
     (let ds = DeferCloseFcClient # ds in
      case wf_CreateVM env (example_request containerCIDR gateway) w of
        (Some err, w) \<Rightarrow> (Some (Wrap err ''failed to create VM'' []), ds, w)
      | (None, w) \<Rightarrow> workflow_with_vm env containerCIDR snapshotter (DeferStopVM # ds) w))))"

definition taskWorkflow :: "'w workflow_env \<Rightarrow> string \<Rightarrow> string \<Rightarrow> string \<Rightarrow> 'w \<Rightarrow> gerr option \<times> 'w" where
  "taskWorkflow env containerCIDR gateway snapshotter w =
     (case workflow_body env containerCIDR gateway snapshotter w of
        (r, ds, w) \<Rightarrow> foldl (\<lambda>s d. run_workflow_defer env d s) (r, w) ds)"

text \<open>The program: \<open>None\<close> is a normal end, everything else is written to the log before the process ends with 1.\<close>

definition example_main :: "'w workflow_env \<Rightarrow> string \<Rightarrow> string \<Rightarrow> string \<Rightarrow> 'w \<Rightarrow> gerr option \<times> 'w" where
  "example_main env containerCIDR gatewayIP snapshotter w =
     (if containerCIDR \<noteq> [] \<and> gatewayIP = []
      then (Some (Errorf ''Incorrect usage. gw needs to be specified when ip is specified'' []), w)
      else taskWorkflow env containerCIDR gatewayIP snapshotter w)"

section \<open>What the workflow has made and given back\<close>

datatype holding = AClient | AFcClient | AVM | AContainer | ATask

datatype workflow_event = Made holding | Released holding "gerr option"

definition holdings :: "holding list" where
  "holdings = [AClient, AFcClient, AVM, AContainer, ATask]"

definition makes :: "holding \<Rightarrow> ('w \<Rightarrow> gerr option \<times> 'w) \<Rightarrow> 'w \<times> workflow_event list \<Rightarrow> gerr option \<times> 'w \<times> workflow_event list" where
  "makes h f s = (case f (fst s) of (r, w) \<Rightarrow> (r, (w, if r = None then snd s @ [Made h] else snd s)))"

definition gives_back :: "holding \<Rightarrow> ('w \<Rightarrow> 'w) \<Rightarrow> 'w \<times> workflow_event list \<Rightarrow> 'w \<times> workflow_event list" where
  "gives_back h f s = (f (fst s), snd s @ [Released h None])"

definition untraced :: "('w \<Rightarrow> 'a \<times> 'w) \<Rightarrow> 'w \<times> workflow_event list \<Rightarrow> 'a \<times> 'w \<times> workflow_event list" where
  "untraced f s = (case f (fst s) of (r, w) \<Rightarrow> (r, (w, snd s)))"

definition traced_workflow :: "'w workflow_env \<Rightarrow> ('w \<times> workflow_event list) workflow_env" where
  "traced_workflow env =
     \<lparr>wf_NewClient = makes AClient (wf_NewClient env), wf_CloseClient = gives_back AClient (wf_CloseClient env),
      wf_Pull = (\<lambda>n. untraced (wf_Pull env n)),
      wf_NewFcClient = makes AFcClient (wf_NewFcClient env), wf_CloseFcClient = gives_back AFcClient (wf_CloseFcClient env),
      wf_CreateVM = (\<lambda>req. makes AVM (wf_CreateVM env req)),
      wf_StopVM = (\<lambda>i s. case wf_StopVM env i (fst s) of (r, w) \<Rightarrow> (r, (w, snd s @ [Released AVM r]))),
      wf_NewContainer = (\<lambda>n i. makes AContainer (wf_NewContainer env n i)),
      wf_DeleteContainer = gives_back AContainer (wf_DeleteContainer env),
      wf_NewTask = makes ATask (wf_NewTask env), wf_DeleteTask = gives_back ATask (wf_DeleteTask env),
      wf_Wait = untraced (wf_Wait env), wf_Start = untraced (wf_Start env),
      wf_Sleep = (\<lambda>d s. (wf_Sleep env d (fst s), snd s)), wf_ParseCIDR = wf_ParseCIDR env,
      wf_HttpGet = (\<lambda>u. untraced (wf_HttpGet env u)), wf_ReadAll = untraced (wf_ReadAll env),
      wf_CloseBody = (\<lambda>s. (wf_CloseBody env (fst s), snd s)), wf_Kill = untraced (wf_Kill env),
      wf_ExitStatus = untraced (wf_ExitStatus env)\<rparr>"

fun released_by :: "workflow_defer \<Rightarrow> holding" where
  "released_by DeferCloseClient = AClient"
| "released_by DeferCloseFcClient = AFcClient"
| "released_by DeferStopVM = AVM"
| "released_by DeferDeleteContainer = AContainer"
| "released_by DeferDeleteTask = ATask"

definition all_defers :: "workflow_defer list" where
  "all_defers = [DeferDeleteTask, DeferDeleteContainer, DeferStopVM, DeferCloseFcClient, DeferCloseClient]"

lemma makes_result: "makes h f (w, t) = (r, s) \<longleftrightarrow> (\<exists>w'. f w = (r, w') \<and> s = (w', if r = None then t @ [Made h] else t))"
  by (auto simp: makes_def split: prod.splits)

lemma untraced_result: "untraced f (w, t) = (r, s) \<longleftrightarrow> (\<exists>w'. f w = (r, w') \<and> s = (w', t))"
  by (auto simp: untraced_def split: prod.splits)

lemma traced_workflow_calls [simp]:
  "wf_NewClient (traced_workflow env) = makes AClient (wf_NewClient env)"
  "wf_Pull (traced_workflow env) n = untraced (wf_Pull env n)"
  "wf_NewFcClient (traced_workflow env) = makes AFcClient (wf_NewFcClient env)"
  "wf_CreateVM (traced_workflow env) req = makes AVM (wf_CreateVM env req)"
  "wf_NewContainer (traced_workflow env) n i = makes AContainer (wf_NewContainer env n i)"
  "wf_NewTask (traced_workflow env) = makes ATask (wf_NewTask env)"
  "wf_Wait (traced_workflow env) = untraced (wf_Wait env)" "wf_Start (traced_workflow env) = untraced (wf_Start env)"
  "wf_Kill (traced_workflow env) = untraced (wf_Kill env)" "wf_ExitStatus (traced_workflow env) = untraced (wf_ExitStatus env)"
  "wf_HttpGet (traced_workflow env) u = untraced (wf_HttpGet env u)" "wf_ReadAll (traced_workflow env) = untraced (wf_ReadAll env)"
  "wf_Sleep (traced_workflow env) d s = (wf_Sleep env d (fst s), snd s)"
  "wf_CloseBody (traced_workflow env) s = (wf_CloseBody env (fst s), snd s)"
  by (simp_all add: traced_workflow_def)

lemma untraced_keeps: "untraced f s = (r, (w, t)) \<Longrightarrow> t = snd s"
  by (auto simp: untraced_def split: prod.splits)

lemma getResponse_trace: "getResponse (traced_workflow env) ip s = (r, (w, t)) \<Longrightarrow> t = snd s"
  by (auto simp: getResponse_def split: prod.splits option.splits dest!: untraced_keeps)

lemma kill_task_trace: "kill_task (traced_workflow env) h s = (r, (w, t)) \<Longrightarrow> t = snd s"
  by (auto simp: kill_task_def split: prod.splits option.splits dest!: untraced_keeps)

lemma run_task_trace:
  assumes "run_task (traced_workflow env) c s = (r, (w, t))"
  shows "t = snd s"
proof -
  obtain r1 w1 t1 where a: "untraced (wf_Wait env) s = (r1, (w1, t1))" by (rule prod_cases3)
  obtain r2 w2 t2 where b: "untraced (wf_Start env) (w1, t1) = (r2, (w2, t2))" by (rule prod_cases3)
  have t: "t1 = snd s" "t2 = snd s" using untraced_keeps[OF a] untraced_keeps[OF b] by simp_all
  consider "r1 \<noteq> None" | "r1 = None" "r2 \<noteq> None" | "r1 = None" "r2 = None" by blast
  then show ?thesis
  proof cases
    case 3
    let ?w = "(wf_Sleep env 3000000000 w2, t2)"
    show ?thesis
    proof (cases "c = []")
      case True
      with assms 3 a b t show ?thesis by (simp add: run_task_def Let_def) (drule kill_task_trace, simp)
    next
      case False
      show ?thesis
      proof (cases "wf_ParseCIDR (traced_workflow env) c")
        case (Inl err)
        with assms 3 a b t False show ?thesis by (simp add: run_task_def Let_def)
      next
        case (Inr ip)
        obtain h w3 t3 where g: "getResponse (traced_workflow env) ip ?w = (h, (w3, t3))" by (rule prod_cases3)
        have "t3 = snd s" using getResponse_trace[OF g] t by simp
        with assms 3 a b False Inr g show ?thesis by (simp add: run_task_def Let_def) (drule kill_task_trace, simp)
      qed
    qed
  qed (use assms a b t in \<open>auto simp: run_task_def\<close>)
qed

lemma with_vm_trace:
  assumes "workflow_with_vm (traced_workflow env) c n ds (w, t) = (r, ds', (w', t'))"
  shows "(ds' = ds \<and> t' = t \<and> r \<noteq> None) \<or>
     (ds' = DeferDeleteContainer # ds \<and> t' = t @ [Made AContainer] \<and> r \<noteq> None) \<or>
     (ds' = DeferDeleteTask # DeferDeleteContainer # ds \<and> t' = t @ [Made AContainer, Made ATask])"
  using assms
  by (auto simp: workflow_with_vm_def makes_result Let_def split: prod.splits option.splits dest!: run_task_trace)

lemma workflow_body_trace:
  assumes "workflow_body (traced_workflow env) c g n (w, []) = (r, ds, (w', t))"
  shows "\<exists>k \<le> 5. ds = drop (5 - k) all_defers \<and> t = map Made (take k holdings) \<and> (r = None \<longrightarrow> k = 5)"
proof -
  let ?env = "traced_workflow env"
  obtain r1 w1 where c1: "wf_NewClient env w = (r1, w1)" by (rule prod.exhaust)
  obtain r2 w2 where c2: "wf_Pull env n w1 = (r2, w2)" by (rule prod.exhaust)
  obtain r3 w3 where c3: "wf_NewFcClient env w2 = (r3, w3)" by (rule prod.exhaust)
  obtain r4 w4 where c4: "wf_CreateVM env (example_request c g) w3 = (r4, w4)" by (rule prod.exhaust)
  consider (one) "r1 \<noteq> None" | (two) "r1 = None" "r2 \<noteq> None \<or> r3 \<noteq> None" | (three) "r1 = None" "r2 = None" "r3 = None" "r4 \<noteq> None"
    | (four) "r1 = None" "r2 = None" "r3 = None" "r4 = None" by blast
  then show ?thesis
  proof cases
    case one
    with assms c1 show ?thesis
      by (intro exI[of _ 0]) (auto simp: workflow_body_def makes_def all_defers_def)
  next
    case two
    with assms c1 c2 c3 show ?thesis
      by (intro exI[of _ 1]) (auto simp: workflow_body_def makes_def untraced_def all_defers_def holdings_def Let_def split: option.splits)
  next
    case three
    with assms c1 c2 c3 c4 show ?thesis
      by (intro exI[of _ 2]) (auto simp: workflow_body_def makes_def untraced_def all_defers_def holdings_def Let_def)
  next
    case four
    with assms c1 c2 c3 c4 have v: "workflow_with_vm ?env c n [DeferStopVM, DeferCloseFcClient, DeferCloseClient]
        (w4, [Made AClient, Made AFcClient, Made AVM]) = (r, ds, (w', t))"
      by (simp add: workflow_body_def makes_def untraced_def Let_def)
    from with_vm_trace[OF v] show ?thesis
    proof (elim disjE conjE)
      assume "ds = [DeferStopVM, DeferCloseFcClient, DeferCloseClient]" "t = [Made AClient, Made AFcClient, Made AVM]" "r \<noteq> None"
      then show ?thesis by (intro exI[of _ 3]) (simp add: all_defers_def holdings_def)
    next
      assume "ds = [DeferDeleteContainer, DeferStopVM, DeferCloseFcClient, DeferCloseClient]"
        "t = [Made AClient, Made AFcClient, Made AVM] @ [Made AContainer]" "r \<noteq> None"
      then show ?thesis by (intro exI[of _ 4]) (simp add: all_defers_def holdings_def)
    next
      assume "ds = [DeferDeleteTask, DeferDeleteContainer, DeferStopVM, DeferCloseFcClient, DeferCloseClient]"
        "t = [Made AClient, Made AFcClient, Made AVM] @ [Made AContainer, Made ATask]"
      then show ?thesis by (intro exI[of _ 5]) (simp add: all_defers_def holdings_def)
    qed
  qed
qed

text \<open>What the deferred calls do: each holding is given back, and the error of stopping the VM counts only when there was none before.\<close>

lemma run_defers_trace:
  assumes "foldl (\<lambda>s d. run_workflow_defer (traced_workflow env) d s) (r, (w, t)) ds = (r', (w', t'))" "distinct ds"
  shows "\<exists>stop. t' = t @ map (\<lambda>d. Released (released_by d) (if d = DeferStopVM then stop else None)) ds \<and>
     r' = (if DeferStopVM \<in> set ds \<and> r = None then stop else r)"
  using assms
proof (induction ds arbitrary: r w t)
  case (Cons d ds)
  let ?f = "\<lambda>s d. run_workflow_defer (traced_workflow env) d s"
  show ?case
  proof (cases "d = DeferStopVM")
    case True
    obtain q v where q: "wf_StopVM env ''fc-example'' w = (q, v)" by (rule prod.exhaust)
    let ?r = "if r = None then q else r"
    have "foldl ?f (?r, (v, t @ [Released AVM q])) ds = (r', (w', t'))"
      using Cons.prems(1) True q by (simp add: traced_workflow_def)
    from Cons.IH[OF this] Cons.prems(2) obtain stop where
      "t' = (t @ [Released AVM q]) @ map (\<lambda>d. Released (released_by d) (if d = DeferStopVM then stop else None)) ds"
      "r' = (if DeferStopVM \<in> set ds \<and> ?r = None then stop else ?r)" by auto
    moreover have "DeferStopVM \<notin> set ds" using Cons.prems(2) True by simp
    ultimately show ?thesis using True by (intro exI[of _ q]) auto
  next
    case False
    obtain v where "foldl ?f (r, (v, t @ [Released (released_by d) None])) ds = (r', (w', t'))"
      using Cons.prems(1) False by (cases d) (auto simp: traced_workflow_def gives_back_def)
    from Cons.IH[OF this] Cons.prems(2) False show ?thesis by auto
  qed
qed simp

text \<open>
  The example client gives back what it has made, whatever fails: of client, control client, VM, container and task it has made some first ones, in this order, and
  when it returns it has given back exactly these, each once and in the reverse order; so the VM is stopped exactly when it was created, after its task and its container
  are gone. Success is reported only when everything was made and the VM was stopped without an error.
\<close>

theorem taskWorkflow_gives_back:
  assumes "taskWorkflow (traced_workflow env) containerCIDR gateway snapshotter (w, []) = (r, (w', t))"
  shows "\<exists>k \<le> 5. \<exists>stop. t = map Made (take k holdings) @
       map (\<lambda>h. Released h (if h = AVM then stop else None)) (rev (take k holdings)) \<and>
     (r = None \<longrightarrow> k = 5 \<and> stop = None)"
proof -
  obtain r0 ds w0 t0 where b: "workflow_body (traced_workflow env) containerCIDR gateway snapshotter (w, []) = (r0, ds, (w0, t0))"
    by (metis prod_cases4)
  from workflow_body_trace[OF b] obtain k where k: "k \<le> 5" "ds = drop (5 - k) all_defers" "t0 = map Made (take k holdings)"
      "r0 = None \<longrightarrow> k = 5" by blast
  have f: "foldl (\<lambda>s d. run_workflow_defer (traced_workflow env) d s) (r0, (w0, t0)) ds = (r, (w', t))"
    using assms b by (simp add: taskWorkflow_def)
  have d: "distinct ds" unfolding k(2) by (rule distinct_drop) (simp add: all_defers_def)
  obtain stop where s: "t = t0 @ map (\<lambda>d. Released (released_by d) (if d = DeferStopVM then stop else None)) ds"
      "r = (if DeferStopVM \<in> set ds \<and> r0 = None then stop else r0)" using run_defers_trace[OF f d] by blast
  have "k \<in> {0, 1, 2, 3, 4, 5}" using k(1) by auto
  then have m: "map (\<lambda>d. Released (released_by d) (if d = DeferStopVM then stop else None)) ds =
      map (\<lambda>h. Released h (if h = AVM then stop else None)) (rev (take k holdings))" "k = 5 \<longrightarrow> DeferStopVM \<in> set ds"
    unfolding k(2) by (auto simp: all_defers_def holdings_def)
  have "t = map Made (take k holdings) @ map (\<lambda>h. Released h (if h = AVM then stop else None)) (rev (take k holdings))"
    unfolding s(1) k(3) m(1) ..
  moreover have "r = None \<longrightarrow> k = 5 \<and> stop = None"
    using s(2) k(4) m(2) by (cases r0) auto
  ultimately show ?thesis using k(1) by blast
qed

text \<open>The container cannot be made.\<close>

definition workflow_fine :: "unit workflow_env" where
  "workflow_fine =
     \<lparr>wf_NewClient = (\<lambda>w. (None, w)), wf_CloseClient = (\<lambda>w. w), wf_Pull = (\<lambda>n w. (None, w)), wf_NewFcClient = (\<lambda>w. (None, w)),
      wf_CloseFcClient = (\<lambda>w. w), wf_CreateVM = (\<lambda>req w. (None, w)), wf_StopVM = (\<lambda>i w. (None, w)),
      wf_NewContainer = (\<lambda>n i w. (Some EOF, w)), wf_DeleteContainer = (\<lambda>w. w), wf_NewTask = (\<lambda>w. (None, w)), wf_DeleteTask = (\<lambda>w. w),
      wf_Wait = (\<lambda>w. (None, w)), wf_Start = (\<lambda>w. (None, w)), wf_Sleep = (\<lambda>d w. w), wf_ParseCIDR = (\<lambda>c. Inr c),
      wf_HttpGet = (\<lambda>u w. (None, w)), wf_ReadAll = (\<lambda>w. (None, w)), wf_CloseBody = (\<lambda>w. w), wf_Kill = (\<lambda>w. (None, w)),
      wf_ExitStatus = (\<lambda>w. (None, w))\<rparr>"

theorem taskWorkflow_gives_back_witness:
  "\<exists>t k stop. taskWorkflow (traced_workflow workflow_fine) [] [] ''devmapper'' ((), []) = (Some EOF, ((), t)) \<and> Made AVM \<in> set t \<and>
     t = map Made (take k holdings) @ map (\<lambda>h. Released h (if h = AVM then stop else None)) (rev (take k holdings))"
proof -
  have "\<exists>t. taskWorkflow (traced_workflow workflow_fine) [] [] ''devmapper'' ((), []) = (Some EOF, ((), t)) \<and> Made AVM \<in> set t"
    by (simp add: taskWorkflow_def workflow_body_def workflow_with_vm_def traced_workflow_def makes_def untraced_def gives_back_def
      workflow_fine_def Let_def)
  then obtain t where t: "taskWorkflow (traced_workflow workflow_fine) [] [] ''devmapper'' ((), []) = (Some EOF, ((), t))" "Made AVM \<in> set t"
    by blast
  with taskWorkflow_gives_back[OF t(1)] show ?thesis by blast
qed

end
