(* ===== verification/TestServices.thy ===== *)
theory TestServices
  imports Prelude
begin

text \<open>
  Helpers of the integration tests: the network services of \<open>internal/network_test_utils.go\<close> and the guards of \<open>internal/testutils.go\<close>. The
  \<open>ip\<close> command, the listeners and the parsing of addresses are parameters. An association list stands for the map of pages in the order in which Go happens to walk
  through it.
\<close>

section \<open>Local network services\<close>

record localNetworkServices =
  ln_domain :: string
  ln_webpages :: "(string \<times> string) list"
  ln_ipAddr :: string

definition domainName :: string where "domainName = ''phony.domain.test''"

definition NewLocalNetworkServices ::
    "(string list \<Rightarrow> 'w \<Rightarrow> gerr option \<times> 'w) \<Rightarrow> (string \<times> string) list \<Rightarrow> 'w \<Rightarrow> (gerr + localNetworkServices) \<times> 'w" where
  "NewLocalNetworkServices ip webpages w =
     (let testDevName = ''testdev0''; ipAddr = ''10.0.0.1''; ipCidr = ipAddr @ ''/32'' in
      case ip [''tuntap'', ''add'', testDevName, ''mode'', ''tun''] w of
        (Some err, w) \<Rightarrow> (Inl (Wrap err ''failed to add tun dev, ip command output: %s'' []), w)
      | (None, w) \<Rightarrow>
          (case ip [''addr'', ''add'', ipCidr, ''dev'', testDevName] w of
             (Some err, w) \<Rightarrow> (Inl (Wrap err ''failed to assign ip to tun dev, ip command output: %s'' []), w)
           | (None, w) \<Rightarrow>
               (case ip [''link'', ''set'', ''dev'', testDevName, ''up''] w of
                  (Some err, w) \<Rightarrow> (Inl (Wrap err ''failed to set tun dev up, ip command output: %s'' []), w)
                | (None, w) \<Rightarrow> (Inr \<lparr>ln_domain = domainName, ln_webpages = webpages, ln_ipAddr = ipAddr\<rparr>, w))))"

definition DNSServerIP :: "localNetworkServices \<Rightarrow> string" where
  "DNSServerIP l = ln_ipAddr l"

definition URL :: "localNetworkServices \<Rightarrow> string \<Rightarrow> string" where
  "URL l subpath = ''http://'' @ ln_domain l @ ''/'' @ subpath"

text \<open>What \<open>Serve\<close> sets up: the address and the records of the DNS server, the address and the handlers of the web server.\<close>

record served =
  sv_dnsAddr :: string
  sv_records :: "string \<rightharpoonup> string"
  sv_httpAddr :: string
  sv_handlers :: "(string \<times> string) list"

definition serve_setup :: "localNetworkServices \<Rightarrow> served" where
  "serve_setup l =
     \<lparr>sv_dnsAddr = ln_ipAddr l @ '':53'', sv_records = [ln_domain l @ ''.'' \<mapsto> ln_ipAddr l],
      sv_httpAddr = ln_ipAddr l @ '':80'', sv_handlers = map (\<lambda>(path, contents). (''/'' @ path, contents)) (ln_webpages l)\<rparr>"

text \<open>\<open>Serve\<close> over what its two goroutines have returned so far, in order; \<open>None\<close> while it blocks. Its context is not used.\<close>

definition local_Serve :: "gerr option list \<Rightarrow> gerr option option" where
  "local_Serve results = (if length results < 2 then None else Some (first_error results))"

section \<open>The DNS server\<close>

datatype dns_type = TypeA | OtherType nat

datatype dns_rcode = RcodeSuccess | RcodeNameError

record 'ip dns_answer =
  rr_Name :: string
  rr_Ttl :: nat
  rr_A :: "'ip option"

record 'ip dns_msg =
  dm_Question :: "(string \<times> dns_type) list"
  dm_Authoritative :: bool
  dm_Rcode :: dns_rcode
  dm_Answer :: "'ip dns_answer list"

text \<open>\<open>SetReply\<close> copies the first question. A request without questions is a panic of the handler.\<close>

definition ServeDNS ::
    "(string \<Rightarrow> 'ip option) \<Rightarrow> (string \<rightharpoonup> string) \<Rightarrow> (string \<times> dns_type) list \<Rightarrow> gerr + 'ip dns_msg" where
  "ServeDNS ParseIP records question =
     (case question of
        [] \<Rightarrow> Inl (Panic ''index out of range'')
      | (name, qtype) # _ \<Rightarrow>
          (let msg = \<lparr>dm_Question = [(name, qtype)], dm_Authoritative = False, dm_Rcode = RcodeSuccess, dm_Answer = []\<rparr> in
           Inr (if qtype = TypeA
                then (let msg = msg\<lparr>dm_Authoritative := True\<rparr> in
                      case records name of
                        Some address \<Rightarrow> msg\<lparr>dm_Answer := dm_Answer msg @ [\<lparr>rr_Name = name, rr_Ttl = 3600, rr_A = ParseIP address\<rparr>]\<rparr>
                      | None \<Rightarrow> msg\<lparr>dm_Rcode := RcodeNameError\<rparr>)
                else msg)))"

section \<open>Guards of tests\<close>

datatype test_guard = GoesOn | Skipped string | Failed string

definition RequiresRoot :: "(string \<Rightarrow> string) \<Rightarrow> nat \<Rightarrow> test_guard" where
  "RequiresRoot getenv uid =
     (let rootDisabled = getenv ''DISABLE_ROOT_TESTS'' \<noteq> [] in
      if rootDisabled then Skipped ''skipping test that requires root''
      else if uid \<noteq> 0 then Failed ''This test must be run as root'' else GoesOn)"

definition RequiresIsolation :: "(string \<Rightarrow> string) \<Rightarrow> test_guard" where
  "RequiresIsolation getenv =
     (let isolatedTestsEnabled = getenv ''ENABLE_ISOLATED_TESTS'' \<noteq> [] in
      if \<not> isolatedTestsEnabled then Skipped ''skipping test that requires isolation'' else GoesOn)"

section \<open>The services fit together\<close>

text \<open>
  The name in every URL resolves, at the address that \<open>DNSServerIP\<close> gives, to the host of the web server, which has a handler for
  the URL's path; no other name resolves.
\<close>

lemma URL_resolves:
  assumes "NewLocalNetworkServices ip webpages w = (Inr l, w')" "(subpath, contents) \<in> set webpages" "ParseIP (DNSServerIP l) = Some a"
  shows "\<exists>host path msg. URL l subpath = ''http://'' @ host @ path \<and> (path, contents) \<in> set (sv_handlers (serve_setup l)) \<and>
     sv_httpAddr (serve_setup l) = DNSServerIP l @ '':80'' \<and> sv_dnsAddr (serve_setup l) = DNSServerIP l @ '':53'' \<and>
     ServeDNS ParseIP (sv_records (serve_setup l)) [(host @ ''.'', TypeA)] = Inr msg \<and> map rr_A (dm_Answer msg) = [Some a]"
    and "name \<noteq> ln_domain l @ ''.'' \<Longrightarrow>
     \<exists>msg. ServeDNS ParseIP (sv_records (serve_setup l)) [(name, TypeA)] = Inr msg \<and> dm_Rcode msg = RcodeNameError \<and> dm_Answer msg = []"
proof -
  have l: "ln_webpages l = webpages"
    using assms(1) by (simp add: NewLocalNetworkServices_def Let_def split: prod.splits option.splits) auto
  have u: "URL l subpath = ''http://'' @ ln_domain l @ ''/'' @ subpath" by (simp add: URL_def)
  have h: "(''/'' @ subpath, contents) \<in> set (sv_handlers (serve_setup l))"
    using imageI[OF assms(2), of "\<lambda>(path, contents). (''/'' @ path, contents)"]
    unfolding serve_setup_def served.simps l set_map prod.case .
  let ?msg = "\<lparr>dm_Question = [(ln_domain l @ ''.'', TypeA)], dm_Authoritative = True, dm_Rcode = RcodeSuccess,
      dm_Answer = [\<lparr>rr_Name = ln_domain l @ ''.'', rr_Ttl = 3600, rr_A = Some a\<rparr>]\<rparr>"
  have m: "ServeDNS ParseIP (sv_records (serve_setup l)) [(ln_domain l @ ''.'', TypeA)] = Inr ?msg" "map rr_A (dm_Answer ?msg) = [Some a]"
    using assms(3) by (simp_all add: ServeDNS_def serve_setup_def DNSServerIP_def Let_def)
  have x: "sv_httpAddr (serve_setup l) = DNSServerIP l @ '':80''" "sv_dnsAddr (serve_setup l) = DNSServerIP l @ '':53''"
    by (simp_all add: serve_setup_def DNSServerIP_def)
  show "\<exists>host path msg. URL l subpath = ''http://'' @ host @ path \<and> (path, contents) \<in> set (sv_handlers (serve_setup l)) \<and>
     sv_httpAddr (serve_setup l) = DNSServerIP l @ '':80'' \<and> sv_dnsAddr (serve_setup l) = DNSServerIP l @ '':53'' \<and>
     ServeDNS ParseIP (sv_records (serve_setup l)) [(host @ ''.'', TypeA)] = Inr msg \<and> map rr_A (dm_Answer msg) = [Some a]"
    by (rule exI[of _ "ln_domain l"], rule exI[of _ "''/'' @ subpath"], rule exI[of _ ?msg]) (intro conjI u h x m)
  show "name \<noteq> ln_domain l @ ''.'' \<Longrightarrow>
     \<exists>msg. ServeDNS ParseIP (sv_records (serve_setup l)) [(name, TypeA)] = Inr msg \<and> dm_Rcode msg = RcodeNameError \<and> dm_Answer msg = []"
    by (simp add: ServeDNS_def serve_setup_def Let_def)
qed

text \<open>One server that has ended, with or without an error, does not end \<open>Serve\<close>.\<close>

lemma Serve_waits_for_both: "local_Serve [] = None" "local_Serve [r] = None" "local_Serve [r, q] = Some (if r = None then q else r)"
  by (cases r; cases q; simp add: local_Serve_def)+

end
