(* ===== verification/Spec2Isabelle.thy ===== *)
theory Spec2Isabelle
  imports CpuSet DebugLevels AgentMain EventPipeline HostGuest ShimConfig ControlConcurrency PluginStop CpuSampling MountInfo
    ExampleClient TestServices
begin

text \<open>
  Firecracker-containerd: a verification library.

  The program (\<open>src/Firecracker/firecracker-containerd\<close>, written in Go) runs containers inside Firecracker virtual machines.
  containerd calls the control plugin (\<open>firecracker-control\<close>) to create a VM; the plugin starts one shim process per VM
  (\<open>runtime\<close>), which starts the VM in a jail, serves containerd's task API for the containers in the VM and passes every call
  to the agent in the VM (\<open>agent\<close>). A container's root file system is a stub drive: the VM boots with a fixed number of drives
  whose files hold only an id, and later a drive is patched to the real device. Standard streams travel over vsock ports, events over the
  event bridge (\<open>eventbridge\<close>).

  Theories and the code they model (paths below \<open>firecracker-containerd\<close>):

    \<^item> \<open>Prelude\<close>, \<open>GoPath\<close>, \<open>Encoding\<close>, \<open>World\<close>: Go's errors, strings, \<open>path/filepath\<close>, base32 and base64, and the operating system calls the code
      makes. An effect is a function of a world to a result and a world; the world is a type variable, and every
      system call is a field of the record \<open>os\<close> (or of a record of its component), so that a theorem holds for any answers.
      An error is a value of \<open>gerr\<close>, a result and an error are a sum, a Go panic is an error too.
    \<^item> \<open>StubContent\<close>: \<open>internal/common.go\<close>, the content of stub drive files (round trip; which ids are corrupted).
    \<^item> \<open>VMDir\<close>: \<open>internal/vm/dir.go\<close>, \<open>internal/bundle\<close>, \<open>internal/shim\<close>, \<open>runtime/firecrackeroci\<close>: directories and links of a VM, and the
      annotation that names a VM.
    \<^item> \<open>FcTypes\<close>, \<open>TaskAPI\<close>: the messages, the SDK's configuration and the conversions of \<open>runtime/helpers.go\<close>.
    \<^item> \<open>Jailer\<close>: \<open>runtime/jailer.go\<close>, \<open>noop_jailer.go\<close>, \<open>runc_jailer.go\<close>: confinement of what is exposed to the jail, the
      runc spec, the jail handler.
    \<^item> \<open>DriveHandler\<close>: \<open>runtime/drive_handler.go\<close>: creation of stub drives, \<open>Reserve\<close>, \<open>Release\<close>; the pool of drives as an invariant.
    \<^item> \<open>AgentDrive\<close>: \<open>agent/drive_handler.go\<close>: the agent finds exactly the drives the host made, and mounts them safely.
    \<^item> \<open>TaskManager\<close>: \<open>internal/vm/task.go\<close>: the registry of processes refines a set of pairs, and shutting down is final. The locale
      \<open>task_registry\<close> is its contract, interpreted on the code's operations.
    \<^item> \<open>Vsock\<close>, \<open>IOProxies\<close>: \<open>internal/vm/vsock.go\<close>, \<open>ioproxy.go\<close>, \<open>fifo.go\<close>, \<open>agent.go\<close>: the handshake and its retries, the streams of a process.
    \<^item> \<open>AgentService\<close>: \<open>agent/service.go\<close>: the task service in the VM with its stack of cleanups.
    \<^item> \<open>CpuSet\<close>, \<open>DebugLevels\<close>, \<open>ConfigLoad\<close>: \<open>runtime/cpuset\<close>, \<open>internal/debug\<close>, \<open>config\<close>.
    \<^item> \<open>EventBridge\<close>: \<open>eventbridge/eventbridge.go\<close>: events in order and once.
    \<^item> \<open>EventPipeline\<close>: the way of an event from the agent to containerd, with \<open>startEventForwarders\<close> of \<open>runtime/service.go\<close>: the turns of the two loops, calls that
      fail and the events of both sides as interleaved steps; nothing is lost, doubled or overtaken while the loops run, and waiting events arrive. A publication
      that returns an error may have got through all the same.
    \<^item> \<open>AgentMain\<close>: \<open>agent/main.go\<close>: the start of the agent and its goroutines as a step relation: when, why and how the process ends.
    \<^item> \<open>HostService\<close>: \<open>runtime/service.go\<close>. The record \<open>service\<close> has the fields of the Go type; a channel that is closed
      at most once (\<open>vmReady\<close>) and a \<open>sync.Once\<close> are truth values. \<open>shim_X\<close> is the method \<open>X\<close> of the service.
    \<^item> \<open>ShimState\<close>: the steps of the shim (\<open>shim_step\<close>: one per call that changes state) and their invariants by rule induction.
      \<open>ShimExample\<close>: a shim in which everything works, for the witnesses. \<open>ShimStop\<close>: what stopping a VM does to the world, as events that are
      played back on the operations they stand for. \<open>ShimProperties\<close>, \<open>ShimConfig\<close>: what holds in every reachable
      state, on which errors and after which calls; the configuration of the machine.
    \<^item> \<open>HostGuest\<close>: shim and agent together: a task created through the one runs in the other, with connected streams.
    \<^item> \<open>Control\<close>, \<open>ControlProperties\<close>: \<open>firecracker-control\<close> and \<open>internal/psutil.go\<close>: no call leaks a resource, \<open>StopVM\<close> succeeds once. The deferred
      functions of a Go function are a list of data that is run when the call returns.
    \<^item> \<open>ControlConcurrency\<close>: \<open>CreateVM\<close> calls that run at the same time, as interleavings of their traces with the ends of the shims: no two
      shims that were started for one VM run at once.
    \<^item> \<open>ShimProcess\<close>: plugin and shim together: the environment of the shim process, and joining a running VM.
    \<^item> \<open>PluginShim\<close>: the plugin with all its shims as one system: a VM that was created is a ready shim, which answers.
      \<open>PluginStop\<close>: stopping it takes back what creating it did.
    \<^item> \<open>CpuSampling\<close>: the sampling of CPU times in \<open>internal/psutil.go\<close>. \<open>MountInfo\<close>: \<open>internal/fsutil.go\<close>, mount tables and images. \<open>TestServices\<close>:
      \<open>internal/network_test_utils.go\<close>, \<open>testutils.go\<close>. \<open>ExampleClient\<close>: \<open>examples/taskworkflow.go\<close>, with its deferred calls as in the plugin.

  Kinds of lemmas: invariants over all reachable states of the shim, the stub drives and the task
  manager; refinement (task manager, \<open>Create\<close> across the VM's border, discovery of drives); round trips (stub content, drive files, \<open>Reserve\<close> and
  \<open>Release\<close>, \<open>Create\<close> and \<open>Delete\<close>); confinement of the jail; error paths, branch by branch, with the leaks and losses found
  on the way; termination of the retry loops.

  Bounds: loops over a ticker and a context take the schedule of ticks as a list, which ends or holds the end of the context;
  \<open>None\<close> is a call that still waits, and the liveness properties show that no loop waits once the schedule holds the context's end. \<open>CreateVM\<close> has one more way to
  wait for ever: the start of the machine gets the shim's context, so that it may not come back (\<open>vm_Start\<close>). Other calls of the outside that get the context of a request are taken
  to come back, with that context's error at the latest. The loops of the event
  bridge have the number of rounds as fuel, and the properties hold for every number; in \<open>EventPipeline\<close> one round is one step. The process of the agent needs at most 36 steps of its own
  to end: 32 signals that wait in the channel, two of the signal loop, one of \<open>Serve\<close>, one of \<open>Wait\<close>; each signal that still arrives can add one, unless an interrupt is waiting. Word sizes are kept where they matter: vsock ports
  and pids have 32 bits, counts of containers are signed, durations are an \<open>int64\<close>.

  Interleaving: the handlers hold the locks of the task manager, of the stub drives, of the plugin's table and of the cleanups while they work on
  them, so that a step of the model is one such critical section or a call as a whole. What two calls do to each other inside one
  handler is modelled where the code guards against it (the task manager's steps; the plugin's \<open>CreateVM\<close>, which takes no lock, as
  interleavings of traces) and not otherwise.

  Not modelled: generated protobuf and ttrpc code and the Firecracker SDK, containerd and runc (parameters of the model, with
  the laws they need as hypotheses); \<open>runtime/main.go\<close> and
  \<open>firecracker-control/cmd\<close>, which only hand the modelled services to containerd's start-up code; flags and logging; build tools. The standard library is modelled where the code
  uses it (\<open>path/filepath\<close>, \<open>strconv\<close>, \<open>strings\<close>, \<open>fmt.Sscanf\<close> for one format, \<open>encoding\<close>), and so are \<open>errgroup\<close> and \<open>multierror\<close> as they are documented. Lines of mount tables are taken
  to be valid UTF-8, and floating point arithmetic is a parameter.
\<close>

end
